(* ===== verification/Prelude.thy ===== *)
theory Prelude
  imports Main "HOL-Library.Word" "HOL-Library.AList" "HOL-Library.Sublist"
begin

text \<open>
  Shared vocabulary of the development: machine integers, Rust strings as UTF-8 byte
  strings, the \<open>Result\<close> type with the question-mark operator, hexadecimal and big-endian
  encodings, the length-prefixed framing used before every digest, and the comparison
  loops that run in constant time.  Nothing here is specific to one component; the
  encodings that a source file defines are mapped to the file that defines them first.
\<close>

unbundle bit_operations_syntax

named_theorems result_simps \<open>inversion rules for results and guards\<close>
named_theorems eff_simps \<open>evaluation rules for effectful programs\<close>

section \<open>Machine integers\<close>

type_synonym u16 = "16 word"
type_synonym u64 = "64 word"
type_synonym byte = "8 word"

definition checked_add :: "u64 \<Rightarrow> u64 \<Rightarrow> u64 option" where
  "checked_add a b = (if unat a + unat b < 2 ^ 64 then Some (a + b) else None)"

definition checked_sub :: "u64 \<Rightarrow> u64 \<Rightarrow> u64 option" where
  "checked_sub a b = (if b \<le> a then Some (a - b) else None)"

definition saturating_add :: "u64 \<Rightarrow> u64 \<Rightarrow> u64" where
  "saturating_add a b = (if unat a + unat b < 2 ^ 64 then a + b else - 1)"

definition saturating_sub :: "u64 \<Rightarrow> u64 \<Rightarrow> u64" where
  "saturating_sub a b = (if b \<le> a then a - b else 0)"

section \<open>Results\<close>

text \<open>\<open>Result<T, E>\<close> is the sum \<open>'e + 'a\<close> with \<open>Inl\<close> for \<open>Err\<close>.\<close>

fun rbind :: "'e + 'a \<Rightarrow> ('a \<Rightarrow> 'e + 'b) \<Rightarrow> 'e + 'b" where
  "rbind (Inl e) f = Inl e"
| "rbind (Inr x) f = f x"

definition ensure :: "bool \<Rightarrow> 'e \<Rightarrow> 'e + unit" where
  "ensure b e = (if b then Inr () else Inl e)"

fun ok_or :: "'a option \<Rightarrow> 'e \<Rightarrow> 'e + 'a" where
  "ok_or None e = Inl e"
| "ok_or (Some x) e = Inr x"

fun map_err :: "('e \<Rightarrow> 'f) \<Rightarrow> 'e + 'a \<Rightarrow> 'f + 'a" where
  "map_err g (Inl e) = Inl (g e)"
| "map_err g (Inr x) = Inr x"

fun is_ok :: "'e + 'a \<Rightarrow> bool" where
  "is_ok (Inl e) = False"
| "is_ok (Inr x) = True"

fun try_each :: "('a \<Rightarrow> 'e + unit) \<Rightarrow> 'a list \<Rightarrow> 'e + unit" where
  "try_each f [] = Inr ()"
| "try_each f (x # xs) = rbind (f x) (\<lambda>_. try_each f xs)"

section \<open>Strings\<close>

text \<open>
  A Rust \<open>str\<close> is valid UTF-8; it is modelled by the list of its bytes, so \<open>len\<close> is
  \<open>length\<close> and \<open>as_bytes\<close> is a change of type.  Iteration over \<open>chars\<close> decodes the
  bytes; the white-space and control classes are the Unicode properties the standard
  library documents for \<open>char::is_whitespace\<close> and \<open>char::is_control\<close>.
\<close>

definition as_bytes :: "string \<Rightarrow> byte list" where
  "as_bytes s = map (\<lambda>c. of_nat (of_char c)) s"

definition utf8_width :: "char \<Rightarrow> nat" where
  "utf8_width c =
     (let b = (of_char c :: nat)
      in if b < 192 then 1 else if b < 224 then 2 else if b < 240 then 3 else 4)"

function utf8_chunks :: "string \<Rightarrow> string list" where
  "utf8_chunks [] = []"
| "utf8_chunks (c # cs) =
     (c # take (utf8_width c - 1) cs) # utf8_chunks (drop (utf8_width c - 1) cs)"
  by pat_completeness auto
termination
  by (relation "measure length") auto

fun code_point :: "string \<Rightarrow> nat" where
  "code_point [a] = of_char a"
| "code_point [a, b] = (of_char a mod 32) * 64 + of_char b mod 64"
| "code_point [a, b, c] =
     (of_char a mod 16) * 4096 + (of_char b mod 64) * 64 + of_char c mod 64"
| "code_point [a, b, c, d] =
     (of_char a mod 8) * 262144 + (of_char b mod 64) * 4096
     + (of_char c mod 64) * 64 + of_char d mod 64"
| "code_point _ = 0"

definition is_whitespace :: "nat \<Rightarrow> bool" where
  "is_whitespace n \<longleftrightarrow>
     9 \<le> n \<and> n \<le> 13 \<or> n = 32 \<or> n = 133 \<or> n = 160 \<or> n = 5760
     \<or> 8192 \<le> n \<and> n \<le> 8202 \<or> n = 8232 \<or> n = 8233 \<or> n = 8239 \<or> n = 8287 \<or> n = 12288"

definition is_control :: "nat \<Rightarrow> bool" where
  "is_control n \<longleftrightarrow> n < 32 \<or> 127 \<le> n \<and> n \<le> 159"

definition chars :: "string \<Rightarrow> nat list" where
  "chars s = map code_point (utf8_chunks s)"

abbreviation blank_chunk :: "string \<Rightarrow> bool" where
  "blank_chunk w \<equiv> is_whitespace (code_point w)"

definition str_trim :: "string \<Rightarrow> string" where
  "str_trim s =
     concat (rev (dropWhile blank_chunk (rev (dropWhile blank_chunk (utf8_chunks s)))))"

definition trim_end_matches :: "char \<Rightarrow> string \<Rightarrow> string" where
  "trim_end_matches c s = rev (dropWhile (\<lambda>d. d = c) (rev s))"

definition to_ascii_lowercase :: "string \<Rightarrow> string" where
  "to_ascii_lowercase s =
     map (\<lambda>c. if (65::nat) \<le> of_char c \<and> (of_char c :: nat) \<le> 90
              then char_of ((of_char c :: nat) + 32) else c) s"

fun strip_prefix :: "string \<Rightarrow> string \<Rightarrow> string option" where
  "strip_prefix [] s = Some s"
| "strip_prefix (p # ps) [] = None"
| "strip_prefix (p # ps) (c # cs) = (if p = c then strip_prefix ps cs else None)"

definition starts_with :: "string \<Rightarrow> string \<Rightarrow> bool" where
  "starts_with p s \<longleftrightarrow> strip_prefix p s \<noteq> None"

fun split_once :: "char \<Rightarrow> string \<Rightarrow> (string \<times> string) option" where
  "split_once d [] = None"
| "split_once d (c # cs) =
     (if c = d then Some ([], cs)
      else map_option (\<lambda>(l, r). (c # l, r)) (split_once d cs))"

section \<open>Decimal and hexadecimal text, big-endian bytes, framing\<close>

function dec_nat :: "nat \<Rightarrow> string" where
  "dec_nat n =
     (if n < 10 then [char_of (48 + n)] else dec_nat (n div 10) @ [char_of (48 + n mod 10)])"
  by pat_completeness auto
termination
  by (relation "measure id") auto

declare dec_nat.simps [simp del]

definition u64_to_string :: "u64 \<Rightarrow> string" where
  "u64_to_string w = dec_nat (unat w)"

text \<open>\<open>str::parse::<u64>\<close>: decimal digits after an optional plus sign, without overflow.\<close>

fun digits_value :: "nat \<Rightarrow> string \<Rightarrow> nat option" where
  "digits_value n [] = Some n"
| "digits_value n (c # cs) =
     (if 48 \<le> (of_char c :: nat) \<and> (of_char c :: nat) \<le> 57
      then digits_value (10 * n + (of_char c - 48)) cs else None)"

definition parse_u64 :: "string \<Rightarrow> u64 option" where
  "parse_u64 s =
     (let d = (case s of c # cs \<Rightarrow> if c = CHR ''+'' then cs else s | [] \<Rightarrow> s)
      in if d = [] then None
         else Option.bind (digits_value 0 d) (\<lambda>n. if n < 2 ^ 64 then Some (of_nat n) else None))"

fun split_on :: "char \<Rightarrow> string \<Rightarrow> string list" where
  "split_on d [] = [[]]"
| "split_on d (c # cs) =
     (if c = d then [] # split_on d cs
      else case split_on d cs of w # ws \<Rightarrow> (c # w) # ws | [] \<Rightarrow> [[c]])"

definition hex_digit :: "nat \<Rightarrow> char" where
  "hex_digit n = (if n < 10 then char_of (48 + n) else char_of (87 + n))"

definition to_hex :: "byte list \<Rightarrow> string" where
  "to_hex bs =
     concat (map (\<lambda>b. [hex_digit (unat (drop_bit 4 b)), hex_digit (unat (b AND 15))]) bs)"

definition is_lower_hex :: "char \<Rightarrow> bool" where
  "is_lower_hex c \<longleftrightarrow>
     (let n = (of_char c :: nat) in 48 \<le> n \<and> n \<le> 57 \<or> 97 \<le> n \<and> n \<le> 102)"

definition be64 :: "u64 \<Rightarrow> byte list" where
  "be64 w = map (\<lambda>i. ucast (drop_bit (8 * i) w)) [7, 6, 5, 4, 3, 2, 1, 0]"

definition frame_parts :: "byte list list \<Rightarrow> byte list" where
  "frame_parts ps = concat (map (\<lambda>p. be64 (of_nat (length p)) @ p) ps)"

section \<open>Comparison without early exit\<close>

definition xor_fold :: "byte list \<Rightarrow> byte list \<Rightarrow> byte" where
  "xor_fold a b = fold (\<lambda>(x, y) diff. diff OR (x XOR y)) (zip a b) 0"

definition constant_time_eq :: "byte list \<Rightarrow> byte list \<Rightarrow> bool" where
  "constant_time_eq a b = (if length a \<noteq> length b then False else xor_fold a b = 0)"


section \<open>Facts about machine integers\<close>

lemma checked_add_Some_iff: "checked_add a b = Some c \<longleftrightarrow> unat c = unat a + unat b"
proof (cases "unat a + unat b < 2 ^ 64")
  case True
  then have "unat (a + b) = unat a + unat b" by (simp add: unat_word_ariths)
  with True show ?thesis by (auto simp: checked_add_def word_unat_eq_iff)
next
  case False
  then show ?thesis using unsigned_less [of c, where ?'a = nat] by (auto simp: checked_add_def)
qed

lemma checked_add_one_Some: "checked_add v 1 = Some w \<Longrightarrow> v < w \<and> unat w = unat v + 1"
  by (simp add: checked_add_Some_iff word_less_nat_alt)

lemma unat_saturating_add: "unat (saturating_add a b) = min (2 ^ 64 - 1) (unat a + unat b)"
  by (auto simp: saturating_add_def unat_word_ariths unsigned_minus_1_eq_mask mask_eq_exp_minus_1)

lemma unat_saturating_sub: "unat (saturating_sub a b) = unat a - unat b"
  by (auto simp: saturating_sub_def unat_sub word_le_nat_alt)

section \<open>Facts about results\<close>

lemma rbind_eq_Inr [result_simps]: "rbind r f = Inr y \<longleftrightarrow> (\<exists>x. r = Inr x \<and> f x = Inr y)"
  by (cases r) auto

lemma rbind_eq_Inl [result_simps]:
  "rbind r f = Inl e \<longleftrightarrow> r = Inl e \<or> (\<exists>x. r = Inr x \<and> f x = Inl e)"
  by (cases r) auto

lemma ensure_eq_Inr [result_simps]: "ensure b e = Inr u \<longleftrightarrow> b"
  by (simp add: ensure_def)

lemma ensure_eq_Inl [result_simps]: "ensure b e = Inl e' \<longleftrightarrow> \<not> b \<and> e' = e"
  by (auto simp: ensure_def)

lemma ok_or_eq_Inr [result_simps]: "ok_or r e = Inr x \<longleftrightarrow> r = Some x"
  by (cases r) auto

lemma ok_or_eq_Inl [result_simps]: "ok_or r e = Inl e' \<longleftrightarrow> r = None \<and> e' = e"
  by (cases r) auto

lemma map_err_eq_Inr [result_simps]: "map_err g r = Inr x \<longleftrightarrow> r = Inr x"
  by (cases r) auto

lemma map_err_eq_Inl [result_simps]: "map_err g r = Inl e \<longleftrightarrow> (\<exists>d. r = Inl d \<and> e = g d)"
  by (cases r) auto

lemma is_ok_iff [result_simps]: "is_ok r \<longleftrightarrow> (\<exists>x. r = Inr x)"
  by (cases r) auto

lemma try_each_eq_Inr [result_simps]: "try_each f xs = Inr u \<longleftrightarrow> (\<forall>x\<in>set xs. f x = Inr ())"
  by (induction xs) (auto simp: rbind_eq_Inr)

lemma ensure_True [simp]: "ensure True e = Inr ()"
  by (simp add: ensure_def)

lemma ensure_False [simp]: "ensure False e = Inl e"
  by (simp add: ensure_def)

section \<open>Facts about strings\<close>

lemma length_as_bytes [simp]: "length (as_bytes s) = length s"
  by (simp add: as_bytes_def)

lemma byte_of_char_inject:
  "(of_nat (of_char c) :: byte) = of_nat (of_char d) \<longleftrightarrow> c = d"
proof
  assume "(of_nat (of_char c) :: byte) = of_nat (of_char d)"
  then have "(of_char c :: nat) mod 256 = of_char d mod 256"
    by (simp add: of_nat_eq_iff word_of_nat_eq_iff take_bit_eq_mod)
  then have "(of_char c :: nat) = of_char d" by simp
  then show "c = d" by (simp only: of_char_eq_iff)
qed simp

lemma as_bytes_inject [simp]: "as_bytes s = as_bytes t \<longleftrightarrow> s = t"
proof
  assume "as_bytes s = as_bytes t"
  then show "s = t"
    unfolding as_bytes_def
    by (rule map_injective) (auto simp: inj_def byte_of_char_inject)
qed simp

lemma as_bytes_append: "as_bytes (s @ t) = as_bytes s @ as_bytes t"
  by (simp add: as_bytes_def)

lemma concat_utf8_chunks [simp]: "concat (utf8_chunks s) = s"
  by (induction s rule: utf8_chunks.induct) auto

lemma utf8_chunks_concat_drop:
  "utf8_chunks (concat (drop k (utf8_chunks s))) = drop k (utf8_chunks s)"
proof (induction s arbitrary: k rule: utf8_chunks.induct)
  case (2 c cs)
  then show ?case by (cases k) simp_all
qed simp

lemma utf8_chunks_concat_take:
  "utf8_chunks (concat (take k (utf8_chunks s))) = take k (utf8_chunks s)"
proof (induction s arbitrary: k rule: utf8_chunks.induct)
  case (2 c cs)
  show ?case
  proof (cases k)
    case (Suc j)
    let ?n = "utf8_width c - 1"
    let ?rest = "utf8_chunks (drop ?n cs)"
    have "length (take ?n cs) = ?n \<or> ?rest = []"
      by (cases "?n \<le> length cs") auto
    then have "take ?n (take ?n cs @ concat (take j ?rest)) = take ?n cs"
      and "drop ?n (take ?n cs @ concat (take j ?rest)) = concat (take j ?rest)"
      by auto
    with Suc 2 show ?thesis by simp
  qed simp
qed simp

lemma dropWhile_is_drop: "\<exists>k. dropWhile P xs = drop k xs"
  by (metis dropWhile_eq_drop)

lemma str_trim_chunks:
  "utf8_chunks (str_trim s) = rev (dropWhile blank_chunk (rev (dropWhile blank_chunk (utf8_chunks s))))"
proof -
  obtain k where k: "dropWhile blank_chunk (utf8_chunks s) = drop k (utf8_chunks s)"
    using dropWhile_is_drop by blast
  let ?t = "concat (drop k (utf8_chunks s))"
  have t: "utf8_chunks ?t = drop k (utf8_chunks s)" by (rule utf8_chunks_concat_drop)
  obtain j where j: "dropWhile blank_chunk (rev (utf8_chunks ?t)) = drop j (rev (utf8_chunks ?t))"
    using dropWhile_is_drop by blast
  have r: "rev (drop j (rev ws)) = take (length ws - j) ws" for ws :: "string list"
    by (simp add: rev_drop)
  have trimmed: "rev (dropWhile blank_chunk (rev (dropWhile blank_chunk (utf8_chunks s))))
      = take (length (utf8_chunks ?t) - j) (utf8_chunks ?t)"
    using j unfolding k t by (simp only: r)
  show ?thesis
    unfolding str_trim_def trimmed by (rule utf8_chunks_concat_take)
qed

lemma dropWhile_rev_dropWhile:
  "dropWhile P (rev (dropWhile P (rev (dropWhile P xs)))) = rev (dropWhile P (rev (dropWhile P xs)))"
proof (cases "dropWhile P xs")
  case (Cons y ys)
  then have y: "\<not> P y" by (metis dropWhile_eq_Cons_conv)
  have "dropWhile P (rev (y # ys)) = dropWhile P (rev ys) @ [y]" if "\<exists>z\<in>set ys. \<not> P z"
    using that by (simp add: dropWhile_append)
  moreover have "dropWhile P (rev (y # ys)) = [y]" if "\<not> (\<exists>z\<in>set ys. \<not> P z)"
    using that y by (simp add: dropWhile_append)
  ultimately have "\<exists>zs. rev (dropWhile P (rev (y # ys))) = y # zs"
    by (cases "\<exists>z\<in>set ys. \<not> P z") auto
  with y Cons show ?thesis by auto
next
  case Nil
  then show ?thesis by (simp only: rev.simps dropWhile.simps)
qed

lemma str_trim_idem [simp]: "str_trim (str_trim s) = str_trim s"
proof -
  have "str_trim (str_trim s) =
    concat (rev (dropWhile blank_chunk (rev (dropWhile blank_chunk (utf8_chunks (str_trim s))))))"
    by (simp add: str_trim_def)
  also have "\<dots> = concat (utf8_chunks (str_trim s))"
    by (simp add: str_trim_chunks dropWhile_rev_dropWhile)
  finally show ?thesis by simp
qed

lemma chars_str_trim: "set (chars (str_trim s)) \<subseteq> set (chars s)"
  by (auto simp: chars_def str_trim_chunks dest!: set_dropWhileD)

text \<open>ASCII text, on which the decoding is the identity.\<close>

definition printable :: "char \<Rightarrow> bool" where
  "printable c \<longleftrightarrow> 33 \<le> (of_char c :: nat) \<and> (of_char c :: nat) \<le> 126"

definition ascii_char :: "char \<Rightarrow> bool" where
  "ascii_char c \<longleftrightarrow> printable c \<or> (of_char c :: nat) = 32"

lemma utf8_chunks_ascii: "list_all ascii_char s \<Longrightarrow> utf8_chunks s = map (\<lambda>c. [c]) s"
proof (induction s)
  case (Cons c s)
  then have "utf8_width c = 1" by (auto simp: ascii_char_def printable_def utf8_width_def)
  with Cons show ?case by simp
qed simp

lemma chars_ascii: "list_all ascii_char s \<Longrightarrow> chars s = map of_char s"
  by (simp add: chars_def utf8_chunks_ascii)

lemma printable_not_blank: "printable c \<Longrightarrow> \<not> is_whitespace (of_char c)"
  by (auto simp: printable_def is_whitespace_def)

lemma ascii_not_control: "ascii_char c \<Longrightarrow> \<not> is_control (of_char c)"
  by (auto simp: ascii_char_def printable_def is_control_def)

lemma str_trim_ascii:
  assumes "list_all ascii_char s" "s \<noteq> []" "printable (hd s)" "printable (last s)"
  shows "str_trim s = s"
proof -
  have "dropWhile blank_chunk (map (\<lambda>c. [c]) s) = map (\<lambda>c. [c]) s"
    using assms(2,3) printable_not_blank by (cases s) auto
  moreover have "dropWhile blank_chunk (rev (map (\<lambda>c. [c]) s)) = rev (map (\<lambda>c. [c]) s)"
    using assms(2,4) printable_not_blank by (cases s rule: rev_cases) auto
  ultimately show ?thesis
    using assms(1) by (simp add: str_trim_def utf8_chunks_ascii)
qed

lemma str_trim_printable: "list_all printable s \<Longrightarrow> str_trim s = s"
proof (cases "s = []")
  case True
  then show ?thesis by (simp add: str_trim_def)
next
  case False
  assume "list_all printable s"
  with False show ?thesis
    by (intro str_trim_ascii) (auto simp: list_all_iff ascii_char_def)
qed

lemma strip_prefix_Some_iff [simp]: "strip_prefix p s = Some r \<longleftrightarrow> s = p @ r"
  by (induction p s rule: strip_prefix.induct) auto

lemma starts_with_iff: "starts_with p s \<longleftrightarrow> prefix p s"
  by (auto simp: starts_with_def prefix_def)

lemma split_once_Some_iff: "split_once d s = Some (l, r) \<longleftrightarrow> s = l @ d # r \<and> d \<notin> set l"
proof (induction s arbitrary: l)
  case (Cons c cs)
  then show ?case by (cases l) (auto simp: Cons)
qed simp

lemma split_once_append: "d \<notin> set l \<Longrightarrow> split_once d (l @ d # r) = Some (l, r)"
  by (simp add: split_once_Some_iff)


section \<open>Facts about encodings\<close>

lemma nibbles_lt: "unat (drop_bit 4 (b :: byte)) < 16" "unat (b AND 15 :: byte) < 16"
proof -
  have "unat b < 256" using unsigned_less [of b, where ?'a = nat] by simp
  then show "unat (drop_bit 4 b) < 16" by (simp add: drop_bit_eq_div unat_div)
  have "b AND 15 = take_bit 4 b" by (simp add: take_bit_eq_mask mask_eq_exp_minus_1)
  then show "unat (b AND 15) < 16"
    by (simp add: unsigned_take_bit_eq) (simp add: take_bit_eq_mod)
qed

lemma nibbles_unique:
  assumes "drop_bit 4 (a :: byte) = drop_bit 4 b" "a AND 15 = b AND 15"
  shows "a = b"
proof -
  have low: "x AND 15 = take_bit 4 x" for x :: byte
    by (simp add: take_bit_eq_mask mask_eq_exp_minus_1)
  have "a = push_bit 4 (drop_bit 4 a) + take_bit 4 a" by (simp add: bits_ident)
  also have "\<dots> = push_bit 4 (drop_bit 4 b) + take_bit 4 b" using assms by (simp add: low)
  also have "\<dots> = b" by (simp add: bits_ident)
  finally show ?thesis .
qed

lemma of_char_hex_digit:
  "n < 16 \<Longrightarrow> (of_char (hex_digit n) :: nat) = (if n < 10 then 48 + n else 87 + n)"
  by (simp add: hex_digit_def)

lemma hex_digit_lower [simp]: "n < 16 \<Longrightarrow> is_lower_hex (hex_digit n)"
  by (auto simp: is_lower_hex_def of_char_hex_digit)

lemma hex_digit_inject:
  assumes "m < 16" "n < 16"
  shows "hex_digit m = hex_digit n \<longleftrightarrow> m = n"
proof
  assume "hex_digit m = hex_digit n"
  then have "(of_char (hex_digit m) :: nat) = of_char (hex_digit n)" by simp
  then show "m = n"
    unfolding of_char_hex_digit [OF assms(1)] of_char_hex_digit [OF assms(2)]
    using assms by (simp split: if_splits)
qed simp

lemma to_hex_Nil [simp]: "to_hex [] = []"
  by (simp add: to_hex_def)

lemma to_hex_Cons [simp]:
  "to_hex (b # bs) = hex_digit (unat (drop_bit 4 b)) # hex_digit (unat (b AND 15)) # to_hex bs"
  by (simp add: to_hex_def)

lemma length_to_hex [simp]: "length (to_hex bs) = 2 * length bs"
  by (induction bs) auto

lemma to_hex_lower: "c \<in> set (to_hex bs) \<Longrightarrow> is_lower_hex c"
  by (induction bs) (auto simp: nibbles_lt)

lemma to_hex_inject [simp]: "to_hex as = to_hex bs \<longleftrightarrow> as = bs"
proof
  show "to_hex as = to_hex bs \<Longrightarrow> as = bs"
  proof (induction as arbitrary: bs)
    case Nil
    then show ?case by (cases bs) auto
  next
    case (Cons a as)
    then obtain b bs' where bs: "bs = b # bs'" by (cases bs) auto
    with Cons.prems have "drop_bit 4 a = drop_bit 4 b" "a AND 15 = b AND 15"
      by (simp_all add: hex_digit_inject nibbles_lt word_unat_eq_iff)
    with Cons bs show ?case by (auto dest: nibbles_unique)
  qed
qed simp

lemma length_be64 [simp]: "length (be64 w) = 8"
  by (simp add: be64_def)

lemma be64_inject [simp]: "be64 v = be64 w \<longleftrightarrow> v = w"
proof
  assume eq: "be64 v = be64 w"
  show "v = w"
  proof (rule bit_word_eqI)
    fix n assume "n < LENGTH(64)"
    then have n: "n < 64" by simp
    have byte: "(ucast (drop_bit (8 * i) v) :: byte) = ucast (drop_bit (8 * i) w)"
      if "i < 8" for i
    proof -
      from that have "i \<in> set [7, 6, 5, 4, 3, 2, 1, 0]" by auto
      with eq show ?thesis unfolding be64_def by (auto simp only: list.map list.set list.inject)
    qed
    have "bit (ucast (drop_bit (8 * (n div 8)) v) :: byte) (n mod 8)
        = bit (ucast (drop_bit (8 * (n div 8)) w) :: byte) (n mod 8)"
      using byte [of "n div 8"] n by simp
    then show "bit v n = bit w n"
      using n by (simp add: bit_simps)
  qed
qed simp

lemma frame_parts_Nil [simp]: "frame_parts [] = []"
  by (simp add: frame_parts_def)

lemma frame_parts_Cons [simp]:
  "frame_parts (p # ps) = be64 (of_nat (length p)) @ p @ frame_parts ps"
  by (simp add: frame_parts_def)

text \<open>
  Length prefixes make the concatenation unambiguous: two part lists with the same
  framing are equal, as long as every length fits in 64 bits.
\<close>

lemma frame_parts_inject:
  assumes "\<forall>p\<in>set ps. length p < 2 ^ 64" "\<forall>q\<in>set qs. length q < 2 ^ 64"
    and "frame_parts ps = frame_parts qs"
  shows "ps = qs"
  using assms
proof (induction ps arbitrary: qs)
  case Nil
  then show ?case by (cases qs) (auto simp: be64_def)
next
  case (Cons p ps)
  then obtain q qs' where qs: "qs = q # qs'"
    by (cases qs) (auto simp: be64_def)
  with Cons.prems have head: "be64 (of_nat (length p)) = be64 (of_nat (length q))"
    and rest: "p @ frame_parts ps = q @ frame_parts qs'"
    by auto
  from head have "(of_nat (length p) :: u64) = of_nat (length q)" by simp
  then have "length p = length q"
    using Cons.prems(1,2) qs by (simp add: word_of_nat_eq_iff take_bit_eq_mod)
  with rest have "p = q" "frame_parts ps = frame_parts qs'" by auto
  with Cons qs show ?case by auto
qed

lemma byte_xor_eq_0: "(x :: byte) XOR y = 0 \<longleftrightarrow> x = y"
proof
  assume "x XOR y = 0"
  then have "x XOR (x XOR y) = x" by simp
  then show "x = y" by (simp add: xor.assoc [symmetric])
qed simp

lemma xor_fold_zero_acc:
  "length a = length b \<Longrightarrow>
   fold (\<lambda>(x, y) diff. diff OR (x XOR y)) (zip a b) d = (0 :: byte) \<longleftrightarrow> d = 0 \<and> a = b"
  by (induction a b arbitrary: d rule: list_induct2) (auto simp: or_eq_0_iff byte_xor_eq_0)

lemma constant_time_eq_iff [simp]: "constant_time_eq a b \<longleftrightarrow> a = b"
  by (auto simp: constant_time_eq_def xor_fold_def xor_fold_zero_acc)

end
