(* ===== verification/Cache.thy ===== *)
theory Cache
  imports Prelude
begin

text \<open>
  \<open>cache.rs\<close>: the bounded cache of authoritative decisions inside a verifier.  Time comes from
  the caller; a high-water mark rejects every timestamp below one already seen.  The locale
  \<open>clock_guard\<close> states that discipline once for both caches of the repository, and the locale
  \<open>evidence_cache\<close> states what the gate relies on.  The lemmas show the size bound, the
  freshness of every served decision and the effect of each operation.
\<close>

section \<open>The interface of a clock-guarded store\<close>

text \<open>
  Operations take the time of the caller and return whether the time was accepted.  The law is
  that a rejected operation changes nothing and an accepted one moves the mark to its time.
\<close>

locale clock_guard =
  fixes mark :: "'c \<Rightarrow> u64 option"
    and ops :: "('c \<Rightarrow> u64 \<Rightarrow> bool \<times> 'c) set"
  assumes rejected: "f \<in> ops \<Longrightarrow> mark c = Some m \<Longrightarrow> now < m \<Longrightarrow> f c now = (False, c)"
    and accepted: "f \<in> ops \<Longrightarrow> (\<And>m. mark c = Some m \<Longrightarrow> m \<le> now) \<Longrightarrow>
      fst (f c now) \<and> mark (snd (f c now)) = Some now"
begin

primrec perform :: "(('c \<Rightarrow> u64 \<Rightarrow> bool \<times> 'c) \<times> u64) list \<Rightarrow> 'c \<Rightarrow> 'c" where
  "perform [] c = c"
| "perform (op # trace) c = perform trace (snd (fst op c (snd op)))"

text \<open>The accepted times of any sequence of operations never go backwards.\<close>

lemma mark_grows:
  assumes "fst ` set trace \<subseteq> ops" "mark c = Some m"
  shows "\<exists>m'. mark (perform trace c) = Some m' \<and> m \<le> m'"
  using assms
proof (induction trace arbitrary: c m)
  case (Cons op trace)
  obtain f now where op: "op = (f, now)" by (cases op)
  with Cons.prems have f: "f \<in> ops" by auto
  show ?case
  proof (cases "now < m")
    case True
    with rejected [OF f Cons.prems(2)] Cons op show ?thesis by auto
  next
    case False
    then have "mark (snd (f c now)) = Some now"
      using accepted [OF f, of c now] Cons.prems(2) by auto
    with Cons.IH [of "snd (f c now)" now] Cons.prems(1) op False show ?thesis by force
  qed
qed auto

text \<open>After any trace, an operation at a time below the mark leaves the store alone.\<close>

lemma late_operation_rejected:
  assumes "fst ` set trace \<subseteq> ops" "mark c = Some m" "now < m" "f \<in> ops"
  shows "f (perform trace c) now = (False, perform trace c)"
proof -
  obtain m' where m': "mark (perform trace c) = Some m'" "m \<le> m'"
    using mark_grows [OF assms(1,2)] by blast
  with assms(3) have "now < m'" by (rule_tac less_le_trans)
  with rejected [OF assms(4) m'(1)] show ?thesis .
qed

end

section \<open>The cache\<close>

datatype decision = Allow | Deny

datatype lookup_outcome = Fresh decision | Stale | Miss

text \<open>The error carries how far the time went back.\<close>

datatype clock_regression = ClockRegression u64

record cache_entry =
  en_decision :: decision
  en_observed_at :: u64

text \<open>
  The hash map is an association list; the position of an entry stands for the unspecified
  iteration order.  \<open>usize\<close> is a natural number.
\<close>

record revocation_cache =
  rc_entries :: "(string \<times> cache_entry) list"
  rc_high_water :: u64
  rc_freshness_budget_secs :: u64
  rc_capacity :: nat

definition DEFAULT_FRESHNESS_BUDGET_SECS :: u64 where
  "DEFAULT_FRESHNESS_BUDGET_SECS = 30"

definition DEFAULT_CAPACITY :: nat where
  "DEFAULT_CAPACITY = 65536"

definition cache_new :: "u64 \<Rightarrow> nat \<Rightarrow> revocation_cache" where
  "cache_new freshness_budget_secs capacity =
     \<lparr>rc_entries = [], rc_high_water = 0,
      rc_freshness_budget_secs = max freshness_budget_secs 1, rc_capacity = max capacity 1\<rparr>"

definition cache_with_defaults :: revocation_cache where
  "cache_with_defaults = cache_new DEFAULT_FRESHNESS_BUDGET_SECS DEFAULT_CAPACITY"

definition cache_len :: "revocation_cache \<Rightarrow> nat" where
  "cache_len c = length (rc_entries c)"

definition advance :: "revocation_cache \<Rightarrow> u64 \<Rightarrow> clock_regression + revocation_cache" where
  "advance c now =
     (if now < rc_high_water c then Inl (ClockRegression (rc_high_water c - now))
      else Inr (c\<lparr>rc_high_water := now\<rparr>))"

text \<open>Every operation returns its result and the cache afterwards.\<close>

definition cache_lookup ::
  "revocation_cache \<Rightarrow> string \<Rightarrow> u64 \<Rightarrow> (clock_regression + lookup_outcome) \<times> revocation_cache" where
  "cache_lookup c key now =
     (case advance c now of
        Inl e \<Rightarrow> (Inl e, c)
      | Inr c' \<Rightarrow>
          (Inr (case map_of (rc_entries c') key of
                  Some entry \<Rightarrow>
                    if saturating_sub now (en_observed_at entry) \<le> rc_freshness_budget_secs c'
                    then Fresh (en_decision entry) else Stale
                | None \<Rightarrow> Miss), c'))"

definition record_refresh_start ::
  "revocation_cache \<Rightarrow> u64 \<Rightarrow> (clock_regression + unit) \<times> revocation_cache" where
  "record_refresh_start c now =
     (case advance c now of Inl e \<Rightarrow> (Inl e, c) | Inr c' \<Rightarrow> (Inr (), c'))"

text \<open>\<open>min_by_key\<close> returns the first of several smallest elements.\<close>

fun oldest_key :: "(string \<times> cache_entry) list \<Rightarrow> string option" where
  "oldest_key [] = None"
| "oldest_key ((k, e) # es) =
     (case oldest_key es of
        None \<Rightarrow> Some k
      | Some k' \<Rightarrow>
          (case map_of es k' of
             Some e' \<Rightarrow> if en_observed_at e \<le> en_observed_at e' then Some k else Some k'
           | None \<Rightarrow> Some k))"

definition evict_oldest :: "revocation_cache \<Rightarrow> revocation_cache" where
  "evict_oldest c =
     (case oldest_key (rc_entries c) of
        Some key \<Rightarrow> c\<lparr>rc_entries := AList.delete key (rc_entries c)\<rparr>
      | None \<Rightarrow> c)"

definition cache_apply ::
  "revocation_cache \<Rightarrow> string \<Rightarrow> decision \<Rightarrow> u64 \<Rightarrow> (clock_regression + unit) \<times> revocation_cache" where
  "cache_apply c key d now =
     (case advance c now of
        Inl e \<Rightarrow> (Inl e, c)
      | Inr c1 \<Rightarrow>
          let entry = \<lparr>en_decision = d, en_observed_at = now\<rparr>;
              c2 = (if map_of (rc_entries c1) key = None \<and> rc_capacity c1 \<le> length (rc_entries c1)
                    then evict_oldest c1 else c1)
          in (Inr (), c2\<lparr>rc_entries := AList.update key entry (rc_entries c2)\<rparr>))"

section \<open>Invariant\<close>

definition cache_ok :: "revocation_cache \<Rightarrow> bool" where
  "cache_ok c \<longleftrightarrow>
     distinct (map fst (rc_entries c)) \<and> length (rc_entries c) \<le> rc_capacity c
   \<and> 1 \<le> rc_capacity c \<and> 1 \<le> rc_freshness_budget_secs c
   \<and> (\<forall>e\<in>set (rc_entries c). en_observed_at (snd e) \<le> rc_high_water c)"

lemma advance_Inr_iff [result_simps]:
  "advance c now = Inr c' \<longleftrightarrow> rc_high_water c \<le> now \<and> c' = c\<lparr>rc_high_water := now\<rparr>"
  by (auto simp: advance_def)

lemma oldest_key_Some:
  assumes "distinct (map fst es)" "es \<noteq> []"
  shows "\<exists>k e. oldest_key es = Some k \<and> map_of es k = Some e
    \<and> (\<forall>p\<in>set es. en_observed_at e \<le> en_observed_at (snd p))"
  using assms
proof (induction es)
  case (Cons p es)
  obtain k e where p: "p = (k, e)" by (cases p)
  show ?case
  proof (cases "es = []")
    case True
    with p show ?thesis by simp
  next
    case False
    with Cons obtain k' e' where old: "oldest_key es = Some k'" "map_of es k' = Some e'"
      "\<forall>q\<in>set es. en_observed_at e' \<le> en_observed_at (snd q)"
      by auto
    then have "k' \<noteq> k" using Cons.prems(1) p by (auto dest!: map_of_SomeD simp: image_iff)
    show ?thesis
    proof (cases "en_observed_at e \<le> en_observed_at e'")
      case True
      with old p show ?thesis by (auto intro: order_trans)
    next
      case False
      with old p \<open>k' \<noteq> k\<close> show ?thesis by (auto simp: not_le intro: less_imp_le)
    qed
  qed
qed simp

lemma length_delete_present:
  assumes "distinct (map fst es)" "map_of es k \<noteq> None"
  shows "length (AList.delete k es) = length es - 1"
  using assms
proof (induction es)
  case (Cons p es)
  obtain k' e where p: "p = (k', e)" by (cases p)
  show ?case
  proof (cases "k' = k")
    case True
    with Cons.prems(1) p have "k \<notin> fst ` set es" by auto
    with True p show ?thesis by (simp add: delete_simps)
  next
    case False
    with Cons p have "length (AList.delete k es) = length es - 1" "es \<noteq> []" by auto
    with False p show ?thesis by (cases es) simp_all
  qed
qed simp

lemma length_update_alist:
  "length (AList.update k v es) = (if map_of es k = None then Suc (length es) else length es)"
  by (induction es) (auto split: if_splits)

lemma set_update_alist: "p \<in> set (AList.update k v es) \<Longrightarrow> p = (k, v) \<or> p \<in> set es"
  by (induction es) (auto split: if_splits)

lemma set_delete_alist: "set (AList.delete k es) \<subseteq> set es"
  by (auto simp: AList.delete_eq)

lemma cache_ok_new: "cache_ok (cache_new b n)"
  by (simp add: cache_ok_def cache_new_def)

lemma cache_ok_advance: "cache_ok c \<Longrightarrow> rc_high_water c \<le> now \<Longrightarrow> cache_ok (c\<lparr>rc_high_water := now\<rparr>)"
  by (auto simp: cache_ok_def intro: order_trans)

lemma cache_ok_lookup: "cache_ok c \<Longrightarrow> cache_ok (snd (cache_lookup c key now))"
  by (auto simp: cache_lookup_def advance_def not_less intro: cache_ok_advance)

lemma cache_ok_refresh_start: "cache_ok c \<Longrightarrow> cache_ok (snd (record_refresh_start c now))"
  by (auto simp: record_refresh_start_def advance_def not_less intro: cache_ok_advance)

lemma evict_oldest_cases:
  assumes "cache_ok c"
  obtains (empty) "rc_entries c = []" "evict_oldest c = c"
  | (evicted) k e where "map_of (rc_entries c) k = Some e"
      "\<forall>p\<in>set (rc_entries c). en_observed_at e \<le> en_observed_at (snd p)"
      "evict_oldest c = c\<lparr>rc_entries := AList.delete k (rc_entries c)\<rparr>"
proof (cases "rc_entries c = []")
  case True
  then show ?thesis by (intro empty) (simp_all add: evict_oldest_def)
next
  case False
  have "distinct (map fst (rc_entries c))" using assms by (simp add: cache_ok_def)
  from oldest_key_Some [OF this False] obtain k e where "oldest_key (rc_entries c) = Some k"
    "map_of (rc_entries c) k = Some e" "\<forall>p\<in>set (rc_entries c). en_observed_at e \<le> en_observed_at (snd p)"
    by blast
  then show ?thesis by (intro evicted) (simp_all add: evict_oldest_def)
qed

lemma cache_ok_evict:
  assumes "cache_ok c"
  shows "cache_ok (evict_oldest c)"
proof (rule evict_oldest_cases [OF assms])
  fix k e
  assume "evict_oldest c = c\<lparr>rc_entries := AList.delete k (rc_entries c)\<rparr>"
  then show ?thesis
    using assms length_delete_le [of k "rc_entries c"] set_delete_alist [of k "rc_entries c"]
    by (auto simp: cache_ok_def distinct_delete)
qed (simp add: assms)

lemma evict_oldest_room:
  assumes "cache_ok c" "rc_capacity c \<le> length (rc_entries c)"
  shows "length (rc_entries (evict_oldest c)) < rc_capacity c"
proof (rule evict_oldest_cases [OF assms(1)])
  assume "rc_entries c = []"
  with assms show ?thesis by (simp add: cache_ok_def)
next
  fix k e
  assume k: "map_of (rc_entries c) k = Some e" "evict_oldest c = c\<lparr>rc_entries := AList.delete k (rc_entries c)\<rparr>"
  then have "length (rc_entries (evict_oldest c)) = length (rc_entries c) - 1" "rc_entries c \<noteq> []"
    using length_delete_present [of "rc_entries c" k] assms(1) by (auto simp: cache_ok_def)
  moreover have "0 < length (rc_entries c)" using \<open>rc_entries c \<noteq> []\<close> by simp
  ultimately show ?thesis using assms by (auto simp: cache_ok_def)
qed

lemma evict_oldest_sel [simp]:
  "rc_capacity (evict_oldest c) = rc_capacity c" "rc_high_water (evict_oldest c) = rc_high_water c"
  "rc_freshness_budget_secs (evict_oldest c) = rc_freshness_budget_secs c"
  by (simp_all add: evict_oldest_def split: option.split)

lemma cache_ok_apply:
  assumes "cache_ok c"
  shows "cache_ok (snd (cache_apply c key d now))"
proof (cases "now < rc_high_water c")
  case True
  then show ?thesis using assms by (simp add: cache_apply_def advance_def)
next
  case False
  define c1 where "c1 = c\<lparr>rc_high_water := now\<rparr>"
  define c2 where "c2 = (if map_of (rc_entries c1) key = None \<and> rc_capacity c1 \<le> length (rc_entries c1)
    then evict_oldest c1 else c1)"
  have c1: "cache_ok c1" using False assms by (simp add: c1_def cache_ok_advance)
  then have c2: "cache_ok c2" by (simp add: c2_def cache_ok_evict)
  have hw: "rc_high_water c2 = now" by (simp add: c2_def c1_def)
  have room: "map_of (rc_entries c2) key = None \<Longrightarrow> length (rc_entries c2) < rc_capacity c2"
    using evict_oldest_room [OF c1] by (auto simp: c2_def)
  have "cache_ok (c2\<lparr>rc_entries := AList.update key \<lparr>en_decision = d, en_observed_at = now\<rparr> (rc_entries c2)\<rparr>)"
    using c2 room hw
    by (auto simp: cache_ok_def length_update_alist distinct_update dest!: set_update_alist)
  moreover have "snd (cache_apply c key d now) =
      c2\<lparr>rc_entries := AList.update key \<lparr>en_decision = d, en_observed_at = now\<rparr> (rc_entries c2)\<rparr>"
    unfolding c2_def c1_def using False by (simp only: cache_apply_def advance_def Let_def if_False sum.case snd_conv)
  ultimately show ?thesis by simp
qed

lemma cache_ok_observed:
  assumes "cache_ok c" "map_of (rc_entries c) key = Some e"
  shows "en_observed_at e \<le> rc_high_water c"
  using assms by (auto simp: cache_ok_def dest: map_of_SomeD)

section \<open>What a verifier relies on\<close>

text \<open>
  \<open>evidence\<close> is the decision and the time of its observation.  A fresh answer is recorded
  evidence within the budget; storing evidence may only forget other evidence.
\<close>

locale evidence_cache =
  fixes inv :: "'c \<Rightarrow> bool"
    and evidence :: "'c \<Rightarrow> string \<Rightarrow> (decision \<times> u64) option"
    and budget :: "'c \<Rightarrow> u64"
    and look :: "'c \<Rightarrow> string \<Rightarrow> u64 \<Rightarrow> (clock_regression + lookup_outcome) \<times> 'c"
    and start :: "'c \<Rightarrow> u64 \<Rightarrow> (clock_regression + unit) \<times> 'c"
    and store :: "'c \<Rightarrow> string \<Rightarrow> decision \<Rightarrow> u64 \<Rightarrow> (clock_regression + unit) \<times> 'c"
  assumes look_keeps: "inv c \<Longrightarrow> inv (snd (look c k now)) \<and> evidence (snd (look c k now)) = evidence c
      \<and> budget (snd (look c k now)) = budget c"
    and start_keeps: "inv c \<Longrightarrow> inv (snd (start c now)) \<and> evidence (snd (start c now)) = evidence c
      \<and> budget (snd (start c now)) = budget c"
    and look_fresh: "inv c \<Longrightarrow> fst (look c k now) = Inr (Fresh d) \<Longrightarrow>
      \<exists>t. evidence c k = Some (d, t) \<and> t \<le> now \<and> unat now \<le> unat t + unat (budget c)"
    and store_keeps: "inv c \<Longrightarrow> inv (snd (store c k d now)) \<and> budget (snd (store c k d now)) = budget c"
    and store_new: "inv c \<Longrightarrow> fst (store c k d now) = Inr () \<Longrightarrow> evidence (snd (store c k d now)) k = Some (d, now)"
    and store_old: "inv c \<Longrightarrow> evidence (snd (store c k d now)) k' = Some p \<Longrightarrow>
      k' \<noteq> k \<or> fst (store c k d now) \<noteq> Inr () \<Longrightarrow> evidence c k' = Some p"
begin

definition backed :: "(string \<times> decision \<times> u64) set \<Rightarrow> 'c \<Rightarrow> bool" where
  "backed log c \<longleftrightarrow> inv c \<and> (\<forall>k d t. evidence c k = Some (d, t) \<longrightarrow> (k, d, t) \<in> log)"

lemma backed_look: "backed log c \<Longrightarrow> backed log (snd (look c k now))"
  by (auto simp: backed_def look_keeps)

lemma backed_start: "backed log c \<Longrightarrow> backed log (snd (start c now))"
  by (auto simp: backed_def start_keeps)

lemma backed_store:
  assumes "backed log c"
  shows "backed (if fst (store c k d now) = Inr () then insert (k, d, now) log else log) (snd (store c k d now))"
  unfolding backed_def
proof (intro conjI allI impI)
  have inv: "inv c" using assms by (simp add: backed_def)
  then show "inv (snd (store c k d now))" by (simp add: store_keeps)
  fix k' d' t assume e: "evidence (snd (store c k d now)) k' = Some (d', t)"
  show "(k', d', t) \<in> (if fst (store c k d now) = Inr () then insert (k, d, now) log else log)"
  proof (cases "k' = k \<and> fst (store c k d now) = Inr ()")
    case True
    with e store_new [OF inv, of k d now] show ?thesis by auto
  next
    case False
    with store_old [OF inv e] assms show ?thesis by (auto simp: backed_def)
  qed
qed

lemma fresh_backed:
  assumes "backed log c" "fst (look c k now) = Inr (Fresh d)"
  obtains t where "(k, d, t) \<in> log" "t \<le> now" "unat now \<le> unat t + unat (budget c)"
  using look_fresh [of c k now d] assms by (auto simp: backed_def)

end

definition cache_evidence :: "revocation_cache \<Rightarrow> string \<Rightarrow> (decision \<times> u64) option" where
  "cache_evidence c key = map_option (\<lambda>e. (en_decision e, en_observed_at e)) (map_of (rc_entries c) key)"

lemma cache_lookup_fresh:
  assumes "cache_ok c" "fst (cache_lookup c key now) = Inr (Fresh d)"
  shows "\<exists>t. cache_evidence c key = Some (d, t) \<and> t \<le> now
    \<and> unat now \<le> unat t + unat (rc_freshness_budget_secs c)"
proof -
  from assms(2) obtain e where hw: "rc_high_water c \<le> now" and e: "map_of (rc_entries c) key = Some e"
    "d = en_decision e" "saturating_sub now (en_observed_at e) \<le> rc_freshness_budget_secs c"
    by (auto simp: cache_lookup_def advance_def not_less split: if_splits option.splits)
  have le: "en_observed_at e \<le> now" using cache_ok_observed [OF assms(1) e(1)] hw by (rule order_trans)
  have "unat now - unat (en_observed_at e) \<le> unat (rc_freshness_budget_secs c)"
    using e(3) by (simp add: word_le_nat_alt unat_saturating_sub)
  with e le show ?thesis by (auto simp: cache_evidence_def)
qed

lemma cache_apply_evidence:
  assumes "cache_ok c"
  shows "fst (cache_apply c k d now) = Inr () \<Longrightarrow> cache_evidence (snd (cache_apply c k d now)) k = Some (d, now)"
    and "cache_evidence (snd (cache_apply c k d now)) k' = Some p \<Longrightarrow>
      k' \<noteq> k \<or> fst (cache_apply c k d now) \<noteq> Inr () \<Longrightarrow> cache_evidence c k' = Some p"
proof -
  show "fst (cache_apply c k d now) = Inr () \<Longrightarrow> cache_evidence (snd (cache_apply c k d now)) k = Some (d, now)"
    by (auto simp: cache_apply_def Let_def cache_evidence_def update_conv' split: sum.splits)
  have evict: "map_of (rc_entries (evict_oldest c1)) k' = Some e \<Longrightarrow> map_of (rc_entries c1) k' = Some e" for c1 e
    by (auto simp: evict_oldest_def delete_conv' split: option.splits if_splits)
  show "cache_evidence (snd (cache_apply c k d now)) k' = Some p \<Longrightarrow>
      k' \<noteq> k \<or> fst (cache_apply c k d now) \<noteq> Inr () \<Longrightarrow> cache_evidence c k' = Some p"
    by (auto simp: cache_apply_def Let_def cache_evidence_def update_conv' advance_def
        dest!: evict split: if_splits)
qed

interpretation vc: evidence_cache cache_ok cache_evidence rc_freshness_budget_secs cache_lookup
  record_refresh_start cache_apply
proof unfold_locales
  fix c k now d
  assume ok: "cache_ok c"
  show "cache_ok (snd (cache_lookup c k now)) \<and> cache_evidence (snd (cache_lookup c k now)) = cache_evidence c
      \<and> rc_freshness_budget_secs (snd (cache_lookup c k now)) = rc_freshness_budget_secs c"
    using cache_ok_lookup [OF ok] by (auto simp: cache_lookup_def advance_def cache_evidence_def fun_eq_iff)
  show "cache_ok (snd (record_refresh_start c now)) \<and> cache_evidence (snd (record_refresh_start c now)) = cache_evidence c
      \<and> rc_freshness_budget_secs (snd (record_refresh_start c now)) = rc_freshness_budget_secs c"
    using cache_ok_refresh_start [OF ok]
    by (auto simp: record_refresh_start_def advance_def cache_evidence_def fun_eq_iff)
  show "cache_ok (snd (cache_apply c k d now))
      \<and> rc_freshness_budget_secs (snd (cache_apply c k d now)) = rc_freshness_budget_secs c"
    using cache_ok_apply [OF ok] by (auto simp: cache_apply_def advance_def Let_def)
qed (auto intro: cache_lookup_fresh cache_apply_evidence)

section \<open>The clock discipline\<close>

inductive_set cache_ops :: "(revocation_cache \<Rightarrow> u64 \<Rightarrow> bool \<times> revocation_cache) set" where
  "(\<lambda>c now. (is_ok (fst (cache_lookup c key now)), snd (cache_lookup c key now))) \<in> cache_ops"
| "(\<lambda>c now. (is_ok (fst (record_refresh_start c now)), snd (record_refresh_start c now))) \<in> cache_ops"
| "(\<lambda>c now. (is_ok (fst (cache_apply c key d now)), snd (cache_apply c key d now))) \<in> cache_ops"

interpretation cache_clock: clock_guard "\<lambda>c. Some (rc_high_water c)" cache_ops
proof unfold_locales
  fix f :: "revocation_cache \<Rightarrow> u64 \<Rightarrow> bool \<times> revocation_cache" and c :: revocation_cache and m now
  assume "f \<in> cache_ops"
  then show "Some (rc_high_water c) = Some m \<Longrightarrow> now < m \<Longrightarrow> f c now = (False, c)"
    by cases (auto simp: cache_lookup_def record_refresh_start_def cache_apply_def advance_def)
next
  fix f :: "revocation_cache \<Rightarrow> u64 \<Rightarrow> bool \<times> revocation_cache" and c :: revocation_cache and now
  assume "f \<in> cache_ops" "\<And>m. Some (rc_high_water c) = Some m \<Longrightarrow> m \<le> now"
  then show "fst (f c now) \<and> Some (rc_high_water (snd (f c now))) = Some now"
    by cases (auto simp: cache_lookup_def record_refresh_start_def cache_apply_def advance_def Let_def)
qed

section \<open>Sequences of calls\<close>

datatype cache_call =
    CallLookup string u64
  | CallRefreshStart u64
  | CallApply string decision u64

fun call_time :: "cache_call \<Rightarrow> u64" where
  "call_time (CallLookup key now) = now"
| "call_time (CallRefreshStart now) = now"
| "call_time (CallApply key d now) = now"

fun do_call :: "cache_call \<Rightarrow> revocation_cache \<Rightarrow> bool \<times> revocation_cache" where
  "do_call (CallLookup key now) c = (is_ok (fst (cache_lookup c key now)), snd (cache_lookup c key now))"
| "do_call (CallRefreshStart now) c =
     (is_ok (fst (record_refresh_start c now)), snd (record_refresh_start c now))"
| "do_call (CallApply key d now) c = (is_ok (fst (cache_apply c key d now)), snd (cache_apply c key d now))"

fun do_calls :: "cache_call list \<Rightarrow> revocation_cache \<Rightarrow> revocation_cache" where
  "do_calls [] c = c"
| "do_calls (x # xs) c = do_calls xs (snd (do_call x c))"

fun call_fun :: "cache_call \<Rightarrow> revocation_cache \<Rightarrow> u64 \<Rightarrow> bool \<times> revocation_cache" where
  "call_fun (CallLookup key _) = (\<lambda>c now. do_call (CallLookup key now) c)"
| "call_fun (CallRefreshStart _) = (\<lambda>c now. do_call (CallRefreshStart now) c)"
| "call_fun (CallApply key d _) = (\<lambda>c now. do_call (CallApply key d now) c)"

lemma call_fun_ops: "call_fun x \<in> cache_ops"
  by (cases x) (simp_all add: cache_ops.intros)

lemma do_call_fun: "do_call x c = call_fun x c (call_time x)"
  by (cases x) simp_all

lemma do_calls_perform:
  "do_calls xs c = cache_clock.perform (map (\<lambda>x. (call_fun x, call_time x)) xs) c"
  by (induction xs arbitrary: c) (simp_all add: do_call_fun)

definition call_log :: "cache_call list \<Rightarrow> (string \<times> decision \<times> u64) set" where
  "call_log xs = {(key, d, t). CallApply key d t \<in> set xs}"

lemma backed_mono: "vc.backed log c \<Longrightarrow> log \<subseteq> log' \<Longrightarrow> vc.backed log' c"
  by (auto simp: vc.backed_def)

lemma backed_do_call:
  assumes "vc.backed log c"
  shows "vc.backed (log \<union> call_log [x]) (snd (do_call x c))"
proof (cases x)
  case (CallApply key d now)
  have "vc.backed (if fst (cache_apply c key d now) = Inr () then insert (key, d, now) log else log)
      (snd (do_call x c))"
    using vc.backed_store [OF assms, of key d now] CallApply by simp
  then show ?thesis by (rule backed_mono) (auto simp: call_log_def CallApply)
qed (auto intro!: backed_mono [of log] vc.backed_look vc.backed_start assms)

lemma backed_do_calls: "vc.backed log c \<Longrightarrow> vc.backed (log \<union> call_log xs) (do_calls xs c)"
proof (induction xs arbitrary: log c)
  case (Cons x xs)
  from Cons.IH [OF backed_do_call [OF Cons.prems, of x]] show ?case
    by (rule_tac backed_mono) (auto simp: call_log_def)
qed (auto intro: backed_mono)

lemma do_calls_budget: "rc_freshness_budget_secs (do_calls xs c) = rc_freshness_budget_secs c"
proof (induction xs arbitrary: c)
  case (Cons x xs)
  have "rc_freshness_budget_secs (snd (do_call x c)) = rc_freshness_budget_secs c"
    by (cases x) (auto simp: cache_lookup_def record_refresh_start_def cache_apply_def advance_def Let_def)
  with Cons show ?case by simp
qed simp

lemma do_calls_capacity: "rc_capacity (do_calls xs c) = rc_capacity c"
proof (induction xs arbitrary: c)
  case (Cons x xs)
  have "rc_capacity (snd (do_call x c)) = rc_capacity c"
    by (cases x) (auto simp: cache_lookup_def record_refresh_start_def cache_apply_def advance_def Let_def)
  with Cons show ?case by simp
qed simp

lemma backed_new: "vc.backed {} (cache_new b n)"
  using cache_ok_new [of b n] by (simp add: vc.backed_def cache_evidence_def) (simp add: cache_new_def)

text \<open>
  C32. The verifier cache is bounded and never serves stale or invented decisions: after any
  sequence of calls, at any times, on a new cache, it holds no more entries than its capacity,
  and a decision it serves as fresh at some time was applied for that key by one of the calls,
  no later than that time and no earlier than the freshness budget before it.
\<close>
theorem cache_serves_recorded_fresh_decisions:
  "cache_len (do_calls calls (cache_new b n)) \<le> max n 1
   \<and> (\<forall>key now d. fst (cache_lookup (do_calls calls (cache_new b n)) key now) = Inr (Fresh d) \<longrightarrow>
        (\<exists>t. CallApply key d t \<in> set calls \<and> t \<le> now \<and> unat now \<le> unat t + unat (max b 1)))"
proof -
  let ?c = "do_calls calls (cache_new b n)"
  have backed: "vc.backed (call_log calls) ?c"
    using backed_do_calls [OF backed_new, of calls b n] by simp
  then have "cache_len ?c \<le> rc_capacity ?c"
    by (auto simp: vc.backed_def cache_ok_def cache_len_def)
  moreover have "rc_capacity ?c = max n 1" "rc_freshness_budget_secs ?c = max b 1"
    by (simp_all add: do_calls_capacity do_calls_budget cache_new_def)
  moreover have "\<exists>t. CallApply key d t \<in> set calls \<and> t \<le> now \<and> unat now \<le> unat t + unat (rc_freshness_budget_secs ?c)"
    if served: "fst (cache_lookup ?c key now) = Inr (Fresh d)" for key now d
  proof -
    obtain t where "(key, d, t) \<in> call_log calls" "t \<le> now" "unat now \<le> unat t + unat (rc_freshness_budget_secs ?c)"
      by (rule vc.fresh_backed [OF backed served])
    then show ?thesis by (auto simp: call_log_def)
  qed
  ultimately show ?thesis by simp
qed

theorem cache_serves_recorded_fresh_decisions_witness:
  "fst (cache_lookup (do_calls [CallApply ''k'' Allow 5] (cache_new 30 8)) ''k'' 35) = Inr (Fresh Allow)
    \<and> cache_len (do_calls [CallApply ''k'' Allow 5] (cache_new 30 8)) \<le> max 8 1
    \<and> (\<exists>t. CallApply ''k'' Allow t \<in> set [CallApply ''k'' Allow 5] \<and> t \<le> 35)"
proof -
  have served: "fst (cache_lookup (do_calls [CallApply ''k'' Allow 5] (cache_new 30 8)) ''k'' 35) = Inr (Fresh Allow)"
    by (simp add: cache_lookup_def cache_apply_def advance_def cache_new_def Let_def saturating_sub_def)
  from cache_serves_recorded_fresh_decisions [of "[CallApply ''k'' Allow 5]" 30 8] served show ?thesis by blast
qed

text \<open>
  Time only moves forward: once a call at some time was accepted, every later call at an
  earlier time, after any further calls, is rejected and leaves the cache exactly as it was.
\<close>
lemma cache_rejects_clock_regression:
  assumes "fst (do_call x c)" and "call_time y < call_time x"
  shows "do_call y (do_calls calls (snd (do_call x c))) = (False, do_calls calls (snd (do_call x c)))"
proof -
  have "\<not> call_time x < rc_high_water c"
    using cache_clock.rejected [OF call_fun_ops, of c "rc_high_water c" "call_time x" x] assms(1)
    by (auto simp: do_call_fun)
  then have "rc_high_water (snd (do_call x c)) = call_time x"
    using cache_clock.accepted [OF call_fun_ops, of c "call_time x" x] by (simp add: do_call_fun not_less)
  then show ?thesis
    using cache_clock.late_operation_rejected [of "map (\<lambda>x. (call_fun x, call_time x)) calls"
        "snd (do_call x c)" "call_time x" "call_time y" "call_fun y"] assms(2)
    by (simp add: do_calls_perform do_call_fun [of y] call_fun_ops image_subset_iff)
qed

theorem cache_rejects_clock_regression_witness:
  "do_call (CallLookup ''k'' 9) (do_calls [CallApply ''k'' Allow 11] (snd (do_call (CallRefreshStart 10) (cache_new 30 8))))
    = (False, do_calls [CallApply ''k'' Allow 11] (snd (do_call (CallRefreshStart 10) (cache_new 30 8))))"
  by (rule cache_rejects_clock_regression)
     (simp_all add: record_refresh_start_def advance_def cache_new_def)

end
