(* ===== verification/Json.thy ===== *)
theory Json
  imports Prelude
begin

text \<open>
  JSON documents as the services see them, the accessors the sources call on them, and the
  field rules of derived deserialisers (\<open>#[serde(default)]\<close>, optional fields, positional
  arrays).  The record \<open>externals\<close> collects the third-party functions the components call:
  SHA-256, HMAC-SHA-256 and the JSON text codec; \<open>url_lib\<close> is the URL parser.  They are parameters of every definition
  that uses them; \<open>externals_ok\<close> names what their documentation promises.
\<close>

datatype json_number = PosInt u64 | NegInt int | Float u64

datatype json =
    VNull
  | VBool bool
  | VNum json_number
  | VStr string
  | VArr "json list"
  | VObj "(string \<times> json) list"

text \<open>
  An object lists its members in the iteration order of its map, which is the byte order of
  the member names.  \<open>json_canon\<close> holds of the documents the program builds: members
  strictly ordered, negative numbers in the signed 64-bit range, no floating-point number.
\<close>

fun str_less :: "string \<Rightarrow> string \<Rightarrow> bool" where
  "str_less s [] = False"
| "str_less [] (d # t) = True"
| "str_less (c # s) (d # t) =
     (if c = d then str_less s t else (of_char c :: nat) < of_char d)"

fun num_canon :: "json_number \<Rightarrow> bool" where
  "num_canon (PosInt n) = True"
| "num_canon (NegInt i) = (- (2 ^ 63) \<le> i \<and> i < 0)"
| "num_canon (Float f) = False"

fun json_canon :: "json \<Rightarrow> bool" where
  "json_canon (VNum n) = num_canon n"
| "json_canon (VArr vs) = (\<forall>v\<in>set vs. json_canon v)"
| "json_canon (VObj fields) =
     (sorted_wrt str_less (map fst fields) \<and> (\<forall>v\<in>snd ` set fields. json_canon v))"
| "json_canon _ = True"

section \<open>Accessors\<close>

fun value_get :: "json \<Rightarrow> string \<Rightarrow> json option" where
  "value_get (VObj fields) key = map_of fields key"
| "value_get _ key = None"

fun as_bool :: "json \<Rightarrow> bool option" where
  "as_bool (VBool b) = Some b"
| "as_bool _ = None"

fun as_u64 :: "json \<Rightarrow> u64 option" where
  "as_u64 (VNum (PosInt n)) = Some n"
| "as_u64 _ = None"

fun as_i64 :: "json \<Rightarrow> int option" where
  "as_i64 (VNum (PosInt n)) = (if unat n < 2 ^ 63 then Some (uint n) else None)"
| "as_i64 (VNum (NegInt i)) = Some i"
| "as_i64 _ = None"

fun as_str :: "json \<Rightarrow> string option" where
  "as_str (VStr s) = Some s"
| "as_str _ = None"

abbreviation get_as :: "(json \<Rightarrow> 'a option) \<Rightarrow> json \<Rightarrow> string \<Rightarrow> 'a option" where
  "get_as conv v key \<equiv> Option.bind (value_get v key) conv"

section \<open>Derived deserialisation\<close>

fun de_option :: "(json \<Rightarrow> 'a option) \<Rightarrow> json \<Rightarrow> 'a option option" where
  "de_option conv VNull = Some None"
| "de_option conv v = map_option Some (conv v)"

fun de_list :: "(json \<Rightarrow> 'a option) \<Rightarrow> json list \<Rightarrow> 'a list option" where
  "de_list conv [] = Some []"
| "de_list conv (v # vs) =
     Option.bind (conv v) (\<lambda>x. map_option (\<lambda>xs. x # xs) (de_list conv vs))"

fun de_string_vec :: "json \<Rightarrow> string list option" where
  "de_string_vec (VArr vs) = de_list as_str vs"
| "de_string_vec _ = None"

text \<open>
  A struct is read from an object, or positionally from an array that has no more
  elements than the struct has fields.
\<close>

fun struct_fields :: "string list \<Rightarrow> json \<Rightarrow> (string \<times> json) list option" where
  "struct_fields names (VObj fields) = Some fields"
| "struct_fields names (VArr vs) = (if length vs \<le> length names then Some (zip names vs) else None)"
| "struct_fields names _ = None"

definition field :: "(json \<Rightarrow> 'a option) \<Rightarrow> (string \<times> json) list \<Rightarrow> string \<Rightarrow> 'a option" where
  "field conv fields name = Option.bind (map_of fields name) conv"

definition field_or ::
  "'a \<Rightarrow> (json \<Rightarrow> 'a option) \<Rightarrow> (string \<times> json) list \<Rightarrow> string \<Rightarrow> 'a option" where
  "field_or d conv fields name =
     (case map_of fields name of None \<Rightarrow> Some d | Some v \<Rightarrow> conv v)"

fun as_u16 :: "json \<Rightarrow> u16 option" where
  "as_u16 (VNum (PosInt n)) = (if unat n < 2 ^ 16 then Some (ucast n) else None)"
| "as_u16 _ = None"

fun de_vec :: "(json \<Rightarrow> 'a option) \<Rightarrow> json \<Rightarrow> 'a list option" where
  "de_vec conv (VArr vs) = de_list conv vs"
| "de_vec conv _ = None"

text \<open>
  An internally tagged enum: the tag member and the remaining content, or the first element
  of an array and the rest.
\<close>

fun tagged :: "string \<Rightarrow> json \<Rightarrow> (string \<times> json) option" where
  "tagged tag (VObj fields) =
     Option.bind (map_of fields tag) (\<lambda>v.
       map_option (\<lambda>s. (s, VObj (filter (\<lambda>(k, _). k \<noteq> tag) fields))) (as_str v))"
| "tagged tag (VArr (v # vs)) = map_option (\<lambda>s. (s, VArr vs)) (as_str v)"
| "tagged tag _ = None"

section \<open>Third-party functions\<close>

record externals =
  sha256 :: "byte list \<Rightarrow> byte list"
  hmac_sha256 :: "byte list \<Rightarrow> byte list \<Rightarrow> byte list"
  json_from_str :: "string \<Rightarrow> json option"
  json_to_string :: "json \<Rightarrow> string"

definition externals_ok :: "externals \<Rightarrow> bool" where
  "externals_ok X \<longleftrightarrow>
     (\<forall>m. length (sha256 X m) = 32)
   \<and> (\<forall>k m. length (hmac_sha256 X k m) = 32)
   \<and> (\<forall>v. json_canon v \<longrightarrow> json_from_str X (json_to_string X v) = Some v)"

text \<open>The URL library: the parts of a parsed URL and the texts a header value may hold.\<close>

record parsed_url =
  pu_scheme :: string
  pu_host :: "string option"
  pu_username :: string
  pu_password :: "string option"
  pu_path :: string
  pu_query :: "string option"
  pu_fragment :: "string option"
  pu_origin :: string

record url_lib =
  ul_parse :: "string \<Rightarrow> parsed_url option"
  ul_header_value :: "string \<Rightarrow> bool"

section \<open>Facts\<close>

lemma externals_okD:
  assumes "externals_ok X"
  shows "length (sha256 X m) = 32"
    and "length (hmac_sha256 X k m) = 32"
    and "json_canon v \<Longrightarrow> json_from_str X (json_to_string X v) = Some v"
  using assms by (auto simp: externals_ok_def)

lemma de_list_map [simp]:
  "(\<And>x. conv (enc x) = Some x) \<Longrightarrow> de_list conv (map enc xs) = Some xs"
  by (induction xs) auto

lemma de_list_as_str [simp]: "de_list as_str (map VStr xs) = Some xs"
  by (rule de_list_map) simp

lemma de_string_vec_map [simp]: "de_string_vec (VArr (map VStr xs)) = Some xs"
  by simp

end
