(* ===== verification/Effects.thy ===== *)
theory Effects
  imports Json
begin

text \<open>
  Asynchronous handlers as trees of interactions.  Every \<open>await\<close> on the storage service is
  a \<open>Send\<close> node whose continuation receives the HTTP response; every critical section on
  process-local state protected by a mutex is a \<open>Locked\<close> node, which updates that state and
  continues with the value it had on entry.  The tree fixes the order of the interactions
  of one handler and leaves the interleaving with other handlers open.

  \<open>run\<close> executes a tree alone against a deterministic server; \<open>sys_step\<close> interleaves
  any number of handlers on any number of replicas against one shared server, with
  cancellation at every await and with process restarts.
\<close>

section \<open>Requests and responses of the storage service\<close>

datatype http_method = GET | PUT

record kv_request =
  rq_method :: http_method
  rq_url :: string
  rq_query :: "(string \<times> string) list"
  rq_headers :: "(string \<times> string) list"
  rq_body :: "json option"

text \<open>A response without a JSON body is \<open>HttpResponse status None\<close>.\<close>

datatype kv_response =
    TransportFailure
  | HttpResponse nat "json option"

section \<open>Interaction trees\<close>

datatype (dead 'c, 'a) eff =
    Done 'a
  | Send kv_request "kv_response \<Rightarrow> ('c, 'a) eff"
  | Locked "'c \<Rightarrow> 'c" "'c \<Rightarrow> ('c, 'a) eff"

primrec eff_bind :: "('c, 'a) eff \<Rightarrow> ('a \<Rightarrow> ('c, 'b) eff) \<Rightarrow> ('c, 'b) eff" where
  "eff_bind (Done x) f = f x"
| "eff_bind (Send rq k) f = Send rq (\<lambda>r. eff_bind (k r) f)"
| "eff_bind (Locked g k) f = Locked g (\<lambda>c. eff_bind (k c) f)"

text \<open>\<open>eff_try\<close> is \<open>.await?\<close>: an error ends the handler with that error.\<close>

definition eff_try ::
  "('c, 'e + 'a) eff \<Rightarrow> ('a \<Rightarrow> ('c, 'e + 'b) eff) \<Rightarrow> ('c, 'e + 'b) eff" where
  "eff_try m f = eff_bind m (\<lambda>r. case r of Inl e \<Rightarrow> Done (Inl e) | Inr x \<Rightarrow> f x)"

definition eff_map :: "('a \<Rightarrow> 'b) \<Rightarrow> ('c, 'a) eff \<Rightarrow> ('c, 'b) eff" where
  "eff_map g m = eff_bind m (\<lambda>x. Done (g x))"

text \<open>
  A bounded retry loop \<open>for _ in 0..n { body }\<close> whose body either returns from the
  function (\<open>Some\<close>) or continues with the next iteration (\<open>None\<close>).
\<close>

primrec cas_retry ::
  "nat \<Rightarrow> 'r \<Rightarrow> ('c, 'r option) eff \<Rightarrow> ('c, 'r) eff" where
  "cas_retry 0 exhausted body = Done exhausted"
| "cas_retry (Suc n) exhausted body =
     eff_bind body (\<lambda>r. case r of Some x \<Rightarrow> Done x | None \<Rightarrow> cas_retry n exhausted body)"

section \<open>Running one handler alone\<close>

type_synonym 's server_fun = "'s \<Rightarrow> kv_request \<Rightarrow> kv_response \<times> 's"

primrec run :: "'s server_fun \<Rightarrow> ('c, 'a) eff \<Rightarrow> 's \<Rightarrow> 'c \<Rightarrow> 'a \<times> 's \<times> 'c" where
  "run srv (Done x) = (\<lambda>s c. (x, s, c))"
| "run srv (Send rq k) = (\<lambda>s c. run srv (k (fst (srv s rq))) (snd (srv s rq)) c)"
| "run srv (Locked g k) = (\<lambda>s c. run srv (k c) s (g c))"

section \<open>Running many handlers\<close>

text \<open>
  \<open>kv_view\<close> is what the storage service holds: for every key the stored text and its
  modification revision.  A server is a relation between the view before, a request, a
  response and the view after, so it may answer in several ways or fail.
\<close>

type_synonym kv_view = "string \<Rightarrow> (string \<times> u64) option"
type_synonym server = "kv_view \<Rightarrow> kv_request \<Rightarrow> kv_response \<Rightarrow> kv_view \<Rightarrow> bool"

record ('c, 'a) sys =
  sys_kv :: kv_view
  sys_local :: "nat \<Rightarrow> 'c"
  sys_threads :: "nat \<Rightarrow> (nat \<times> ('c, 'a) eff) option"

definition sys_init :: "kv_view \<Rightarrow> (nat \<Rightarrow> 'c) \<Rightarrow> ('c, 'a) sys" where
  "sys_init \<sigma> l = \<lparr>sys_kv = \<sigma>, sys_local = l, sys_threads = (\<lambda>_. None)\<rparr>"

inductive sys_step ::
  "server \<Rightarrow> ('c, 'a) eff set \<Rightarrow> ('c, 'a) sys \<Rightarrow> ('c, 'a) sys \<Rightarrow> bool"
  for server :: server and Ops :: "('c, 'a) eff set" where
  spawn: "p \<in> Ops \<Longrightarrow> sys_threads s t = None \<Longrightarrow>
     sys_step server Ops s (s\<lparr>sys_threads := (sys_threads s)(t \<mapsto> (i, p))\<rparr>)"
| answer: "sys_threads s t = Some (i, Send rq k) \<Longrightarrow> server (sys_kv s) rq r \<sigma> \<Longrightarrow>
     sys_step server Ops s (s\<lparr>sys_kv := \<sigma>, sys_threads := (sys_threads s)(t \<mapsto> (i, k r))\<rparr>)"
| critical: "sys_threads s t = Some (i, Locked g k) \<Longrightarrow>
     sys_step server Ops s
       (s\<lparr>sys_local := (sys_local s)(i := g (sys_local s i)),
          sys_threads := (sys_threads s)(t \<mapsto> (i, k (sys_local s i)))\<rparr>)"
| cancel: "sys_threads s t = Some th \<Longrightarrow>
     sys_step server Ops s (s\<lparr>sys_threads := (sys_threads s)(t := None)\<rparr>)"
| restart: "sys_step server Ops s (s\<lparr>sys_local := (sys_local s)(i := c)\<rparr>)"

inductive_cases sys_stepE: "sys_step server Ops s s'"

section \<open>Laws\<close>

lemma eff_bind_assoc: "eff_bind (eff_bind m f) g = eff_bind m (\<lambda>x. eff_bind (f x) g)"
  by (induction m) auto

lemma eff_try_Done [simp]:
  "eff_try (Done (Inl e)) f = Done (Inl e)" "eff_try (Done (Inr x)) f = f x"
  by (simp_all add: eff_try_def)

lemma eff_try_Send [simp]: "eff_try (Send rq k) f = Send rq (\<lambda>r. eff_try (k r) f)"
  by (simp add: eff_try_def)

lemma eff_try_Locked [simp]: "eff_try (Locked g k) f = Locked g (\<lambda>c. eff_try (k c) f)"
  by (simp add: eff_try_def)

lemma run_bind [eff_simps]:
  "run srv (eff_bind m f) s c =
     (case run srv m s c of (x, s', c') \<Rightarrow> run srv (f x) s' c')"
  by (induction m arbitrary: s c) auto

lemma run_try [eff_simps]:
  "run srv (eff_try m f) s c =
     (case run srv m s c of (r, s', c') \<Rightarrow>
        (case r of Inl e \<Rightarrow> (Inl e, s', c') | Inr x \<Rightarrow> run srv (f x) s' c'))"
  by (auto simp: eff_try_def run_bind split: prod.splits sum.splits)

lemma run_map [eff_simps]:
  "run srv (eff_map g m) s c = (case run srv m s c of (x, s', c') \<Rightarrow> (g x, s', c'))"
  by (auto simp: eff_map_def run_bind)

text \<open>If the first iteration returns, the loop returns its result.\<close>

lemma run_cas_retry_Suc [eff_simps]:
  "run srv (cas_retry (Suc n) e body) s c =
     (case run srv body s c of (r, s', c') \<Rightarrow>
        (case r of Some x \<Rightarrow> (x, s', c') | None \<Rightarrow> run srv (cas_retry n e body) s' c'))"
  by (auto simp: run_bind split: prod.splits option.splits)

end
