(* ===== verification/Model.thy ===== *)
theory Model
  imports Json
begin

text \<open>
  The domain types of \<open>model.rs\<close>: session identities and the authorization decision
  derived from them, API-key records with their public view, and request bodies.  The
  lemmas show that the authorization context grants a surface only when the trusted roles
  and the binding of the verifying project agree.
\<close>

section \<open>Identities and authorization\<close>

definition AUTHORIZATION_CONTEXT_VERSION :: u16 where
  "AUTHORIZATION_CONTEXT_VERSION = 1"

definition ADMIN_SURFACE_AUDIENCE :: string where
  "ADMIN_SURFACE_AUDIENCE = ''fiducia-admin''"

definition CUSTOMER_SURFACE_AUDIENCE :: string where
  "CUSTOMER_SURFACE_AUDIENCE = ''fiducia-customer''"

datatype assurance_level = Aal1 | Aal2

record authorization_context =
  ac_version :: u16
  ac_surface_audiences :: "string list"
  ac_roles :: "string list"
  ac_capabilities :: "string list"

datatype trusted_role = Admin | Operator | Customer

fun trusted_role_str :: "trusted_role \<Rightarrow> string" where
  "trusted_role_str Admin = ''admin''"
| "trusted_role_str Operator = ''operator''"
| "trusted_role_str Customer = ''customer''"

record user_ctx =
  user_id :: string
  email :: "string option"
  orgs :: "string list"
  roles :: "string list"
  aal :: assurance_level
  project_surfaces :: "string list option"

definition trusted_role_of :: "string \<Rightarrow> trusted_role option" where
  "trusted_role_of role =
     (let t = to_ascii_lowercase (str_trim role)
      in if t = ''admin'' then Some Admin
         else if t = ''operator'' then Some Operator
         else if t = ''customer'' then Some Customer
         else None)"

definition normalized_trusted_roles :: "string list \<Rightarrow> trusted_role list" where
  "normalized_trusted_roles rs =
     fold (\<lambda>role normalized. if role \<in> set normalized then normalized else normalized @ [role])
       (List.map_filter trusted_role_of rs) []"

definition authorization_context :: "user_ctx \<Rightarrow> authorization_context" where
  "authorization_context u =
     (let trusted = normalized_trusted_roles (roles u);
          has_admin = Admin \<in> set trusted;
          has_operator = Operator \<in> set trusted;
          has_customer = Customer \<in> set trusted;
          derived = (if has_admin \<or> has_operator then [ADMIN_SURFACE_AUDIENCE] else [])
                  @ (if has_customer \<or> roles u = [] then [CUSTOMER_SURFACE_AUDIENCE] else []);
          surfaces = (case project_surfaces u of
                        Some allowed \<Rightarrow> filter (\<lambda>surface. surface \<in> set allowed) derived
                      | None \<Rightarrow> derived);
          admin_surface = ADMIN_SURFACE_AUDIENCE \<in> set surfaces;
          customer_surface = CUSTOMER_SURFACE_AUDIENCE \<in> set surfaces;
          admin_caps = (if admin_surface \<and> has_admin
                          then [''admin:read'', ''admin:operate'', ''admin:write'']
                        else if admin_surface \<and> has_operator
                          then [''admin:read'', ''admin:operate'']
                        else [])
      in \<lparr>ac_version = AUTHORIZATION_CONTEXT_VERSION,
          ac_surface_audiences = surfaces,
          ac_roles = map trusted_role_str trusted,
          ac_capabilities =
            admin_caps @ (if customer_surface then [''customer:self-service''] else [])\<rparr>)"

text \<open>Serialised documents are values whose members stand in the order of their names.\<close>

fun assurance_json :: "assurance_level \<Rightarrow> json" where
  "assurance_json Aal1 = VStr ''aal1''"
| "assurance_json Aal2 = VStr ''aal2''"

definition str_vec_json :: "string list \<Rightarrow> json" where
  "str_vec_json xs = VArr (map VStr xs)"

fun opt_json :: "('a \<Rightarrow> json) \<Rightarrow> 'a option \<Rightarrow> json" where
  "opt_json f None = VNull"
| "opt_json f (Some x) = f x"

definition authorization_context_json :: "authorization_context \<Rightarrow> json" where
  "authorization_context_json a =
     VObj [(''capabilities'', str_vec_json (ac_capabilities a)),
           (''roles'', str_vec_json (ac_roles a)),
           (''surface_audiences'', str_vec_json (ac_surface_audiences a)),
           (''version'', VNum (PosInt (ucast (ac_version a))))]"

definition user_ctx_json :: "user_ctx \<Rightarrow> json" where
  "user_ctx_json u =
     VObj [(''aal'', assurance_json (aal u)),
           (''authorization'', authorization_context_json (authorization_context u)),
           (''email'', opt_json VStr (email u)),
           (''orgs'', str_vec_json (orgs u)),
           (''roles'', str_vec_json (roles u)),
           (''user_id'', VStr (user_id u))]"

section \<open>API keys\<close>

record introspection =
  in_valid :: bool
  in_org_id :: "string option"
  in_key_id :: "string option"
  in_scopes :: "string list"
  in_require_idempotency :: bool

definition introspection_invalid :: introspection where
  "introspection_invalid =
     \<lparr>in_valid = False, in_org_id = None, in_key_id = None, in_scopes = [],
      in_require_idempotency = False\<rparr>"

definition introspection_json :: "introspection \<Rightarrow> json" where
  "introspection_json i =
     VObj [(''key_id'', opt_json VStr (in_key_id i)),
           (''org_id'', opt_json VStr (in_org_id i)),
           (''require_idempotency'', VBool (in_require_idempotency i)),
           (''scopes'', str_vec_json (in_scopes i)),
           (''valid'', VBool (in_valid i))]"

record api_key_record =
  ak_key_id :: string
  ak_org_id :: string
  ak_name :: string
  ak_secret_hash :: string
  ak_create_idempotency_hash :: string
  ak_last_rotation_idempotency_hash :: "string option"
  ak_scopes :: "string list"
  ak_created_ms :: u64
  ak_last_used_ms :: "u64 option"
  ak_revoked :: bool
  ak_version :: u64
  ak_env :: string
  ak_require_idempotency :: bool

record api_key_meta =
  am_key_id :: string
  am_org_id :: string
  am_name :: string
  am_scopes :: "string list"
  am_created_ms :: u64
  am_last_used_ms :: "u64 option"
  am_revoked :: bool
  am_version :: u64
  am_env :: string
  am_require_idempotency :: bool

definition meta_of_record :: "api_key_record \<Rightarrow> api_key_meta" where
  "meta_of_record r =
     \<lparr>am_key_id = ak_key_id r, am_org_id = ak_org_id r, am_name = ak_name r,
      am_scopes = ak_scopes r, am_created_ms = ak_created_ms r,
      am_last_used_ms = ak_last_used_ms r, am_revoked = ak_revoked r,
      am_version = ak_version r, am_env = ak_env r,
      am_require_idempotency = ak_require_idempotency r\<rparr>"

definition api_key_meta_json :: "api_key_meta \<Rightarrow> json" where
  "api_key_meta_json m =
     VObj [(''created_ms'', VNum (PosInt (am_created_ms m))),
           (''env'', VStr (am_env m)),
           (''key_id'', VStr (am_key_id m)),
           (''last_used_ms'', opt_json (\<lambda>n. VNum (PosInt n)) (am_last_used_ms m)),
           (''name'', VStr (am_name m)),
           (''org_id'', VStr (am_org_id m)),
           (''require_idempotency'', VBool (am_require_idempotency m)),
           (''revoked'', VBool (am_revoked m)),
           (''scopes'', str_vec_json (am_scopes m)),
           (''version'', VNum (PosInt (am_version m)))]"

definition default_require_idempotency :: bool where
  "default_require_idempotency = True"

record create_key_body =
  cb_name :: string
  cb_org_id :: "string option"
  cb_scopes :: "string list"
  cb_env :: "string option"
  cb_require_idempotency :: bool

definition create_key_body_names :: "string list" where
  "create_key_body_names = [''name'', ''org_id'', ''scopes'', ''env'', ''require_idempotency'']"

definition create_key_body_from_json :: "json \<Rightarrow> create_key_body option" where
  "create_key_body_from_json v =
     Option.bind (struct_fields create_key_body_names v) (\<lambda>f.
     Option.bind (field as_str f ''name'') (\<lambda>name.
     Option.bind (field_or None (de_option as_str) f ''org_id'') (\<lambda>org.
     Option.bind (field_or [] de_string_vec f ''scopes'') (\<lambda>scopes.
     Option.bind (field_or None (de_option as_str) f ''env'') (\<lambda>env.
     Option.bind (field_or default_require_idempotency as_bool f ''require_idempotency'') (\<lambda>ri.
       Some \<lparr>cb_name = name, cb_org_id = org, cb_scopes = scopes, cb_env = env,
             cb_require_idempotency = ri\<rparr>))))))"

record introspect_body =
  ib_api_key :: string

record token_body =
  tb_api_key :: string

section \<open>Normalised roles\<close>

lemma fold_snoc_distinct:
  "distinct acc \<Longrightarrow>
   distinct (fold (\<lambda>x ys. if x \<in> set ys then ys else ys @ [x]) xs acc)"
  by (induction xs arbitrary: acc) auto

lemma set_fold_snoc:
  "set (fold (\<lambda>x ys. if x \<in> set ys then ys else ys @ [x]) xs acc) = set acc \<union> set xs"
  by (induction xs arbitrary: acc) auto

lemma distinct_normalized_trusted_roles: "distinct (normalized_trusted_roles rs)"
  by (simp add: normalized_trusted_roles_def fold_snoc_distinct)

lemma set_normalized_trusted_roles:
  "r \<in> set (normalized_trusted_roles rs) \<longleftrightarrow> (\<exists>s\<in>set rs. trusted_role_of s = Some r)"
  by (auto simp: normalized_trusted_roles_def set_fold_snoc List.map_filter_def
      intro: rev_image_eqI)

definition has_trusted_role :: "trusted_role \<Rightarrow> user_ctx \<Rightarrow> bool" where
  "has_trusted_role r u \<longleftrightarrow> (\<exists>s\<in>set (roles u). trusted_role_of s = Some r)"

definition project_permits :: "user_ctx \<Rightarrow> string \<Rightarrow> bool" where
  "project_permits u surface \<longleftrightarrow>
     (case project_surfaces u of None \<Rightarrow> True | Some allowed \<Rightarrow> surface \<in> set allowed)"

section \<open>What the authorization context grants\<close>

lemma surfaces_distinct: "ADMIN_SURFACE_AUDIENCE \<noteq> CUSTOMER_SURFACE_AUDIENCE"
  by (simp add: ADMIN_SURFACE_AUDIENCE_def CUSTOMER_SURFACE_AUDIENCE_def)

lemma authorization_surfaces:
  "set (ac_surface_audiences (authorization_context u)) =
     {s. project_permits u s \<and>
         (s = ADMIN_SURFACE_AUDIENCE \<and> (has_trusted_role Admin u \<or> has_trusted_role Operator u)
        \<or> s = CUSTOMER_SURFACE_AUDIENCE \<and> (has_trusted_role Customer u \<or> roles u = []))}"
  by (auto simp: authorization_context_def Let_def set_normalized_trusted_roles
      has_trusted_role_def project_permits_def split: option.splits)

lemma authorization_capabilities:
  "ac_capabilities (authorization_context u) =
     (if ADMIN_SURFACE_AUDIENCE \<in> set (ac_surface_audiences (authorization_context u))
      then (if has_trusted_role Admin u
            then [''admin:read'', ''admin:operate'', ''admin:write'']
            else [''admin:read'', ''admin:operate'']) else [])
   @ (if CUSTOMER_SURFACE_AUDIENCE \<in> set (ac_surface_audiences (authorization_context u))
      then [''customer:self-service''] else [])"
  unfolding authorization_surfaces mem_Collect_eq
  by (auto simp: authorization_context_def Let_def set_normalized_trusted_roles surfaces_distinct
      surfaces_distinct [symmetric] has_trusted_role_def project_permits_def split: option.splits)


text \<open>
  C27. A capability needs both the trusted role and the permission of the verifying project:
  \<open>admin:write\<close> is granted exactly to admins on a project that may serve the admin surface,
  \<open>admin:read\<close> and \<open>admin:operate\<close> exactly to admins and operators there, and
  \<open>customer:self-service\<close> exactly to customers and role-less legacy sessions on a project
  that may serve the customer surface; no other capability exists.
\<close>
theorem capabilities_need_role_and_project:
  "set (ac_capabilities (authorization_context u)) =
     {c. (c = ''admin:write'' \<and> has_trusted_role Admin u \<and> project_permits u ADMIN_SURFACE_AUDIENCE)
       \<or> (c \<in> {''admin:read'', ''admin:operate''}
          \<and> (has_trusted_role Admin u \<or> has_trusted_role Operator u)
          \<and> project_permits u ADMIN_SURFACE_AUDIENCE)
       \<or> (c = ''customer:self-service'' \<and> (has_trusted_role Customer u \<or> roles u = [])
          \<and> project_permits u CUSTOMER_SURFACE_AUDIENCE)}"
  unfolding authorization_capabilities authorization_surfaces mem_Collect_eq
  by (auto simp: surfaces_distinct surfaces_distinct [symmetric])

text \<open>
  Binding a project can only remove surfaces: the surfaces of a bound session are those of
  the unbound session filtered by the binding, its capabilities are among the unbound ones,
  and its reported roles are unchanged.
\<close>
lemma project_binding_only_removes:
  "ac_surface_audiences (authorization_context (u\<lparr>project_surfaces := Some ps\<rparr>)) =
     filter (\<lambda>s. s \<in> set ps)
       (ac_surface_audiences (authorization_context (u\<lparr>project_surfaces := None\<rparr>)))
   \<and> set (ac_capabilities (authorization_context (u\<lparr>project_surfaces := Some ps\<rparr>)))
       \<subseteq> set (ac_capabilities (authorization_context (u\<lparr>project_surfaces := None\<rparr>)))
   \<and> ac_roles (authorization_context (u\<lparr>project_surfaces := Some ps\<rparr>))
       = ac_roles (authorization_context (u\<lparr>project_surfaces := None\<rparr>))"
  by (auto simp: authorization_context_def Let_def)

end
