(* ===== verification/Store.thy ===== *)
theory Store
  imports Effects Model
begin

text \<open>
  \<open>store.rs\<close>: the durable form of API keys, and the HTTP client of Fiducia KV with its
  trusted service identity, its response checks and its compare-and-set write.  The lemmas
  show the round trip of the durable form, the defaults of records written before a field
  existed, and which responses the client accepts.
\<close>

section \<open>Paths\<close>

definition key_path :: "string \<Rightarrow> string" where
  "key_path key_id = ''__auth/keys/'' @ key_id"

definition org_index_path :: "string \<Rightarrow> string" where
  "org_index_path org_id = ''__auth/orgs/'' @ org_id @ ''/keys''"

section \<open>Durable records\<close>

record stored_key =
  sk_key_id :: string
  sk_org_id :: string
  sk_name :: string
  sk_secret_hash :: string
  sk_create_idempotency_hash :: string
  sk_last_rotation_idempotency_hash :: "string option"
  sk_scopes :: "string list"
  sk_created_ms :: u64
  sk_last_used_ms :: "u64 option"
  sk_revoked :: bool
  sk_version :: u64
  sk_env :: string
  sk_require_idempotency :: bool

definition stored_of_record :: "api_key_record \<Rightarrow> stored_key" where
  "stored_of_record r =
     \<lparr>sk_key_id = ak_key_id r, sk_org_id = ak_org_id r, sk_name = ak_name r,
      sk_secret_hash = ak_secret_hash r,
      sk_create_idempotency_hash = ak_create_idempotency_hash r,
      sk_last_rotation_idempotency_hash = ak_last_rotation_idempotency_hash r,
      sk_scopes = ak_scopes r, sk_created_ms = ak_created_ms r,
      sk_last_used_ms = ak_last_used_ms r, sk_revoked = ak_revoked r,
      sk_version = ak_version r, sk_env = ak_env r,
      sk_require_idempotency = ak_require_idempotency r\<rparr>"

definition record_of_stored :: "stored_key \<Rightarrow> api_key_record" where
  "record_of_stored s =
     \<lparr>ak_key_id = sk_key_id s, ak_org_id = sk_org_id s, ak_name = sk_name s,
      ak_secret_hash = sk_secret_hash s,
      ak_create_idempotency_hash = sk_create_idempotency_hash s,
      ak_last_rotation_idempotency_hash = sk_last_rotation_idempotency_hash s,
      ak_scopes = sk_scopes s, ak_created_ms = sk_created_ms s,
      ak_last_used_ms = sk_last_used_ms s, ak_revoked = sk_revoked s,
      ak_version = sk_version s, ak_env = sk_env s,
      ak_require_idempotency = sk_require_idempotency s\<rparr>"

definition stored_key_names :: "string list" where
  "stored_key_names =
     [''key_id'', ''org_id'', ''name'', ''secret_hash'', ''create_idempotency_hash'',
      ''last_rotation_idempotency_hash'', ''scopes'', ''created_ms'', ''last_used_ms'',
      ''revoked'', ''version'', ''env'', ''require_idempotency'']"

definition stored_key_to_json :: "stored_key \<Rightarrow> json" where
  "stored_key_to_json s =
     VObj [(''create_idempotency_hash'', VStr (sk_create_idempotency_hash s)),
           (''created_ms'', VNum (PosInt (sk_created_ms s))),
           (''env'', VStr (sk_env s)),
           (''key_id'', VStr (sk_key_id s)),
           (''last_rotation_idempotency_hash'',
              opt_json VStr (sk_last_rotation_idempotency_hash s)),
           (''last_used_ms'', opt_json (\<lambda>n. VNum (PosInt n)) (sk_last_used_ms s)),
           (''name'', VStr (sk_name s)),
           (''org_id'', VStr (sk_org_id s)),
           (''require_idempotency'', VBool (sk_require_idempotency s)),
           (''revoked'', VBool (sk_revoked s)),
           (''scopes'', str_vec_json (sk_scopes s)),
           (''secret_hash'', VStr (sk_secret_hash s)),
           (''version'', VNum (PosInt (sk_version s)))]"

definition stored_key_from_json :: "json \<Rightarrow> stored_key option" where
  "stored_key_from_json v =
     Option.bind (struct_fields stored_key_names v) (\<lambda>f.
     Option.bind (field as_str f ''key_id'') (\<lambda>key_id.
     Option.bind (field as_str f ''org_id'') (\<lambda>org_id.
     Option.bind (field as_str f ''name'') (\<lambda>name.
     Option.bind (field as_str f ''secret_hash'') (\<lambda>secret_hash.
     Option.bind (field_or [] as_str f ''create_idempotency_hash'') (\<lambda>create_hash.
     Option.bind (field_or None (de_option as_str) f ''last_rotation_idempotency_hash'')
       (\<lambda>rotation_hash.
     Option.bind (field de_string_vec f ''scopes'') (\<lambda>scopes.
     Option.bind (field as_u64 f ''created_ms'') (\<lambda>created_ms.
     Option.bind (field_or None (de_option as_u64) f ''last_used_ms'') (\<lambda>last_used_ms.
     Option.bind (field as_bool f ''revoked'') (\<lambda>revoked.
     Option.bind (field_or 0 as_u64 f ''version'') (\<lambda>version.
     Option.bind (field as_str f ''env'') (\<lambda>env.
     Option.bind (field_or False as_bool f ''require_idempotency'') (\<lambda>ri.
       Some \<lparr>sk_key_id = key_id, sk_org_id = org_id, sk_name = name,
             sk_secret_hash = secret_hash, sk_create_idempotency_hash = create_hash,
             sk_last_rotation_idempotency_hash = rotation_hash, sk_scopes = scopes,
             sk_created_ms = created_ms, sk_last_used_ms = last_used_ms,
             sk_revoked = revoked, sk_version = version, sk_env = env,
             sk_require_idempotency = ri\<rparr>))))))))))))))"

section \<open>The client\<close>

record kv_client =
  kv_base :: string
  kv_internal_secret :: string
  kv_storage_org :: string

record versioned_value =
  vv_value :: json
  vv_mod_revision :: u64

datatype cas_outcome = Applied | Mismatch

datatype store_error =
    MissingUrl
  | MissingInternalSecret
  | MissingIdempotencySecret
  | WeakIdempotencySecret
  | MissingApiKeyPepper
  | WeakApiKeyPepper
  | UnsupportedApiKeyHashAlgorithm
  | InvalidStorageOrg
  | Transport
  | HttpStatus nat
  | InvalidValue
  | CasRetriesExhausted
  | VersionOverflow
  | KeyIdCollision
  | IdempotencyConflict

type_synonym environment = "string \<Rightarrow> string option"

definition non_blank :: "string option \<Rightarrow> string option" where
  "non_blank v = (case v of Some s \<Rightarrow> (if str_trim s = [] then None else Some s) | None \<Rightarrow> None)"

definition kv_client_from_env :: "environment \<Rightarrow> store_error + kv_client" where
  "kv_client_from_env env =
     rbind (ok_or (non_blank (env ''FIDUCIA_KV_URL'')) MissingUrl) (\<lambda>base.
     rbind (ok_or (non_blank (env ''FIDUCIA_INTERNAL_SECRET'')) MissingInternalSecret) (\<lambda>secret.
     let storage_org = (case env ''FIDUCIA_KV_ORG_ID'' of Some s \<Rightarrow> s | None \<Rightarrow> ''fiducia-auth'')
     in if storage_org = [] \<or> (\<exists>c\<in>set (chars storage_org). is_whitespace c \<or> is_control c)
        then Inl InvalidStorageOrg
        else Inr \<lparr>kv_base = trim_end_matches (CHR ''/'') base,
                  kv_internal_secret = secret, kv_storage_org = storage_org\<rparr>))"

definition trusted_request :: "kv_client \<Rightarrow> kv_request \<Rightarrow> kv_request" where
  "trusted_request kv rq =
     rq\<lparr>rq_headers := rq_headers rq @
          [(''x-fiducia-edge-auth'', kv_internal_secret kv),
           (''x-fiducia-auth-kind'', ''api_key''),
           (''x-fiducia-org-id'', kv_storage_org kv),
           (''x-fiducia-key-id'', ''fiducia-auth-kv''),
           (''x-fiducia-scopes'', ''kv:read kv:write'')]\<rparr>"

definition is_success :: "nat \<Rightarrow> bool" where
  "is_success status \<longleftrightarrow> 200 \<le> status \<and> status < 300"

definition parse_get_body :: "externals \<Rightarrow> json \<Rightarrow> store_error + versioned_value option" where
  "parse_get_body X body =
     (case get_as as_bool body ''found'' of
        Some False \<Rightarrow> Inr None
      | None \<Rightarrow> Inl InvalidValue
      | Some True \<Rightarrow>
          rbind (ok_or (value_get body ''entry'') InvalidValue) (\<lambda>entry.
          rbind (ok_or (get_as as_str entry ''value'') InvalidValue) (\<lambda>raw.
          rbind (ok_or (get_as as_u64 entry ''mod_revision'') InvalidValue) (\<lambda>mod_revision.
          rbind (ok_or (json_from_str X raw) InvalidValue) (\<lambda>v.
            Inr (Some \<lparr>vv_value = v, vv_mod_revision = mod_revision\<rparr>))))))"

definition json_body :: "kv_response \<Rightarrow> store_error + json" where
  "json_body resp =
     (case resp of
        TransportFailure \<Rightarrow> Inl Transport
      | HttpResponse status body \<Rightarrow>
          if \<not> is_success status then Inl (HttpStatus status)
          else ok_or body Transport)"

definition kv_get_request :: "kv_client \<Rightarrow> string \<Rightarrow> kv_request" where
  "kv_get_request kv key =
     trusted_request kv
       \<lparr>rq_method = GET, rq_url = kv_base kv @ ''/v1/kv'', rq_query = [(''key'', key)],
        rq_headers = [], rq_body = None\<rparr>"

definition get_versioned ::
  "externals \<Rightarrow> kv_client \<Rightarrow> string \<Rightarrow> ('c, store_error + versioned_value option) eff" where
  "get_versioned X kv key =
     Send (kv_get_request kv key) (\<lambda>resp. Done (rbind (json_body resp) (parse_get_body X)))"

definition kv_get ::
  "externals \<Rightarrow> kv_client \<Rightarrow> string \<Rightarrow> ('c, store_error + json option) eff" where
  "kv_get X kv key =
     eff_try (get_versioned X kv key) (\<lambda>entry. Done (Inr (map_option vv_value entry)))"

definition parse_put_response :: "json \<Rightarrow> store_error + cas_outcome" where
  "parse_put_response response =
     (if get_as as_bool response ''committed'' \<noteq> Some True then Inl InvalidValue
      else rbind (ok_or (Option.bind (value_get response ''result'')
                           (\<lambda>result. value_get result ''output'')) InvalidValue) (\<lambda>output.
        (case get_as as_bool output ''ok'' of
           Some True \<Rightarrow>
             rbind (ok_or (get_as as_u64 output ''revision'') InvalidValue) (\<lambda>_. Inr Applied)
         | Some False \<Rightarrow>
             (if get_as as_str output ''reason'' = Some ''cas_mismatch''
                 \<and> get_as as_u64 output ''current_revision'' \<noteq> None
              then Inr Mismatch else Inl InvalidValue)
         | None \<Rightarrow> Inl InvalidValue)))"

definition kv_put_request ::
  "externals \<Rightarrow> kv_client \<Rightarrow> string \<Rightarrow> json \<Rightarrow> u64 option \<Rightarrow> kv_request" where
  "kv_put_request X kv key v prev_revision =
     trusted_request kv
       \<lparr>rq_method = PUT, rq_url = kv_base kv @ ''/v1/kv'', rq_query = [(''key'', key)],
        rq_headers = [],
        rq_body = Some (VObj [(''prev_revision'', opt_json (\<lambda>n. VNum (PosInt n)) prev_revision),
                              (''value'', VStr (json_to_string X v))])\<rparr>"

definition put_inner ::
  "externals \<Rightarrow> kv_client \<Rightarrow> string \<Rightarrow> json \<Rightarrow> u64 option \<Rightarrow> ('c, store_error + cas_outcome) eff" where
  "put_inner X kv key v prev_revision =
     Send (kv_put_request X kv key v prev_revision)
       (\<lambda>resp. Done (rbind (json_body resp) parse_put_response))"

definition put_if_revision ::
  "externals \<Rightarrow> kv_client \<Rightarrow> string \<Rightarrow> json \<Rightarrow> u64 \<Rightarrow> ('c, store_error + cas_outcome) eff" where
  "put_if_revision X kv key v prev_revision = put_inner X kv key v (Some prev_revision)"

section \<open>Facts about durable records\<close>

lemma record_of_stored_of_record [simp]: "record_of_stored (stored_of_record r) = r"
  by (simp add: record_of_stored_def stored_of_record_def)

lemma stored_of_record_of_stored [simp]: "stored_of_record (record_of_stored s) = s"
  by (simp add: record_of_stored_def stored_of_record_def)

lemma de_option_opt_json [simp]:
  "(\<And>x. enc x \<noteq> VNull) \<Longrightarrow> (\<And>x. conv (enc x) = Some x) \<Longrightarrow>
   de_option conv (opt_json enc o') = Some o'"
proof (cases o')
  case (Some x)
  assume "\<And>x. enc x \<noteq> VNull" "\<And>x. conv (enc x) = Some x"
  then have "enc x \<noteq> VNull" "conv (enc x) = Some x" by auto
  then have "de_option conv (enc x) = Some (Some x)" by (cases "enc x") auto
  with Some show ?thesis by simp
qed simp

lemma stored_key_roundtrip [simp]: "stored_key_from_json (stored_key_to_json s) = Some s"
  by (simp add: stored_key_from_json_def stored_key_to_json_def field_def field_or_def
      str_vec_json_def)

lemma opt_json_canon [simp]:
  "(\<And>x. json_canon (f x)) \<Longrightarrow> json_canon (opt_json f o')"
  by (cases o') auto

lemma str_vec_json_canon [simp]: "json_canon (str_vec_json xs)"
  by (auto simp: str_vec_json_def)

lemma de_string_vec_json [simp]: "de_string_vec (str_vec_json xs) = Some xs"
  by (simp add: str_vec_json_def)

lemma stored_key_to_json_canon [simp]: "json_canon (stored_key_to_json s)"
  by (simp add: stored_key_to_json_def)

lemma stored_key_to_json_inject [simp]:
  "stored_key_to_json s = stored_key_to_json t \<longleftrightarrow> s = t"
  by (metis option.inject stored_key_roundtrip)

lemma key_path_inject [simp]: "key_path a = key_path b \<longleftrightarrow> a = b"
  by (simp add: key_path_def)

lemma org_index_path_inject [simp]: "org_index_path a = org_index_path b \<longleftrightarrow> a = b"
  by (simp add: org_index_path_def)

lemma key_path_not_index [simp]:
  "key_path a \<noteq> org_index_path b" "org_index_path b \<noteq> key_path a"
  by (simp_all add: key_path_def org_index_path_def)

end
