(* ===== verification/Protocol.thy ===== *)
theory Protocol
  imports Store
begin

text \<open>
  The compare-and-set discipline shared by every durable component.  \<open>kv_contract\<close> is the
  documented behaviour of the storage service, a hypothesis on the server relation: reads, and
  requests to other services, change nothing; a read
  returns the stored text with its revision, a conditional write takes effect only at the
  revision it names and moves the revision forward, and a failed exchange may or may not
  have taken effect.

  \<open>gwp\<close> is a weakest-precondition calculus for interaction trees that tracks which
  entries a handler has read and demands that each write either creates an entry or is an
  allowed successor of the entry read at the revision it names.  The locale
  \<open>cas_protocol\<close> turns that local check of the handlers into a global statement: in every
  interleaving of any number of handlers, on any number of replicas, every entry evolves by
  allowed steps only.
\<close>

section \<open>The contract of the storage service\<close>

definition rev_of :: "kv_view \<Rightarrow> string \<Rightarrow> u64" where
  "rev_of \<sigma> key = (case \<sigma> key of None \<Rightarrow> 0 | Some (raw, r) \<Rightarrow> r)"

definition rq_key :: "kv_request \<Rightarrow> string option" where
  "rq_key rq = (case rq_query rq of [(q, k)] \<Rightarrow> (if q = ''key'' then Some k else None) | _ \<Rightarrow> None)"

definition rq_write :: "kv_request \<Rightarrow> (string \<times> u64) option" where
  "rq_write rq =
     Option.bind (rq_body rq) (\<lambda>b.
     Option.bind (get_as as_str b ''value'') (\<lambda>raw.
     map_option (\<lambda>prev. (raw, prev)) (get_as as_u64 b ''prev_revision'')))"

definition get_reply :: "externals \<Rightarrow> kv_response \<Rightarrow> store_error + versioned_value option" where
  "get_reply X r = rbind (json_body r) (parse_get_body X)"

definition put_reply :: "kv_response \<Rightarrow> store_error + cas_outcome" where
  "put_reply r = rbind (json_body r) parse_put_response"

definition reads :: "externals \<Rightarrow> (string \<times> u64) option \<Rightarrow> versioned_value option \<Rightarrow> bool" where
  "reads X entry e \<longleftrightarrow>
     (case e of
        None \<Rightarrow> entry = None
      | Some vv \<Rightarrow> (\<exists>raw. entry = Some (raw, vv_mod_revision vv)
                         \<and> json_from_str X raw = Some (vv_value vv)))"

definition kv_contract :: "externals \<Rightarrow> server \<Rightarrow> bool" where
  "kv_contract X server \<longleftrightarrow>
     (\<forall>\<sigma> rq r \<sigma>'. server \<sigma> rq r \<sigma>' \<longrightarrow>
        (rq_method rq = GET \<longrightarrow> \<sigma>' = \<sigma>)
      \<and> (\<forall>key. rq_method rq = GET \<and> rq_key rq = Some key \<longrightarrow>
           (\<forall>e. get_reply X r = Inr e \<longrightarrow> reads X (\<sigma> key) e))
      \<and> (\<forall>key raw prev.
           rq_method rq = PUT \<and> rq_key rq = Some key \<and> rq_write rq = Some (raw, prev) \<longrightarrow>
             \<sigma>' = \<sigma> \<and> put_reply r \<noteq> Inr Applied
           \<or> put_reply r \<noteq> Inr Mismatch \<and> rev_of \<sigma> key = prev
             \<and> (\<exists>rv. prev < rv \<and> \<sigma>' = \<sigma>(key \<mapsto> (raw, rv)))))"

section \<open>Weakest preconditions for handlers\<close>

type_synonym observations = "(string \<times> u64 \<times> json) set"
type_synonym creates = "string \<Rightarrow> json \<Rightarrow> bool"
type_synonym updates = "string \<Rightarrow> json \<Rightarrow> json \<Rightarrow> bool"

definition observed :: "externals \<Rightarrow> string \<Rightarrow> kv_response \<Rightarrow> observations" where
  "observed X key r =
     {(key, rv, v) | rv v. get_reply X r = Inr (Some \<lparr>vv_value = v, vv_mod_revision = rv\<rparr>)}"

text \<open>A request without a key goes to another service and observes nothing of the store.\<close>

definition seen :: "externals \<Rightarrow> kv_request \<Rightarrow> kv_response \<Rightarrow> observations" where
  "seen X rq r = (case rq_key rq of Some key \<Rightarrow> observed X key r | None \<Rightarrow> {})"

definition may_write ::
  "creates \<Rightarrow> updates \<Rightarrow> observations \<Rightarrow> string \<Rightarrow> json \<Rightarrow> u64 \<Rightarrow> bool" where
  "may_write ini upd H key v prev \<longleftrightarrow>
     prev = 0 \<and> ini key v \<or> (\<exists>v0. (key, prev, v0) \<in> H \<and> upd key v0 v)"

primrec gwp ::
  "externals \<Rightarrow> creates \<Rightarrow> updates \<Rightarrow> ('c, 'a) eff \<Rightarrow> ('a \<Rightarrow> observations \<Rightarrow> bool) \<Rightarrow>
   observations \<Rightarrow> bool" where
  "gwp X ini upd (Done x) = (\<lambda>Q H. Q x H)"
| "gwp X ini upd (Send rq k) = (\<lambda>Q H.
     (case rq_method rq of
        GET \<Rightarrow> (\<forall>r. gwp X ini upd (k r) Q (H \<union> seen X rq r))
      | PUT \<Rightarrow> (\<exists>key v prev. rq_key rq = Some key \<and> rq_write rq = Some (json_to_string X v, prev)
                      \<and> may_write ini upd H key v prev)
               \<and> (\<forall>r. gwp X ini upd (k r) Q H)))"
| "gwp X ini upd (Locked g k) = (\<lambda>Q H. \<forall>c. gwp X ini upd (k c) Q H)"

abbreviation guarded ::
  "externals \<Rightarrow> creates \<Rightarrow> updates \<Rightarrow> ('c, 'a) eff \<Rightarrow> observations \<Rightarrow> bool" where
  "guarded X ini upd p H \<equiv> gwp X ini upd p (\<lambda>_ _. True) H"

section \<open>What a transition of one entry may do\<close>

definition entry_step ::
  "externals \<Rightarrow> creates \<Rightarrow> updates \<Rightarrow> string \<Rightarrow>
   (string \<times> u64) option \<Rightarrow> (string \<times> u64) option \<Rightarrow> bool" where
  "entry_step X ini upd key e e' \<longleftrightarrow>
     e' = e
   \<or> e = None \<and> (\<exists>v rv. e' = Some (json_to_string X v, rv) \<and> ini key v)
   \<or> (\<exists>raw r v0 v rv. e = Some (raw, r) \<and> json_from_str X raw = Some v0 \<and> r < rv
        \<and> e' = Some (json_to_string X v, rv) \<and> upd key v0 v)"

definition revs_positive :: "kv_view \<Rightarrow> bool" where
  "revs_positive \<sigma> \<longleftrightarrow> (\<forall>key raw r. \<sigma> key = Some (raw, r) \<longrightarrow> 0 < r)"

text \<open>The ghost history of every entry ever stored.\<close>

type_synonym history = "(string \<times> u64 \<times> string) set"

definition hist_ok :: "kv_view \<Rightarrow> history \<Rightarrow> bool" where
  "hist_ok \<sigma> G \<longleftrightarrow>
     (\<forall>key raw r. \<sigma> key = Some (raw, r) \<longrightarrow> (key, r, raw) \<in> G)
   \<and> (\<forall>key r raw raw'. (key, r, raw) \<in> G \<longrightarrow> (key, r, raw') \<in> G \<longrightarrow> raw = raw')
   \<and> (\<forall>key r raw. (key, r, raw) \<in> G \<longrightarrow> 0 < r \<and> r \<le> rev_of \<sigma> key)"

definition obs_sound :: "externals \<Rightarrow> history \<Rightarrow> observations \<Rightarrow> bool" where
  "obs_sound X G H \<longleftrightarrow>
     (\<forall>key r v. (key, r, v) \<in> H \<longrightarrow> (\<exists>raw. (key, r, raw) \<in> G \<and> json_from_str X raw = Some v))"

definition sys_inv ::
  "externals \<Rightarrow> creates \<Rightarrow> updates \<Rightarrow> ('c, 'a) sys \<Rightarrow> bool" where
  "sys_inv X ini upd s \<longleftrightarrow>
     (\<exists>G. hist_ok (sys_kv s) G
        \<and> (\<forall>t i p. sys_threads s t = Some (i, p) \<longrightarrow>
             (\<exists>H. obs_sound X G H \<and> guarded X ini upd p H)))"

section \<open>Rules of the calculus\<close>

lemma gwp_mono:
  assumes "gwp X ini upd p Q H" and "\<And>x H'. Q x H' \<Longrightarrow> Q' x H'"
  shows "gwp X ini upd p Q' H"
  using assms(1)
proof (induction p arbitrary: H)
  case (Done x)
  then show ?case using assms(2) by simp
next
  case (Send rq k)
  have IH: "gwp X ini upd (k r) Q H' \<Longrightarrow> gwp X ini upd (k r) Q' H'" for r H'
    by (rule Send.IH) auto
  from Send.prems show ?case
    by (cases "rq_method rq") (auto intro: IH)
next
  case (Locked g k)
  then show ?case by auto
qed

text \<open>What is allowed by some rules is allowed by weaker ones, such as those of several components together.\<close>

lemma gwp_rules_mono:
  assumes "gwp X ini upd p Q H" "\<And>key v. ini key v \<Longrightarrow> ini' key v" "\<And>key v0 v. upd key v0 v \<Longrightarrow> upd' key v0 v"
  shows "gwp X ini' upd' p Q H"
  using assms(1)
proof (induction p arbitrary: H)
  case (Send rq k)
  have IH: "gwp X ini upd (k r) Q H' \<Longrightarrow> gwp X ini' upd' (k r) Q H'" for r H'
    by (rule Send.IH) auto
  have "may_write ini upd H' key v prev \<Longrightarrow> may_write ini' upd' H' key v prev" for H' key v prev
    using assms(2,3) unfolding may_write_def by blast
  with Send.prems show ?case
    by (cases "rq_method rq") (auto intro: IH, blast)
qed auto

lemma gwp_bind:
  "gwp X ini upd (eff_bind m f) Q H = gwp X ini upd m (\<lambda>x H'. gwp X ini upd (f x) Q H') H"
  by (induction m arbitrary: H) (auto split: http_method.splits)

lemma gwp_try:
  "gwp X ini upd (eff_try m f) Q H =
     gwp X ini upd m (\<lambda>r H'. case r of Inl e \<Rightarrow> Q (Inl e) H' | Inr x \<Rightarrow> gwp X ini upd (f x) Q H') H"
proof -
  have "(\<lambda>x H'. gwp X ini upd (case x of Inl e \<Rightarrow> Done (Inl e) | Inr x \<Rightarrow> f x) Q H') =
    (\<lambda>r H'. case r of Inl e \<Rightarrow> Q (Inl e) H' | Inr x \<Rightarrow> gwp X ini upd (f x) Q H')"
    by (rule ext)+ (simp split: sum.split)
  then show ?thesis by (simp add: eff_try_def gwp_bind)
qed

lemma gwp_map: "gwp X ini upd (eff_map g m) Q H = gwp X ini upd m (\<lambda>x. Q (g x)) H"
  by (simp add: eff_map_def gwp_bind)

lemma guarded_cas_retry:
  assumes "\<And>H. guarded X ini upd body H"
  shows "guarded X ini upd (cas_retry n e body) H"
proof (induction n arbitrary: H)
  case (Suc n)
  have "guarded X ini upd body H" by (rule assms)
  then show ?case
    by (simp add: gwp_bind) (erule gwp_mono, simp split: option.split add: Suc)
qed simp

lemma rq_key_trusted [simp]: "rq_key (trusted_request kv rq) = rq_key rq"
  by (simp add: rq_key_def trusted_request_def)

lemma kv_get_request_sel [simp]:
  "rq_key (kv_get_request kv key) = Some key" "rq_method (kv_get_request kv key) = GET"
  by (simp_all add: kv_get_request_def rq_key_def trusted_request_def)

lemma kv_put_request_sel [simp]:
  "rq_key (kv_put_request X kv key v prev) = Some key"
  "rq_method (kv_put_request X kv key v prev) = PUT"
  "rq_write (kv_put_request X kv key v (Some r)) = Some (json_to_string X v, r)"
  by (simp_all add: kv_put_request_def rq_key_def rq_write_def trusted_request_def)

text \<open>Reading: the continuation must be safe for an error, for absence and for any entry.\<close>

lemma gwp_get_versioned:
  assumes "\<And>e. Q (Inl e) H" and "Q (Inr None) H"
    and "\<And>v r. Q (Inr (Some \<lparr>vv_value = v, vv_mod_revision = r\<rparr>)) (insert (key, r, v) H)"
  shows "gwp X ini upd (get_versioned X kv key) Q H"
proof -
  have "Q (get_reply X r) (H \<union> observed X key r)" for r
  proof (cases "get_reply X r")
    case (Inl e)
    then show ?thesis using assms(1) by (simp add: observed_def)
  next
    case (Inr e)
    show ?thesis
    proof (cases e)
      case None
      with Inr show ?thesis using assms(2) by (simp add: observed_def)
    next
      case (Some vv)
      obtain v rv where vv: "vv = \<lparr>vv_value = v, vv_mod_revision = rv\<rparr>" by (cases vv) auto
      with Inr Some have "observed X key r = {(key, rv, v)}" by (auto simp: observed_def)
      with Inr Some vv show ?thesis using assms(3) [of v rv] by simp
    qed
  qed
  then show ?thesis by (simp add: get_versioned_def get_reply_def seen_def)
qed

lemma gwp_kv_get:
  assumes "\<And>e. Q (Inl e) H" and "Q (Inr None) H"
    and "\<And>v r. Q (Inr (Some v)) (insert (key, r, v) H)"
  shows "gwp X ini upd (kv_get X kv key) Q H"
  unfolding kv_get_def gwp_try using assms by (intro gwp_get_versioned) auto

lemma gwp_put_if_revision:
  assumes "may_write ini upd H key v prev" and "\<And>res. Q res H"
  shows "gwp X ini upd (put_if_revision X kv key v prev) Q H"
  using assms by (auto simp: put_if_revision_def put_inner_def)

section \<open>Preservation of the global invariant\<close>

lemma hist_okD:
  assumes "hist_ok \<sigma> G"
  shows "\<sigma> key = Some (raw, r) \<Longrightarrow> (key, r, raw) \<in> G"
    and "(key, r, raw) \<in> G \<Longrightarrow> (key, r, raw') \<in> G \<Longrightarrow> raw = raw'"
    and "(key, r, raw) \<in> G \<Longrightarrow> 0 < r"
    and "(key, r, raw) \<in> G \<Longrightarrow> r \<le> rev_of \<sigma> key"
  using assms unfolding hist_ok_def by blast+

lemma hist_ok_unchanged_obs:
  assumes "hist_ok \<sigma> G" "reads X (\<sigma> key) (Some \<lparr>vv_value = v, vv_mod_revision = r\<rparr>)"
  shows "\<exists>raw. (key, r, raw) \<in> G \<and> json_from_str X raw = Some v"
  using assms by (auto simp: hist_ok_def reads_def)

lemma obs_sound_read:
  assumes "hist_ok \<sigma> G" "obs_sound X G H"
    and "\<And>key e. rq_key rq = Some key \<Longrightarrow> get_reply X r = Inr e \<Longrightarrow> reads X (\<sigma> key) e"
  shows "obs_sound X G (H \<union> seen X rq r)"
proof (cases "rq_key rq")
  case (Some key)
  with assms hist_ok_unchanged_obs [OF assms(1)] show ?thesis
    by (fastforce simp: obs_sound_def observed_def seen_def)
qed (simp add: assms(2) seen_def)

lemma hist_ok_write:
  assumes "hist_ok \<sigma> G" "rev_of \<sigma> key < rv"
  shows "hist_ok (\<sigma>(key \<mapsto> (raw, rv))) (insert (key, rv, raw) G)"
proof -
  have fresh: "(key, rv, raw') \<notin> G" for raw'
    using hist_okD(4) [OF assms(1), of key rv raw'] assms(2) by auto
  have le: "rev_of \<sigma> k \<le> rev_of (\<sigma>(key \<mapsto> (raw, rv))) k" for k
    using assms(2) by (auto simp: rev_of_def split: option.splits)
  show ?thesis
    unfolding hist_ok_def
  proof (intro conjI allI impI)
    fix k r x assume "(\<sigma>(key \<mapsto> (raw, rv))) k = Some (x, r)"
    then show "(k, r, x) \<in> insert (key, rv, raw) G"
      using assms(1) by (auto simp: hist_ok_def split: if_splits)
  next
    fix k r x x'
    assume "(k, r, x) \<in> insert (key, rv, raw) G" "(k, r, x') \<in> insert (key, rv, raw) G"
    then show "x = x'" using fresh assms(1) by (auto simp: hist_ok_def)
  next
    fix k r x assume mem: "(k, r, x) \<in> insert (key, rv, raw) G"
    have "0 < rv" using assms(2) le_less_trans [OF word_zero_le] by blast
    then show "0 < r" using mem hist_okD(3) [OF assms(1)] by blast
    show "r \<le> rev_of (\<sigma>(key \<mapsto> (raw, rv))) k"
    proof (cases "(k, r, x) \<in> G")
      case True
      then have "r \<le> rev_of \<sigma> k" using hist_okD(4) [OF assms(1)] by blast
      then show ?thesis using le order_trans by blast
    next
      case False
      with mem show ?thesis by (simp add: rev_of_def)
    qed
  qed
qed

lemma obs_sound_mono: "obs_sound X G H \<Longrightarrow> G \<subseteq> G' \<Longrightarrow> obs_sound X G' H"
  by (fastforce simp: obs_sound_def)

lemma write_entry_step:
  assumes "hist_ok \<sigma> G" "obs_sound X G H" "may_write ini upd H key v prev"
    and "rev_of \<sigma> key = prev" "prev < rv"
  shows "entry_step X ini upd key (\<sigma> key) (Some (json_to_string X v, rv))"
proof -
  have absent: "\<sigma> key = None" if "prev = 0"
  proof (rule ccontr)
    assume "\<sigma> key \<noteq> None"
    then obtain raw r where e: "\<sigma> key = Some (raw, r)" by auto
    with hist_okD(3) [OF assms(1) hist_okD(1) [OF assms(1)]] have "0 < r" by blast
    with e that assms(4) show False by (simp add: rev_of_def)
  qed
  from assms(3) consider "prev = 0" "ini key v"
    | v0 where "(key, prev, v0) \<in> H" "upd key v0 v"
    by (auto simp: may_write_def)
  then show ?thesis
  proof cases
    case 1
    with absent show ?thesis by (auto simp: entry_step_def)
  next
    case 2
    then obtain raw where raw: "(key, prev, raw) \<in> G" "json_from_str X raw = Some v0"
      using assms(2) unfolding obs_sound_def by blast
    then have "0 < prev" using hist_okD(3) [OF assms(1)] by blast
    then obtain raw' where raw': "\<sigma> key = Some (raw', prev)"
      using assms(4) by (auto simp: rev_of_def split: option.splits)
    with raw have "raw' = raw" using hist_okD(1,2) [OF assms(1)] by blast
    with raw raw' 2 assms(5) show ?thesis by (auto simp: entry_step_def)
  qed
qed


lemma kv_contract_GET:
  assumes "kv_contract X server" "server \<sigma> rq r \<sigma>'" "rq_method rq = GET"
  shows "\<sigma>' = \<sigma>" and "\<And>key e. rq_key rq = Some key \<Longrightarrow> get_reply X r = Inr e \<Longrightarrow> reads X (\<sigma> key) e"
  using assms unfolding kv_contract_def by blast+

lemma kv_contract_PUT:
  assumes "kv_contract X server" "server \<sigma> rq r \<sigma>'" "rq_method rq = PUT" "rq_key rq = Some key"
    and "rq_write rq = Some (raw, prev)"
  obtains (same) "\<sigma>' = \<sigma>" "put_reply r \<noteq> Inr Applied"
    | (written) rv where "put_reply r \<noteq> Inr Mismatch" "rev_of \<sigma> key = prev" "prev < rv"
        "\<sigma>' = \<sigma>(key \<mapsto> (raw, rv))"
  using assms unfolding kv_contract_def by blast

text \<open>One answered request: the history grows, the handler stays guarded, entries step.\<close>

lemma answer_preserves:
  assumes "kv_contract X server" "server \<sigma> rq r \<sigma>'"
    and "hist_ok \<sigma> G" "obs_sound X G H" "guarded X ini upd (Send rq k) H"
  shows "\<exists>G' H'. G \<subseteq> G' \<and> hist_ok \<sigma>' G' \<and> obs_sound X G' H' \<and> guarded X ini upd (k r) H'
           \<and> (\<forall>key. entry_step X ini upd key (\<sigma> key) (\<sigma>' key))"
proof -
  show ?thesis
  proof (cases "rq_method rq")
    case GET
    with assms(5) have "guarded X ini upd (k r) (H \<union> seen X rq r)" by auto
    moreover have "obs_sound X G (H \<union> seen X rq r)"
      using kv_contract_GET(2) [OF assms(1,2) GET] by (rule obs_sound_read [OF assms(3,4)])
    ultimately show ?thesis
      using kv_contract_GET(1) [OF assms(1,2) GET] assms(3)
      by (auto simp: entry_step_def)
  next
    case PUT
    with assms(5) obtain key v prev where key: "rq_key rq = Some key"
      and w: "rq_write rq = Some (json_to_string X v, prev)"
      "may_write ini upd H key v prev" "guarded X ini upd (k r) H" by auto
    show ?thesis
    proof (rule kv_contract_PUT [OF assms(1,2) PUT key w(1)])
      assume "\<sigma>' = \<sigma>"
      with w assms(3,4) show ?thesis by (auto simp: entry_step_def)
    next
      fix rv assume rv: "rev_of \<sigma> key = prev" "prev < rv"
        and \<sigma>': "\<sigma>' = \<sigma>(key \<mapsto> (json_to_string X v, rv))"
      let ?G = "insert (key, rv, json_to_string X v) G"
      have "hist_ok \<sigma>' ?G" unfolding \<sigma>' using assms(3) rv by (simp add: hist_ok_write)
      moreover have "obs_sound X ?G H" using assms(4) by (rule obs_sound_mono) auto
      moreover have "entry_step X ini upd key (\<sigma> key) (\<sigma>' key)"
        unfolding \<sigma>' using write_entry_step [OF assms(3,4) w(2) rv] by simp
      ultimately show ?thesis using w(3) \<sigma>' by (auto simp: entry_step_def)
    qed
  qed
qed

text \<open>
  Provided every operation is guarded, a step of the system keeps the invariant and moves
  every entry by an allowed transition.
\<close>

lemma sys_step_inv:
  assumes contract: "kv_contract X server"
    and ops: "\<And>p. p \<in> Ops \<Longrightarrow> guarded X ini upd p {}"
    and inv: "sys_inv X ini upd s" and step: "sys_step server Ops s s'"
  shows "sys_inv X ini upd s' \<and> (\<forall>key. entry_step X ini upd key (sys_kv s key) (sys_kv s' key))"
  using step
proof cases
  case (spawn p t i)
  from inv obtain G where G: "hist_ok (sys_kv s) G"
    "\<And>t i p. sys_threads s t = Some (i, p) \<Longrightarrow> \<exists>H. obs_sound X G H \<and> guarded X ini upd p H"
    by (auto simp: sys_inv_def)
  have "\<exists>H. obs_sound X G H \<and> guarded X ini upd p H"
    using ops [OF spawn(2)] by (intro exI [of _ "{}"]) (simp add: obs_sound_def)
  with G spawn show ?thesis by (auto simp: sys_inv_def entry_step_def)
next
  case (answer t i rq k r \<sigma>)
  from inv obtain G where G: "hist_ok (sys_kv s) G"
    "\<And>t i p. sys_threads s t = Some (i, p) \<Longrightarrow> \<exists>H. obs_sound X G H \<and> guarded X ini upd p H"
    by (auto simp: sys_inv_def)
  from G(2) [OF answer(2)] obtain H where H: "obs_sound X G H" "guarded X ini upd (Send rq k) H"
    by blast
  from answer_preserves [OF contract answer(3) G(1) H] obtain G' H' where G':
    "G \<subseteq> G'" "hist_ok \<sigma> G'" "obs_sound X G' H'" "guarded X ini upd (k r) H'"
    "\<And>key. entry_step X ini upd key (sys_kv s key) (\<sigma> key)"
    by blast
  then have "\<exists>H. obs_sound X G' H \<and> guarded X ini upd p' H"
    if "sys_threads s' t' = Some (i', p')" for t' i' p'
    using that G(2) [of t' i' p'] obs_sound_mono [OF _ G'(1)] answer(1)
    by (auto split: if_splits)
  then have "sys_inv X ini upd s'"
    unfolding sys_inv_def using G'(2) answer(1) by (intro exI [of _ G']) simp
  with G'(5) answer(1) show ?thesis by simp
next
  case (critical t i g k)
  from inv obtain G where G: "hist_ok (sys_kv s) G"
    "\<And>t i p. sys_threads s t = Some (i, p) \<Longrightarrow> \<exists>H. obs_sound X G H \<and> guarded X ini upd p H"
    by (auto simp: sys_inv_def)
  from G(2) [OF critical(2)] have "\<exists>H. obs_sound X G H \<and> guarded X ini upd (k (sys_local s i)) H"
    by auto
  with G critical(1) show ?thesis by (auto simp: sys_inv_def entry_step_def)
next
  case (cancel t th)
  with inv show ?thesis by (fastforce simp: sys_inv_def entry_step_def)
next
  case (restart i c)
  with inv show ?thesis by (auto simp: sys_inv_def entry_step_def)
qed

lemma sys_inv_init:
  assumes "revs_positive \<sigma>"
  shows "sys_inv X ini upd (sys_init \<sigma> l)"
proof -
  have "hist_ok \<sigma> {(key, r, raw). \<sigma> key = Some (raw, r)}"
    using assms by (auto simp: hist_ok_def revs_positive_def rev_of_def)
  then show ?thesis by (auto simp: sys_inv_def sys_init_def)
qed

section \<open>The interface of a durable component\<close>

text \<open>
  A component offers operations that are guarded by its creation and update rules; it gets
  back that every transition of every interleaving follows these rules.
\<close>

locale cas_protocol =
  fixes X :: externals
    and ini :: creates
    and upd :: updates
    and Ops :: "('c, 'a) eff set"
  assumes ops_guarded: "p \<in> Ops \<Longrightarrow> guarded X ini upd p {}"
begin

lemma reachable_inv:
  assumes "kv_contract X server" "revs_positive \<sigma>"
    and "(sys_step server Ops)\<^sup>*\<^sup>* (sys_init \<sigma> l) s"
  shows "sys_inv X ini upd s"
  using assms(3)
proof (induction rule: rtranclp_induct)
  case base
  show ?case using assms(2) by (rule sys_inv_init)
next
  case (step s s')
  then show ?case using sys_step_inv [OF assms(1) ops_guarded] by blast
qed

lemma reachable_step:
  assumes "kv_contract X server" "revs_positive \<sigma>"
    and "(sys_step server Ops)\<^sup>*\<^sup>* (sys_init \<sigma> l) s" "sys_step server Ops s s'"
  shows "entry_step X ini upd key (sys_kv s key) (sys_kv s' key)"
  using sys_step_inv [OF assms(1) ops_guarded reachable_inv [OF assms(1-3)] assms(4)] by blast

text \<open>One step writes at most one entry.\<close>

lemma reachable_one_write:
  assumes "kv_contract X server" "revs_positive \<sigma>"
    and "(sys_step server Ops)\<^sup>*\<^sup>* (sys_init \<sigma> l) s" "sys_step server Ops s s'"
  obtains key where "\<And>k. k \<noteq> key \<Longrightarrow> sys_kv s' k = sys_kv s k"
  using assms(4)
proof cases
  case (answer t i rq k r \<sigma>')
  from reachable_inv [OF assms(1-3)] answer(2) obtain H where H: "guarded X ini upd (Send rq k) H"
    unfolding sys_inv_def by blast
  have "\<exists>key. \<forall>j. j \<noteq> key \<longrightarrow> \<sigma>' j = sys_kv s j"
  proof (cases "rq_method rq")
    case GET
    then show ?thesis using kv_contract_GET(1) [OF assms(1) answer(3)] by simp
  next
    case PUT
    with H obtain key v prev where w: "rq_key rq = Some key" "rq_write rq = Some (json_to_string X v, prev)"
      by auto
    show ?thesis
      by (rule kv_contract_PUT [OF assms(1) answer(3) PUT w]) (auto intro: exI [of _ key])
  qed
  then show thesis using that answer(1) by auto
qed (use that in auto)

end

text \<open>
  When the update rule lies inside a preorder on the stored texts, entries only move up in
  that preorder and never disappear, however many steps are taken.
\<close>

locale cas_evolution = cas_protocol X ini upd Ops
  for X :: externals and ini :: creates and upd :: updates and Ops :: "('c, 'a) eff set" +
  fixes le :: "string \<Rightarrow> string \<Rightarrow> string \<Rightarrow> bool"
  assumes le_refl: "le key raw raw"
    and le_trans: "le key raw raw' \<Longrightarrow> le key raw' raw'' \<Longrightarrow> le key raw raw''"
    and upd_le: "json_from_str X raw = Some v0 \<Longrightarrow> upd key v0 v \<Longrightarrow> le key raw (json_to_string X v)"
begin

lemma entry_evolves:
  assumes "kv_contract X server" "revs_positive \<sigma>"
    and "(sys_step server Ops)\<^sup>*\<^sup>* (sys_init \<sigma> l) s" "(sys_step server Ops)\<^sup>*\<^sup>* s s'"
    and "sys_kv s key = Some (raw, r)"
  shows "\<exists>raw' r'. sys_kv s' key = Some (raw', r') \<and> r \<le> r' \<and> le key raw raw'"
  using assms(4)
proof (induction rule: rtranclp_induct)
  case base
  show ?case using assms(5) le_refl by auto
next
  case (step u u')
  then obtain raw1 r1 where u: "sys_kv u key = Some (raw1, r1)" "r \<le> r1" "le key raw raw1"
    by blast
  have "(sys_step server Ops)\<^sup>*\<^sup>* (sys_init \<sigma> l) u" using assms(3) step(1) by (rule rtranclp_trans)
  from reachable_step [OF assms(1,2) this step(2), of key]
  consider "sys_kv u' key = sys_kv u key"
    | v0 v r2 where "json_from_str X raw1 = Some v0" "r1 < r2"
        "sys_kv u' key = Some (json_to_string X v, r2)" "upd key v0 v"
    unfolding entry_step_def u(1) by auto
  then show ?case
  proof cases
    case 1
    with u show ?thesis by auto
  next
    case 2
    with u upd_le [OF 2(1) 2(4)] le_trans [OF u(3)] show ?thesis by force
  qed
qed

end


section \<open>Results of one handler under interference\<close>

text \<open>
  \<open>rwp server I Q p\<close>: whenever handler \<open>p\<close> is answered by the server in states that satisfy
  \<open>I\<close>, with arbitrary interference between its steps, its result satisfies \<open>Q\<close>.
\<close>

primrec rwp :: "server \<Rightarrow> (kv_view \<Rightarrow> bool) \<Rightarrow> ('a \<Rightarrow> bool) \<Rightarrow> ('c, 'a) eff \<Rightarrow> bool" where
  "rwp server I Q (Done x) = Q x"
| "rwp server I Q (Send rq k) =
     (\<forall>\<sigma> r \<sigma>'. I \<sigma> \<and> server \<sigma> rq r \<sigma>' \<longrightarrow> rwp server I Q (k r))"
| "rwp server I Q (Locked g k) = (\<forall>c. rwp server I Q (k c))"

lemma rwp_bind: "rwp server I Q (eff_bind m f) = rwp server I (\<lambda>x. rwp server I Q (f x)) m"
  by (induction m) auto

lemma rwp_map: "rwp server I Q (eff_map g m) = rwp server I (\<lambda>x. Q (g x)) m"
  by (simp add: eff_map_def rwp_bind)

lemma rwp_try:
  "rwp server I Q (eff_try m f) =
     rwp server I (\<lambda>r. case r of Inl e \<Rightarrow> Q (Inl e) | Inr x \<Rightarrow> rwp server I Q (f x)) m"
proof -
  have "(\<lambda>x. rwp server I Q (case x of Inl e \<Rightarrow> Done (Inl e) | Inr x \<Rightarrow> f x)) =
    (\<lambda>r. case r of Inl e \<Rightarrow> Q (Inl e) | Inr x \<Rightarrow> rwp server I Q (f x))"
    by (rule ext) (simp split: sum.split)
  then show ?thesis by (simp add: eff_try_def rwp_bind)
qed

lemma rwp_mono: "rwp server I Q p \<Longrightarrow> (\<And>x. Q x \<Longrightarrow> Q' x) \<Longrightarrow> rwp server I Q' p"
  by (induction p) auto

lemma rwp_always: "(\<And>x. Q x) \<Longrightarrow> rwp server I Q p"
  by (induction p) auto

lemma rwp_get_versioned:
  assumes "kv_contract X server" and "\<And>e. Q (Inl e)"
    and "\<And>\<sigma> e. I \<sigma> \<Longrightarrow> reads X (\<sigma> key) e \<Longrightarrow> Q (Inr e)"
  shows "rwp server I Q (get_versioned X kv key)"
proof -
  have "Q (get_reply X r)" if "I \<sigma>" "server \<sigma> (kv_get_request kv key) r \<sigma>'" for \<sigma> r \<sigma>'
  proof (cases "get_reply X r")
    case (Inr e)
    with assms(1) that(2) have "reads X (\<sigma> key) e" by (auto simp: kv_contract_def)
    with Inr that(1) assms(3) show ?thesis by simp
  qed (simp add: assms(2))
  then show ?thesis by (auto simp: get_versioned_def get_reply_def)
qed

lemma rwp_kv_get:
  assumes "kv_contract X server" and "\<And>e. Q (Inl e)"
    and "\<And>\<sigma> e. I \<sigma> \<Longrightarrow> reads X (\<sigma> key) e \<Longrightarrow> Q (Inr (map_option vv_value e))"
  shows "rwp server I Q (kv_get X kv key)"
  unfolding kv_get_def rwp_try
  by (rule rwp_get_versioned [OF assms(1)]) (simp_all add: assms(2,3))

lemma rely_thread:
  assumes "(sys_step server Ops)\<^sup>*\<^sup>* s s'"
    and "\<And>u. (sys_step server Ops)\<^sup>*\<^sup>* s u \<Longrightarrow> (sys_step server Ops)\<^sup>*\<^sup>* u s' \<Longrightarrow> I (sys_kv u)"
    and "\<And>p. p \<in> Ops \<Longrightarrow> rwp server I Q p"
    and "\<And>i p. sys_threads s t = Some (i, p) \<Longrightarrow> rwp server I Q p"
    and "sys_threads s' t = Some (i, p)"
  shows "rwp server I Q p"
proof -
  have "rwp server I Q p" if "(sys_step server Ops)\<^sup>*\<^sup>* s u" "(sys_step server Ops)\<^sup>*\<^sup>* u s'"
      "sys_threads u t = Some (i, p)" for u i p
    using that
  proof (induction arbitrary: i p rule: rtranclp_induct)
    case base
    then show ?case by (intro assms(4))
  next
    case (step u u')
    have rest: "(sys_step server Ops)\<^sup>*\<^sup>* u s'"
      using step(2) step.prems(1) by (rule converse_rtranclp_into_rtranclp)
    have I: "I (sys_kv u)" using step(1) rest by (rule assms(2))
    note IH = step.IH [OF rest]
    from step(2) show ?case
    proof cases
      case (spawn p' t' j)
      with step.prems IH assms(3) show ?thesis by (auto split: if_splits)
    next
      case (answer t' j rq k r \<sigma>')
      with IH I have "t' = t \<Longrightarrow> rwp server I Q (k r)" by fastforce
      with answer step.prems IH show ?thesis by (auto split: if_splits)
    next
      case (critical t' j g k)
      with IH have "t' = t \<Longrightarrow> rwp server I Q (k c)" for c by fastforce
      with critical step.prems IH show ?thesis by (auto split: if_splits)
    next
      case (cancel t' th)
      with step.prems IH show ?thesis by (auto split: if_splits)
    next
      case (restart j c)
      with step.prems IH show ?thesis by auto
    qed
  qed
  then show ?thesis using assms(1,5) by blast
qed

section \<open>A handler alone on an answering service\<close>

text \<open>
  \<open>kv_reliable\<close> is the behaviour of the service when every exchange succeeds: a read returns
  the decoded entry, a conditional write is applied exactly when its revision is current.
\<close>

definition decoded :: "externals \<Rightarrow> (string \<times> u64) option \<Rightarrow> store_error + versioned_value option" where
  "decoded X entry =
     (case entry of
        None \<Rightarrow> Inr None
      | Some (raw, r) \<Rightarrow> rbind (ok_or (json_from_str X raw) InvalidValue)
                        (\<lambda>v. Inr (Some \<lparr>vv_value = v, vv_mod_revision = r\<rparr>)))"

definition kv_reliable :: "externals \<Rightarrow> kv_view server_fun \<Rightarrow> bool" where
  "kv_reliable X srv \<longleftrightarrow>
     (\<forall>\<sigma> rq r \<sigma>' key. srv \<sigma> rq = (r, \<sigma>') \<and> rq_key rq = Some key \<longrightarrow>
        (rq_method rq = GET \<longrightarrow> \<sigma>' = \<sigma> \<and> get_reply X r = decoded X (\<sigma> key))
      \<and> (\<forall>raw prev. rq_method rq = PUT \<and> rq_write rq = Some (raw, prev) \<longrightarrow>
          (if rev_of \<sigma> key = prev
           then put_reply r = Inr Applied \<and> (\<exists>rv. rv \<noteq> 0 \<and> \<sigma>' = \<sigma>(key \<mapsto> (raw, rv)))
           else put_reply r = Inr Mismatch \<and> \<sigma>' = \<sigma>)))"

lemma kv_reliableD:
  assumes "kv_reliable X srv" "srv \<sigma> rq = (r, \<sigma>')" "rq_key rq = Some key"
  shows "rq_method rq = GET \<Longrightarrow> \<sigma>' = \<sigma> \<and> get_reply X r = decoded X (\<sigma> key)"
    and "rq_method rq = PUT \<Longrightarrow> rq_write rq = Some (raw, prev) \<Longrightarrow>
      (if rev_of \<sigma> key = prev
       then put_reply r = Inr Applied \<and> (\<exists>rv. rv \<noteq> 0 \<and> \<sigma>' = \<sigma>(key \<mapsto> (raw, rv)))
       else put_reply r = Inr Mismatch \<and> \<sigma>' = \<sigma>)"
  using assms unfolding kv_reliable_def by simp_all

lemma run_get_versioned:
  assumes "kv_reliable X srv"
  shows "run srv (get_versioned X kv key) \<sigma> c = (decoded X (\<sigma> key), \<sigma>, c)"
proof -
  obtain r \<sigma>' where srv: "srv \<sigma> (kv_get_request kv key) = (r, \<sigma>')" by fastforce
  from kv_reliableD(1) [OF assms srv] srv show ?thesis
    by (simp add: get_versioned_def get_reply_def)
qed

lemma run_kv_get:
  assumes "kv_reliable X srv"
  shows "run srv (kv_get X kv key) \<sigma> c =
    (rbind (decoded X (\<sigma> key)) (\<lambda>e. Inr (map_option vv_value e)), \<sigma>, c)"
  by (auto simp: kv_get_def run_try run_get_versioned [OF assms] split: sum.split)

lemma run_put_applied:
  assumes "kv_reliable X srv" "rev_of \<sigma> key = prev"
  obtains rv where "rv \<noteq> 0" "run srv (put_if_revision X kv key v prev) \<sigma> c =
    (Inr Applied, \<sigma>(key \<mapsto> (json_to_string X v, rv)), c)"
proof -
  obtain r \<sigma>' where srv: "srv \<sigma> (kv_put_request X kv key v (Some prev)) = (r, \<sigma>')" by fastforce
  from kv_reliableD(2) [OF assms(1) srv, of key "json_to_string X v" prev] assms(2) srv
  show ?thesis by (auto simp: put_if_revision_def put_inner_def put_reply_def intro: that)
qed

lemma run_put_mismatch:
  assumes "kv_reliable X srv" "rev_of \<sigma> key \<noteq> prev"
  shows "run srv (put_if_revision X kv key v prev) \<sigma> c = (Inr Mismatch, \<sigma>, c)"
proof -
  obtain r \<sigma>' where srv: "srv \<sigma> (kv_put_request X kv key v (Some prev)) = (r, \<sigma>')" by fastforce
  from kv_reliableD(2) [OF assms(1) srv, of key "json_to_string X v" prev] assms(2) srv
  show ?thesis by (simp add: put_if_revision_def put_inner_def put_reply_def)
qed

lemma rev_of_upd [simp]: "rev_of (\<sigma>(key \<mapsto> (raw, rv))) key = rv"
  by (simp add: rev_of_def)

lemma rev_of_None [simp]: "\<sigma> key = None \<Longrightarrow> rev_of \<sigma> key = 0"
  by (simp add: rev_of_def)

lemma decoded_None [simp]: "decoded X None = Inr None"
  by (simp add: decoded_def)

lemma decoded_stored [simp]:
  "externals_ok X \<Longrightarrow> json_canon v \<Longrightarrow>
   decoded X (Some (json_to_string X v, r)) = Inr (Some \<lparr>vv_value = v, vv_mod_revision = r\<rparr>)"
  by (simp add: decoded_def externals_okD)

section \<open>Handlers that only read\<close>

primrec only_reads :: "('c, 'a) eff \<Rightarrow> bool" where
  "only_reads (Done x) = True"
| "only_reads (Send rq k) = (rq_method rq = GET \<and> (\<forall>r. only_reads (k r)))"
| "only_reads (Locked g k) = (\<forall>c. only_reads (k c))"

lemma only_reads_bind: "only_reads m \<Longrightarrow> (\<And>x. only_reads (f x)) \<Longrightarrow> only_reads (eff_bind m f)"
  by (induction m) auto

lemma only_reads_try: "only_reads m \<Longrightarrow> (\<And>x. only_reads (f x)) \<Longrightarrow> only_reads (eff_try m f)"
  unfolding eff_try_def by (rule only_reads_bind) (auto split: sum.split)

lemma only_reads_map: "only_reads m \<Longrightarrow> only_reads (eff_map g m)"
  unfolding eff_map_def by (rule only_reads_bind) auto

lemma only_reads_get [simp]: "only_reads (get_versioned X kv key)" "only_reads (kv_get X kv key)"
  by (auto simp: get_versioned_def kv_get_def intro: only_reads_try)

text \<open>A reading handler that runs alone is one possible schedule of the whole system.\<close>

lemma run_reaches:
  assumes "\<And>\<sigma> rq. rq_method rq = GET \<Longrightarrow> server \<sigma> rq (fst (srv \<sigma> rq)) (snd (srv \<sigma> rq))"
    and "only_reads p" "sys_threads s t = Some (i, p)"
    and "run srv p (sys_kv s) (sys_local s i) = (x, \<sigma>', c')"
  shows "\<exists>s'. (sys_step server Ops)\<^sup>*\<^sup>* s s' \<and> sys_threads s' t = Some (i, Done x)"
  using assms(2-4)
proof (induction p arbitrary: s)
  case (Done y)
  then show ?case by auto
next
  case (Send rq k)
  let ?r = "fst (srv (sys_kv s) rq)" and ?\<sigma> = "snd (srv (sys_kv s) rq)"
  let ?s = "s\<lparr>sys_kv := ?\<sigma>, sys_threads := (sys_threads s)(t \<mapsto> (i, k ?r))\<rparr>"
  have "sys_step server Ops s ?s"
    using Send.prems assms(1) by (intro sys_step.answer) auto
  moreover have "\<exists>s'. (sys_step server Ops)\<^sup>*\<^sup>* ?s s' \<and> sys_threads s' t = Some (i, Done x)"
    using Send.prems by (intro Send.IH [of "k ?r"]) auto
  ultimately show ?case by (meson converse_rtranclp_into_rtranclp)
next
  case (Locked g k)
  let ?c = "sys_local s i"
  let ?s = "s\<lparr>sys_local := (sys_local s)(i := g ?c), sys_threads := (sys_threads s)(t \<mapsto> (i, k ?c))\<rparr>"
  have "sys_step server Ops s ?s"
    using Locked.prems by (intro sys_step.critical) auto
  moreover have "\<exists>s'. (sys_step server Ops)\<^sup>*\<^sup>* ?s s' \<and> sys_threads s' t = Some (i, Done x)"
    using Locked.prems by (intro Locked.IH [of "k ?c"]) auto
  ultimately show ?case by (meson converse_rtranclp_into_rtranclp)
qed

end
