(* ===== verification/Reference.thy ===== *)
theory Reference
  imports Protocol
begin

text \<open>
  Concrete instances of the parameters: an executable text codec for JSON documents, a
  digest with the right output length, and a storage service that applies conditional
  writes in order.  They show that the hypotheses on the third-party code and on the
  service can be met, and the examples of the other theories run on them.
\<close>

section \<open>A text codec\<close>

function enc_nat :: "nat \<Rightarrow> string" where
  "enc_nat n = (if n = 0 then ''e'' else (if odd n then CHR ''1'' else CHR ''0'') # enc_nat (n div 2))"
  by pat_completeness auto
termination
  by (relation "measure id") auto

declare enc_nat.simps [simp del]

fun read_nat :: "string \<Rightarrow> (nat \<times> string) option" where
  "read_nat [] = None"
| "read_nat (c # r) =
     (if c = CHR ''e'' then Some (0, r)
      else if c = CHR ''1'' then map_option (\<lambda>(n, r). (2 * n + 1, r)) (read_nat r)
      else if c = CHR ''0'' then map_option (\<lambda>(n, r). (2 * n, r)) (read_nat r)
      else None)"

fun enc_str :: "string \<Rightarrow> string" where
  "enc_str [] = ''.''"
| "enc_str (c # s) = CHR ''c'' # c # enc_str s"

fun read_str :: "string \<Rightarrow> (string \<times> string) option" where
  "read_str (a # c # r) =
     (if a = CHR ''.'' then Some ([], c # r)
      else if a = CHR ''c'' then map_option (\<lambda>(s, r). (c # s, r)) (read_str r)
      else None)"
| "read_str [a] = (if a = CHR ''.'' then Some ([], []) else None)"
| "read_str [] = None"

fun enc_num :: "json_number \<Rightarrow> string" where
  "enc_num (PosInt w) = CHR ''p'' # enc_nat (unat w)"
| "enc_num (NegInt i) = (if i < 0 then CHR ''m'' # enc_nat (nat (- i)) else CHR ''q'' # enc_nat (nat i))"
| "enc_num (Float w) = CHR ''x'' # enc_nat (unat w)"

fun read_num :: "string \<Rightarrow> (json_number \<times> string) option" where
  "read_num [] = None"
| "read_num (c # r) =
     map_option (\<lambda>(n, r).
       (if c = CHR ''p'' then PosInt (of_nat n)
        else if c = CHR ''m'' then NegInt (- int n)
        else if c = CHR ''q'' then NegInt (int n)
        else Float (of_nat n), r)) (read_nat r)"

fun enc_json :: "json \<Rightarrow> string" where
  "enc_json VNull = ''n''"
| "enc_json (VBool b) = (if b then ''t'' else ''f'')"
| "enc_json (VNum n) = CHR ''d'' # enc_num n"
| "enc_json (VStr s) = CHR ''s'' # enc_str s"
| "enc_json (VArr vs) = CHR ''a'' # concat (map (\<lambda>v. CHR ''+'' # enc_json v) vs) @ ''.''"
| "enc_json (VObj fs) =
     CHR ''o'' # concat (map (\<lambda>(k, v). CHR ''+'' # enc_str k @ enc_json v) fs) @ ''.''"

fun read_json :: "nat \<Rightarrow> string \<Rightarrow> (json \<times> string) option"
and read_items :: "nat \<Rightarrow> string \<Rightarrow> (json list \<times> string) option"
and read_members :: "nat \<Rightarrow> string \<Rightarrow> ((string \<times> json) list \<times> string) option" where
  "read_json (Suc k) (c # r) =
     (if c = CHR ''n'' then Some (VNull, r)
      else if c = CHR ''t'' then Some (VBool True, r)
      else if c = CHR ''f'' then Some (VBool False, r)
      else if c = CHR ''d'' then map_option (\<lambda>(n, r). (VNum n, r)) (read_num r)
      else if c = CHR ''s'' then map_option (\<lambda>(s, r). (VStr s, r)) (read_str r)
      else if c = CHR ''a'' then map_option (\<lambda>(vs, r). (VArr vs, r)) (read_items k r)
      else if c = CHR ''o'' then map_option (\<lambda>(fs, r). (VObj fs, r)) (read_members k r)
      else None)"
| "read_json _ _ = None"
| "read_items (Suc k) (c # r) =
     (if c = CHR ''.'' then Some ([], r)
      else Option.bind (read_json k r) (\<lambda>(v, r).
           map_option (\<lambda>(vs, r). (v # vs, r)) (read_items k r)))"
| "read_items _ _ = None"
| "read_members (Suc k) (c # r) =
     (if c = CHR ''.'' then Some ([], r)
      else Option.bind (read_str r) (\<lambda>(key, r).
           Option.bind (read_json k r) (\<lambda>(v, r).
           map_option (\<lambda>(fs, r). ((key, v) # fs, r)) (read_members k r))))"
| "read_members _ _ = None"

definition parse_json :: "string \<Rightarrow> json option" where
  "parse_json s = (case read_json (length s) s of Some (v, []) \<Rightarrow> Some v | _ \<Rightarrow> None)"

lemma read_enc_nat [simp]: "read_nat (enc_nat n @ r) = Some (n, r)"
proof (induction n arbitrary: r rule: enc_nat.induct)
  case (1 n)
  show ?case
  proof (cases "n = 0")
    case False
    have n: "2 * (n div 2) + (if odd n then 1 else 0) = n" by (auto elim: oddE)
    from False 1 [OF False] n show ?thesis by (subst enc_nat.simps) auto
  qed (simp add: enc_nat.simps [of 0])
qed

lemma read_enc_str [simp]: "read_str (enc_str s @ r) = Some (s, r)"
proof (induction s arbitrary: r)
  case Nil
  then show ?case by (cases r) auto
qed simp

lemma read_enc_num [simp]: "read_num (enc_num n @ r) = Some (n, r)"
  by (cases n) simp_all

lemma length_enc_str [simp]: "length (enc_str s) = 2 * length s + 1"
  by (induction s) auto

lemma enc_json_pos: "0 < length (enc_json v)"
  by (cases v) auto

lemma read_enc_items:
  assumes "\<And>v k r. v \<in> set vs \<Longrightarrow> length (enc_json v) \<le> k \<Longrightarrow> read_json k (enc_json v @ r) = Some (v, r)"
    and "length (concat (map (\<lambda>v. CHR ''+'' # enc_json v) vs)) < k"
  shows "read_items k (concat (map (\<lambda>v. CHR ''+'' # enc_json v) vs) @ CHR ''.'' # r) = Some (vs, r)"
  using assms
proof (induction vs arbitrary: k)
  case Nil
  then show ?case by (cases k) auto
next
  case (Cons v vs)
  then obtain j where k: "k = Suc j" by (cases k) auto
  with Cons show ?case by simp
qed

lemma read_enc_members:
  assumes "\<And>f k r. f \<in> set fs \<Longrightarrow> length (enc_json (snd f)) \<le> k \<Longrightarrow>
      read_json k (enc_json (snd f) @ r) = Some (snd f, r)"
    and "length (concat (map (\<lambda>(k, v). CHR ''+'' # enc_str k @ enc_json v) fs)) < k"
  shows "read_members k (concat (map (\<lambda>(k, v). CHR ''+'' # enc_str k @ enc_json v) fs) @ CHR ''.'' # r)
    = Some (fs, r)"
  using assms
proof (induction fs arbitrary: k)
  case Nil
  then show ?case by (cases k) auto
next
  case (Cons f fs)
  then obtain j where k: "k = Suc j" by (cases k) auto
  obtain name v where f: "f = (name, v)" by (cases f)
  have "read_json j (enc_json v @ s) = Some (v, s)" for s
    using Cons.prems(1) [of f j s] Cons.prems(2) f k by simp
  moreover have "read_members j (concat (map (\<lambda>(k, v). CHR ''+'' # enc_str k @ enc_json v) fs)
      @ CHR ''.'' # r) = Some (fs, r)"
    using Cons k f by simp
  ultimately show ?case using k f by simp
qed

lemma read_enc_json: "length (enc_json v) \<le> k \<Longrightarrow> read_json k (enc_json v @ r) = Some (v, r)"
proof (induction v arbitrary: k r)
  case (VArr vs)
  then obtain j where k: "k = Suc j" by (cases k) auto
  have "read_items j (concat (map (\<lambda>v. CHR ''+'' # enc_json v) vs) @ CHR ''.'' # r) = Some (vs, r)"
    by (rule read_enc_items) (use VArr k in auto)
  with k show ?case by simp
next
  case (VObj fs)
  then obtain j where k: "k = Suc j" by (cases k) auto
  have IH: "read_json k (enc_json (snd f) @ r) = Some (snd f, r)"
    if "f \<in> set fs" "length (enc_json (snd f)) \<le> k" for f k r
    using VObj.IH [of f "snd f" k r] that by (cases f) auto
  have "read_members j (concat (map (\<lambda>(k, v). CHR ''+'' # enc_str k @ enc_json v) fs) @ CHR ''.'' # r)
      = Some (fs, r)"
    by (rule read_enc_members, erule (1) IH) (use VObj.prems k in simp)
  with k show ?case by simp
next
  case VNull
  then show ?case by (cases k) simp_all
next
  case (VBool b)
  then show ?case by (cases k) (simp_all split: if_splits)
next
  case (VNum n)
  then show ?case by (cases k) simp_all
next
  case (VStr s)
  then show ?case by (cases k) simp_all
qed

lemma parse_enc_json [simp]: "parse_json (enc_json v) = Some v"
  using read_enc_json [of v "length (enc_json v)" "[]"] by (simp add: parse_json_def)

section \<open>The instance\<close>

definition demo_digest :: "byte list \<Rightarrow> byte list" where
  "demo_digest m = take 32 (m @ replicate 32 0)"

definition demo :: externals where
  "demo = \<lparr>sha256 = demo_digest, hmac_sha256 = (\<lambda>k m. demo_digest m),
           json_from_str = parse_json, json_to_string = enc_json\<rparr>"

lemma demo_sel [simp]:
  "sha256 demo m = demo_digest m" "hmac_sha256 demo k m = demo_digest m"
  "json_from_str demo = parse_json" "json_to_string demo = enc_json"
  by (simp_all add: demo_def)

lemma demo_ok [simp]: "externals_ok demo"
  by (simp add: externals_ok_def demo_digest_def min_def)

section \<open>A storage service\<close>

definition get_answer :: "(string \<times> u64) option \<Rightarrow> json" where
  "get_answer entry =
     (case entry of
        None \<Rightarrow> VObj [(''found'', VBool False)]
      | Some (raw, r) \<Rightarrow>
          VObj [(''entry'', VObj [(''mod_revision'', VNum (PosInt r)), (''value'', VStr raw)]),
                (''found'', VBool True)])"

definition put_answer :: "bool \<Rightarrow> u64 \<Rightarrow> json" where
  "put_answer applied r =
     VObj [(''committed'', VBool True),
           (''result'', VObj [(''output'',
              if applied then VObj [(''ok'', VBool True), (''revision'', VNum (PosInt r))]
              else VObj [(''current_revision'', VNum (PosInt r)), (''ok'', VBool False),
                         (''reason'', VStr ''cas_mismatch'')])])]"

text \<open>Revisions are never zero, even if 64 bits ever wrap around.\<close>

definition next_rev :: "u64 \<Rightarrow> u64" where
  "next_rev r = (if r = - 1 then 1 else r + 1)"

definition ref_server :: "kv_view server_fun" where
  "ref_server \<sigma> rq =
     (case (rq_method rq, rq_key rq, rq_write rq) of
        (GET, Some key, _) \<Rightarrow> (HttpResponse 200 (Some (get_answer (\<sigma> key))), \<sigma>)
      | (PUT, Some key, Some (raw, prev)) \<Rightarrow>
          if rev_of \<sigma> key = prev
          then (HttpResponse 200 (Some (put_answer True (next_rev prev))),
                \<sigma>(key \<mapsto> (raw, next_rev prev)))
          else (HttpResponse 200 (Some (put_answer False (rev_of \<sigma> key))), \<sigma>)
      | _ \<Rightarrow> (HttpResponse 400 None, \<sigma>))"

text \<open>The relational service refuses to move past the last revision and may drop exchanges.\<close>

definition ref_relation :: server where
  "ref_relation \<sigma> rq r \<sigma>' \<longleftrightarrow>
     r = TransportFailure \<and> \<sigma>' = \<sigma>
   \<or> ref_server \<sigma> rq = (r, \<sigma>')
     \<and> (\<forall>key. rq_key rq = Some key \<and> rq_method rq = PUT \<longrightarrow> rev_of \<sigma> key \<noteq> - 1)"

lemma get_reply_answer [simp]: "get_reply X (HttpResponse 200 (Some (get_answer e))) = decoded X e"
  by (cases e) (auto simp: get_reply_def get_answer_def json_body_def is_success_def
      parse_get_body_def decoded_def)

lemma put_reply_answer [simp]:
  "put_reply (HttpResponse 200 (Some (put_answer b r))) = Inr (if b then Applied else Mismatch)"
  by (simp add: put_reply_def put_answer_def json_body_def is_success_def parse_put_response_def)

lemma next_rev_nonzero [simp]: "next_rev r \<noteq> 0"
proof -
  have "r + 1 = 0 \<longleftrightarrow> r = - 1" by (simp add: add_eq_0_iff2)
  then show ?thesis by (simp add: next_rev_def)
qed

lemma ref_server_reliable [simp]: "kv_reliable X ref_server"
proof -
  have "\<exists>rv. rv \<noteq> 0 \<and> \<sigma>(key \<mapsto> (raw, next_rev r)) = \<sigma>(key \<mapsto> (raw, rv))"
    for \<sigma> :: kv_view and key raw r
    by (rule exI [of _ "next_rev r"]) simp
  then show ?thesis unfolding kv_reliable_def by (auto simp: ref_server_def)
qed

lemma reads_decoded: "decoded X entry = Inr e \<Longrightarrow> reads X entry e"
  by (auto simp: decoded_def reads_def result_simps split: option.splits)

lemma next_rev_gt: "r \<noteq> - 1 \<Longrightarrow> r < next_rev r"
proof -
  assume r: "r \<noteq> - 1"
  then have "unat r \<noteq> 2 ^ 64 - 1"
    by (simp add: word_unat_eq_iff unsigned_minus_1_eq_mask mask_eq_exp_minus_1)
  moreover have "unat r < 2 ^ 64" using unsigned_less [of r, where ?'a = nat] by simp
  ultimately have "unat r + 1 < 2 ^ 64" by simp
  then have "unat (r + 1) = unat r + 1" by (simp add: unat_word_ariths)
  with r show ?thesis by (simp add: next_rev_def word_less_nat_alt)
qed

lemma ref_relation_contract [simp]: "kv_contract X ref_relation"
proof -
  have tf: "get_reply X TransportFailure = Inl Transport" "put_reply TransportFailure = Inl Transport"
    by (simp_all add: get_reply_def put_reply_def json_body_def)
  have same: "\<sigma>' = \<sigma>" if "ref_relation \<sigma> rq r \<sigma>'" "rq_method rq = GET" for \<sigma> rq r \<sigma>'
    using that by (auto simp: ref_relation_def ref_server_def split: option.splits)
  have get: "\<forall>e. get_reply X r = Inr e \<longrightarrow> reads X (\<sigma> key) e"
    if "ref_relation \<sigma> rq r \<sigma>'" "rq_method rq = GET \<and> rq_key rq = Some key" for \<sigma> rq r \<sigma>' key
    using that by (auto simp: ref_relation_def tf ref_server_def intro: reads_decoded)
  have put: "\<sigma>' = \<sigma> \<and> put_reply r \<noteq> Inr Applied
      \<or> put_reply r \<noteq> Inr Mismatch \<and> rev_of \<sigma> key = prev
        \<and> (\<exists>rv. prev < rv \<and> \<sigma>' = \<sigma>(key \<mapsto> (raw, rv)))"
    if "ref_relation \<sigma> rq r \<sigma>'"
      "rq_method rq = PUT \<and> rq_key rq = Some key \<and> rq_write rq = Some (raw, prev)"
    for \<sigma> rq r \<sigma>' key raw prev
  proof -
    from that consider "r = TransportFailure" "\<sigma>' = \<sigma>"
      | "rev_of \<sigma> key \<noteq> prev" "r = HttpResponse 200 (Some (put_answer False (rev_of \<sigma> key)))" "\<sigma>' = \<sigma>"
      | "rev_of \<sigma> key = prev" "prev \<noteq> - 1" "r = HttpResponse 200 (Some (put_answer True (next_rev prev)))"
        "\<sigma>' = \<sigma>(key \<mapsto> (raw, next_rev prev))"
      by (auto simp: ref_relation_def ref_server_def split: if_splits)
    then show ?thesis
    proof cases
      case 3
      then have "\<exists>rv. prev < rv \<and> \<sigma>' = \<sigma>(key \<mapsto> (raw, rv))"
        using next_rev_gt by blast
      with 3 show ?thesis by simp
    qed (simp_all add: tf)
  qed
  show ?thesis unfolding kv_contract_def using same get put by presburger
qed

lemma ref_relation_get:
  "rq_method rq = GET \<Longrightarrow> ref_relation \<sigma> rq (fst (ref_server \<sigma> rq)) (snd (ref_server \<sigma> rq))"
  by (simp add: ref_relation_def)

end
