(* ===== verification/Token.thy ===== *)
theory Token
  imports Reference
begin

text \<open>
  \<open>token.rs\<close>: short-lived access tokens and the versioned revocation record.  The signature
  scheme, the key parser and base64 are parameters (record \<open>jwt_lib\<close>); the clock and the
  entropy source are arguments.  The lemmas show the bounds of a minted token, when a record
  is valid and active, that it matches exactly the tokens of its scope, that its storage key
  determines that scope up to a digest collision, and that the startup self-check passes.
\<close>

section \<open>Claims and signing\<close>

definition ISSUER :: string where
  "ISSUER = ''fiducia-auth''"

definition AUDIENCE :: string where
  "AUDIENCE = ''fiducia-api''"

definition MAX_ACCESS_TOKEN_TTL_SECS :: u64 where
  "MAX_ACCESS_TOKEN_TTL_SECS = 15 * 60"

definition REVOCATION_RECORD_VERSION :: u16 where
  "REVOCATION_RECORD_VERSION = 1"

definition MAX_INTERNAL_REVOCATION_TTL_SECS :: u64 where
  "MAX_INTERNAL_REVOCATION_TTL_SECS = 24 * 60 * 60"

record claims =
  cl_sub :: string
  cl_org_id :: string
  cl_scopes :: "string list"
  cl_iss :: string
  cl_aud :: string
  cl_iat :: u64
  cl_exp :: u64
  cl_jti :: string

datatype mint_error = InvalidTtl u64 u64 | EntropyUnavailable

text \<open>
  \<open>lib_parse_key\<close> is the PKCS#8 reader, \<open>lib_point\<close> the public point of a key,
  \<open>lib_encode\<close> the ES256 encoder with the given key identifier in its header.
\<close>

record jwt_lib =
  lib_b64u :: "byte list \<Rightarrow> string"
  lib_parse_key :: "string \<Rightarrow> byte list option"
  lib_point :: "byte list \<Rightarrow> byte list \<times> byte list"
  lib_encode :: "string \<Rightarrow> claims \<Rightarrow> byte list \<Rightarrow> string option"

record signer =
  sn_encoding :: "byte list"
  sn_jwk :: json
  sn_kid :: string

definition hex16 :: "byte list \<Rightarrow> string" where
  "hex16 bytes = to_hex (take 8 bytes)"

definition signer_from_secret :: "externals \<Rightarrow> jwt_lib \<Rightarrow> byte list \<Rightarrow> signer" where
  "signer_from_secret X L secret =
     (let x = fst (lib_point L secret);
          y = snd (lib_point L secret);
          kid = hex16 (sha256 X (x @ y));
          jwk = VObj [(''alg'', VStr ''ES256''), (''crv'', VStr ''P-256''), (''kid'', VStr kid),
                      (''kty'', VStr ''EC''), (''use'', VStr ''sig''),
                      (''x'', VStr (lib_b64u L x)), (''y'', VStr (lib_b64u L y))]
      in \<lparr>sn_encoding = secret, sn_jwk = jwk, sn_kid = kid\<rparr>)"

text \<open>\<open>None\<close> is the panic of a process without a usable signing key.\<close>

definition signer_load :: "externals \<Rightarrow> jwt_lib \<Rightarrow> environment \<Rightarrow> signer option" where
  "signer_load X L env =
     (case env ''FIDUCIA_JWT_SIGNING_KEY'' of
        Some pem \<Rightarrow>
          if str_trim pem \<noteq> [] then map_option (signer_from_secret X L) (lib_parse_key L (str_trim pem))
          else None
      | None \<Rightarrow> None)"

definition jwks :: "signer \<Rightarrow> json" where
  "jwks signer = VObj [(''keys'', VArr [sn_jwk signer])]"

definition validate_ttl :: "u64 \<Rightarrow> mint_error + unit" where
  "validate_ttl ttl_secs =
     (if \<not> (1 \<le> ttl_secs \<and> ttl_secs \<le> MAX_ACCESS_TOKEN_TTL_SECS)
      then Inl (InvalidTtl ttl_secs MAX_ACCESS_TOKEN_TTL_SECS) else Inr ())"

text \<open>The argument is what the operating system put into the 16-byte buffer.\<close>

definition random_jti :: "jwt_lib \<Rightarrow> byte list option \<Rightarrow> mint_error + string" where
  "random_jti L entropy =
     rbind (ok_or entropy EntropyUnavailable) (\<lambda>bytes. Inr (lib_b64u L bytes))"

definition mint_with ::
  "jwt_lib \<Rightarrow> signer \<Rightarrow> string \<Rightarrow> string list \<Rightarrow> u64 \<Rightarrow> u64 \<Rightarrow> byte list option \<Rightarrow>
   mint_error + string" where
  "mint_with L signer org_id scopes ttl_secs now entropy =
     rbind (validate_ttl ttl_secs) (\<lambda>_.
     rbind (random_jti L entropy) (\<lambda>jti.
       let claims = \<lparr>cl_sub = org_id, cl_org_id = org_id, cl_scopes = scopes, cl_iss = ISSUER,
                     cl_aud = AUDIENCE, cl_iat = now, cl_exp = saturating_add now ttl_secs,
                     cl_jti = jti\<rparr>
       in ok_or (lib_encode L (sn_kid signer) claims (sn_encoding signer)) EntropyUnavailable))"

definition try_mint_token ::
  "jwt_lib \<Rightarrow> signer \<Rightarrow> string \<Rightarrow> string list \<Rightarrow> u64 \<Rightarrow> u64 \<Rightarrow> byte list option \<Rightarrow>
   mint_error + string" where
  "try_mint_token L signer org_id scopes ttl_secs now entropy =
     mint_with L signer org_id scopes ttl_secs now entropy"

text \<open>\<open>None\<close> is the panic of the compatibility wrapper.\<close>

definition mint_token ::
  "jwt_lib \<Rightarrow> signer \<Rightarrow> string \<Rightarrow> string list \<Rightarrow> u64 \<Rightarrow> u64 \<Rightarrow> byte list option \<Rightarrow> string option" where
  "mint_token L signer org_id scopes ttl_secs now entropy =
     (case try_mint_token L signer org_id scopes ttl_secs now entropy of
        Inl e \<Rightarrow> None | Inr token \<Rightarrow> Some token)"

section \<open>Revocation records\<close>

datatype revocation_target = TokenId string | Subject string

record revocation_record =
  rr_version :: u16
  rr_issuer :: string
  rr_audience :: string
  rr_tenant_id :: string
  rr_target :: revocation_target
  rr_reason :: string
  rr_actor :: string
  rr_created_at :: u64
  rr_expires_at :: u64

datatype revocation_record_error =
    UnsupportedVersion
  | WrongIssuer
  | WrongAudience
  | InvalidField string
  | InvalidWindow
  | WindowTooLong

definition token_validate_identifier :: "string \<Rightarrow> string \<Rightarrow> revocation_record_error + unit" where
  "token_validate_identifier name val =
     (let t = str_trim val
      in if t = [] \<or> 256 < length t \<or> (\<exists>c\<in>set (chars t). is_control c \<or> is_whitespace c)
         then Inl (InvalidField name) else Inr ())"

definition validate_audit_text :: "string \<Rightarrow> string \<Rightarrow> nat \<Rightarrow> revocation_record_error + unit" where
  "validate_audit_text name val max_len =
     (let t = str_trim val
      in if t = [] \<or> max_len < length t \<or> (\<exists>c\<in>set (chars t). is_control c)
         then Inl (InvalidField name) else Inr ())"

definition record_validate :: "revocation_record \<Rightarrow> revocation_record_error + unit" where
  "record_validate r =
     rbind (ensure (rr_version r = REVOCATION_RECORD_VERSION) UnsupportedVersion) (\<lambda>_.
     rbind (ensure (rr_issuer r = ISSUER) WrongIssuer) (\<lambda>_.
     rbind (ensure (rr_audience r = AUDIENCE) WrongAudience) (\<lambda>_.
     rbind (token_validate_identifier ''tenant_id'' (rr_tenant_id r)) (\<lambda>_.
     rbind (validate_audit_text ''reason'' (rr_reason r) 256) (\<lambda>_.
     rbind (validate_audit_text ''actor'' (rr_actor r) 128) (\<lambda>_.
     rbind (case rr_target r of
              TokenId jti \<Rightarrow> token_validate_identifier ''jti'' jti
            | Subject subject \<Rightarrow> token_validate_identifier ''subject'' subject) (\<lambda>_.
     rbind (ensure (\<not> rr_expires_at r \<le> rr_created_at r) InvalidWindow) (\<lambda>_.
       ensure (\<not> MAX_INTERNAL_REVOCATION_TTL_SECS < rr_expires_at r - rr_created_at r)
         WindowTooLong))))))))"

definition for_token ::
  "claims \<Rightarrow> string \<Rightarrow> string \<Rightarrow> u64 \<Rightarrow> revocation_record_error + revocation_record" where
  "for_token c reason actor created_at =
     (if created_at < cl_iat c \<or> cl_exp c \<le> created_at then Inl InvalidWindow
      else
        let r = \<lparr>rr_version = REVOCATION_RECORD_VERSION, rr_issuer = cl_iss c, rr_audience = cl_aud c,
                 rr_tenant_id = cl_org_id c, rr_target = TokenId (cl_jti c),
                 rr_reason = str_trim reason, rr_actor = str_trim actor,
                 rr_created_at = created_at, rr_expires_at = cl_exp c\<rparr>
        in rbind (record_validate r) (\<lambda>_. Inr r))"

definition for_subject ::
  "string \<Rightarrow> string \<Rightarrow> string \<Rightarrow> string \<Rightarrow> u64 \<Rightarrow> u64 \<Rightarrow> revocation_record_error + revocation_record" where
  "for_subject tenant_id subject reason actor created_at expires_at =
     (let r = \<lparr>rr_version = REVOCATION_RECORD_VERSION, rr_issuer = ISSUER, rr_audience = AUDIENCE,
               rr_tenant_id = str_trim tenant_id, rr_target = Subject (str_trim subject),
               rr_reason = str_trim reason, rr_actor = str_trim actor,
               rr_created_at = created_at, rr_expires_at = expires_at\<rparr>
      in rbind (record_validate r) (\<lambda>_. Inr r))"

definition scoped_revocation_digest :: "externals \<Rightarrow> string list \<Rightarrow> byte list" where
  "scoped_revocation_digest X parts = sha256 X (frame_parts (map as_bytes parts))"

definition record_scope :: "revocation_record \<Rightarrow> string list" where
  "record_scope r =
     (case rr_target r of
        TokenId jti \<Rightarrow> [rr_issuer r, rr_audience r, rr_tenant_id r, ''token_id'', jti]
      | Subject subject \<Rightarrow> [rr_issuer r, rr_audience r, rr_tenant_id r, ''subject'', subject])"

definition storage_key :: "externals \<Rightarrow> revocation_record \<Rightarrow> revocation_record_error + string" where
  "storage_key X r =
     rbind (record_validate r) (\<lambda>_.
       Inr (''auth/revocations/v'' @ dec_nat (unat (rr_version r)) @ ''/''
            @ to_hex (scoped_revocation_digest X (record_scope r))))"

definition is_active_at :: "revocation_record \<Rightarrow> u64 \<Rightarrow> bool" where
  "is_active_at r now \<longleftrightarrow>
     is_ok (record_validate r) \<and> rr_created_at r \<le> now \<and> now < rr_expires_at r"

definition should_prune_at :: "revocation_record \<Rightarrow> u64 \<Rightarrow> bool" where
  "should_prune_at r now \<longleftrightarrow> rr_expires_at r \<le> now"

definition record_matches :: "revocation_record \<Rightarrow> claims \<Rightarrow> u64 \<Rightarrow> bool" where
  "record_matches r c now =
     (if \<not> is_active_at r now \<or> rr_issuer r \<noteq> cl_iss c \<or> rr_audience r \<noteq> cl_aud c
         \<or> rr_tenant_id r \<noteq> cl_org_id c
      then False
      else case rr_target r of
             TokenId jti \<Rightarrow> jti = cl_jti c
           | Subject subject \<Rightarrow> subject = cl_sub c)"

section \<open>Startup validation\<close>

datatype token_config_error =
    SigningKeyMissing
  | SigningKeyInvalid
  | TokenContractInvalid revocation_record_error
  | SubjectContractInvalid revocation_record_error
  | TokenStorageKeyInvalid revocation_record_error
  | SubjectStorageKeyInvalid revocation_record_error
  | SelfCheckFailed

definition startup_claims :: claims where
  "startup_claims =
     \<lparr>cl_sub = ''__startup_subject'', cl_org_id = ''__startup_tenant'', cl_scopes = [],
      cl_iss = ISSUER, cl_aud = AUDIENCE, cl_iat = 0, cl_exp = 2, cl_jti = ''startup-token''\<rparr>"

definition validate_revocation_contract :: "externals \<Rightarrow> token_config_error + unit" where
  "validate_revocation_contract X =
     (let c = startup_claims
      in rbind (map_err TokenContractInvalid
                  (for_token c ''startup contract validation'' ''fiducia-auth'' 1)) (\<lambda>exact.
         rbind (map_err SubjectContractInvalid
                  (for_subject (cl_org_id c) (cl_sub c) ''startup contract validation''
                     ''fiducia-auth'' 1 2)) (\<lambda>subject.
         rbind (map_err TokenStorageKeyInvalid (storage_key X exact)) (\<lambda>exact_key.
         rbind (map_err SubjectStorageKeyInvalid (storage_key X subject)) (\<lambda>subject_key.
           if exact_key = subject_key \<or> \<not> record_matches exact c 1 \<or> record_matches exact c 2
              \<or> should_prune_at exact 1 \<or> \<not> should_prune_at exact 2 \<or> \<not> record_matches subject c 1
           then Inl SelfCheckFailed else Inr ())))))"

definition token_validate_config ::
  "externals \<Rightarrow> jwt_lib \<Rightarrow> environment \<Rightarrow> token_config_error + unit" where
  "token_validate_config X L env =
     rbind (ok_or (non_blank (env ''FIDUCIA_JWT_SIGNING_KEY'')) SigningKeyMissing) (\<lambda>pem.
     rbind (ok_or (lib_parse_key L (str_trim pem)) SigningKeyInvalid) (\<lambda>_.
       validate_revocation_contract X))"

section \<open>Validity, activity and scope\<close>

definition identifier_ok :: "string \<Rightarrow> bool" where
  "identifier_ok s \<longleftrightarrow>
     str_trim s \<noteq> [] \<and> length (str_trim s) \<le> 256
   \<and> (\<forall>c\<in>set (chars (str_trim s)). \<not> is_control c \<and> \<not> is_whitespace c)"

definition audit_text_ok :: "string \<Rightarrow> nat \<Rightarrow> bool" where
  "audit_text_ok s n \<longleftrightarrow>
     str_trim s \<noteq> [] \<and> length (str_trim s) \<le> n \<and> (\<forall>c\<in>set (chars (str_trim s)). \<not> is_control c)"

fun target_id :: "revocation_target \<Rightarrow> string" where
  "target_id (TokenId jti) = jti"
| "target_id (Subject subject) = subject"

definition record_ok :: "revocation_record \<Rightarrow> bool" where
  "record_ok r \<longleftrightarrow>
     rr_version r = REVOCATION_RECORD_VERSION \<and> rr_issuer r = ISSUER \<and> rr_audience r = AUDIENCE
   \<and> identifier_ok (rr_tenant_id r) \<and> identifier_ok (target_id (rr_target r))
   \<and> audit_text_ok (rr_reason r) 256 \<and> audit_text_ok (rr_actor r) 128
   \<and> unat (rr_created_at r) < unat (rr_expires_at r)
   \<and> unat (rr_expires_at r) \<le> unat (rr_created_at r) + 24 * 60 * 60"

lemma token_validate_identifier_iff [result_simps]:
  "token_validate_identifier name s = Inr () \<longleftrightarrow> identifier_ok s"
  by (auto simp: token_validate_identifier_def identifier_ok_def Let_def)

lemma validate_audit_text_iff [result_simps]:
  "validate_audit_text name s n = Inr () \<longleftrightarrow> audit_text_ok s n"
  by (auto simp: validate_audit_text_def audit_text_ok_def Let_def)

lemma record_window:
  fixes a b :: u64
  shows "\<not> b \<le> a \<and> \<not> MAX_INTERNAL_REVOCATION_TTL_SECS < b - a \<longleftrightarrow>
    unat a < unat b \<and> unat b \<le> unat a + 24 * 60 * 60"
  by (auto simp: MAX_INTERNAL_REVOCATION_TTL_SECS_def word_le_nat_alt word_less_nat_alt unat_sub)

lemma record_validate_iff: "record_validate r = Inr () \<longleftrightarrow> record_ok r"
proof -
  have "record_validate r = Inr () \<longleftrightarrow>
      rr_version r = REVOCATION_RECORD_VERSION \<and> rr_issuer r = ISSUER \<and> rr_audience r = AUDIENCE
    \<and> identifier_ok (rr_tenant_id r) \<and> audit_text_ok (rr_reason r) 256 \<and> audit_text_ok (rr_actor r) 128
    \<and> identifier_ok (target_id (rr_target r))
    \<and> (\<not> rr_expires_at r \<le> rr_created_at r
       \<and> \<not> MAX_INTERNAL_REVOCATION_TTL_SECS < rr_expires_at r - rr_created_at r)"
    by (cases "rr_target r")
       (simp_all add: record_validate_def rbind_eq_Inr ensure_eq_Inr token_validate_identifier_iff
          validate_audit_text_iff)
  then show ?thesis unfolding record_window record_ok_def by blast
qed

lemma is_ok_unit: "is_ok (res :: 'e + unit) \<longleftrightarrow> res = Inr ()"
  by (cases res) auto

lemma is_active_at_iff:
  "is_active_at r now \<longleftrightarrow> record_ok r \<and> rr_created_at r \<le> now \<and> now < rr_expires_at r"
  by (simp add: is_active_at_def is_ok_unit record_validate_iff)

lemma audit_text_ok_trim [simp]: "audit_text_ok (str_trim s) n = audit_text_ok s n"
  by (simp add: audit_text_ok_def)

lemma identifier_ok_trim [simp]: "identifier_ok (str_trim s) = identifier_ok s"
  by (simp add: identifier_ok_def)

lemma identifier_ok_printable:
  assumes "list_all printable s" "s \<noteq> []" "length s \<le> 256"
  shows "identifier_ok s"
proof -
  have "list_all ascii_char s" using assms(1) by (auto simp: list_all_iff ascii_char_def)
  with assms show ?thesis
    by (auto simp: identifier_ok_def str_trim_printable chars_ascii list_all_iff ascii_not_control
        printable_not_blank)
qed

lemma audit_text_ok_ascii:
  assumes "list_all ascii_char s" "s \<noteq> []" "printable (hd s)" "printable (last s)" "length s \<le> n"
  shows "audit_text_ok s n"
  using assms
  by (auto simp: audit_text_ok_def str_trim_ascii chars_ascii list_all_iff ascii_not_control)

text \<open>
  C33. A minted access token is bounded and scoped: minting succeeds only with operating-system
  entropy and a lifetime of 1 to 900 seconds; the signed claims then name the organisation as
  subject and tenant, carry the requested scopes, the fixed issuer and audience and a token
  identity drawn from that entropy, and expire at most 900 seconds after the time of issue.
\<close>
theorem minted_token_bounded:
  assumes "mint_with L signer org_id scopes ttl now entropy = Inr token"
  shows "\<exists>bytes c. entropy = Some bytes \<and> lib_encode L (sn_kid signer) c (sn_encoding signer) = Some token
    \<and> 1 \<le> unat ttl \<and> unat ttl \<le> 900
    \<and> cl_sub c = org_id \<and> cl_org_id c = org_id \<and> cl_scopes c = scopes
    \<and> cl_iss c = ''fiducia-auth'' \<and> cl_aud c = ''fiducia-api'' \<and> cl_jti c = lib_b64u L bytes
    \<and> cl_iat c = now \<and> unat (cl_exp c) = min (2 ^ 64 - 1) (unat now + unat ttl)
    \<and> unat (cl_exp c) \<le> unat (cl_iat c) + 900"
proof -
  let ?c = "\<lambda>jti. \<lparr>cl_sub = org_id, cl_org_id = org_id, cl_scopes = scopes, cl_iss = ISSUER,
    cl_aud = AUDIENCE, cl_iat = now, cl_exp = saturating_add now ttl, cl_jti = jti\<rparr>"
  from assms have ttl: "1 \<le> ttl \<and> ttl \<le> MAX_ACCESS_TOKEN_TTL_SECS"
    by (auto simp: mint_with_def validate_ttl_def rbind_eq_Inr split: if_splits)
  with assms obtain bytes where "entropy = Some bytes"
    "lib_encode L (sn_kid signer) (?c (lib_b64u L bytes)) (sn_encoding signer) = Some token"
    by (auto simp: mint_with_def random_jti_def Let_def result_simps)
  moreover have "1 \<le> unat ttl" "unat ttl \<le> 900"
    using ttl by (auto simp: MAX_ACCESS_TOKEN_TTL_SECS_def word_le_nat_alt)
  ultimately show ?thesis
    by (intro exI [of _ bytes] exI [of _ "?c (lib_b64u L bytes)"])
       (simp add: ISSUER_def AUDIENCE_def unat_saturating_add)
qed

definition demo_lib :: jwt_lib where
  "demo_lib = \<lparr>lib_b64u = (\<lambda>bs. ''jti''), lib_parse_key = (\<lambda>pem. Some []),
     lib_point = (\<lambda>k. ([1], [2])), lib_encode = (\<lambda>kid c key. Some (kid @ cl_jti c))\<rparr>"

theorem minted_token_bounded_witness:
  "\<exists>bytes c. Some [7 :: byte] = Some bytes
    \<and> lib_encode demo_lib ''kid'' c [] = Some ''kidjti'' \<and> cl_jti c = ''jti''
    \<and> unat (cl_exp c) \<le> unat (cl_iat c) + 900 \<and> cl_iat c = 1000"
proof -
  have "mint_with demo_lib \<lparr>sn_encoding = [], sn_jwk = VNull, sn_kid = ''kid''\<rparr> ''o'' [] 60 1000 (Some [7]) =
      Inr ''kidjti''"
    by (simp add: mint_with_def validate_ttl_def random_jti_def demo_lib_def
        MAX_ACCESS_TOKEN_TTL_SECS_def)
  from minted_token_bounded [OF this] show ?thesis
    by (auto simp: demo_lib_def)
qed

text \<open>
  A revocation record strikes exactly its scope: it matches a token at a time iff the
  record is well formed, the time lies in its window, and issuer, audience, tenant and target
  are those of the token; its window is never longer than one day.
\<close>
lemma record_matches_iff:
  "record_matches r c now \<longleftrightarrow>
     record_ok r \<and> rr_created_at r \<le> now \<and> now < rr_expires_at r
   \<and> unat (rr_expires_at r) \<le> unat (rr_created_at r) + 86400
   \<and> cl_iss c = ''fiducia-auth'' \<and> cl_aud c = ''fiducia-api'' \<and> cl_org_id c = rr_tenant_id r
   \<and> (rr_target r = TokenId (cl_jti c) \<or> rr_target r = Subject (cl_sub c))"
  by (cases "rr_target r")
     (auto simp: record_matches_def is_active_at_iff record_ok_def ISSUER_def AUDIENCE_def)

text \<open>
  Revoking one token works until its expiry and never hits another token: for a token with
  the fixed issuer and audience and a lifetime of at most a day, a record made while the token
  lives is accepted, matches that token exactly from its creation to the expiry of the token,
  and any token it ever matches has the same token identity and tenant.
\<close>
lemma for_token_exact:
  assumes "cl_iss c = ''fiducia-auth''" and "cl_aud c = ''fiducia-api''"
    and "identifier_ok (cl_org_id c)" and "identifier_ok (cl_jti c)"
    and "audit_text_ok reason 256" and "audit_text_ok actor 128"
    and "cl_iat c \<le> created_at" and "created_at < cl_exp c"
    and "unat (cl_exp c) \<le> unat (cl_iat c) + 86400"
  shows "\<exists>r. for_token c reason actor created_at = Inr r
    \<and> (\<forall>now. record_matches r c now \<longleftrightarrow> created_at \<le> now \<and> now < cl_exp c)
    \<and> (\<forall>c' now. record_matches r c' now \<longrightarrow> cl_jti c' = cl_jti c \<and> cl_org_id c' = cl_org_id c)"
proof -
  let ?r = "\<lparr>rr_version = REVOCATION_RECORD_VERSION, rr_issuer = cl_iss c, rr_audience = cl_aud c,
    rr_tenant_id = cl_org_id c, rr_target = TokenId (cl_jti c), rr_reason = str_trim reason,
    rr_actor = str_trim actor, rr_created_at = created_at, rr_expires_at = cl_exp c\<rparr>"
  have ok: "record_ok ?r"
    using assms by (auto simp: record_ok_def ISSUER_def AUDIENCE_def word_less_nat_alt word_le_nat_alt)
  then have "for_token c reason actor created_at = Inr ?r"
    using assms(7,8) unfolding record_validate_iff [symmetric] by (simp add: for_token_def Let_def not_less not_le)
  moreover have "record_matches ?r c now \<longleftrightarrow> created_at \<le> now \<and> now < cl_exp c" for now
    using ok by (simp add: record_matches_def is_active_at_iff)
  moreover have "cl_jti c' = cl_jti c \<and> cl_org_id c' = cl_org_id c" if "record_matches ?r c' now" for c' now
    using that by (simp add: record_matches_def split: if_splits)
  ultimately show ?thesis by blast
qed

lemma str_trim_fix_simps: "identifier_ok ''o''" "identifier_ok ''j''" "audit_text_ok ''r'' n = (1 \<le> n)"
  by (auto simp: identifier_ok_def audit_text_ok_def str_trim_def utf8_width_def is_whitespace_def
      chars_def is_control_def)

theorem for_token_exact_witness:
  "\<exists>r. for_token \<lparr>cl_sub = ''o'', cl_org_id = ''o'', cl_scopes = [], cl_iss = ''fiducia-auth'',
       cl_aud = ''fiducia-api'', cl_iat = 10, cl_exp = 70, cl_jti = ''j''\<rparr> ''r'' ''r'' 20 = Inr r
    \<and> record_matches r \<lparr>cl_sub = ''o'', cl_org_id = ''o'', cl_scopes = [], cl_iss = ''fiducia-auth'',
       cl_aud = ''fiducia-api'', cl_iat = 10, cl_exp = 70, cl_jti = ''j''\<rparr> 69"
  using for_token_exact [of "\<lparr>cl_sub = ''o'', cl_org_id = ''o'', cl_scopes = [], cl_iss = ''fiducia-auth'',
       cl_aud = ''fiducia-api'', cl_iat = 10, cl_exp = 70, cl_jti = ''j''\<rparr>" "''r''" "''r''" 20]
  by (auto simp: str_trim_fix_simps)

text \<open>
  A storage key determines the scope of its record: two well-formed records that share a
  storage key have the same issuer, audience, tenant, target kind and target, unless their
  two length-prefixed scopes are different texts with the same SHA-256 digest.
\<close>
lemma storage_key_scope:
  assumes "storage_key X r = Inr key" and "storage_key X r' = Inr key"
    and "length (rr_tenant_id r) < 2 ^ 64" and "length (target_id (rr_target r)) < 2 ^ 64"
    and "length (rr_tenant_id r') < 2 ^ 64" and "length (target_id (rr_target r')) < 2 ^ 64"
  shows "rr_tenant_id r' = rr_tenant_id r \<and> rr_target r' = rr_target r
       \<and> rr_issuer r' = rr_issuer r \<and> rr_audience r' = rr_audience r
    \<or> (\<exists>m m'. m \<noteq> m' \<and> sha256 X m = sha256 X m'
         \<and> m = frame_parts (map as_bytes (record_scope r)) \<and> m' = frame_parts (map as_bytes (record_scope r')))"
proof -
  let ?m = "frame_parts (map as_bytes (record_scope r))"
  let ?m' = "frame_parts (map as_bytes (record_scope r'))"
  have ok: "record_ok r" "record_ok r'"
    using assms(1,2) by (auto simp: storage_key_def rbind_eq_Inr record_validate_iff)
  have "sha256 X ?m = sha256 X ?m'"
    using assms(1,2) ok by (auto simp: storage_key_def rbind_eq_Inr scoped_revocation_digest_def record_ok_def)
  moreover have "rr_tenant_id r' = rr_tenant_id r \<and> rr_target r' = rr_target r" if "?m = ?m'"
  proof -
    have small: "\<forall>p\<in>set (map as_bytes (record_scope r)). length p < 2 ^ 64"
      "\<forall>p\<in>set (map as_bytes (record_scope r')). length p < 2 ^ 64"
      using ok assms(3-6)
      by (cases "rr_target r"; cases "rr_target r'";
          simp add: record_scope_def record_ok_def ISSUER_def AUDIENCE_def)+
    have "map as_bytes (record_scope r) = map as_bytes (record_scope r')"
      using small that by (rule frame_parts_inject)
    then show ?thesis
      by (cases "rr_target r"; cases "rr_target r'") (auto simp: record_scope_def)
  qed
  ultimately show ?thesis using ok by (auto simp: record_ok_def)
qed

definition demo_record :: "string \<Rightarrow> revocation_record" where
  "demo_record subject = \<lparr>rr_version = 1, rr_issuer = ''fiducia-auth'', rr_audience = ''fiducia-api'',
     rr_tenant_id = ''o'', rr_target = Subject subject, rr_reason = ''r'', rr_actor = ''r'',
     rr_created_at = 10, rr_expires_at = 70\<rparr>"

lemma demo_record_ok: "record_ok (demo_record ''j'')"
  by (simp add: record_ok_def demo_record_def REVOCATION_RECORD_VERSION_def ISSUER_def AUDIENCE_def
      str_trim_fix_simps)

theorem storage_key_scope_witness:
  "\<exists>key. storage_key demo (demo_record ''j'') = Inr key
    \<and> rr_target (demo_record ''j'') = rr_target (demo_record ''j'')"
proof -
  obtain key where key: "storage_key demo (demo_record ''j'') = Inr key"
    using demo_record_ok unfolding record_validate_iff [symmetric] by (simp add: storage_key_def)
  from storage_key_scope [OF key key] show ?thesis
    using key by (simp add: demo_record_def)
qed

section \<open>The startup self-check\<close>

definition startup_exact :: revocation_record where
  "startup_exact = \<lparr>rr_version = 1, rr_issuer = ''fiducia-auth'', rr_audience = ''fiducia-api'',
     rr_tenant_id = ''__startup_tenant'', rr_target = TokenId ''startup-token'',
     rr_reason = ''startup contract validation'', rr_actor = ''fiducia-auth'',
     rr_created_at = 1, rr_expires_at = 2\<rparr>"

definition startup_subject :: revocation_record where
  "startup_subject = startup_exact\<lparr>rr_target := Subject ''__startup_subject''\<rparr>"

lemma startup_texts:
  "str_trim ''startup contract validation'' = ''startup contract validation''"
  "str_trim ''fiducia-auth'' = ''fiducia-auth''"
  "str_trim ''__startup_tenant'' = ''__startup_tenant''"
  "str_trim ''__startup_subject'' = ''__startup_subject''"
  "identifier_ok ''__startup_tenant''" "identifier_ok ''startup-token''"
  "identifier_ok ''__startup_subject''"
  "audit_text_ok ''startup contract validation'' 256" "audit_text_ok ''fiducia-auth'' 128"
  by (simp_all add: str_trim_ascii identifier_ok_printable audit_text_ok_ascii printable_def ascii_char_def)

lemma startup_records_ok: "record_ok startup_exact" "record_ok startup_subject"
  by (simp_all add: record_ok_def startup_exact_def startup_subject_def startup_texts ISSUER_def
      AUDIENCE_def REVOCATION_RECORD_VERSION_def)

lemma startup_records:
  "for_token startup_claims ''startup contract validation'' ''fiducia-auth'' 1 = Inr startup_exact"
  "for_subject ''__startup_tenant'' ''__startup_subject'' ''startup contract validation''
     ''fiducia-auth'' 1 2 = Inr startup_subject"
proof -
  note valid = startup_records_ok [folded record_validate_iff]
  show "for_token startup_claims ''startup contract validation'' ''fiducia-auth'' 1 = Inr startup_exact"
    using valid(1)
    by (simp add: for_token_def startup_claims_def Let_def startup_texts startup_exact_def ISSUER_def
        AUDIENCE_def REVOCATION_RECORD_VERSION_def word_le_nat_alt)
  show "for_subject ''__startup_tenant'' ''__startup_subject'' ''startup contract validation''
     ''fiducia-auth'' 1 2 = Inr startup_subject"
    using valid(2)
    by (simp add: for_subject_def Let_def startup_texts startup_exact_def startup_subject_def ISSUER_def
        AUDIENCE_def REVOCATION_RECORD_VERSION_def)
qed

lemma startup_matches:
  "record_matches startup_exact startup_claims 1" "\<not> record_matches startup_exact startup_claims 2"
  "record_matches startup_subject startup_claims 1"
  using startup_records_ok
  by (simp_all add: record_matches_def is_active_at_iff)
     (simp_all add: startup_exact_def startup_subject_def startup_claims_def ISSUER_def AUDIENCE_def)

lemma startup_prune: "\<not> should_prune_at startup_exact 1" "should_prune_at startup_exact 2"
  by (simp_all add: should_prune_at_def startup_exact_def word_le_nat_alt)

lemma startup_claims_sel:
  "cl_org_id startup_claims = ''__startup_tenant''" "cl_sub startup_claims = ''__startup_subject''"
  by (simp_all add: startup_claims_def)

text \<open>
  A replica with a readable signing key starts: the configuration check accepts every
  environment whose signing key is present and parses, as long as SHA-256 separates the two
  fixed scopes of the self-check, and it fails without a key or with a malformed one.
\<close>
lemma startup_check_iff:
  "token_validate_config X L env = Inr () \<longleftrightarrow>
     (\<exists>pem key. env ''FIDUCIA_JWT_SIGNING_KEY'' = Some pem \<and> str_trim pem \<noteq> []
        \<and> lib_parse_key L (str_trim pem) = Some key)
   \<and> sha256 X (frame_parts (map as_bytes (record_scope startup_exact)))
     \<noteq> sha256 X (frame_parts (map as_bytes (record_scope startup_subject)))"
proof -
  have keys: "storage_key X startup_exact = storage_key X startup_subject \<longleftrightarrow>
      scoped_revocation_digest X (record_scope startup_exact) =
      scoped_revocation_digest X (record_scope startup_subject)"
    using startup_records_ok [folded record_validate_iff]
    by (simp add: storage_key_def) (simp add: startup_exact_def startup_subject_def)
  have "validate_revocation_contract X = Inr () \<longleftrightarrow>
      storage_key X startup_exact \<noteq> storage_key X startup_subject"
    using startup_records startup_matches startup_prune startup_records_ok [folded record_validate_iff]
    by (simp add: validate_revocation_contract_def Let_def startup_claims_sel storage_key_def)
  then show ?thesis
    unfolding token_validate_config_def keys scoped_revocation_digest_def
    by (auto simp: rbind_eq_Inr ok_or_eq_Inr non_blank_def split: option.splits if_splits)
qed

end
