(* ===== verification/Revocation.thy ===== *)
theory Revocation
  imports Token
begin

text \<open>
  \<open>revocation.rs\<close>: durable revocation ledgers.  One hash-chained ledger per opaque target is
  changed by compare-and-set only; \<open>revoke\<close>, \<open>lift\<close> and \<open>check\<close> are interaction trees.  The
  definitions cover selectors, requests, events, the ledger with its validation and replay
  rules, its JSON form, and the store operations; the lemmas are about one ledger.  What
  holds under concurrency and for callers is in the theory of the ledger service.
\<close>

section \<open>Errors and shared checks\<close>

datatype revocation_error =
    RevStore store_error
  | RevContract revocation_record_error
  | InvalidMutation string
  | InvalidClaims
  | InvalidLedger
  | RevIdempotencyConflict
  | NotFound
  | NotActive
  | TransitionLimit
  | RevCasRetriesExhausted

definition LEDGER_VERSION :: u16 where
  "LEDGER_VERSION = 1"

definition REV_MAX_CAS_RETRIES :: nat where
  "REV_MAX_CAS_RETRIES = 8"

definition INTERNAL_ISSUER :: string where
  "INTERNAL_ISSUER = ''fiducia-auth''"

definition INTERNAL_AUDIENCE :: string where
  "INTERNAL_AUDIENCE = ''fiducia-api''"

definition MAX_TRANSITIONS_PER_TARGET :: nat where
  "MAX_TRANSITIONS_PER_TARGET = 32"

definition rev_validate_identifier :: "string \<Rightarrow> string \<Rightarrow> revocation_error + unit" where
  "rev_validate_identifier name val =
     (let t = str_trim val
      in if t = [] \<or> 256 < length t \<or> (\<exists>c\<in>set (chars t). is_control c \<or> is_whitespace c)
         then Inl (InvalidMutation name) else Inr ())"

definition rev_validate_audit_text :: "string \<Rightarrow> string \<Rightarrow> nat \<Rightarrow> revocation_error + unit" where
  "rev_validate_audit_text name val maximum =
     (let t = str_trim val
      in if t = [] \<or> maximum < length t \<or> (\<exists>c\<in>set (chars t). is_control c)
         then Inl (InvalidMutation name) else Inr ())"

definition digest_byte_parts :: "externals \<Rightarrow> byte list list \<Rightarrow> string" where
  "digest_byte_parts X parts = to_hex (sha256 X (frame_parts parts))"

definition digest_text_parts :: "externals \<Rightarrow> string list \<Rightarrow> string" where
  "digest_text_parts X parts = digest_byte_parts X (map as_bytes parts)"

definition is_sha256_hex :: "string \<Rightarrow> bool" where
  "is_sha256_hex s \<longleftrightarrow> length s = 64 \<and> list_all is_lower_hex s"

section \<open>Selectors and requests\<close>

datatype revocation_selector = SelTokenId string string | SelSubject string string

fun sel_tenant_id :: "revocation_selector \<Rightarrow> string" where
  "sel_tenant_id (SelTokenId tenant_id jti) = tenant_id"
| "sel_tenant_id (SelSubject tenant_id subject) = tenant_id"

fun target_kind :: "revocation_selector \<Rightarrow> string" where
  "target_kind (SelTokenId tenant_id jti) = ''token_id''"
| "target_kind (SelSubject tenant_id subject) = ''subject''"

fun target_value :: "revocation_selector \<Rightarrow> string" where
  "target_value (SelTokenId tenant_id jti) = jti"
| "target_value (SelSubject tenant_id subject) = subject"

definition sel_storage_key :: "externals \<Rightarrow> revocation_selector \<Rightarrow> revocation_error + string" where
  "sel_storage_key X sel =
     rbind (rev_validate_identifier ''tenant_id'' (sel_tenant_id sel)) (\<lambda>_.
     rbind (rev_validate_identifier (target_kind sel) (target_value sel)) (\<lambda>_.
       Inr (''auth/revocations/v'' @ dec_nat (unat REVOCATION_RECORD_VERSION) @ ''/''
            @ digest_text_parts X [INTERNAL_ISSUER, INTERNAL_AUDIENCE, sel_tenant_id sel,
                                   target_kind sel, target_value sel])))"

datatype revoke_request =
    RevokeTokenId claims string
  | RevokeSubject string string u64 string

fun request_selector :: "revoke_request \<Rightarrow> revocation_selector" where
  "request_selector (RevokeTokenId c reason) = SelTokenId (cl_org_id c) (cl_jti c)"
| "request_selector (RevokeSubject tenant_id subject expires_at reason) = SelSubject tenant_id subject"

definition validate_internal_claims :: "claims \<Rightarrow> revocation_error + unit" where
  "validate_internal_claims c =
     rbind (ensure (\<not> (cl_iss c \<noteq> INTERNAL_ISSUER \<or> cl_aud c \<noteq> INTERNAL_AUDIENCE)) InvalidClaims) (\<lambda>_.
     rbind (rev_validate_identifier ''tenant_id'' (cl_org_id c)) (\<lambda>_.
     rbind (rev_validate_identifier ''subject'' (cl_sub c)) (\<lambda>_.
     rbind (rev_validate_identifier ''jti'' (cl_jti c)) (\<lambda>_.
       ensure (\<not> (cl_exp c \<le> cl_iat c \<or> MAX_ACCESS_TOKEN_TTL_SECS < cl_exp c - cl_iat c))
         InvalidClaims))))"

fun request_record :: "revoke_request \<Rightarrow> string \<Rightarrow> u64 \<Rightarrow> revocation_error + revocation_record" where
  "request_record (RevokeTokenId c reason) actor now =
     rbind (validate_internal_claims c) (\<lambda>_. map_err RevContract (for_token c reason actor now))"
| "request_record (RevokeSubject tenant_id subject expires_at reason) actor now =
     map_err RevContract (for_subject tenant_id subject reason actor now expires_at)"

fun revoke_request_hash :: "externals \<Rightarrow> revoke_request \<Rightarrow> string" where
  "revoke_request_hash X (RevokeTokenId c reason) =
     digest_text_parts X [''revoke'', ''token_id'', cl_iss c, cl_aud c, cl_org_id c, cl_sub c, cl_jti c,
       u64_to_string (cl_iat c), u64_to_string (cl_exp c), str_trim reason]"
| "revoke_request_hash X (RevokeSubject tenant_id subject expires_at reason) =
     digest_text_parts X [''revoke'', ''subject'', tenant_id, subject, u64_to_string expires_at,
       str_trim reason]"

record lift_request =
  lf_selector :: revocation_selector
  lf_reason :: string

definition lift_request_hash :: "externals \<Rightarrow> lift_request \<Rightarrow> string" where
  "lift_request_hash X req =
     digest_text_parts X [''lift'', target_kind (lf_selector req), sel_tenant_id (lf_selector req),
       target_value (lf_selector req), str_trim (lf_reason req)]"

record rev_mutation_identity =
  rm_actor :: string
  rm_idempotency_key :: string

definition validate_mutation :: "rev_mutation_identity \<Rightarrow> revocation_error + unit" where
  "validate_mutation mutation =
     rbind (rev_validate_audit_text ''actor'' (rm_actor mutation) 128) (\<lambda>_.
       let t = str_trim (rm_idempotency_key mutation)
       in if t = [] \<or> 128 < length t \<or> (\<exists>c\<in>set (chars t). is_control c \<or> is_whitespace c)
          then Inl (InvalidMutation ''idempotency_key'') else Inr ())"

definition mutation_hash :: "externals \<Rightarrow> string \<Rightarrow> string \<Rightarrow> string \<Rightarrow> string \<Rightarrow> string" where
  "mutation_hash X action key actor idempotency_key =
     digest_text_parts X [action, key, str_trim actor, str_trim idempotency_key]"

section \<open>Events\<close>

datatype revocation_action =
    ActRevoke revocation_record
  | ActLift string string u64

fun action_at :: "revocation_action \<Rightarrow> u64" where
  "action_at (ActRevoke r) = rr_created_at r"
| "action_at (ActLift actor reason at) = at"

record revocation_event =
  ev_sequence :: u64
  ev_action :: revocation_action
  ev_idempotency_hash :: string
  ev_request_hash :: string
  ev_previous_hash :: string
  ev_event_hash :: string

text \<open>
  Two renderings of an action: members in declaration order, as the serialiser writes a
  struct directly, for the event hash; members in map order for the stored document.
\<close>

fun target_json :: "revocation_target \<Rightarrow> json" where
  "target_json (TokenId jti) = VObj [(''kind'', VStr ''token_id''), (''jti'', VStr jti)]"
| "target_json (Subject subject) = VObj [(''kind'', VStr ''subject''), (''subject'', VStr subject)]"

abbreviation num_json :: "u64 \<Rightarrow> json" where
  "num_json n \<equiv> VNum (PosInt n)"

definition record_json :: "revocation_record \<Rightarrow> json" where
  "record_json r =
     VObj [(''version'', num_json (ucast (rr_version r))), (''issuer'', VStr (rr_issuer r)),
           (''audience'', VStr (rr_audience r)), (''tenant_id'', VStr (rr_tenant_id r)),
           (''target'', target_json (rr_target r)), (''reason'', VStr (rr_reason r)),
           (''actor'', VStr (rr_actor r)), (''created_at'', num_json (rr_created_at r)),
           (''expires_at'', num_json (rr_expires_at r))]"

fun action_json :: "revocation_action \<Rightarrow> json" where
  "action_json (ActRevoke r) = VObj [(''action'', VStr ''revoke''), (''record'', record_json r)]"
| "action_json (ActLift actor reason at) =
     VObj [(''action'', VStr ''lift''), (''actor'', VStr actor), (''reason'', VStr reason),
           (''at'', num_json at)]"

definition event_hash ::
  "externals \<Rightarrow> u64 \<Rightarrow> revocation_action \<Rightarrow> string \<Rightarrow> string \<Rightarrow> string \<Rightarrow> string" where
  "event_hash X sequence action idempotency_hash request_hash previous_hash =
     digest_byte_parts X [be64 sequence, as_bytes (json_to_string X (action_json action)),
       as_bytes idempotency_hash, as_bytes request_hash, as_bytes previous_hash]"

definition event_new ::
  "externals \<Rightarrow> u64 \<Rightarrow> revocation_action \<Rightarrow> string \<Rightarrow> string \<Rightarrow> string \<Rightarrow> revocation_event" where
  "event_new X sequence action idempotency_hash request_hash previous_hash =
     \<lparr>ev_sequence = sequence, ev_action = action, ev_idempotency_hash = idempotency_hash,
      ev_request_hash = request_hash, ev_previous_hash = previous_hash,
      ev_event_hash = event_hash X sequence action idempotency_hash request_hash previous_hash\<rparr>"

definition validate_hash :: "externals \<Rightarrow> revocation_event \<Rightarrow> revocation_error + unit" where
  "validate_hash X e =
     (if \<not> is_sha256_hex (ev_idempotency_hash e) \<or> \<not> is_sha256_hex (ev_request_hash e)
         \<or> (ev_previous_hash e \<noteq> [] \<and> \<not> is_sha256_hex (ev_previous_hash e))
         \<or> \<not> is_sha256_hex (ev_event_hash e)
      then Inl InvalidLedger
      else if event_hash X (ev_sequence e) (ev_action e) (ev_idempotency_hash e) (ev_request_hash e)
                (ev_previous_hash e) \<noteq> ev_event_hash e
      then Inl InvalidLedger else Inr ())"

section \<open>Ledgers\<close>

record revocation_ledger =
  lg_version :: u16
  lg_storage_key :: string
  lg_events :: "revocation_event list"

datatype revocation_status = Pending | Active | Lifted | Expired

record revocation_snapshot =
  sn_storage_key :: string
  sn_generation :: u64
  sn_status :: revocation_status
  sn_expires_at :: "u64 option"

definition generation :: "revocation_ledger \<Rightarrow> u64" where
  "generation l = (if lg_events l = [] then 0 else ev_sequence (last (lg_events l)))"

fun step_current :: "revocation_action \<Rightarrow> revocation_record option \<Rightarrow> revocation_record option" where
  "step_current (ActRevoke r) current = Some r"
| "step_current (ActLift actor reason at) current = None"

definition current_record :: "revocation_ledger \<Rightarrow> revocation_record option" where
  "current_record l = fold (\<lambda>e. step_current (ev_action e)) (lg_events l) None"

fun find_expiry :: "revocation_event list \<Rightarrow> u64 option" where
  "find_expiry [] = None"
| "find_expiry (e # es) =
     (case ev_action e of
        ActRevoke r \<Rightarrow> Some (rr_expires_at r)
      | ActLift actor reason at \<Rightarrow> find_expiry es)"

definition latest_expiry :: "revocation_ledger \<Rightarrow> u64 option" where
  "latest_expiry l = find_expiry (rev (lg_events l))"

fun replay_loop ::
  "string \<Rightarrow> string \<Rightarrow> string \<Rightarrow> u64 option \<Rightarrow> revocation_event list \<Rightarrow>
   revocation_error + revocation_snapshot option" where
  "replay_loop key idempotency_hash request_hash expiry [] = Inr None"
| "replay_loop key idempotency_hash request_hash expiry (e # es) =
     (let expiry' = (case ev_action e of
                       ActRevoke r \<Rightarrow> Some (rr_expires_at r) | ActLift _ _ _ \<Rightarrow> expiry)
      in if ev_idempotency_hash e \<noteq> idempotency_hash
           then replay_loop key idempotency_hash request_hash expiry' es
         else if ev_request_hash e \<noteq> request_hash then Inl RevIdempotencyConflict
         else Inr (Some \<lparr>sn_storage_key = key, sn_generation = ev_sequence e,
                         sn_status = (case ev_action e of ActRevoke _ \<Rightarrow> Active | ActLift _ _ _ \<Rightarrow> Lifted),
                         sn_expires_at = expiry'\<rparr>))"

definition replay_snapshot ::
  "revocation_ledger \<Rightarrow> string \<Rightarrow> string \<Rightarrow> revocation_error + revocation_snapshot option" where
  "replay_snapshot l idempotency_hash request_hash =
     replay_loop (lg_storage_key l) idempotency_hash request_hash None (lg_events l)"

text \<open>
  The loop of \<open>validate\<close>: index, expected previous hash, last time, current record and the
  idempotency hashes seen so far are its local variables.
\<close>

fun validate_loop ::
  "externals \<Rightarrow> string \<Rightarrow> u64 \<Rightarrow> string \<Rightarrow> u64 \<Rightarrow> revocation_record option \<Rightarrow> string list \<Rightarrow>
   revocation_event list \<Rightarrow> revocation_error + unit" where
  "validate_loop X key index expected_previous last_at current hashes [] = Inr ()"
| "validate_loop X key index expected_previous last_at current hashes (e # es) =
     (if ev_sequence e \<noteq> index + 1 \<or> ev_previous_hash e \<noteq> expected_previous
         \<or> action_at (ev_action e) < last_at \<or> ev_idempotency_hash e \<in> set hashes
      then Inl InvalidLedger
      else rbind (validate_hash X e) (\<lambda>_.
        rbind (case ev_action e of
                 ActRevoke r \<Rightarrow>
                   rbind (map_err (\<lambda>_. InvalidLedger) (record_validate r)) (\<lambda>_.
                   rbind (map_err (\<lambda>_. InvalidLedger) (storage_key X r)) (\<lambda>k.
                     ensure (k = key) InvalidLedger))
               | ActLift actor reason at \<Rightarrow>
                   rbind (map_err (\<lambda>_. InvalidLedger) (rev_validate_audit_text ''actor'' actor 128)) (\<lambda>_.
                   rbind (map_err (\<lambda>_. InvalidLedger) (rev_validate_audit_text ''reason'' reason 256)) (\<lambda>_.
                     case current of
                       None \<Rightarrow> Inl InvalidLedger
                     | Some active \<Rightarrow>
                         ensure (\<not> (at < rr_created_at active \<or> rr_expires_at active \<le> at))
                           InvalidLedger))) (\<lambda>_.
          validate_loop X key (index + 1) (ev_event_hash e) (action_at (ev_action e))
            (step_current (ev_action e) current) (hashes @ [ev_idempotency_hash e]) es)))"

definition ledger_validate :: "externals \<Rightarrow> revocation_ledger \<Rightarrow> revocation_error + unit" where
  "ledger_validate X l =
     (if lg_version l \<noteq> LEDGER_VERSION \<or> lg_events l = []
         \<or> MAX_TRANSITIONS_PER_TARGET < length (lg_events l)
      then Inl InvalidLedger
      else validate_loop X (lg_storage_key l) 0 [] 0 None [] (lg_events l))"

definition ledger_new ::
  "externals \<Rightarrow> string \<Rightarrow> revocation_record \<Rightarrow> string \<Rightarrow> string \<Rightarrow> revocation_error + revocation_ledger" where
  "ledger_new X key r idempotency_hash request_hash =
     (let l = \<lparr>lg_version = LEDGER_VERSION, lg_storage_key = key,
               lg_events = [event_new X 1 (ActRevoke r) idempotency_hash request_hash []]\<rparr>
      in rbind (ledger_validate X l) (\<lambda>_. Inr l))"

definition ensure_capacity :: "revocation_ledger \<Rightarrow> revocation_error + unit" where
  "ensure_capacity l = ensure (\<not> MAX_TRANSITIONS_PER_TARGET \<le> length (lg_events l)) TransitionLimit"

definition previous_hash_of :: "revocation_ledger \<Rightarrow> string" where
  "previous_hash_of l = (if lg_events l = [] then [] else ev_event_hash (last (lg_events l)))"

definition push_event ::
  "externals \<Rightarrow> revocation_ledger \<Rightarrow> revocation_action \<Rightarrow> string \<Rightarrow> string \<Rightarrow> revocation_ledger" where
  "push_event X l action idempotency_hash request_hash =
     l\<lparr>lg_events := lg_events l @
         [event_new X (generation l + 1) action idempotency_hash request_hash (previous_hash_of l)]\<rparr>"

definition append_revoke ::
  "externals \<Rightarrow> revocation_ledger \<Rightarrow> revocation_record \<Rightarrow> string \<Rightarrow> string \<Rightarrow>
   revocation_error + revocation_ledger" where
  "append_revoke X l r idempotency_hash request_hash =
     rbind (ensure_capacity l) (\<lambda>_.
       let l' = push_event X l (ActRevoke r) idempotency_hash request_hash
       in rbind (ledger_validate X l') (\<lambda>_. Inr l'))"

definition append_lift ::
  "externals \<Rightarrow> revocation_ledger \<Rightarrow> string \<Rightarrow> string \<Rightarrow> u64 \<Rightarrow> string \<Rightarrow> string \<Rightarrow>
   revocation_error + revocation_ledger" where
  "append_lift X l actor reason at idempotency_hash request_hash =
     rbind (ensure_capacity l) (\<lambda>_.
       case current_record l of
         None \<Rightarrow> Inl NotActive
       | Some active \<Rightarrow>
           if \<not> is_active_at active at then Inl NotActive
           else rbind (rev_validate_audit_text ''actor'' actor 128) (\<lambda>_.
                rbind (rev_validate_audit_text ''reason'' reason 256) (\<lambda>_.
                  let l' = push_event X l (ActLift (str_trim actor) (str_trim reason) at)
                             idempotency_hash request_hash
                  in rbind (ledger_validate X l') (\<lambda>_. Inr l'))))"

definition snapshot :: "revocation_ledger \<Rightarrow> u64 \<Rightarrow> revocation_snapshot" where
  "snapshot l now =
     \<lparr>sn_storage_key = lg_storage_key l, sn_generation = generation l,
      sn_status = (case current_record l of
                     Some r \<Rightarrow> if now < rr_created_at r then Pending
                              else if is_active_at r now then Active else Expired
                   | None \<Rightarrow> Lifted),
      sn_expires_at = latest_expiry l\<rparr>"

section \<open>The stored document\<close>

fun target_to_json :: "revocation_target \<Rightarrow> json" where
  "target_to_json (TokenId jti) = VObj [(''jti'', VStr jti), (''kind'', VStr ''token_id'')]"
| "target_to_json (Subject subject) = VObj [(''kind'', VStr ''subject''), (''subject'', VStr subject)]"

definition target_from_json :: "json \<Rightarrow> revocation_target option" where
  "target_from_json v =
     Option.bind (tagged ''kind'' v) (\<lambda>(kind, content).
       if kind = ''token_id'' then
         Option.bind (struct_fields [''jti''] content) (\<lambda>f. map_option TokenId (field as_str f ''jti''))
       else if kind = ''subject'' then
         Option.bind (struct_fields [''subject''] content) (\<lambda>f. map_option Subject (field as_str f ''subject''))
       else None)"

definition record_to_json :: "revocation_record \<Rightarrow> json" where
  "record_to_json r =
     VObj [(''actor'', VStr (rr_actor r)), (''audience'', VStr (rr_audience r)),
           (''created_at'', num_json (rr_created_at r)), (''expires_at'', num_json (rr_expires_at r)),
           (''issuer'', VStr (rr_issuer r)), (''reason'', VStr (rr_reason r)),
           (''target'', target_to_json (rr_target r)), (''tenant_id'', VStr (rr_tenant_id r)),
           (''version'', num_json (ucast (rr_version r)))]"

definition record_from_json :: "json \<Rightarrow> revocation_record option" where
  "record_from_json v =
     Option.bind (struct_fields [''version'', ''issuer'', ''audience'', ''tenant_id'', ''target'',
                                 ''reason'', ''actor'', ''created_at'', ''expires_at''] v) (\<lambda>f.
     Option.bind (field as_u16 f ''version'') (\<lambda>version.
     Option.bind (field as_str f ''issuer'') (\<lambda>issuer.
     Option.bind (field as_str f ''audience'') (\<lambda>audience.
     Option.bind (field as_str f ''tenant_id'') (\<lambda>tenant_id.
     Option.bind (field target_from_json f ''target'') (\<lambda>target.
     Option.bind (field as_str f ''reason'') (\<lambda>reason.
     Option.bind (field as_str f ''actor'') (\<lambda>actor.
     Option.bind (field as_u64 f ''created_at'') (\<lambda>created_at.
     Option.bind (field as_u64 f ''expires_at'') (\<lambda>expires_at.
       Some \<lparr>rr_version = version, rr_issuer = issuer, rr_audience = audience,
             rr_tenant_id = tenant_id, rr_target = target, rr_reason = reason, rr_actor = actor,
             rr_created_at = created_at, rr_expires_at = expires_at\<rparr>))))))))))"

fun action_to_json :: "revocation_action \<Rightarrow> json" where
  "action_to_json (ActRevoke r) = VObj [(''action'', VStr ''revoke''), (''record'', record_to_json r)]"
| "action_to_json (ActLift actor reason at) =
     VObj [(''action'', VStr ''lift''), (''actor'', VStr actor), (''at'', num_json at),
           (''reason'', VStr reason)]"

definition action_from_json :: "json \<Rightarrow> revocation_action option" where
  "action_from_json v =
     Option.bind (tagged ''action'' v) (\<lambda>(action, content).
       if action = ''revoke'' then
         Option.bind (struct_fields [''record''] content) (\<lambda>f.
           map_option ActRevoke (field record_from_json f ''record''))
       else if action = ''lift'' then
         Option.bind (struct_fields [''actor'', ''reason'', ''at''] content) (\<lambda>f.
         Option.bind (field as_str f ''actor'') (\<lambda>actor.
         Option.bind (field as_str f ''reason'') (\<lambda>reason.
           map_option (ActLift actor reason) (field as_u64 f ''at''))))
       else None)"

definition event_to_json :: "revocation_event \<Rightarrow> json" where
  "event_to_json e =
     VObj [(''action'', action_to_json (ev_action e)), (''event_hash'', VStr (ev_event_hash e)),
           (''idempotency_hash'', VStr (ev_idempotency_hash e)),
           (''previous_hash'', VStr (ev_previous_hash e)), (''request_hash'', VStr (ev_request_hash e)),
           (''sequence'', num_json (ev_sequence e))]"

definition event_from_json :: "json \<Rightarrow> revocation_event option" where
  "event_from_json v =
     Option.bind (struct_fields [''sequence'', ''action'', ''idempotency_hash'', ''request_hash'',
                                 ''previous_hash'', ''event_hash''] v) (\<lambda>f.
     Option.bind (field as_u64 f ''sequence'') (\<lambda>sequence.
     Option.bind (field action_from_json f ''action'') (\<lambda>action.
     Option.bind (field as_str f ''idempotency_hash'') (\<lambda>idempotency_hash.
     Option.bind (field as_str f ''request_hash'') (\<lambda>request_hash.
     Option.bind (field as_str f ''previous_hash'') (\<lambda>previous_hash.
     Option.bind (field as_str f ''event_hash'') (\<lambda>event_hash.
       Some \<lparr>ev_sequence = sequence, ev_action = action, ev_idempotency_hash = idempotency_hash,
             ev_request_hash = request_hash, ev_previous_hash = previous_hash,
             ev_event_hash = event_hash\<rparr>)))))))"

definition ledger_to_json :: "revocation_ledger \<Rightarrow> json" where
  "ledger_to_json l =
     VObj [(''events'', VArr (map event_to_json (lg_events l))),
           (''storage_key'', VStr (lg_storage_key l)),
           (''version'', num_json (ucast (lg_version l)))]"

definition ledger_from_json :: "json \<Rightarrow> revocation_ledger option" where
  "ledger_from_json v =
     Option.bind (struct_fields [''version'', ''storage_key'', ''events''] v) (\<lambda>f.
     Option.bind (field as_u16 f ''version'') (\<lambda>version.
     Option.bind (field as_str f ''storage_key'') (\<lambda>key.
     Option.bind (field (de_vec event_from_json) f ''events'') (\<lambda>events.
       Some \<lparr>lg_version = version, lg_storage_key = key, lg_events = events\<rparr>))))"

section \<open>The store\<close>

type_synonym ledger_memory = "(string \<times> revocation_ledger) list"

datatype matched_target = MatchedTokenId | MatchedSubject

record revocation_decision =
  dc_revoked :: bool
  dc_matched_target :: "matched_target option"
  dc_generation :: "u64 option"
  dc_expires_at :: "u64 option"

definition not_revoked :: revocation_decision where
  "not_revoked = \<lparr>dc_revoked = False, dc_matched_target = None, dc_generation = None,
                  dc_expires_at = None\<rparr>"

text \<open>\<open>RevocationStore\<close> is its optional client; the in-memory map is the local state.\<close>

definition revocation_store_from_env :: "environment \<Rightarrow> store_error + kv_client option" where
  "revocation_store_from_env env = rbind (kv_client_from_env env) (\<lambda>kv. Inr (Some kv))"

definition load_ledger ::
  "externals \<Rightarrow> kv_client \<Rightarrow> string \<Rightarrow> ('c, revocation_error + (revocation_ledger \<times> u64) option) eff" where
  "load_ledger X kv key =
     eff_bind (get_versioned X kv key) (\<lambda>got.
       case got of
         Inl e \<Rightarrow> Done (Inl (RevStore e))
       | Inr None \<Rightarrow> Done (Inr None)
       | Inr (Some stored) \<Rightarrow>
           Done (rbind (ok_or (ledger_from_json (vv_value stored)) InvalidLedger) (\<lambda>l.
                 rbind (ledger_validate X l) (\<lambda>_.
                   if lg_storage_key l \<noteq> key then Inl InvalidLedger
                   else Inr (Some (l, vv_mod_revision stored))))))"

text \<open>What one revoke or lift writes, given the ledger that was read.\<close>

definition revoke_next ::
  "externals \<Rightarrow> string \<Rightarrow> revocation_record \<Rightarrow> string \<Rightarrow> string \<Rightarrow> revocation_ledger option \<Rightarrow>
   revocation_error + revocation_ledger" where
  "revoke_next X key r idempotency_hash request_hash ledger =
     (case ledger of
        Some current \<Rightarrow> append_revoke X current r idempotency_hash request_hash
      | None \<Rightarrow> ledger_new X key r idempotency_hash request_hash)"

definition replay_of ::
  "revocation_ledger option \<Rightarrow> string \<Rightarrow> string \<Rightarrow> revocation_error + revocation_snapshot option" where
  "replay_of ledger idempotency_hash request_hash =
     (case ledger of
        Some current \<Rightarrow> replay_snapshot current idempotency_hash request_hash
      | None \<Rightarrow> Inr None)"

definition rev_revoke_attempt ::
  "externals \<Rightarrow> kv_client \<Rightarrow> string \<Rightarrow> revocation_record \<Rightarrow> string \<Rightarrow> string \<Rightarrow> u64 \<Rightarrow>
   ('c, (revocation_error + revocation_snapshot) option) eff" where
  "rev_revoke_attempt X kv key r idempotency_hash request_hash now =
     eff_bind (load_ledger X kv key) (\<lambda>got.
       case got of
         Inl e \<Rightarrow> Done (Some (Inl e))
       | Inr existing \<Rightarrow>
           (case replay_of (map_option fst existing) idempotency_hash request_hash of
              Inl e \<Rightarrow> Done (Some (Inl e))
            | Inr (Some snap) \<Rightarrow> Done (Some (Inr snap))
            | Inr None \<Rightarrow>
                (case revoke_next X key r idempotency_hash request_hash (map_option fst existing) of
                   Inl e \<Rightarrow> Done (Some (Inl e))
                 | Inr next \<Rightarrow>
                     eff_bind (put_if_revision X kv key (ledger_to_json next)
                                 (case existing of Some (l, revision) \<Rightarrow> revision | None \<Rightarrow> 0)) (\<lambda>put.
                       case put of
                         Inl e \<Rightarrow> Done (Some (Inl (RevStore e)))
                       | Inr Applied \<Rightarrow> Done (Some (Inr (snapshot next now)))
                       | Inr Mismatch \<Rightarrow> Done None))))"

text \<open>
  Without a client the in-memory ledger is changed in place: an event that fails validation
  has already been pushed.
\<close>

definition revoke_memory ::
  "externals \<Rightarrow> string \<Rightarrow> revocation_record \<Rightarrow> string \<Rightarrow> string \<Rightarrow> ledger_memory \<Rightarrow> ledger_memory" where
  "revoke_memory X key r idempotency_hash request_hash ledgers =
     (case replay_of (map_of ledgers key) idempotency_hash request_hash of
        Inr None \<Rightarrow>
          (case map_of ledgers key of
             Some current \<Rightarrow>
               if is_ok (ensure_capacity current)
               then AList.update key (push_event X current (ActRevoke r) idempotency_hash request_hash) ledgers
               else ledgers
           | None \<Rightarrow>
               (case ledger_new X key r idempotency_hash request_hash of
                  Inr l \<Rightarrow> AList.update key l ledgers | Inl e \<Rightarrow> ledgers))
      | _ \<Rightarrow> ledgers)"

definition rev_revoke ::
  "externals \<Rightarrow> kv_client option \<Rightarrow> revoke_request \<Rightarrow> rev_mutation_identity \<Rightarrow> u64 \<Rightarrow>
   (ledger_memory, revocation_error + revocation_snapshot) eff" where
  "rev_revoke X store request mutation now =
     (case rbind (validate_mutation mutation) (\<lambda>_.
           rbind (sel_storage_key X (request_selector request)) (\<lambda>key.
           rbind (request_record request (rm_actor mutation) now) (\<lambda>r.
           rbind (map_err RevContract (storage_key X r)) (\<lambda>record_key.
             if record_key \<noteq> key then Inl (InvalidMutation ''target'') else Inr (key, r))))) of
        Inl e \<Rightarrow> Done (Inl e)
      | Inr (key, r) \<Rightarrow>
          let idempotency_hash = mutation_hash X ''revoke'' key (rm_actor mutation) (rm_idempotency_key mutation);
              request_hash = revoke_request_hash X request
          in case store of
               Some kv \<Rightarrow>
                 cas_retry REV_MAX_CAS_RETRIES (Inl RevCasRetriesExhausted)
                   (rev_revoke_attempt X kv key r idempotency_hash request_hash now)
             | None \<Rightarrow>
                 Locked (revoke_memory X key r idempotency_hash request_hash) (\<lambda>ledgers.
                   Done (rbind (replay_of (map_of ledgers key) idempotency_hash request_hash) (\<lambda>replay.
                     case replay of
                       Some snap \<Rightarrow> Inr snap
                     | None \<Rightarrow> rbind (revoke_next X key r idempotency_hash request_hash (map_of ledgers key))
                                 (\<lambda>next. Inr (snapshot next now))))))"

definition rev_lift_attempt ::
  "externals \<Rightarrow> kv_client \<Rightarrow> string \<Rightarrow> string \<Rightarrow> string \<Rightarrow> string \<Rightarrow> string \<Rightarrow> u64 \<Rightarrow>
   ('c, (revocation_error + revocation_snapshot) option) eff" where
  "rev_lift_attempt X kv key actor reason idempotency_hash request_hash now =
     eff_bind (load_ledger X kv key) (\<lambda>got.
       case got of
         Inl e \<Rightarrow> Done (Some (Inl e))
       | Inr None \<Rightarrow> Done (Some (Inl NotFound))
       | Inr (Some (l, revision)) \<Rightarrow>
           (case replay_snapshot l idempotency_hash request_hash of
              Inl e \<Rightarrow> Done (Some (Inl e))
            | Inr (Some snap) \<Rightarrow> Done (Some (Inr snap))
            | Inr None \<Rightarrow>
                (case append_lift X l actor reason now idempotency_hash request_hash of
                   Inl e \<Rightarrow> Done (Some (Inl e))
                 | Inr next \<Rightarrow>
                     eff_bind (put_if_revision X kv key (ledger_to_json next) revision) (\<lambda>put.
                       case put of
                         Inl e \<Rightarrow> Done (Some (Inl (RevStore e)))
                       | Inr Applied \<Rightarrow> Done (Some (Inr (snapshot next now)))
                       | Inr Mismatch \<Rightarrow> Done None))))"

definition lift_memory ::
  "externals \<Rightarrow> string \<Rightarrow> string \<Rightarrow> string \<Rightarrow> string \<Rightarrow> string \<Rightarrow> u64 \<Rightarrow> ledger_memory \<Rightarrow> ledger_memory" where
  "lift_memory X key actor reason idempotency_hash request_hash now ledgers =
     (case map_of ledgers key of
        None \<Rightarrow> ledgers
      | Some l \<Rightarrow>
          (case replay_snapshot l idempotency_hash request_hash of
             Inr None \<Rightarrow>
               if is_ok (ensure_capacity l)
                  \<and> (case current_record l of Some active \<Rightarrow> is_active_at active now | None \<Rightarrow> False)
                  \<and> is_ok (rev_validate_audit_text ''actor'' actor 128)
                  \<and> is_ok (rev_validate_audit_text ''reason'' reason 256)
               then AList.update key (push_event X l (ActLift (str_trim actor) (str_trim reason) now)
                      idempotency_hash request_hash) ledgers
               else ledgers
           | _ \<Rightarrow> ledgers))"

definition rev_lift ::
  "externals \<Rightarrow> kv_client option \<Rightarrow> lift_request \<Rightarrow> rev_mutation_identity \<Rightarrow> u64 \<Rightarrow>
   (ledger_memory, revocation_error + revocation_snapshot) eff" where
  "rev_lift X store request mutation now =
     (case rbind (validate_mutation mutation) (\<lambda>_.
           rbind (rev_validate_audit_text ''reason'' (lf_reason request) 256) (\<lambda>_.
             sel_storage_key X (lf_selector request))) of
        Inl e \<Rightarrow> Done (Inl e)
      | Inr key \<Rightarrow>
          let idempotency_hash = mutation_hash X ''lift'' key (rm_actor mutation) (rm_idempotency_key mutation);
              request_hash = lift_request_hash X request
          in case store of
               Some kv \<Rightarrow>
                 cas_retry REV_MAX_CAS_RETRIES (Inl RevCasRetriesExhausted)
                   (rev_lift_attempt X kv key (rm_actor mutation) (lf_reason request)
                      idempotency_hash request_hash now)
             | None \<Rightarrow>
                 Locked (lift_memory X key (rm_actor mutation) (lf_reason request)
                           idempotency_hash request_hash now) (\<lambda>ledgers.
                   Done (rbind (ok_or (map_of ledgers key) NotFound) (\<lambda>l.
                         rbind (replay_snapshot l idempotency_hash request_hash) (\<lambda>replay.
                     case replay of
                       Some snap \<Rightarrow> Inr snap
                     | None \<Rightarrow> rbind (append_lift X l (rm_actor mutation) (lf_reason request) now
                                        idempotency_hash request_hash)
                                 (\<lambda>next. Inr (snapshot next now)))))))"

definition read_ledger ::
  "externals \<Rightarrow> kv_client option \<Rightarrow> string \<Rightarrow> (ledger_memory, revocation_error + revocation_ledger option) eff" where
  "read_ledger X store key =
     (case store of
        Some kv \<Rightarrow> eff_try (load_ledger X kv key) (\<lambda>found. Done (Inr (map_option fst found)))
      | None \<Rightarrow> Locked id (\<lambda>ledgers. Done (Inr (map_of ledgers key))))"

primrec check_loop ::
  "externals \<Rightarrow> kv_client option \<Rightarrow> claims \<Rightarrow> u64 \<Rightarrow> (revocation_selector \<times> matched_target) list \<Rightarrow>
   (ledger_memory, revocation_error + revocation_decision) eff" where
  "check_loop X store c now [] = Done (Inr not_revoked)"
| "check_loop X store c now (s # ss) =
     (case sel_storage_key X (fst s) of
        Inl e \<Rightarrow> Done (Inl e)
      | Inr key \<Rightarrow>
          eff_try (read_ledger X store key) (\<lambda>found.
            case found of
              None \<Rightarrow> check_loop X store c now ss
            | Some l \<Rightarrow>
                (case current_record l of
                   Some r \<Rightarrow>
                     if record_matches r c now
                     then Done (Inr \<lparr>dc_revoked = True, dc_matched_target = Some (snd s),
                                     dc_generation = Some (generation l),
                                     dc_expires_at = Some (rr_expires_at r)\<rparr>)
                     else check_loop X store c now ss
                 | None \<Rightarrow> check_loop X store c now ss)))"

definition rev_check ::
  "externals \<Rightarrow> kv_client option \<Rightarrow> claims \<Rightarrow> u64 \<Rightarrow>
   (ledger_memory, revocation_error + revocation_decision) eff" where
  "rev_check X store c now =
     (case validate_internal_claims c of
        Inl e \<Rightarrow> Done (Inl e)
      | Inr _ \<Rightarrow>
          check_loop X store c now
            [(SelTokenId (cl_org_id c) (cl_jti c), MatchedTokenId),
             (SelSubject (cl_org_id c) (cl_sub c), MatchedSubject)])"

end
