(* ===== verification/Revocation_Service.thy ===== *)
theory Revocation_Service
  imports Revocation
begin

text \<open>
  Properties of the revocation store: the stored document round-trips, a valid ledger is a
  gap-free hash chain of at most 32 transitions, ledgers only ever grow in every
  interleaving of replicas, and what revoke, lift and check do one after the other.
\<close>

section \<open>The stored document\<close>

lemma as_u16_ucast [simp]: "as_u16 (num_json (ucast (w :: u16))) = Some w"
proof -
  have lt: "unat w < 2 ^ 16" using unsigned_less [of w, where ?'a = nat] by simp
  then have "unat (ucast w :: u64) = unat w" by (simp add: unsigned_ucast_eq take_bit_eq_mod)
  moreover have "ucast (ucast w :: u64) = w" by (rule bit_word_eqI) (simp add: bit_simps)
  ultimately show ?thesis using lt by simp
qed

lemma target_roundtrip [simp]: "target_from_json (target_to_json t) = Some t"
  by (cases t) (simp_all add: target_from_json_def field_def)

lemma record_roundtrip [simp]: "record_from_json (record_to_json r) = Some r"
  by (simp add: record_from_json_def record_to_json_def field_def del: as_u16.simps)

lemma action_roundtrip [simp]: "action_from_json (action_to_json a) = Some a"
  by (cases a) (simp_all add: action_from_json_def field_def)

lemma event_roundtrip [simp]: "event_from_json (event_to_json e) = Some e"
  by (simp add: event_from_json_def event_to_json_def field_def)

lemma ledger_roundtrip [simp]: "ledger_from_json (ledger_to_json l) = Some l"
  by (simp add: ledger_from_json_def ledger_to_json_def field_def del: as_u16.simps)

lemma target_canon [simp]: "json_canon (target_to_json t)"
  by (cases t) simp_all

lemma record_canon [simp]: "json_canon (record_to_json r)"
  by (simp add: record_to_json_def)

lemma action_canon [simp]: "json_canon (action_to_json a)"
  by (cases a) simp_all

lemma ledger_canon [simp]: "json_canon (ledger_to_json l)"
  by (auto simp: ledger_to_json_def event_to_json_def)

section \<open>Valid ledgers\<close>

abbreviation ledger_valid :: "externals \<Rightarrow> revocation_ledger \<Rightarrow> bool" where
  "ledger_valid X l \<equiv> ledger_validate X l = Inr ()"

lemma rev_validate_identifier_iff [result_simps]:
  "rev_validate_identifier name s = Inr () \<longleftrightarrow> identifier_ok s"
  by (auto simp: rev_validate_identifier_def identifier_ok_def Let_def)

lemma rev_validate_audit_text_iff [result_simps]:
  "rev_validate_audit_text name s n = Inr () \<longleftrightarrow> audit_text_ok s n"
  by (auto simp: rev_validate_audit_text_def audit_text_ok_def Let_def)

text \<open>What \<open>validate\<close> demands of one event, as a predicate.\<close>

definition event_fits ::
  "externals \<Rightarrow> string \<Rightarrow> u64 \<Rightarrow> string \<Rightarrow> u64 \<Rightarrow> revocation_record option \<Rightarrow> string list \<Rightarrow>
   revocation_event \<Rightarrow> bool" where
  "event_fits X key index prev last_at current hashes e \<longleftrightarrow>
     ev_sequence e = index + 1 \<and> ev_previous_hash e = prev \<and> last_at \<le> action_at (ev_action e)
   \<and> ev_idempotency_hash e \<notin> set hashes \<and> validate_hash X e = Inr ()
   \<and> (case ev_action e of
        ActRevoke r \<Rightarrow> record_ok r \<and> storage_key X r = Inr key
      | ActLift actor reason at \<Rightarrow>
          audit_text_ok actor 128 \<and> audit_text_ok reason 256
        \<and> (\<exists>active. current = Some active \<and> rr_created_at active \<le> at \<and> at < rr_expires_at active))"

lemma validate_loop_Cons:
  "validate_loop X key index prev last_at current hashes (e # es) = Inr () \<longleftrightarrow>
     event_fits X key index prev last_at current hashes e
   \<and> validate_loop X key (index + 1) (ev_event_hash e) (action_at (ev_action e))
       (step_current (ev_action e) current) (hashes @ [ev_idempotency_hash e]) es = Inr ()"
proof (cases "ev_action e")
  case (ActRevoke r)
  then show ?thesis
    by (auto simp: event_fits_def result_simps record_validate_iff not_less)
next
  case (ActLift actor reason at)
  then show ?thesis
    by (cases current) (auto simp: event_fits_def result_simps not_less not_le)
qed

declare validate_loop.simps(2) [simp del]

lemma validate_loop_append:
  "validate_loop X key index prev last_at current hashes (es @ [e]) = Inr () \<longleftrightarrow>
     validate_loop X key index prev last_at current hashes es = Inr ()
   \<and> event_fits X key (index + of_nat (length es))
       (if es = [] then prev else ev_event_hash (last es))
       (if es = [] then last_at else action_at (ev_action (last es)))
       (fold (\<lambda>e. step_current (ev_action e)) es current)
       (hashes @ map ev_idempotency_hash es) e"
proof (induction es arbitrary: index prev last_at current hashes)
  case Nil
  then show ?case by (simp add: validate_loop_Cons)
next
  case (Cons a es)
  then show ?case by (auto simp: validate_loop_Cons ac_simps)
qed

lemma ledger_validate_iff:
  "ledger_valid X l \<longleftrightarrow>
     lg_version l = LEDGER_VERSION \<and> lg_events l \<noteq> [] \<and> length (lg_events l) \<le> 32
   \<and> validate_loop X (lg_storage_key l) 0 [] 0 None [] (lg_events l) = Inr ()"
  by (auto simp: ledger_validate_def MAX_TRANSITIONS_PER_TARGET_def)

text \<open>One more event on a valid ledger.\<close>

lemma ledger_valid_append:
  assumes "ledger_valid X l"
  shows "ledger_valid X (l\<lparr>lg_events := lg_events l @ [e]\<rparr>) \<longleftrightarrow>
     length (lg_events l) < 32
   \<and> event_fits X (lg_storage_key l) (of_nat (length (lg_events l)))
       (ev_event_hash (last (lg_events l))) (action_at (ev_action (last (lg_events l))))
       (current_record l) (map ev_idempotency_hash (lg_events l)) e"
  using assms by (auto simp: ledger_validate_iff validate_loop_append current_record_def)

lemma ledger_valid_sequence:
  assumes "ledger_valid X l"
  shows "generation l = of_nat (length (lg_events l))"
proof -
  obtain es e where es: "lg_events l = es @ [e]"
    using assms by (cases "lg_events l" rule: rev_cases) (auto simp: ledger_validate_iff)
  with assms show ?thesis
    by (simp add: ledger_validate_iff generation_def validate_loop_append event_fits_def)
qed

lemma ledger_valid_generation:
  assumes "ledger_valid X l"
  shows "unat (generation l) = length (lg_events l)" "length (lg_events l) \<le> 32"
proof -
  show le: "length (lg_events l) \<le> 32" using assms by (simp add: ledger_validate_iff)
  then have "length (lg_events l) < 2 ^ 64" by (rule le_less_trans) simp
  then show "unat (generation l) = length (lg_events l)"
    unfolding ledger_valid_sequence [OF assms] by (simp add: unat_of_nat)
qed

lemma current_record_push [simp]:
  "current_record (push_event X l a ih rh) = step_current a (current_record l)"
  by (simp add: current_record_def push_event_def event_new_def)

lemma push_event_sel [simp]:
  "lg_storage_key (push_event X l a ih rh) = lg_storage_key l"
  "lg_version (push_event X l a ih rh) = lg_version l"
  by (simp_all add: push_event_def)

lemma append_revoke_InrD:
  assumes "append_revoke X l r ih rh = Inr l'"
  shows "l' = push_event X l (ActRevoke r) ih rh" "ledger_valid X l'"
  using assms by (auto simp: append_revoke_def Let_def rbind_eq_Inr)

lemma append_lift_InrD:
  assumes "append_lift X l actor reason at ih rh = Inr l'"
  shows "l' = push_event X l (ActLift (str_trim actor) (str_trim reason) at) ih rh" "ledger_valid X l'"
    "\<exists>r. current_record l = Some r \<and> is_active_at r at"
  using assms by (auto simp: append_lift_def Let_def rbind_eq_Inr split: option.splits if_splits)

lemma ledger_new_InrD:
  assumes "ledger_new X key r ih rh = Inr l"
  shows "l = \<lparr>lg_version = LEDGER_VERSION, lg_storage_key = key,
      lg_events = [event_new X 1 (ActRevoke r) ih rh []]\<rparr>" "ledger_valid X l"
  using assms by (auto simp: ledger_new_def Let_def rbind_eq_Inr)

section \<open>Every interleaving\<close>

datatype rev_response =
    RevokedResp "revocation_error + revocation_snapshot"
  | LiftedResp "revocation_error + revocation_snapshot"
  | Checked claims u64 "revocation_error + revocation_decision"

inductive_set rev_ops :: "externals \<Rightarrow> (ledger_memory, rev_response) eff set" for X :: externals where
  op_rev_revoke: "eff_map RevokedResp (rev_revoke X (Some kv) request mutation now) \<in> rev_ops X"
| op_rev_lift: "eff_map LiftedResp (rev_lift X (Some kv) lift mutation now) \<in> rev_ops X"
| op_rev_check: "eff_map (Checked c now) (rev_check X (Some kv) c now) \<in> rev_ops X"

text \<open>Creation and update rule of one ledger: one valid event more, at its own key.\<close>

definition ledger_ini :: "externals \<Rightarrow> creates" where
  "ledger_ini X key v \<longleftrightarrow>
     (\<exists>l. v = ledger_to_json l \<and> lg_storage_key l = key \<and> ledger_valid X l \<and> length (lg_events l) = 1)"

definition ledger_upd :: "externals \<Rightarrow> updates" where
  "ledger_upd X key v0 v \<longleftrightarrow>
     (\<exists>l l' e. ledger_from_json v0 = Some l \<and> v = ledger_to_json l' \<and> lg_storage_key l = key
        \<and> ledger_valid X l \<and> ledger_valid X l' \<and> l' = l\<lparr>lg_events := lg_events l @ [e]\<rparr>)"

lemma gwp_load_ledger:
  assumes "\<And>e H'. Q (Inl e) H'" and "Q (Inr None) H"
    and "\<And>v r l. ledger_from_json v = Some l \<Longrightarrow> ledger_valid X l \<Longrightarrow> lg_storage_key l = key \<Longrightarrow>
           Q (Inr (Some (l, r))) (insert (key, r, v) H)"
  shows "gwp X ini upd (load_ledger X kv key) Q H"
  unfolding load_ledger_def gwp_bind
proof (rule gwp_get_versioned)
  fix v and r :: u64
  let ?res = "rbind (ok_or (ledger_from_json v) InvalidLedger) (\<lambda>l. rbind (ledger_validate X l) (\<lambda>_.
      if lg_storage_key l \<noteq> key then Inl InvalidLedger else Inr (Some (l, r))))"
  have "Q ?res (insert (key, r, v) H)"
  proof (cases ?res)
    case (Inr x)
    then obtain l where "ledger_from_json v = Some l" "ledger_valid X l" "lg_storage_key l = key"
      "x = Some (l, r)"
      by (auto simp: result_simps split: if_splits)
    with Inr assms(3) [of v l r] show ?thesis by simp
  qed (simp add: assms(1))
  then show "gwp X ini upd (case Inr (Some \<lparr>vv_value = v, vv_mod_revision = r\<rparr>) of
      Inl e \<Rightarrow> Done (Inl (RevStore e))
    | Inr None \<Rightarrow> Done (Inr None)
    | Inr (Some stored) \<Rightarrow>
        Done (rbind (ok_or (ledger_from_json (vv_value stored)) InvalidLedger) (\<lambda>l.
              rbind (ledger_validate X l) (\<lambda>_.
                if lg_storage_key l \<noteq> key then Inl InvalidLedger
                else Inr (Some (l, vv_mod_revision stored)))))) Q (insert (key, r, v) H)"
    by (simp cong: if_cong)
qed (use assms in auto)

lemma may_write_push:
  assumes "ledger_from_json v = Some l" "ledger_valid X l" "lg_storage_key l = key"
    and "ledger_valid X (push_event X l a ih rh)"
  shows "may_write (ledger_ini X) (ledger_upd X) (insert (key, r, v) H) key
    (ledger_to_json (push_event X l a ih rh)) r"
  unfolding may_write_def ledger_upd_def using assms by (auto simp: push_event_def)

lemma may_write_new:
  assumes "ledger_new X key r ih rh = Inr l"
  shows "may_write (ledger_ini X) (ledger_upd X) H key (ledger_to_json l) 0"
proof -
  have "lg_storage_key l = key" "length (lg_events l) = 1" "ledger_valid X l"
    using ledger_new_InrD [OF assms] by simp_all
  then show ?thesis unfolding may_write_def ledger_ini_def by blast
qed

lemma guarded_rev_revoke_attempt:
  "guarded X (ledger_ini X) (ledger_upd X) (rev_revoke_attempt X kv key r ih rh now) H"
  unfolding rev_revoke_attempt_def gwp_bind
proof (rule gwp_load_ledger)
  fix v rv l
  assume "ledger_from_json v = Some l" "ledger_valid X l" "lg_storage_key l = key"
  then show "gwp X (ledger_ini X) (ledger_upd X)
      (case Inr (Some (l, rv)) of Inl e \<Rightarrow> Done (Some (Inl e))
       | Inr existing \<Rightarrow>
           (case replay_of (map_option fst existing) ih rh of
              Inl e \<Rightarrow> Done (Some (Inl e))
            | Inr (Some snap) \<Rightarrow> Done (Some (Inr snap))
            | Inr None \<Rightarrow>
                (case revoke_next X key r ih rh (map_option fst existing) of
                   Inl e \<Rightarrow> Done (Some (Inl e))
                 | Inr next \<Rightarrow>
                     eff_bind (put_if_revision X kv key (ledger_to_json next)
                                 (case existing of Some (l, revision) \<Rightarrow> revision | None \<Rightarrow> 0)) (\<lambda>put.
                       case put of
                         Inl e \<Rightarrow> Done (Some (Inl (RevStore e)))
                       | Inr Applied \<Rightarrow> Done (Some (Inr (snapshot next now)))
                       | Inr Mismatch \<Rightarrow> Done None)))) (\<lambda>_ _. True) (insert (key, rv, v) H)"
    by (auto simp: gwp_bind replay_of_def revoke_next_def
        intro!: gwp_put_if_revision split: sum.split option.split cas_outcome.split)
       (metis append_revoke_InrD may_write_push)
next
  show "gwp X (ledger_ini X) (ledger_upd X)
      (case Inr None of Inl e \<Rightarrow> Done (Some (Inl e))
       | Inr existing \<Rightarrow>
           (case replay_of (map_option fst existing) ih rh of
              Inl e \<Rightarrow> Done (Some (Inl e))
            | Inr (Some snap) \<Rightarrow> Done (Some (Inr snap))
            | Inr None \<Rightarrow>
                (case revoke_next X key r ih rh (map_option fst existing) of
                   Inl e \<Rightarrow> Done (Some (Inl e))
                 | Inr next \<Rightarrow>
                     eff_bind (put_if_revision X kv key (ledger_to_json next)
                                 (case existing of Some (l, revision) \<Rightarrow> revision | None \<Rightarrow> 0)) (\<lambda>put.
                       case put of
                         Inl e \<Rightarrow> Done (Some (Inl (RevStore e)))
                       | Inr Applied \<Rightarrow> Done (Some (Inr (snapshot next now)))
                       | Inr Mismatch \<Rightarrow> Done None)))) (\<lambda>_ _. True) H"
    by (auto simp: gwp_bind replay_of_def revoke_next_def
        intro!: gwp_put_if_revision may_write_new split: sum.split option.split cas_outcome.split)
qed simp

lemma guarded_rev_lift_attempt:
  "guarded X (ledger_ini X) (ledger_upd X) (rev_lift_attempt X kv key actor reason ih rh now) H"
  unfolding rev_lift_attempt_def gwp_bind
proof (rule gwp_load_ledger)
  fix v rv l
  assume "ledger_from_json v = Some l" "ledger_valid X l" "lg_storage_key l = key"
  then show "gwp X (ledger_ini X) (ledger_upd X)
      (case Inr (Some (l, rv)) of
         Inl e \<Rightarrow> Done (Some (Inl e))
       | Inr None \<Rightarrow> Done (Some (Inl NotFound))
       | Inr (Some (l, revision)) \<Rightarrow>
           (case replay_snapshot l ih rh of
              Inl e \<Rightarrow> Done (Some (Inl e))
            | Inr (Some snap) \<Rightarrow> Done (Some (Inr snap))
            | Inr None \<Rightarrow>
                (case append_lift X l actor reason now ih rh of
                   Inl e \<Rightarrow> Done (Some (Inl e))
                 | Inr next \<Rightarrow>
                     eff_bind (put_if_revision X kv key (ledger_to_json next) revision) (\<lambda>put.
                       case put of
                         Inl e \<Rightarrow> Done (Some (Inl (RevStore e)))
                       | Inr Applied \<Rightarrow> Done (Some (Inr (snapshot next now)))
                       | Inr Mismatch \<Rightarrow> Done None)))) (\<lambda>_ _. True) (insert (key, rv, v) H)"
    by (auto simp: gwp_bind intro!: gwp_put_if_revision split: sum.split option.split cas_outcome.split)
       (metis append_lift_InrD(1,2) may_write_push)
qed simp_all

lemma guarded_check_loop: "guarded X ini upd (check_loop X (Some kv) c now ss) H"
proof (induction ss arbitrary: H)
  case (Cons s ss)
  then show ?case
    by (auto simp: gwp_try read_ledger_def intro!: gwp_load_ledger split: sum.split option.split)
qed simp

lemma guarded_rev_ops: "p \<in> rev_ops X \<Longrightarrow> guarded X (ledger_ini X) (ledger_upd X) p {}"
proof (induction rule: rev_ops.induct)
  case (op_rev_revoke kv request mutation now)
  then show ?case
    by (auto simp: gwp_map rev_revoke_def Let_def split: sum.split
        intro!: guarded_cas_retry guarded_rev_revoke_attempt)
next
  case (op_rev_lift kv lift mutation now)
  then show ?case
    by (auto simp: gwp_map rev_lift_def Let_def split: sum.split
        intro!: guarded_cas_retry guarded_rev_lift_attempt)
next
  case (op_rev_check c now kv)
  then show ?case
    by (auto simp: gwp_map rev_check_def guarded_check_loop simp del: check_loop.simps split: sum.split)
qed

interpretation ledger_protocol: cas_protocol X "ledger_ini X" "ledger_upd X" "rev_ops X" for X
  by unfold_locales (rule guarded_rev_ops)

definition raw_ledger :: "externals \<Rightarrow> string \<Rightarrow> revocation_ledger option" where
  "raw_ledger X raw = Option.bind (json_from_str X raw) ledger_from_json"

definition ledger_extends :: "externals \<Rightarrow> revocation_ledger \<Rightarrow> revocation_ledger \<Rightarrow> bool" where
  "ledger_extends X l l' \<longleftrightarrow>
     ledger_valid X l' \<and> lg_storage_key l' = lg_storage_key l \<and> prefix (lg_events l) (lg_events l')"

definition ledger_le :: "externals \<Rightarrow> string \<Rightarrow> string \<Rightarrow> string \<Rightarrow> bool" where
  "ledger_le X key raw raw' \<longleftrightarrow>
     (externals_ok X \<longrightarrow>
        raw' = raw
      \<or> (\<exists>l l'. raw_ledger X raw = Some l \<and> raw_ledger X raw' = Some l' \<and> ledger_extends X l l'))"

lemma ledger_extends_trans:
  "ledger_extends X l l' \<Longrightarrow> ledger_extends X l' l'' \<Longrightarrow> ledger_extends X l l''"
  by (auto simp: ledger_extends_def intro: prefix_order.trans)

lemma ledger_le_trans:
  "ledger_le X key raw raw' \<Longrightarrow> ledger_le X key raw' raw'' \<Longrightarrow> ledger_le X key raw raw''"
  unfolding ledger_le_def by (auto dest: ledger_extends_trans)

lemma ledger_upd_le:
  assumes "json_from_str X raw = Some v0" "ledger_upd X key v0 v"
  shows "ledger_le X key raw (json_to_string X v)"
  unfolding ledger_le_def
proof
  assume X: "externals_ok X"
  from assms(2) obtain l l' e where "ledger_from_json v0 = Some l" "v = ledger_to_json l'"
    "ledger_valid X l'" "l' = l\<lparr>lg_events := lg_events l @ [e]\<rparr>"
    unfolding ledger_upd_def by blast
  then have "raw_ledger X raw = Some l" "raw_ledger X (json_to_string X v) = Some l'"
    "ledger_extends X l l'"
    using assms(1) X by (simp_all add: raw_ledger_def externals_okD ledger_extends_def)
  then show "json_to_string X v = raw \<or> (\<exists>l l'. raw_ledger X raw = Some l
      \<and> raw_ledger X (json_to_string X v) = Some l' \<and> ledger_extends X l l')"
    by blast
qed

interpretation ledger_evolution: cas_evolution X "ledger_ini X" "ledger_upd X" "rev_ops X" "ledger_le X" for X
proof unfold_locales
  show "ledger_le X key raw raw" for key raw by (simp add: ledger_le_def)
qed (auto intro: ledger_le_trans ledger_upd_le)

lemma ledger_entry_evolves:
  assumes "externals_ok X" "kv_contract X server" "revs_positive \<sigma>"
    and "(sys_step server (rev_ops X))\<^sup>*\<^sup>* (sys_init \<sigma> l0) s" "(sys_step server (rev_ops X))\<^sup>*\<^sup>* s s'"
    and "sys_kv s key = Some (raw, r)" "raw_ledger X raw = Some l" "ledger_valid X l"
  obtains raw' r' l' where "sys_kv s' key = Some (raw', r')" "r \<le> r'" "raw_ledger X raw' = Some l'"
    "ledger_extends X l l'"
proof -
  from ledger_evolution.entry_evolves [OF assms(2-6)] obtain raw' r' where
    e: "sys_kv s' key = Some (raw', r')" "r \<le> r'" "ledger_le X key raw raw'"
    by blast
  have "\<exists>l'. raw_ledger X raw' = Some l' \<and> ledger_extends X l l'"
    using e(3) assms(1,7,8) unfolding ledger_le_def by (auto simp: ledger_extends_def)
  with e that show ?thesis by blast
qed

lemma ledger_extends_generation:
  assumes "ledger_valid X l" "ledger_extends X l l'"
  shows "generation l \<le> generation l'" "generation l' = generation l \<Longrightarrow> lg_events l' = lg_events l"
proof -
  have v: "ledger_valid X l'" and p: "prefix (lg_events l) (lg_events l')"
    using assms(2) by (auto simp: ledger_extends_def)
  note g = ledger_valid_generation(1) [OF assms(1)] ledger_valid_generation(1) [OF v]
  from p obtain es where es: "lg_events l' = lg_events l @ es" by (auto simp: prefix_def)
  then show "generation l \<le> generation l'" using g by (simp add: word_le_nat_alt)
  assume "generation l' = generation l"
  then have "es = []" using g es by simp
  then show "lg_events l' = lg_events l" using es by simp
qed

text \<open>
  Revocation ledgers are append-only and race-safe: in every interleaving of revocations,
  lifts and checks by any number of replicas, a stored valid ledger keeps all its events in
  place, stays valid, and never has more than 32 transitions; its generation never decreases
  and identifies its content.
\<close>
lemma ledger_append_only_race_safe:
  assumes "externals_ok X" and "kv_contract X server" and "revs_positive \<sigma>"
    and "(sys_step server (rev_ops X))\<^sup>*\<^sup>* (sys_init \<sigma> l0) s"
    and "(sys_step server (rev_ops X))\<^sup>*\<^sup>* s s'"
    and "sys_kv s key = Some (raw, r)" and "raw_ledger X raw = Some l" and "ledger_validate X l = Inr ()"
  shows "\<exists>raw' r' l'. sys_kv s' key = Some (raw', r') \<and> r \<le> r' \<and> raw_ledger X raw' = Some l'
    \<and> ledger_validate X l' = Inr () \<and> lg_storage_key l' = lg_storage_key l
    \<and> prefix (lg_events l) (lg_events l') \<and> length (lg_events l') \<le> 32
    \<and> generation l \<le> generation l' \<and> (generation l' = generation l \<longrightarrow> lg_events l' = lg_events l)"
proof -
  obtain raw' r' l' where e: "sys_kv s' key = Some (raw', r')" "r \<le> r'" "raw_ledger X raw' = Some l'"
    "ledger_extends X l l'"
    by (rule ledger_entry_evolves [OF assms])
  moreover from e(4) have v: "ledger_valid X l'" by (simp add: ledger_extends_def)
  ultimately show ?thesis
    using ledger_valid_generation(2) [OF v] ledger_extends_generation [OF assms(8) e(4)]
    by (auto simp: ledger_extends_def)
qed

lemma rwp_load_ledger:
  assumes "kv_contract X server" and "\<And>e. Q (Inl e)"
    and "\<And>\<sigma>. I \<sigma> \<Longrightarrow> \<sigma> key = None \<Longrightarrow> Q (Inr None)"
    and "\<And>\<sigma> raw r l. I \<sigma> \<Longrightarrow> \<sigma> key = Some (raw, r) \<Longrightarrow> raw_ledger X raw = Some l \<Longrightarrow> ledger_valid X l \<Longrightarrow>
           lg_storage_key l = key \<Longrightarrow> Q (Inr (Some (l, r)))"
  shows "rwp server I Q (load_ledger X kv key)"
  unfolding load_ledger_def rwp_bind
proof (rule rwp_get_versioned [OF assms(1)])
  fix \<sigma> e
  assume I: "I \<sigma>" "reads X (\<sigma> key) e"
  show "rwp server I Q (case Inr e of
      Inl e \<Rightarrow> Done (Inl (RevStore e))
    | Inr None \<Rightarrow> Done (Inr None)
    | Inr (Some stored) \<Rightarrow>
        Done (rbind (ok_or (ledger_from_json (vv_value stored)) InvalidLedger) (\<lambda>l.
              rbind (ledger_validate X l) (\<lambda>_.
                if lg_storage_key l \<noteq> key then Inl InvalidLedger
                else Inr (Some (l, vv_mod_revision stored))))))"
  proof (cases e)
    case None
    with I show ?thesis by (simp add: reads_def assms(3))
  next
    case (Some vv)
    with I(2) obtain raw where entry: "\<sigma> key = Some (raw, vv_mod_revision vv)"
      "json_from_str X raw = Some (vv_value vv)"
      by (auto simp: reads_def)
    let ?res = "rbind (ok_or (ledger_from_json (vv_value vv)) InvalidLedger) (\<lambda>l.
        rbind (ledger_validate X l) (\<lambda>_. if lg_storage_key l \<noteq> key then Inl InvalidLedger
          else Inr (Some (l, vv_mod_revision vv))))"
    have "Q ?res"
    proof (cases ?res)
      case (Inr x)
      then obtain l where "ledger_from_json (vv_value vv) = Some l" "ledger_valid X l"
        "x = Some (l, vv_mod_revision vv)" "lg_storage_key l = key"
        by (auto simp: result_simps split: if_splits)
      moreover from this entry have "raw_ledger X raw = Some l" by (simp add: raw_ledger_def)
      ultimately show ?thesis using assms(4) [OF I(1) entry(1)] Inr by simp
    qed (simp add: assms(2))
    with Some show ?thesis by simp
  qed
qed (simp add: assms(2))

definition held_at :: "externals \<Rightarrow> string \<Rightarrow> revocation_ledger \<Rightarrow> kv_view \<Rightarrow> bool" where
  "held_at X key l \<sigma> \<longleftrightarrow>
     (\<exists>raw r l'. \<sigma> key = Some (raw, r) \<and> raw_ledger X raw = Some l' \<and> ledger_extends X l l')"

definition lets_pass :: "revocation_ledger \<Rightarrow> claims \<Rightarrow> u64 \<Rightarrow> bool" where
  "lets_pass l c now \<longleftrightarrow> (\<forall>r. current_record l = Some r \<longrightarrow> \<not> record_matches r c now)"

text \<open>
  A negative answer rests on a version of the ledger, not older than \<open>l\<close>, that was stored in one of the states
  of \<open>I\<close> and does not strike the token.
\<close>

definition justified ::
  "externals \<Rightarrow> (kv_view \<Rightarrow> bool) \<Rightarrow> string \<Rightarrow> revocation_ledger \<Rightarrow> claims \<Rightarrow> u64 \<Rightarrow>
   revocation_error + revocation_decision \<Rightarrow> bool" where
  "justified X I key l c now res \<longleftrightarrow>
     (\<forall>d. res = Inr d \<and> \<not> dc_revoked d \<longrightarrow>
        (\<exists>\<sigma> raw r l'. I \<sigma> \<and> \<sigma> key = Some (raw, r) \<and> raw_ledger X raw = Some l' \<and> ledger_extends X l l'
           \<and> lets_pass l' c now))"

lemma rwp_check_loop:
  assumes "kv_contract X server" "s \<in> set ss" "sel_storage_key X (fst s) = Inr key"
    and "\<And>\<sigma>. I \<sigma> \<Longrightarrow> held_at X key l \<sigma>"
  shows "rwp server I (justified X I key l c now) (check_loop X (Some kv) c now ss)"
  using assms(2)
proof (induction ss)
  case (Cons s' ss)
  note [simp del] = check_loop.simps(1)
  show ?case
  proof (cases "sel_storage_key X (fst s')")
    case (Inl e)
    then show ?thesis by (simp add: justified_def)
  next
    case (Inr key')
    have IH: "rwp server I (justified X I key l c now) (check_loop X (Some kv) c now ss)"
      if "key' \<noteq> key"
      using Cons Inr assms(3) that by auto
    have any: "rwp server I (justified X I key l c now) p"
      if "I \<sigma>" "\<sigma> key = Some (raw, r)" "raw_ledger X raw = Some l'" "ledger_extends X l l'" "lets_pass l' c now"
      for p \<sigma> raw r l'
      using that by (intro rwp_always) (auto simp: justified_def)
    have "rwp server I (\<lambda>r. case r of Inl e \<Rightarrow> justified X I key l c now (Inl e)
        | Inr found \<Rightarrow> rwp server I (justified X I key l c now)
            (case found of None \<Rightarrow> check_loop X (Some kv) c now ss
             | Some l' \<Rightarrow> (case current_record l' of
                 Some r \<Rightarrow> if record_matches r c now
                   then Done (Inr \<lparr>dc_revoked = True, dc_matched_target = Some (snd s'),
                          dc_generation = Some (generation l'), dc_expires_at = Some (rr_expires_at r)\<rparr>)
                   else check_loop X (Some kv) c now ss
               | None \<Rightarrow> check_loop X (Some kv) c now ss)))
        (read_ledger X (Some kv) key')"
      unfolding read_ledger_def option.case rwp_try
    proof (rule rwp_load_ledger [OF assms(1)], goal_cases)
      case (1 e)
      then show ?case by (simp add: justified_def)
    next
      case (2 \<sigma>)
      then have "key' \<noteq> key" using assms(4) [OF 2(1)] by (auto simp: held_at_def)
      then show ?case by (simp add: IH)
    next
      case (3 \<sigma> raw r l')
      have "key' = key \<Longrightarrow> ledger_extends X l l'" using 3 assms(4) [OF 3(1)] by (auto simp: held_at_def)
      then have go: "rwp server I (justified X I key l c now) (check_loop X (Some kv) c now ss)"
        if "lets_pass l' c now"
        using that any [OF 3(1)] IH 3(2,3) by blast
      show ?case
      proof (cases "current_record l'")
        case None
        with go show ?thesis by (simp add: lets_pass_def)
      next
        case (Some rec)
        with go show ?thesis by (simp add: lets_pass_def justified_def)
      qed
    qed
    then show ?thesis by (simp add: Inr rwp_try)
  qed
qed simp

lemma rwp_rev_check:
  assumes "kv_contract X server" "sel = SelTokenId (cl_org_id c) (cl_jti c) \<or> sel = SelSubject (cl_org_id c) (cl_sub c)"
    and "sel_storage_key X sel = Inr key" "\<And>\<sigma>. I \<sigma> \<Longrightarrow> held_at X key l \<sigma>"
  shows "rwp server I (justified X I key l c now) (rev_check X (Some kv) c now)"
proof -
  let ?sels = "[(SelTokenId (cl_org_id c) (cl_jti c), MatchedTokenId),
      (SelSubject (cl_org_id c) (cl_sub c), MatchedSubject)]"
  obtain m where "(sel, m) \<in> set ?sels" using assms(2) by auto
  then have "rwp server I (justified X I key l c now) (check_loop X (Some kv) c now ?sels)"
    using assms(3,4) by (intro rwp_check_loop [OF assms(1), of "(sel, m)"]) auto
  then show ?thesis by (auto simp: rev_check_def justified_def simp del: check_loop.simps split: sum.split)
qed

section \<open>One caller on an answering service\<close>

definition ledger_at :: "externals \<Rightarrow> kv_view \<Rightarrow> string \<Rightarrow> revocation_ledger \<Rightarrow> bool" where
  "ledger_at X \<sigma> key l \<longleftrightarrow>
     lg_storage_key l = key \<and> ledger_valid X l
   \<and> (\<exists>raw r. \<sigma> key = Some (raw, r) \<and> raw_ledger X raw = Some l)"

lemma run_load_ledger_None:
  assumes "kv_reliable X srv" "\<sigma> key = None"
  shows "run srv (load_ledger X kv key) \<sigma> c = (Inr None, \<sigma>, c)"
  by (simp add: load_ledger_def run_bind run_get_versioned [OF assms(1)] assms(2))

lemma run_load_ledger_Some:
  assumes "kv_reliable X srv" "ledger_at X \<sigma> key l"
  shows "run srv (load_ledger X kv key) \<sigma> c = (Inr (Some (l, rev_of \<sigma> key)), \<sigma>, c)"
proof -
  from assms(2) obtain raw r v where e: "\<sigma> key = Some (raw, r)" "json_from_str X raw = Some v"
    "ledger_from_json v = Some l" "ledger_valid X l" "lg_storage_key l = key"
    by (auto simp: ledger_at_def raw_ledger_def bind_eq_Some_conv)
  then have "decoded X (\<sigma> key) = Inr (Some \<lparr>vv_value = v, vv_mod_revision = rev_of \<sigma> key\<rparr>)"
    by (simp add: decoded_def rev_of_def)
  then show ?thesis
    by (simp add: load_ledger_def run_bind run_get_versioned [OF assms(1)] e)
qed

lemma ledger_at_write:
  assumes "externals_ok X" "lg_storage_key l = key" "ledger_valid X l"
  shows "ledger_at X (\<sigma>(key \<mapsto> (json_to_string X (ledger_to_json l), rv))) key l"
  using assms by (simp add: ledger_at_def raw_ledger_def externals_okD)

lemma run_rev_retry_first:
  assumes "run srv body \<sigma> c = (Some x, \<sigma>', c')"
  shows "run srv (cas_retry REV_MAX_CAS_RETRIES e body) \<sigma> c = (x, \<sigma>', c')"
proof -
  have n: "REV_MAX_CAS_RETRIES = Suc 7" by (simp add: REV_MAX_CAS_RETRIES_def)
  show ?thesis unfolding n run_cas_retry_Suc assms by simp
qed

definition found_ledger :: "externals \<Rightarrow> kv_view \<Rightarrow> string \<Rightarrow> revocation_ledger option \<Rightarrow> bool" where
  "found_ledger X \<sigma> key lo \<longleftrightarrow> (case lo of None \<Rightarrow> \<sigma> key = None | Some l \<Rightarrow> ledger_at X \<sigma> key l)"

lemma run_load_found:
  assumes "kv_reliable X srv" "found_ledger X \<sigma> key lo"
  shows "run srv (load_ledger X kv key) \<sigma> c = (Inr (map_option (\<lambda>l. (l, rev_of \<sigma> key)) lo), \<sigma>, c)"
  using assms run_load_ledger_None [OF assms(1)] run_load_ledger_Some [OF assms(1)]
  by (cases lo) (simp_all add: found_ledger_def)

text \<open>One attempt of a revoke, computed.\<close>

lemma run_rev_revoke_attempt:
  assumes "kv_reliable X srv" "found_ledger X \<sigma> key lo"
    and "replay_of lo ih rh = Inr None" "revoke_next X key r ih rh lo = Inr l"
  obtains rv where "run srv (rev_revoke_attempt X kv key r ih rh now) \<sigma> c =
    (Some (Inr (snapshot l now)), \<sigma>(key \<mapsto> (json_to_string X (ledger_to_json l), rv)), c)"
proof -
  have prev: "(case map_option (\<lambda>l. (l, rev_of \<sigma> key)) lo of Some (l, revision) \<Rightarrow> revision | None \<Rightarrow> 0) =
      rev_of \<sigma> key"
    using assms(2) by (cases lo) (simp_all add: found_ledger_def)
  have fst_lo: "map_option fst (map_option (\<lambda>l. (l, rev_of \<sigma> key)) lo) = lo"
    by (cases lo) simp_all
  obtain rv where put: "run srv (put_if_revision X kv key (ledger_to_json l) (rev_of \<sigma> key)) \<sigma> c =
      (Inr Applied, \<sigma>(key \<mapsto> (json_to_string X (ledger_to_json l), rv)), c)"
    by (rule run_put_applied [OF assms(1) refl])
  have "run srv (rev_revoke_attempt X kv key r ih rh now) \<sigma> c =
    (Some (Inr (snapshot l now)), \<sigma>(key \<mapsto> (json_to_string X (ledger_to_json l), rv)), c)"
    unfolding rev_revoke_attempt_def run_bind run_load_found [OF assms(1,2)] prod.case sum.case
      fst_lo assms(3,4) prev
    by (simp add: run_bind put fst_lo assms(3,4) prev)
  then show ?thesis by (rule that)
qed

lemma revoke_next_InrD:
  assumes "revoke_next X key r ih rh lo = Inr l" "\<And>l0. lo = Some l0 \<Longrightarrow> lg_storage_key l0 = key"
  shows "ledger_valid X l \<and> lg_storage_key l = key \<and> current_record l = Some r"
proof (cases lo)
  case None
  then have "ledger_new X key r ih rh = Inr l" using assms(1) by (simp add: revoke_next_def)
  from ledger_new_InrD [OF this] show ?thesis by (simp add: current_record_def event_new_def)
next
  case (Some l0)
  then have "append_revoke X l0 r ih rh = Inr l" using assms(1) by (simp add: revoke_next_def)
  from append_revoke_InrD [OF this] show ?thesis using assms(2) [OF Some] by simp
qed

lemma token_selector_key:
  assumes "record_ok r" "rr_issuer r = ISSUER" "rr_audience r = AUDIENCE"
  shows "sel_storage_key X (case rr_target r of TokenId jti \<Rightarrow> SelTokenId (rr_tenant_id r) jti
      | Subject subject \<Rightarrow> SelSubject (rr_tenant_id r) subject) = map_err RevContract (storage_key X r)"
proof -
  have v: "record_validate r = Inr ()" using assms(1) by (simp add: record_validate_iff)
  have ids: "rev_validate_identifier n (rr_tenant_id r) = Inr ()"
    "rev_validate_identifier n (target_id (rr_target r)) = Inr ()" for n
    using assms(1) by (simp_all add: rev_validate_identifier_iff record_ok_def)
  show ?thesis
    using v ids assms
    by (cases "rr_target r")
       (simp_all add: sel_storage_key_def storage_key_def record_scope_def digest_text_parts_def
          digest_byte_parts_def scoped_revocation_digest_def INTERNAL_ISSUER_def INTERNAL_AUDIENCE_def
          ISSUER_def AUDIENCE_def record_ok_def)
qed

text \<open>The preconditions of a token revocation, checked once.\<close>

definition revocable :: "claims \<Rightarrow> string \<Rightarrow> rev_mutation_identity \<Rightarrow> u64 \<Rightarrow> bool" where
  "revocable c reason m now \<longleftrightarrow>
     validate_mutation m = Inr () \<and> validate_internal_claims c = Inr () \<and> audit_text_ok reason 256
   \<and> cl_iat c \<le> now \<and> now < cl_exp c"

definition token_record :: "claims \<Rightarrow> string \<Rightarrow> string \<Rightarrow> u64 \<Rightarrow> revocation_record" where
  "token_record c reason actor now =
     \<lparr>rr_version = REVOCATION_RECORD_VERSION, rr_issuer = cl_iss c, rr_audience = cl_aud c,
      rr_tenant_id = cl_org_id c, rr_target = TokenId (cl_jti c), rr_reason = str_trim reason,
      rr_actor = str_trim actor, rr_created_at = now, rr_expires_at = cl_exp c\<rparr>"

lemma validate_internal_claims_iff:
  "validate_internal_claims c = Inr () \<longleftrightarrow>
     cl_iss c = ISSUER \<and> cl_aud c = AUDIENCE \<and> identifier_ok (cl_org_id c) \<and> identifier_ok (cl_sub c)
   \<and> identifier_ok (cl_jti c) \<and> cl_iat c < cl_exp c \<and> unat (cl_exp c) \<le> unat (cl_iat c) + 900"
proof -
  have "\<not> (cl_exp c \<le> cl_iat c \<or> MAX_ACCESS_TOKEN_TTL_SECS < cl_exp c - cl_iat c) \<longleftrightarrow>
      cl_iat c < cl_exp c \<and> unat (cl_exp c) \<le> unat (cl_iat c) + 900"
    by (auto simp: MAX_ACCESS_TOKEN_TTL_SECS_def word_le_nat_alt word_less_nat_alt unat_sub)
  then show ?thesis
    by (auto simp: validate_internal_claims_def result_simps INTERNAL_ISSUER_def INTERNAL_AUDIENCE_def
        ISSUER_def AUDIENCE_def)
qed

lemma revocable_record:
  assumes "revocable c reason m now"
  shows "record_ok (token_record c reason (rm_actor m) now)"
    "for_token c reason (rm_actor m) now = Inr (token_record c reason (rm_actor m) now)"
proof -
  have m: "audit_text_ok (rm_actor m) 128"
    using assms by (auto simp: revocable_def validate_mutation_def result_simps)
  show ok: "record_ok (token_record c reason (rm_actor m) now)"
    using assms m
    by (auto simp: revocable_def validate_internal_claims_iff record_ok_def token_record_def ISSUER_def
        AUDIENCE_def word_less_nat_alt word_le_nat_alt)
  then show "for_token c reason (rm_actor m) now = Inr (token_record c reason (rm_actor m) now)"
    using assms unfolding record_validate_iff [symmetric]
    by (auto simp: for_token_def token_record_def revocable_def Let_def)
qed

lemma revocable_key:
  assumes "revocable c reason m now"
  obtains key where "sel_storage_key X (SelTokenId (cl_org_id c) (cl_jti c)) = Inr key"
    "storage_key X (token_record c reason (rm_actor m) now) = Inr key"
proof -
  let ?r = "token_record c reason (rm_actor m) now"
  note ok = revocable_record(1) [OF assms]
  obtain key where key: "storage_key X ?r = Inr key"
    using ok unfolding record_validate_iff [symmetric] by (simp add: storage_key_def)
  have "sel_storage_key X (SelTokenId (cl_org_id c) (cl_jti c)) = map_err RevContract (storage_key X ?r)"
    using token_selector_key [OF ok] ok by (simp add: token_record_def record_ok_def)
  with key that show ?thesis by simp
qed

lemma rev_revoke_prepared:
  assumes "revocable c reason m now" "sel_storage_key X (SelTokenId (cl_org_id c) (cl_jti c)) = Inr key"
  shows "rev_revoke X (Some kv) (RevokeTokenId c reason) m now =
    cas_retry REV_MAX_CAS_RETRIES (Inl RevCasRetriesExhausted)
      (rev_revoke_attempt X kv key (token_record c reason (rm_actor m) now)
        (mutation_hash X ''revoke'' key (rm_actor m) (rm_idempotency_key m))
        (revoke_request_hash X (RevokeTokenId c reason)) now)"
proof -
  obtain key' where "sel_storage_key X (SelTokenId (cl_org_id c) (cl_jti c)) = Inr key'"
    "storage_key X (token_record c reason (rm_actor m) now) = Inr key'"
    by (rule revocable_key [OF assms(1)])
  then show ?thesis
    using assms revocable_record(2) [OF assms(1)]
    by (simp add: rev_revoke_def revocable_def Let_def)
qed

lemma digest_hex [simp]:
  assumes "externals_ok X"
  shows "is_sha256_hex (digest_byte_parts X ps)" "is_sha256_hex (digest_text_parts X ts)"
    "is_sha256_hex (mutation_hash X a k b i)" "is_sha256_hex (revoke_request_hash X req)"
    "is_sha256_hex (lift_request_hash X lift)"
proof -
  show d: "is_sha256_hex (digest_byte_parts X ps)" for ps
    using externals_okD(1) [OF assms]
    by (auto simp: is_sha256_hex_def digest_byte_parts_def list_all_iff dest: to_hex_lower)
  then show t: "is_sha256_hex (digest_text_parts X ts)" for ts by (simp add: digest_text_parts_def)
  then show "is_sha256_hex (mutation_hash X a k b i)" "is_sha256_hex (lift_request_hash X lift)"
    by (simp_all add: mutation_hash_def lift_request_hash_def)
  show "is_sha256_hex (revoke_request_hash X req)" by (cases req) (simp_all add: t)
qed

lemma event_new_sel [simp]:
  "ev_sequence (event_new X n a ih rh p) = n" "ev_action (event_new X n a ih rh p) = a"
  "ev_idempotency_hash (event_new X n a ih rh p) = ih" "ev_request_hash (event_new X n a ih rh p) = rh"
  "ev_previous_hash (event_new X n a ih rh p) = p"
  by (simp_all add: event_new_def)

lemma validate_hash_new:
  assumes "externals_ok X" "is_sha256_hex ih" "is_sha256_hex rh" "p = [] \<or> is_sha256_hex p"
  shows "validate_hash X (event_new X n a ih rh p) = Inr ()"
  using assms by (auto simp: validate_hash_def event_new_def event_hash_def)

lemma ledger_new_ok:
  assumes "externals_ok X" "record_ok r" "storage_key X r = Inr key" "is_sha256_hex ih" "is_sha256_hex rh"
  shows "ledger_new X key r ih rh = Inr \<lparr>lg_version = LEDGER_VERSION, lg_storage_key = key,
      lg_events = [event_new X 1 (ActRevoke r) ih rh []]\<rparr>"
proof -
  have "ledger_valid X \<lparr>lg_version = LEDGER_VERSION, lg_storage_key = key,
      lg_events = [event_new X 1 (ActRevoke r) ih rh []]\<rparr>"
    using assms validate_hash_new [OF assms(1,4,5), of "[]"]
    by (simp add: ledger_validate_iff validate_loop_Cons event_fits_def)
  then show ?thesis by (simp add: ledger_new_def Let_def)
qed

lemma run_check_first:
  assumes "kv_reliable X srv" "sel_storage_key X (fst s) = Inr key" "ledger_at X \<sigma> key l"
    and "current_record l = Some r" "record_matches r c now"
  shows "run srv (check_loop X (Some kv) c now (s # ss)) \<sigma> mem =
    (Inr \<lparr>dc_revoked = True, dc_matched_target = Some (snd s), dc_generation = Some (generation l),
          dc_expires_at = Some (rr_expires_at r)\<rparr>, \<sigma>, mem)"
  using assms(2,4,5)
  by (simp add: run_try read_ledger_def run_load_ledger_Some [OF assms(1,3)])

lemma run_check_skip:
  assumes "kv_reliable X srv" "sel_storage_key X (fst s) = Inr key" "found_ledger X \<sigma> key lo"
    and "\<And>l. lo = Some l \<Longrightarrow> lets_pass l c now"
  shows "run srv (check_loop X (Some kv) c now (s # ss)) \<sigma> mem =
    run srv (check_loop X (Some kv) c now ss) \<sigma> mem"
  using assms(2,4)
  by (cases lo) (auto simp: run_try read_ledger_def run_load_found [OF assms(1,3)] lets_pass_def
      split: option.split)

text \<open>
  Emergency revocation of a token takes hold at once and is idempotent: for a live internal
  token whose target has no ledger yet, revoke succeeds with generation 1, stores exactly one
  valid ledger and touches nothing else; until the expiry of the token and while
  that ledger is not written again, every check of it, by any replica and whatever else changes in the
  store, reports it as revoked; and repeating the request later returns the same
  snapshot without writing.
\<close>
lemma revoke_token_takes_hold:
  assumes "externals_ok X" and "kv_reliable X srv" and "revocable c reason m now"
    and "sel_storage_key X (SelTokenId (cl_org_id c) (cl_jti c)) = Inr key" and "\<sigma> key = None"
  shows "\<exists>\<sigma>' snap. run srv (rev_revoke X (Some kv) (RevokeTokenId c reason) m now) \<sigma> mem = (Inr snap, \<sigma>', mem)
    \<and> snap = \<lparr>sn_storage_key = key, sn_generation = 1, sn_status = Active, sn_expires_at = Some (cl_exp c)\<rparr>
    \<and> \<sigma>' key \<noteq> None \<and> (\<forall>k. k \<noteq> key \<longrightarrow> \<sigma>' k = \<sigma> k)
    \<and> (\<forall>srv' kv' \<sigma>2 mem' t. kv_reliable X srv' \<and> \<sigma>2 key = \<sigma>' key \<and> now \<le> t \<and> t < cl_exp c \<longrightarrow>
         run srv' (rev_check X (Some kv') c t) \<sigma>2 mem' =
           (Inr \<lparr>dc_revoked = True, dc_matched_target = Some MatchedTokenId, dc_generation = Some 1,
                 dc_expires_at = Some (cl_exp c)\<rparr>, \<sigma>2, mem'))
    \<and> (\<forall>now'. revocable c reason m now' \<longrightarrow>
         run srv (rev_revoke X (Some kv) (RevokeTokenId c reason) m now') \<sigma>' mem = (Inr snap, \<sigma>', mem))"
proof -
  let ?r = "token_record c reason (rm_actor m) now"
  let ?ih = "mutation_hash X ''revoke'' key (rm_actor m) (rm_idempotency_key m)"
  let ?rh = "revoke_request_hash X (RevokeTokenId c reason)"
  let ?l = "\<lparr>lg_version = LEDGER_VERSION, lg_storage_key = key, lg_events = [event_new X 1 (ActRevoke ?r) ?ih ?rh []]\<rparr>"
  let ?snap = "\<lparr>sn_storage_key = key, sn_generation = 1, sn_status = Active, sn_expires_at = Some (cl_exp c)\<rparr>"
  note ok = revocable_record(1) [OF assms(3)]
  have key: "storage_key X ?r = Inr key"
    by (rule revocable_key [OF assms(3), of X]) (use assms(4) in simp)
  have new: "ledger_new X key ?r ?ih ?rh = Inr ?l"
    by (rule ledger_new_ok [OF assms(1) ok key digest_hex(3,4) [OF assms(1)]])
  have valid: "ledger_valid X ?l" using ledger_new_InrD(2) [OF new] .
  have sel: "rr_created_at ?r = now" "rr_expires_at ?r = cl_exp c" "rr_tenant_id ?r = cl_org_id c"
    "rr_target ?r = TokenId (cl_jti c)" "rr_issuer ?r = cl_iss c" "rr_audience ?r = cl_aud c"
    by (simp_all add: token_record_def)
  have lim: "now < cl_exp c" "validate_internal_claims c = Inr ()" using assms(3) by (auto simp: revocable_def)
  have snap: "snapshot ?l now = ?snap"
    using ok lim by (simp add: snapshot_def current_record_def generation_def latest_expiry_def sel is_active_at_iff)
  obtain rv where "run srv (rev_revoke_attempt X kv key ?r ?ih ?rh now) \<sigma> mem =
      (Some (Inr (snapshot ?l now)), \<sigma>(key \<mapsto> (json_to_string X (ledger_to_json ?l), rv)), mem)"
    by (rule run_rev_revoke_attempt [OF assms(2), of \<sigma> key None])
       (use assms(5) new in \<open>simp_all add: found_ledger_def replay_of_def revoke_next_def\<close>)
  then have run: "run srv (rev_revoke X (Some kv) (RevokeTokenId c reason) m now) \<sigma> mem =
      (Inr ?snap, \<sigma>(key \<mapsto> (json_to_string X (ledger_to_json ?l), rv)), mem)"
    unfolding rev_revoke_prepared [OF assms(3,4)] snap by (rule run_rev_retry_first)
  let ?\<sigma>' = "\<sigma>(key \<mapsto> (json_to_string X (ledger_to_json ?l), rv))"
  have at: "ledger_at X ?\<sigma>' key ?l" by (rule ledger_at_write [OF assms(1) _ valid]) simp
  have "run srv' (rev_check X (Some kv') c t) \<sigma>2 mem' =
      (Inr \<lparr>dc_revoked = True, dc_matched_target = Some MatchedTokenId, dc_generation = Some 1,
        dc_expires_at = Some (cl_exp c)\<rparr>, \<sigma>2, mem')"
    if "kv_reliable X srv'" "\<sigma>2 key = ?\<sigma>' key" "now \<le> t" "t < cl_exp c" for srv' kv' \<sigma>2 mem' t
  proof -
    have at2: "ledger_at X \<sigma>2 key ?l" using at that(2) by (simp add: ledger_at_def)
    have "record_matches ?r c t"
      using that ok by (simp add: record_matches_def is_active_at_iff sel)
    from run_check_first [OF that(1) _ at2 _ this, of "(SelTokenId (cl_org_id c) (cl_jti c), MatchedTokenId)"]
    show ?thesis using assms(4) lim(2)
      by (simp add: rev_check_def current_record_def generation_def sel del: check_loop.simps)
  qed
  moreover have "run srv (rev_revoke X (Some kv) (RevokeTokenId c reason) m now') ?\<sigma>' mem = (Inr ?snap, ?\<sigma>', mem)"
    if "revocable c reason m now'" for now'
    unfolding rev_revoke_prepared [OF that assms(4)]
    by (rule run_rev_retry_first)
       (simp add: rev_revoke_attempt_def run_bind run_load_ledger_Some [OF assms(2) at] replay_of_def
          replay_snapshot_def sel del: revoke_request_hash.simps)
  ultimately show ?thesis using run by (intro exI [of _ ?\<sigma>'] exI [of _ ?snap]) simp
qed

lemma run_load_ledger_cases:
  assumes "kv_reliable X srv"
  obtains (absent) "run srv (load_ledger X kv key) \<sigma> mem = (Inr None, \<sigma>, mem)" "\<sigma> key = None"
  | (broken) e where "run srv (load_ledger X kv key) \<sigma> mem = (Inl e, \<sigma>, mem)"
  | (found) l rv where "run srv (load_ledger X kv key) \<sigma> mem = (Inr (Some (l, rv)), \<sigma>, mem)"
      "ledger_at X \<sigma> key l"
proof (cases "\<sigma> key")
  case None
  then show ?thesis by (intro absent) (simp_all add: run_load_ledger_None [OF assms])
next
  case (Some e)
  then obtain raw rv where e: "\<sigma> key = Some (raw, rv)" by (cases e) auto
  have run: "run srv (load_ledger X kv key) \<sigma> mem =
      (rbind (map_err RevStore (decoded X (\<sigma> key))) (\<lambda>found. case found of None \<Rightarrow> Inr None
        | Some stored \<Rightarrow> rbind (ok_or (ledger_from_json (vv_value stored)) InvalidLedger) (\<lambda>l.
            rbind (ledger_validate X l) (\<lambda>_. if lg_storage_key l \<noteq> key then Inl InvalidLedger
              else Inr (Some (l, vv_mod_revision stored))))), \<sigma>, mem)"
    by (cases "decoded X (\<sigma> key)")
       (auto simp: load_ledger_def run_bind run_get_versioned [OF assms] split: option.split)
  show ?thesis
  proof (cases "fst (run srv (load_ledger X kv key) \<sigma> mem)")
    case (Inl err)
    with run show ?thesis by (intro broken [of err]) (simp add: prod_eq_iff)
  next
    case (Inr x)
    then obtain l where "raw_ledger X raw = Some l" "ledger_valid X l" "lg_storage_key l = key" "x = Some (l, rv)"
      unfolding run using e
      by (auto simp: decoded_def raw_ledger_def result_simps bind_eq_Some_conv split: if_splits)
    with Inr e run show ?thesis by (intro found [of l rv]) (simp_all add: prod_eq_iff ledger_at_def)
  qed
qed

definition clear_for :: "externals \<Rightarrow> kv_view \<Rightarrow> claims \<Rightarrow> u64 \<Rightarrow> revocation_selector \<Rightarrow> bool" where
  "clear_for X \<sigma> c now sel \<longleftrightarrow>
     (\<exists>key. sel_storage_key X sel = Inr key
        \<and> (\<sigma> key = None \<or> (\<exists>l. ledger_at X \<sigma> key l \<and> lets_pass l c now)))"

lemma check_loop_step:
  assumes "kv_reliable X srv" "\<not> dc_revoked d"
    and "fst (run srv (check_loop X (Some kv) c now (s # ss)) \<sigma> mem) = Inr d"
  shows "clear_for X \<sigma> c now (fst s) \<and> fst (run srv (check_loop X (Some kv) c now ss) \<sigma> mem) = Inr d"
proof (cases "sel_storage_key X (fst s)")
  case (Inl e)
  then show ?thesis using assms(3) by simp
next
  case (Inr key)
  show ?thesis
  proof (rule run_load_ledger_cases [OF assms(1), of kv key \<sigma> mem])
    assume "run srv (load_ledger X kv key) \<sigma> mem = (Inr None, \<sigma>, mem)" "\<sigma> key = None"
    with assms(3) Inr show ?thesis by (simp add: run_try read_ledger_def clear_for_def)
  next
    fix e assume "run srv (load_ledger X kv key) \<sigma> mem = (Inl e, \<sigma>, mem)"
    with assms(3) Inr show ?thesis by (simp add: run_try read_ledger_def)
  next
    fix l rv
    assume l: "run srv (load_ledger X kv key) \<sigma> mem = (Inr (Some (l, rv)), \<sigma>, mem)" "ledger_at X \<sigma> key l"
    have "lets_pass l c now \<and> fst (run srv (check_loop X (Some kv) c now ss) \<sigma> mem) = Inr d"
      using assms(2,3) l(1) Inr
      by (auto simp: run_try read_ledger_def lets_pass_def split: option.splits if_splits)
    with l(2) Inr show ?thesis by (auto simp: clear_for_def)
  qed
qed

lemma check_negative:
  assumes "kv_reliable X srv" "fst (run srv (rev_check X (Some kv) c now) \<sigma> mem) = Inr d" "\<not> dc_revoked d"
  shows "validate_internal_claims c = Inr ()"
    and "clear_for X \<sigma> c now (SelTokenId (cl_org_id c) (cl_jti c))"
    and "clear_for X \<sigma> c now (SelSubject (cl_org_id c) (cl_sub c))"
proof -
  show valid: "validate_internal_claims c = Inr ()"
    using assms(2) by (cases "validate_internal_claims c") (auto simp: rev_check_def)
  with assms(2) have "fst (run srv (check_loop X (Some kv) c now
      [(SelTokenId (cl_org_id c) (cl_jti c), MatchedTokenId),
       (SelSubject (cl_org_id c) (cl_sub c), MatchedSubject)]) \<sigma> mem) = Inr d"
    by (simp add: rev_check_def del: check_loop.simps)
  from check_loop_step [OF assms(1,3) this] check_loop_step [OF assms(1,3), of kv c now _ "[]"]
  show "clear_for X \<sigma> c now (SelTokenId (cl_org_id c) (cl_jti c))"
    "clear_for X \<sigma> c now (SelSubject (cl_org_id c) (cl_sub c))"
    by fastforce+
qed

text \<open>
  The same among other writers: the two ledgers are read one after the other, each at a moment at which
  \<open>I\<close> holds of the store.
\<close>

definition cleared ::
  "externals \<Rightarrow> (kv_view \<Rightarrow> bool) \<Rightarrow> claims \<Rightarrow> u64 \<Rightarrow> revocation_selector set \<Rightarrow>
   revocation_error + revocation_decision \<Rightarrow> bool" where
  "cleared X I c now sels res \<longleftrightarrow>
     (\<forall>d. res = Inr d \<and> \<not> dc_revoked d \<longrightarrow> (\<forall>sel\<in>sels. \<exists>\<sigma>. I \<sigma> \<and> clear_for X \<sigma> c now sel))"

lemma rwp_check_loop_clear:
  assumes "kv_contract X server"
  shows "rwp server I (cleared X I c now (fst ` set ss)) (check_loop X (Some kv) c now ss)"
proof (induction ss)
  case (Cons s ss)
  note [simp del] = check_loop.simps(1)
  let ?Q = "cleared X I c now (insert (fst s) (fst ` set ss))"
  show ?case
  proof (cases "sel_storage_key X (fst s)")
    case (Inl e)
    then show ?thesis by (simp add: cleared_def)
  next
    case (Inr key)
    have go: "rwp server I ?Q (check_loop X (Some kv) c now ss)" if "I \<sigma>" "clear_for X \<sigma> c now (fst s)" for \<sigma>
      using Cons by (rule rwp_mono) (use that in \<open>auto simp: cleared_def\<close>)
    have "rwp server I (\<lambda>r. case r of Inl e \<Rightarrow> ?Q (Inl e)
        | Inr found \<Rightarrow> rwp server I ?Q
            (case found of None \<Rightarrow> check_loop X (Some kv) c now ss
             | Some l' \<Rightarrow> (case current_record l' of
                 Some r \<Rightarrow> if record_matches r c now
                   then Done (Inr \<lparr>dc_revoked = True, dc_matched_target = Some (snd s),
                          dc_generation = Some (generation l'), dc_expires_at = Some (rr_expires_at r)\<rparr>)
                   else check_loop X (Some kv) c now ss
               | None \<Rightarrow> check_loop X (Some kv) c now ss)))
        (read_ledger X (Some kv) key)"
      unfolding read_ledger_def option.case rwp_try
    proof (rule rwp_load_ledger [OF assms], goal_cases)
      case (1 e)
      then show ?case by (simp add: cleared_def)
    next
      case (2 \<sigma>)
      then have "clear_for X \<sigma> c now (fst s)" using Inr by (simp add: clear_for_def)
      from go [OF 2(1) this] show ?case by simp
    next
      case (3 \<sigma> raw r l)
      have pass: "rwp server I ?Q (check_loop X (Some kv) c now ss)" if "lets_pass l c now"
        using 3(1) by (rule go) (use 3 Inr that in \<open>auto simp: clear_for_def ledger_at_def\<close>)
      show ?case
      proof (cases "current_record l")
        case None
        then show ?thesis using pass by (simp add: lets_pass_def)
      next
        case (Some rec)
        then show ?thesis using pass by (simp add: lets_pass_def cleared_def)
      qed
    qed
    then show ?thesis by (simp add: Inr rwp_try)
  qed
qed (simp add: cleared_def)

lemma rwp_check_clear:
  assumes "kv_contract X server"
  shows "rwp server I (cleared X I c now {SelTokenId (cl_org_id c) (cl_jti c), SelSubject (cl_org_id c) (cl_sub c)})
    (rev_check X (Some kv) c now)"
  using rwp_check_loop_clear [OF assms, of I c now "[(SelTokenId (cl_org_id c) (cl_jti c), MatchedTokenId),
      (SelSubject (cl_org_id c) (cl_sub c), MatchedSubject)]" kv]
  by (auto simp: rev_check_def cleared_def simp del: check_loop.simps split: sum.split)


section \<open>A concrete ledger\<close>

definition demo_claims :: claims where
  "demo_claims = \<lparr>cl_sub = ''o'', cl_org_id = ''o'', cl_scopes = [], cl_iss = ''fiducia-auth'',
     cl_aud = ''fiducia-api'', cl_iat = 10, cl_exp = 70, cl_jti = ''j''\<rparr>"

definition demo_actor :: rev_mutation_identity where
  "demo_actor = \<lparr>rm_actor = ''r'', rm_idempotency_key = ''k''\<rparr>"

definition demo_ledger_key :: "revocation_selector \<Rightarrow> string" where
  "demo_ledger_key sel = (case sel_storage_key demo sel of Inr key \<Rightarrow> key | Inl e \<Rightarrow> [])"

definition demo_ledger :: revocation_ledger where
  "demo_ledger =
     \<lparr>lg_version = LEDGER_VERSION, lg_storage_key = demo_ledger_key (SelTokenId ''o'' ''j''),
      lg_events = [event_new demo 1 (ActRevoke (token_record demo_claims ''r'' ''r'' 20))
        (digest_text_parts demo []) (digest_text_parts demo []) []]\<rparr>"

definition demo_ledger_view :: kv_view where
  "demo_ledger_view = (\<lambda>_. None)
     (demo_ledger_key (SelTokenId ''o'' ''j'') := Some (enc_json (ledger_to_json demo_ledger), 1))"

lemma demo_claims_valid [simp]: "validate_internal_claims demo_claims = Inr ()"
  by (simp add: validate_internal_claims_iff demo_claims_def str_trim_fix_simps ISSUER_def AUDIENCE_def)

lemma demo_claims_sel [simp]:
  "cl_org_id demo_claims = ''o''" "cl_jti demo_claims = ''j''" "cl_sub demo_claims = ''o''"
  "cl_exp demo_claims = 70"
  by (simp_all add: demo_claims_def)

lemma demo_revocable: "revocable demo_claims ''r'' demo_actor 20"
proof -
  have "rev_validate_audit_text ''actor'' ''r'' 128 = Inr ()"
    by (simp add: rev_validate_audit_text_iff str_trim_fix_simps)
  then have "validate_mutation demo_actor = Inr ()"
    by (simp add: validate_mutation_def demo_actor_def str_trim_def utf8_width_def is_whitespace_def
        chars_def is_control_def)
  then show ?thesis by (simp add: revocable_def str_trim_fix_simps) (simp add: demo_claims_def)
qed

lemma demo_key_eq [simp]:
  "sel_storage_key demo (SelTokenId ''o'' ''j'') = Inr (demo_ledger_key (SelTokenId ''o'' ''j''))"
  "sel_storage_key demo (SelSubject ''o'' ''o'') = Inr (demo_ledger_key (SelSubject ''o'' ''o''))"
  by (simp_all add: demo_ledger_key_def sel_storage_key_def rev_validate_identifier_iff [THEN iffD2]
      str_trim_fix_simps)

lemma demo_ledger_ok: "ledger_valid demo demo_ledger" "lg_storage_key demo_ledger = demo_ledger_key (SelTokenId ''o'' ''j'')"
proof -
  have act: "rm_actor demo_actor = ''r''" by (simp add: demo_actor_def)
  have "storage_key demo (token_record demo_claims ''r'' ''r'' 20) = Inr (demo_ledger_key (SelTokenId ''o'' ''j''))"
    by (rule revocable_key [OF demo_revocable, of demo]) (simp add: act)
  from ledger_new_ok [OF demo_ok revocable_record(1) [OF demo_revocable, unfolded act] this
      digest_hex(2) [OF demo_ok] digest_hex(2) [OF demo_ok]]
  show "ledger_valid demo demo_ledger"
    unfolding demo_ledger_def by (rule ledger_new_InrD(2))
qed (simp add: demo_ledger_def)

lemma demo_ledger_view_sel:
  "demo_ledger_view (demo_ledger_key (SelTokenId ''o'' ''j'')) = Some (enc_json (ledger_to_json demo_ledger), 1)"
  "raw_ledger demo (enc_json (ledger_to_json demo_ledger)) = Some demo_ledger"
  "revs_positive demo_ledger_view"
  by (auto simp: demo_ledger_view_def raw_ledger_def revs_positive_def)

theorem ledger_append_only_race_safe_witness:
  "\<exists>raw' r' l'. sys_kv (sys_init demo_ledger_view (\<lambda>_. []) :: (ledger_memory, rev_response) sys)
      (demo_ledger_key (SelTokenId ''o'' ''j'')) = Some (raw', r')
    \<and> raw_ledger demo raw' = Some l' \<and> prefix (lg_events demo_ledger) (lg_events l') \<and> length (lg_events l') \<le> 32"
  using ledger_append_only_race_safe [OF demo_ok ref_relation_contract demo_ledger_view_sel(3)
        rtranclp.rtrancl_refl rtranclp.rtrancl_refl _ demo_ledger_view_sel(2) demo_ledger_ok(1),
        of "\<lambda>_. []" "demo_ledger_key (SelTokenId ''o'' ''j'')" 1]
  by (auto simp: sys_init_def demo_ledger_view_sel)

lemma demo_check_early:
  assumes "\<And>key. key \<noteq> demo_ledger_key (SelTokenId ''o'' ''j'') \<Longrightarrow> \<sigma> key = None"
    and "found_ledger demo \<sigma> (demo_ledger_key (SelTokenId ''o'' ''j'')) lo"
    and "\<And>l. lo = Some l \<Longrightarrow> lets_pass l demo_claims now"
  shows "run ref_server (rev_check demo (Some kv) demo_claims now) \<sigma> mem = (Inr not_revoked, \<sigma>, mem)"
proof -
  have sub: "\<exists>lo. found_ledger demo \<sigma> (demo_ledger_key (SelSubject ''o'' ''o'')) lo
      \<and> (\<forall>l. lo = Some l \<longrightarrow> lets_pass l demo_claims now)"
    using assms by (cases "demo_ledger_key (SelSubject ''o'' ''o'') = demo_ledger_key (SelTokenId ''o'' ''j'')")
      (auto simp: found_ledger_def intro: exI [of _ None])
  then obtain lo' where lo': "found_ledger demo \<sigma> (demo_ledger_key (SelSubject ''o'' ''o'')) lo'"
    "\<And>l. lo' = Some l \<Longrightarrow> lets_pass l demo_claims now"
    by blast
  have "run ref_server (check_loop demo (Some kv) demo_claims now
      [(SelTokenId ''o'' ''j'', MatchedTokenId), (SelSubject ''o'' ''o'', MatchedSubject)]) \<sigma> mem =
    run ref_server (check_loop demo (Some kv) demo_claims now [(SelSubject ''o'' ''o'', MatchedSubject)]) \<sigma> mem"
    by (rule run_check_skip [OF ref_server_reliable _ assms(2,3)]) simp
  also have "\<dots> = run ref_server (check_loop demo (Some kv) demo_claims now []) \<sigma> mem"
    by (rule run_check_skip [OF ref_server_reliable _ lo']) simp
  finally show ?thesis by (simp add: rev_check_def del: check_loop.simps(2))
qed


lemma only_reads_check: "only_reads (rev_check X (Some kv) c now)"
proof -
  have "only_reads (load_ledger X kv key :: (ledger_memory, _) eff)" for key
    by (auto simp: load_ledger_def intro!: only_reads_bind split: sum.split option.split)
  then have "only_reads (check_loop X (Some kv) c now ss)" for ss
    by (induction ss) (auto simp: read_ledger_def intro!: only_reads_try split: sum.split option.split)
  then show ?thesis by (simp add: rev_check_def del: check_loop.simps split: sum.split)
qed

end
