(* ===== verification/Gate.thy ===== *)
theory Gate
  imports Cache Revocation_Service
begin

text \<open>
  \<open>gate.rs\<close>: the gate of a verifier in front of its cache and the authority.  Each request is a
  task that moves through the critical sections and awaits of \<open>authorize\<close> and \<open>refresh\<close>; the
  step relation interleaves any number of tasks, the single exchanges of their pending checks, arbitrary
  changes of the store, timeouts and tasks that are dropped at an await.  The lemmas show that an allowed request has fresh
  authoritative evidence, that refreshes of one token never overlap, and how long entries of
  the lock map live.
\<close>

section \<open>Outcomes and keys\<close>

datatype unavailable = GateClockRegression | RefreshFailed | RefreshTimedOut

datatype authorization = Allowed | AuthRevoked | Unavailable unavailable

fun decision_to_auth :: "decision \<Rightarrow> authorization" where
  "decision_to_auth Allow = Allowed"
| "decision_to_auth Deny = AuthRevoked"

definition revocation_cache_key :: "externals \<Rightarrow> claims \<Rightarrow> string" where
  "revocation_cache_key X c =
     to_hex (sha256 X (frame_parts [as_bytes (cl_iss c), as_bytes (cl_aud c), as_bytes (cl_org_id c),
       as_bytes (cl_sub c), as_bytes (cl_jti c)]))"

section \<open>Tasks and the gate\<close>

text \<open>
  The program points of a request: before the first lookup, before taking the lock of its key,
  waiting for the guard, holding the guard before the second lookup, before the refresh,
  awaiting the authority, before applying the answer, at the end of the guarded block, before
  the lock is released, at the end of \<open>release_key\<close> (its parameter is dropped after the guard of
  the lock map), and finished.  The number is the identity of the shared lock.
\<close>

datatype task =
    Entered claims u64
  | NeedLock claims u64
  | Waiting claims u64 nat
  | Guarded claims u64 nat
  | Refreshing claims u64 nat
  | Asking claims u64 nat
  | Applying claims u64 nat decision
  | Finishing claims u64 nat authorization
  | Releasing claims u64 nat authorization
  | Dropping claims u64 nat authorization
  | Finished claims u64 authorization

fun task_claims :: "task \<Rightarrow> claims" where
  "task_claims (Entered c now) = c"
| "task_claims (NeedLock c now) = c"
| "task_claims (Waiting c now l) = c"
| "task_claims (Guarded c now l) = c"
| "task_claims (Refreshing c now l) = c"
| "task_claims (Asking c now l) = c"
| "task_claims (Applying c now l d) = c"
| "task_claims (Finishing c now l a) = c"
| "task_claims (Releasing c now l a) = c"
| "task_claims (Dropping c now l a) = c"
| "task_claims (Finished c now a) = c"

text \<open>The lock a task owns a reference to, and the lock whose guard it holds.\<close>

fun task_arc :: "task \<Rightarrow> nat option" where
  "task_arc (Waiting c now l) = Some l"
| "task_arc (Guarded c now l) = Some l"
| "task_arc (Refreshing c now l) = Some l"
| "task_arc (Asking c now l) = Some l"
| "task_arc (Applying c now l d) = Some l"
| "task_arc (Finishing c now l a) = Some l"
| "task_arc (Releasing c now l a) = Some l"
| "task_arc (Dropping c now l a) = Some l"
| "task_arc _ = None"

fun task_guard :: "task \<Rightarrow> nat option" where
  "task_guard (Guarded c now l) = Some l"
| "task_guard (Refreshing c now l) = Some l"
| "task_guard (Asking c now l) = Some l"
| "task_guard (Applying c now l d) = Some l"
| "task_guard (Finishing c now l a) = Some l"
| "task_guard _ = None"

record gate =
  gt_cache :: revocation_cache
  gt_key_locks :: "(string \<times> nat) list"
  gt_next_lock :: nat
  gt_tasks :: "(nat \<times> task) list"

definition gate_new :: "revocation_cache \<Rightarrow> gate" where
  "gate_new cache = \<lparr>gt_cache = cache, gt_key_locks = [], gt_next_lock = 0, gt_tasks = []\<rparr>"

abbreviation set_task :: "nat \<Rightarrow> task \<Rightarrow> gate \<Rightarrow> gate" where
  "set_task t tk g \<equiv> g\<lparr>gt_tasks := AList.update t tk (gt_tasks g)\<rparr>"

definition strong_count :: "gate \<Rightarrow> nat \<Rightarrow> nat" where
  "strong_count g l =
     length (filter (\<lambda>(k, l'). l' = l) (gt_key_locks g))
     + length (filter (\<lambda>(t, tk). task_arc tk = Some l) (gt_tasks g))"

definition guard_held :: "gate \<Rightarrow> nat \<Rightarrow> bool" where
  "guard_held g l \<longleftrightarrow> list_ex (\<lambda>(t, tk). task_guard tk = Some l) (gt_tasks g)"

section \<open>The sections of authorize and refresh\<close>

definition fast_path :: "externals \<Rightarrow> claims \<Rightarrow> u64 \<Rightarrow> gate \<Rightarrow> task \<times> gate" where
  "fast_path X c now g =
     (case cache_lookup (gt_cache g) (revocation_cache_key X c) now of (r, cache) \<Rightarrow>
        (case r of
           Inl e \<Rightarrow> Finished c now (Unavailable GateClockRegression)
         | Inr (Fresh d) \<Rightarrow> Finished c now (decision_to_auth d)
         | Inr _ \<Rightarrow> NeedLock c now, g\<lparr>gt_cache := cache\<rparr>))"

definition acquire_key :: "externals \<Rightarrow> claims \<Rightarrow> u64 \<Rightarrow> gate \<Rightarrow> task \<times> gate" where
  "acquire_key X c now g =
     (let key = revocation_cache_key X c
      in case map_of (gt_key_locks g) key of
           Some l \<Rightarrow> (Waiting c now l, g)
         | None \<Rightarrow> (Waiting c now (gt_next_lock g),
                    g\<lparr>gt_key_locks := AList.update key (gt_next_lock g) (gt_key_locks g),
                      gt_next_lock := Suc (gt_next_lock g)\<rparr>))"

definition recheck :: "externals \<Rightarrow> claims \<Rightarrow> u64 \<Rightarrow> nat \<Rightarrow> gate \<Rightarrow> task \<times> gate" where
  "recheck X c now l g =
     (case cache_lookup (gt_cache g) (revocation_cache_key X c) now of (r, cache) \<Rightarrow>
        (case r of
           Inl e \<Rightarrow> Finishing c now l (Unavailable GateClockRegression)
         | Inr (Fresh d) \<Rightarrow> Finishing c now l (decision_to_auth d)
         | Inr _ \<Rightarrow> Refreshing c now l, g\<lparr>gt_cache := cache\<rparr>))"

definition refresh_start :: "claims \<Rightarrow> u64 \<Rightarrow> nat \<Rightarrow> gate \<Rightarrow> task \<times> gate" where
  "refresh_start c now l g =
     (case record_refresh_start (gt_cache g) now of (r, cache) \<Rightarrow>
        (if is_ok r then Asking c now l else Finishing c now l (Unavailable GateClockRegression),
         g\<lparr>gt_cache := cache\<rparr>))"

datatype reply = Elapsed | Answer "revocation_error + revocation_decision"

fun refresh_answer :: "claims \<Rightarrow> u64 \<Rightarrow> nat \<Rightarrow> reply \<Rightarrow> task" where
  "refresh_answer c now l Elapsed = Finishing c now l (Unavailable RefreshTimedOut)"
| "refresh_answer c now l (Answer (Inl e)) = Finishing c now l (Unavailable RefreshFailed)"
| "refresh_answer c now l (Answer (Inr d)) = Applying c now l (if dc_revoked d then Deny else Allow)"

definition apply_answer :: "externals \<Rightarrow> claims \<Rightarrow> u64 \<Rightarrow> nat \<Rightarrow> decision \<Rightarrow> gate \<Rightarrow> task \<times> gate" where
  "apply_answer X c now l d g =
     (case cache_apply (gt_cache g) (revocation_cache_key X c) d now of (r, cache) \<Rightarrow>
        (Finishing c now l (if is_ok r then decision_to_auth d else Unavailable GateClockRegression),
         g\<lparr>gt_cache := cache\<rparr>))"

definition release_key :: "externals \<Rightarrow> claims \<Rightarrow> nat \<Rightarrow> gate \<Rightarrow> gate" where
  "release_key X c l g =
     (if strong_count g l \<le> 2
      then g\<lparr>gt_key_locks := AList.delete (revocation_cache_key X c) (gt_key_locks g)\<rparr> else g)"

text \<open>
  What a task does next, as its new program point and the gate afterwards; \<open>None\<close> while it
  cannot move.  A task that awaits the authority moves by \<open>gate_answer\<close>.
\<close>

fun task_step :: "externals \<Rightarrow> gate \<Rightarrow> task \<Rightarrow> (task \<times> gate) option" where
  "task_step X g (Entered c now) = Some (fast_path X c now g)"
| "task_step X g (NeedLock c now) = Some (acquire_key X c now g)"
| "task_step X g (Waiting c now l) = (if guard_held g l then None else Some (Guarded c now l, g))"
| "task_step X g (Guarded c now l) = Some (recheck X c now l g)"
| "task_step X g (Refreshing c now l) = Some (refresh_start c now l g)"
| "task_step X g (Asking c now l) = None"
| "task_step X g (Applying c now l d) = Some (apply_answer X c now l d g)"
| "task_step X g (Finishing c now l a) = Some (Releasing c now l a, g)"
| "task_step X g (Releasing c now l a) = Some (Dropping c now l a, release_key X c l g)"
| "task_step X g (Dropping c now l a) = Some (Finished c now a, g)"
| "task_step X g (Finished c now a) = None"

definition gate_step :: "externals \<Rightarrow> nat \<Rightarrow> gate \<Rightarrow> gate option" where
  "gate_step X t g =
     (case map_of (gt_tasks g) t of
        None \<Rightarrow> None
      | Some tk \<Rightarrow> map_option (\<lambda>(tk', g'). set_task t tk' g') (task_step X g tk))"

definition gate_answer :: "nat \<Rightarrow> reply \<Rightarrow> gate \<Rightarrow> gate option" where
  "gate_answer t rep g =
     (case map_of (gt_tasks g) t of
        Some (Asking c now l) \<Rightarrow> Some (set_task t (refresh_answer c now l rep) g)
      | _ \<Rightarrow> None)"

section \<open>The system\<close>

text \<open>
  The trait \<open>RevocationAuthority\<close>.  \<open>'w\<close> is the state of the world outside the gate, \<open>'f\<close> a future that
  \<open>check_revocation\<close> returned: \<open>au_start\<close> makes it, \<open>au_poll\<close> is one exchange of it with the world, and
  \<open>au_ready\<close> its result when there is one.
\<close>

record ('w, 'f) authority =
  au_start :: "claims \<Rightarrow> u64 \<Rightarrow> 'f"
  au_poll :: "'w \<Rightarrow> 'f \<Rightarrow> 'w \<Rightarrow> 'f \<Rightarrow> bool"
  au_ready :: "'f \<Rightarrow> (revocation_error + revocation_decision) option"

text \<open>
  Between two exchanges of a future the world may change in any way.  A future is kept with the states of
  the world that its exchanges met; the log records the answers with them, \<open>starts\<close> the times at which
  requests entered.  With \<open>cancels\<close> a task may be dropped while it awaits the guard or the authority.
\<close>

record ('w, 'f) gate_sys =
  gy_gate :: gate
  gy_world :: 'w
  gy_futures :: "nat \<rightharpoonup> 'w list \<times> 'f"
  gy_log :: "(claims \<times> u64 \<times> bool \<times> 'w list) list"
  gy_starts :: "u64 list"

definition gate_sys_init :: "u64 \<Rightarrow> nat \<Rightarrow> 'w \<Rightarrow> ('w, 'f) gate_sys" where
  "gate_sys_init b n w =
     \<lparr>gy_gate = gate_new (cache_new b n), gy_world = w, gy_futures = Map.empty, gy_log = [], gy_starts = []\<rparr>"

inductive gate_sys_step ::
  "externals \<Rightarrow> bool \<Rightarrow> ('w, 'f) authority \<Rightarrow> ('w, 'f) gate_sys \<Rightarrow> ('w, 'f) gate_sys \<Rightarrow> bool"
  for X :: externals and cancels :: bool and A :: "('w, 'f) authority" where
  enter: "map_of (gt_tasks (gy_gate y)) t = None \<Longrightarrow>
     gate_sys_step X cancels A y
       (y\<lparr>gy_gate := set_task t (Entered c now) (gy_gate y), gy_starts := now # gy_starts y\<rparr>)"
| move: "gate_step X t (gy_gate y) = Some g \<Longrightarrow>
     gate_sys_step X cancels A y (y\<lparr>gy_gate := g\<rparr>)"
| ask: "map_of (gt_tasks (gy_gate y)) t = Some (Asking c now l) \<Longrightarrow> gy_futures y t = None \<Longrightarrow>
     gate_sys_step X cancels A y (y\<lparr>gy_futures := (gy_futures y)(t \<mapsto> ([], au_start A c now))\<rparr>)"
| exchange: "gy_futures y t = Some (ws, f) \<Longrightarrow> au_poll A (gy_world y) f w' f' \<Longrightarrow>
     gate_sys_step X cancels A y
       (y\<lparr>gy_world := w', gy_futures := (gy_futures y)(t \<mapsto> (gy_world y # ws, f'))\<rparr>)"
| elapse: "gate_answer t Elapsed (gy_gate y) = Some g \<Longrightarrow>
     gate_sys_step X cancels A y (y\<lparr>gy_gate := g, gy_futures := (gy_futures y)(t := None)\<rparr>)"
| failed: "gy_futures y t = Some (ws, f) \<Longrightarrow> au_ready A f = Some (Inl e) \<Longrightarrow>
     gate_answer t (Answer (Inl e)) (gy_gate y) = Some g \<Longrightarrow>
     gate_sys_step X cancels A y (y\<lparr>gy_gate := g, gy_futures := (gy_futures y)(t := None)\<rparr>)"
| answered: "gy_futures y t = Some (ws, f) \<Longrightarrow> au_ready A f = Some (Inr d) \<Longrightarrow>
     map_of (gt_tasks (gy_gate y)) t = Some (Asking c now l) \<Longrightarrow>
     gate_answer t (Answer (Inr d)) (gy_gate y) = Some g \<Longrightarrow>
     gate_sys_step X cancels A y
       (y\<lparr>gy_gate := g, gy_futures := (gy_futures y)(t := None), gy_log := (c, now, dc_revoked d, ws) # gy_log y\<rparr>)"
| world: "gate_sys_step X cancels A y (y\<lparr>gy_world := w\<rparr>)"
| drop_waiting: "cancels \<Longrightarrow> map_of (gt_tasks (gy_gate y)) t = Some (Waiting c now l) \<Longrightarrow>
     gate_sys_step X cancels A y
       (y\<lparr>gy_gate := (gy_gate y)\<lparr>gt_tasks := AList.delete t (gt_tasks (gy_gate y))\<rparr>\<rparr>)"
| drop_asking: "cancels \<Longrightarrow> map_of (gt_tasks (gy_gate y)) t = Some (Asking c now l) \<Longrightarrow>
     gate_sys_step X cancels A y
       (y\<lparr>gy_gate := (gy_gate y)\<lparr>gt_tasks := AList.delete t (gt_tasks (gy_gate y))\<rparr>,
          gy_futures := (gy_futures y)(t := None)\<rparr>)"
| forget: "map_of (gt_tasks (gy_gate y)) t = Some (Finished c now a) \<Longrightarrow>
     gate_sys_step X cancels A y
       (y\<lparr>gy_gate := (gy_gate y)\<lparr>gt_tasks := AList.delete t (gt_tasks (gy_gate y))\<rparr>\<rparr>)"

inductive_cases gate_sys_stepE: "gate_sys_step X cancels A y y'"

text \<open>A future that has made some exchanges, with the states of the world they met.\<close>

inductive future_run :: "('w, 'f) authority \<Rightarrow> claims \<Rightarrow> u64 \<Rightarrow> 'w list \<Rightarrow> 'f \<Rightarrow> bool"
  for A :: "('w, 'f) authority" and c :: claims and now :: u64 where
  started: "future_run A c now [] (au_start A c now)"
| polled: "future_run A c now ws f \<Longrightarrow> au_poll A w f w' f' \<Longrightarrow> future_run A c now (w # ws) f'"

section \<open>Evidence\<close>

definition log_evidence :: "externals \<Rightarrow> (claims \<times> u64 \<times> bool \<times> 'w list) list \<Rightarrow> (string \<times> decision \<times> u64) set" where
  "log_evidence X log = (\<lambda>(c, now, rv, w). (revocation_cache_key X c, if rv then Deny else Allow, now)) ` set log"

fun task_outcome :: "task \<Rightarrow> (u64 \<times> authorization) option" where
  "task_outcome (Finishing c now l a) = Some (now, a)"
| "task_outcome (Releasing c now l a) = Some (now, a)"
| "task_outcome (Dropping c now l a) = Some (now, a)"
| "task_outcome (Finished c now a) = Some (now, a)"
| "task_outcome _ = None"

fun task_answer :: "task \<Rightarrow> (u64 \<times> decision) option" where
  "task_answer (Applying c now l d) = Some (now, d)"
| "task_answer _ = None"

text \<open>An outcome is backed when the log has the decision behind it, within the budget.\<close>

definition supported :: "(string \<times> decision \<times> u64) set \<Rightarrow> string \<Rightarrow> u64 \<Rightarrow> u64 \<Rightarrow> authorization \<Rightarrow> bool" where
  "supported L key b now a \<longleftrightarrow>
     (\<forall>d. a = decision_to_auth d \<longrightarrow> (\<exists>t. (key, d, t) \<in> L \<and> t \<le> now \<and> unat now \<le> unat t + unat b))"

definition task_backed :: "externals \<Rightarrow> u64 \<Rightarrow> (string \<times> decision \<times> u64) set \<Rightarrow> task \<Rightarrow> bool" where
  "task_backed X b L tk \<longleftrightarrow>
     (\<forall>now d. task_answer tk = Some (now, d) \<longrightarrow> (revocation_cache_key X (task_claims tk), d, now) \<in> L)
   \<and> (\<forall>now a. task_outcome tk = Some (now, a) \<longrightarrow> supported L (revocation_cache_key X (task_claims tk)) b now a)"

definition gate_backed :: "externals \<Rightarrow> u64 \<Rightarrow> (string \<times> decision \<times> u64) set \<Rightarrow> gate \<Rightarrow> bool" where
  "gate_backed X b L g \<longleftrightarrow>
     vc.backed L (gt_cache g) \<and> rc_freshness_budget_secs (gt_cache g) = b
   \<and> (\<forall>t tk. map_of (gt_tasks g) t = Some tk \<longrightarrow> task_backed X b L tk)"

lemma supported_mono: "supported L k b now a \<Longrightarrow> L \<subseteq> L' \<Longrightarrow> supported L' k b now a"
  unfolding supported_def by blast

lemma task_backed_mono: "task_backed X b L tk \<Longrightarrow> L \<subseteq> L' \<Longrightarrow> task_backed X b L' tk"
  unfolding task_backed_def using supported_mono by blast

lemma gate_backed_mono: "gate_backed X b L g \<Longrightarrow> L \<subseteq> L' \<Longrightarrow> gate_backed X b L' g"
  unfolding gate_backed_def using backed_mono task_backed_mono by blast

lemma supported_Unavailable [simp]: "supported L k b now (Unavailable u)"
proof -
  have "Unavailable u \<noteq> decision_to_auth d" for d by (cases d) simp_all
  then show ?thesis by (simp add: supported_def)
qed

lemma decision_to_auth_inject [simp]: "decision_to_auth d = decision_to_auth d' \<longleftrightarrow> d = d'"
  by (cases d; cases d') simp_all

lemma supported_decision:
  "supported L k b now (decision_to_auth d) \<longleftrightarrow> (\<exists>t. (k, d, t) \<in> L \<and> t \<le> now \<and> unat now \<le> unat t + unat b)"
  by (auto simp: supported_def)

lemma gate_backed_set_task:
  assumes "gate_backed X b L g" "task_backed X b L tk"
  shows "gate_backed X b L (set_task t tk g)"
  using assms by (auto simp: gate_backed_def update_conv')

lemma gate_backed_frame:
  assumes "gate_backed X b L g" "gt_cache g' = gt_cache g" "gt_tasks g' = gt_tasks g"
  shows "gate_backed X b L g'"
  using assms by (simp add: gate_backed_def)

lemma gate_backed_delete:
  "gate_backed X b L g \<Longrightarrow> gate_backed X b L (g\<lparr>gt_tasks := AList.delete t (gt_tasks g)\<rparr>)"
  by (auto simp: gate_backed_def delete_conv')

text \<open>The sections that use the cache keep the evidence and return a backed task.\<close>

lemma fast_path_backed:
  assumes "gate_backed X b L g" "fast_path X c now g = (tk, g')"
  shows "gate_backed X b L g' \<and> task_backed X b L tk"
proof -
  obtain r cache where look: "cache_lookup (gt_cache g) (revocation_cache_key X c) now = (r, cache)" by fastforce
  have backed: "vc.backed L (gt_cache g)" "rc_freshness_budget_secs (gt_cache g) = b"
    using assms(1) by (simp_all add: gate_backed_def)
  have "vc.backed L cache" using vc.backed_look [OF backed(1), of "revocation_cache_key X c" now] look by simp
  moreover have "rc_freshness_budget_secs cache = b"
    using vc.look_keeps [of "gt_cache g" "revocation_cache_key X c" now] backed look by (simp add: vc.backed_def)
  moreover have "supported L (revocation_cache_key X c) b now (decision_to_auth d)" if fresh: "r = Inr (Fresh d)" for d
  proof -
    obtain t where "(revocation_cache_key X c, d, t) \<in> L" "t \<le> now" "unat now \<le> unat t + unat b"
      by (rule vc.fresh_backed [OF backed(1), of "revocation_cache_key X c" now d]) (use look fresh backed in simp_all)
    then show ?thesis by (auto simp: supported_decision)
  qed
  ultimately show ?thesis
    using assms look
    by (auto simp: fast_path_def gate_backed_def task_backed_def split: sum.splits lookup_outcome.splits)
qed

lemma recheck_backed:
  assumes "gate_backed X b L g" "recheck X c now l g = (tk, g')"
  shows "gate_backed X b L g' \<and> task_backed X b L tk"
proof -
  obtain tk1 where "fast_path X c now g = (tk1, g')"
    and tk: "tk = (case tk1 of Finished c now a \<Rightarrow> Finishing c now l a | _ \<Rightarrow> Refreshing c now l)"
    using assms(2) by (auto simp: fast_path_def recheck_def split: prod.splits sum.splits lookup_outcome.splits)
  from fast_path_backed [OF assms(1) this(1)] tk show ?thesis
    by (auto simp: task_backed_def split: task.splits)
qed

lemma refresh_start_backed:
  assumes "gate_backed X b L g" "refresh_start c now l g = (tk, g')"
  shows "gate_backed X b L g' \<and> task_backed X b L tk"
proof -
  have "vc.backed L (gt_cache g)" using assms(1) by (simp add: gate_backed_def)
  from vc.backed_start [OF this, of now] vc.start_keeps [of "gt_cache g" now] this show ?thesis
    using assms by (auto simp: refresh_start_def gate_backed_def task_backed_def vc.backed_def split: prod.splits if_splits)
qed

lemma apply_answer_backed:
  assumes "gate_backed X b L g" "apply_answer X c now l d g = (tk, g')" "(revocation_cache_key X c, d, now) \<in> L"
  shows "gate_backed X b L g' \<and> task_backed X b L tk"
proof -
  let ?k = "revocation_cache_key X c"
  have backed: "vc.backed L (gt_cache g)" using assms(1) by (simp add: gate_backed_def)
  then have "vc.backed L (snd (cache_apply (gt_cache g) ?k d now))"
    using backed_mono [OF vc.backed_store [OF backed, of ?k d now], of L] assms(3) by auto
  moreover have "rc_freshness_budget_secs (snd (cache_apply (gt_cache g) ?k d now)) = b"
    using vc.store_keeps [of "gt_cache g" ?k d now] assms(1) backed by (simp add: gate_backed_def vc.backed_def)
  moreover have "supported L ?k b now (decision_to_auth d)" using assms(3) by (auto simp: supported_decision)
  ultimately show ?thesis
    using assms by (auto simp: apply_answer_def gate_backed_def task_backed_def split: prod.splits)
qed

lemma task_step_backed:
  assumes "gate_backed X b L g" "task_backed X b L tk" "task_step X g tk = Some (tk', g')"
  shows "gate_backed X b L g' \<and> task_backed X b L tk'"
proof (cases tk)
  case (Entered c now)
  with assms show ?thesis by (simp add: fast_path_backed)
next
  case (NeedLock c now)
  with assms show ?thesis
    by (auto simp: acquire_key_def Let_def task_backed_def gate_backed_def split: option.splits)
next
  case (Guarded c now l)
  with assms show ?thesis by (simp add: recheck_backed)
next
  case (Refreshing c now l)
  with assms show ?thesis by (simp add: refresh_start_backed)
next
  case (Applying c now l d)
  with assms(2) have "(revocation_cache_key X c, d, now) \<in> L" by (simp add: task_backed_def)
  with Applying assms show ?thesis by (simp add: apply_answer_backed)
next
  case (Releasing c now l a)
  with assms gate_backed_frame [OF assms(1), of "release_key X c l g"] show ?thesis
    by (auto simp: release_key_def task_backed_def)
qed (use assms in \<open>auto simp: task_backed_def split: if_splits\<close>)

lemma gate_step_SomeD:
  assumes "gate_step X t g = Some g'"
  obtains tk tk' g1 where "map_of (gt_tasks g) t = Some tk" "task_step X g tk = Some (tk', g1)"
    "g' = set_task t tk' g1"
  using assms by (auto simp: gate_step_def split: option.splits)

lemma gate_step_backed:
  assumes "gate_backed X b L g" "gate_step X t g = Some g'"
  shows "gate_backed X b L g'"
proof -
  obtain tk tk' g1 where s: "map_of (gt_tasks g) t = Some tk" "task_step X g tk = Some (tk', g1)"
    "g' = set_task t tk' g1"
    by (rule gate_step_SomeD [OF assms(2)])
  then have "task_backed X b L tk" using assms(1) by (simp add: gate_backed_def)
  from task_step_backed [OF assms(1) this s(2)] s(3) show ?thesis by (simp add: gate_backed_set_task)
qed

lemma gate_answer_SomeD:
  assumes "gate_answer t rep g = Some g'"
  obtains c now l where "map_of (gt_tasks g) t = Some (Asking c now l)"
    "g' = set_task t (refresh_answer c now l rep) g"
  using assms by (auto simp: gate_answer_def split: option.splits task.splits)

section \<open>The invariant of the system\<close>

text \<open>
  Every pending future belongs to a task that awaits it, and for every state of the world that an exchange of it met,
  \<open>met\<close> holds of that state and the waiting task.
\<close>

definition evidence_inv ::
  "externals \<Rightarrow> u64 \<Rightarrow> ('w, 'f) authority \<Rightarrow> (nat \<Rightarrow> task \<Rightarrow> 'w \<Rightarrow> bool) \<Rightarrow> ('w, 'f) gate_sys \<Rightarrow> bool" where
  "evidence_inv X b A met y \<longleftrightarrow>
     gate_backed X b (log_evidence X (gy_log y)) (gy_gate y)
   \<and> (\<forall>t ws f. gy_futures y t = Some (ws, f) \<longrightarrow>
        (\<exists>c now l. map_of (gt_tasks (gy_gate y)) t = Some (Asking c now l) \<and> future_run A c now ws f
           \<and> (\<forall>w\<in>set ws. met t (Asking c now l) w)))
   \<and> (\<forall>(c, now, rv, ws)\<in>set (gy_log y). \<exists>t l f d. future_run A c now ws f \<and> au_ready A f = Some (Inr d)
        \<and> dc_revoked d = rv \<and> (\<forall>w\<in>set ws. met t (Asking c now l) w))"

lemma evidence_inv_init: "evidence_inv X (max b 1) A met (gate_sys_init b n w)"
  using backed_new [of b n]
  by (simp add: evidence_inv_def gate_sys_init_def gate_backed_def gate_new_def log_evidence_def)
     (simp add: cache_new_def)

lemma evidence_inv_future:
  assumes "evidence_inv X b A met y" "gy_futures y t = Some (ws, f)"
  obtains c now l where "map_of (gt_tasks (gy_gate y)) t = Some (Asking c now l)" "future_run A c now ws f"
    "\<forall>w\<in>set ws. met t (Asking c now l) w"
  using assms unfolding evidence_inv_def by blast

lemma task_step_tasks: "task_step X g tk = Some (tk', g') \<Longrightarrow> gt_tasks g' = gt_tasks g"
  by (cases tk; auto simp: fast_path_def acquire_key_def Let_def recheck_def refresh_start_def apply_answer_def
      release_key_def split: prod.splits sum.splits lookup_outcome.splits if_splits option.splits)

lemma gate_step_asking:
  assumes "gate_step X t g = Some g'" "map_of (gt_tasks g) s = Some (Asking c now l)"
  shows "map_of (gt_tasks g') s = Some (Asking c now l)"
  using assms by (auto simp: update_conv' task_step_tasks elim!: gate_step_SomeD)

text \<open>The parts of the invariant change separately.\<close>

lemma evidence_inv_change:
  assumes "evidence_inv X b A met y" "gate_backed X b (log_evidence X (gy_log y)) (gy_gate y')" "gy_log y' = gy_log y"
    and "\<And>t ws f. gy_futures y' t = Some (ws, f) \<Longrightarrow> gy_futures y t = Some (ws, f)
      \<and> map_of (gt_tasks (gy_gate y')) t = map_of (gt_tasks (gy_gate y)) t"
  shows "evidence_inv X b A met y'"
  using assms unfolding evidence_inv_def by (simp add: assms(3))

lemma evidence_inv_mono:
  assumes "evidence_inv X b A met y" "\<And>t tk w. met t tk w \<Longrightarrow> met' t tk w"
  shows "evidence_inv X b A met' y"
proof -
  have log: "\<exists>t l f d. future_run A c now ws f \<and> au_ready A f = Some (Inr d) \<and> dc_revoked d = rv
      \<and> (\<forall>w\<in>set ws. met' t (Asking c now l) w)" if "(c, now, rv, ws) \<in> set (gy_log y)" for c now rv ws
  proof -
    from assms(1) that obtain t l f d where "future_run A c now ws f" "au_ready A f = Some (Inr d)" "dc_revoked d = rv"
      "\<forall>w\<in>set ws. met t (Asking c now l) w"
      unfolding evidence_inv_def by fastforce
    then show ?thesis using assms(2) by (intro exI [of _ t] exI [of _ l] exI [of _ f] exI [of _ d]) simp
  qed
  have "\<exists>c now l. map_of (gt_tasks (gy_gate y)) t = Some (Asking c now l) \<and> future_run A c now ws f
      \<and> (\<forall>w\<in>set ws. met' t (Asking c now l) w)" if "gy_futures y t = Some (ws, f)" for t ws f
    using evidence_inv_future [OF assms(1) that] assms(2) by metis
  with log assms(1) show ?thesis unfolding evidence_inv_def by blast
qed

lemma evidence_inv_answered:
  assumes inv: "evidence_inv X b A met y" and fut: "gy_futures y t = Some (ws, f)" "au_ready A f = Some (Inr d)"
    and asking: "map_of (gt_tasks (gy_gate y)) t = Some (Asking c now l)" "gate_answer t (Answer (Inr d)) (gy_gate y) = Some g"
  shows "evidence_inv X b A met
    (y\<lparr>gy_gate := g, gy_futures := (gy_futures y)(t := None), gy_log := (c, now, dc_revoked d, ws) # gy_log y\<rparr>)"
proof -
  let ?L = "log_evidence X ((c, now, dc_revoked d, ws) # gy_log y)"
  have g: "g = set_task t (refresh_answer c now l (Answer (Inr d))) (gy_gate y)"
    using asking by (auto simp: gate_answer_def)
  have "gate_backed X b ?L (gy_gate y)"
    using inv by (auto simp: evidence_inv_def log_evidence_def intro: gate_backed_mono)
  then have "gate_backed X b ?L g"
    unfolding g by (rule gate_backed_set_task) (auto simp: task_backed_def log_evidence_def)
  moreover have "future_run A c now ws f" "\<forall>w\<in>set ws. met t (Asking c now l) w"
    using evidence_inv_future [OF inv fut(1)] asking(1) by auto
  moreover have "map_of (gt_tasks g) s = map_of (gt_tasks (gy_gate y)) s" if "s \<noteq> t" for s
    using that by (simp add: g update_conv')
  ultimately show ?thesis using inv fut(2) unfolding evidence_inv_def by (auto split: if_splits)
qed

lemma evidence_inv_step:
  assumes "gate_sys_step X cancels A y y'" "evidence_inv X b A met y"
    and "\<And>t tk. map_of (gt_tasks (gy_gate y)) t = Some tk \<Longrightarrow> met t tk (gy_world y)"
  shows "evidence_inv X b A met y'"
  using assms
proof (induction rule: gate_sys_step.induct)
  case (enter y t c now)
  have backed: "gate_backed X b (log_evidence X (gy_log y)) (gy_gate y)" using enter.prems by (simp add: evidence_inv_def)
  show ?case
    using evidence_inv_future [OF enter.prems(1)] enter.hyps
    by (intro evidence_inv_change [OF enter.prems(1)])
       (force simp: task_backed_def update_conv' intro!: gate_backed_set_task [OF backed])+
next
  case (move t y g)
  then have "gate_backed X b (log_evidence X (gy_log y)) g" by (auto simp: evidence_inv_def intro: gate_step_backed)
  then show ?case
    using evidence_inv_future [OF move.prems(1)] gate_step_asking [OF move.hyps]
    by (intro evidence_inv_change [OF move.prems(1)]) (simp_all, metis)
next
  case (ask y t c now l)
  then show ?case by (auto simp: evidence_inv_def future_run.started)
next
  case (exchange y t ws f w' f')
  from evidence_inv_future [OF exchange.prems(1) exchange.hyps(1)] obtain c now l where
    t: "map_of (gt_tasks (gy_gate y)) t = Some (Asking c now l)" "future_run A c now ws f"
    "\<forall>w\<in>set ws. met t (Asking c now l) w" .
  with future_run.polled [OF t(2) exchange.hyps(2)] exchange.prems show ?case by (auto simp: evidence_inv_def)
next
  case (elapse t y g)
  have backed: "gate_backed X b (log_evidence X (gy_log y)) (gy_gate y)" using elapse.prems by (simp add: evidence_inv_def)
  from elapse.hyps show ?case
    by (intro evidence_inv_change [OF elapse.prems(1)])
       (auto simp: task_backed_def update_conv' intro!: gate_backed_set_task [OF backed] elim!: gate_answer_SomeD split: if_splits)
next
  case (failed y t ws f e g)
  have backed: "gate_backed X b (log_evidence X (gy_log y)) (gy_gate y)" using failed.prems by (simp add: evidence_inv_def)
  from failed.hyps(3) show ?case
    by (intro evidence_inv_change [OF failed.prems(1)])
       (auto simp: task_backed_def update_conv' intro!: gate_backed_set_task [OF backed] elim!: gate_answer_SomeD split: if_splits)
next
  case (answered y t ws f d c now l g)
  then show ?case by (intro evidence_inv_answered)
next
  case (world y w)
  then show ?case by (simp add: evidence_inv_def)
next
  case (drop_waiting y t c now l)
  have backed: "gate_backed X b (log_evidence X (gy_log y)) (gy_gate y)" using drop_waiting.prems by (simp add: evidence_inv_def)
  show ?case
    using evidence_inv_future [OF drop_waiting.prems(1)] drop_waiting.hyps gate_backed_delete [OF backed]
    by (intro evidence_inv_change [OF drop_waiting.prems(1)]) (force simp: delete_conv')+
next
  case (drop_asking y t c now l)
  have backed: "gate_backed X b (log_evidence X (gy_log y)) (gy_gate y)" using drop_asking.prems by (simp add: evidence_inv_def)
  show ?case
    using gate_backed_delete [OF backed]
    by (intro evidence_inv_change [OF drop_asking.prems(1)]) (auto simp: delete_conv' split: if_splits)
next
  case (forget y t c now a)
  have backed: "gate_backed X b (log_evidence X (gy_log y)) (gy_gate y)" using forget.prems by (simp add: evidence_inv_def)
  show ?case
    using evidence_inv_future [OF forget.prems(1)] forget.hyps gate_backed_delete [OF backed]
    by (intro evidence_inv_change [OF forget.prems(1)]) (force simp: delete_conv')+
qed

text \<open>A state between the start and \<open>y\<close> in which the world was \<open>w\<close> and task \<open>t\<close> at \<open>tk\<close>.\<close>

definition moment ::
  "(('w, 'f) gate_sys \<Rightarrow> ('w, 'f) gate_sys \<Rightarrow> bool) \<Rightarrow> ('w, 'f) gate_sys \<Rightarrow> ('w, 'f) gate_sys \<Rightarrow> nat \<Rightarrow> task \<Rightarrow> 'w \<Rightarrow> bool" where
  "moment R y0 y t tk w \<longleftrightarrow>
     (\<exists>u. R\<^sup>*\<^sup>* y0 u \<and> R\<^sup>*\<^sup>* u y \<and> map_of (gt_tasks (gy_gate u)) t = Some tk \<and> gy_world u = w)"

lemma evidence_inv_reachable:
  assumes "(gate_sys_step X cancels A)\<^sup>*\<^sup>* (gate_sys_init b n w) y"
  shows "evidence_inv X (max b 1) A (moment (gate_sys_step X cancels A) (gate_sys_init b n w) y) y"
  using assms
proof (induction rule: rtranclp_induct)
  case base
  show ?case by (rule evidence_inv_init)
next
  case (step y z)
  let ?met = "moment (gate_sys_step X cancels A) (gate_sys_init b n w)"
  have "evidence_inv X (max b 1) A (?met z) y"
    using step.IH by (rule evidence_inv_mono) (use step.hyps(2) in \<open>auto simp: moment_def intro: rtranclp.rtrancl_into_rtrancl\<close>)
  with step.hyps(2) show ?case
    by (rule evidence_inv_step) (use step.hyps in \<open>auto simp: moment_def\<close>)
qed

lemma finished_evidence:
  assumes "(gate_sys_step X cancels A)\<^sup>*\<^sup>* (gate_sys_init b n w) y"
    and "map_of (gt_tasks (gy_gate y)) t = Some (Finished c now (decision_to_auth d))"
  obtains c' t' ws s l f dec where "(c', t', dc_revoked dec, ws) \<in> set (gy_log y)"
    "revocation_cache_key X c' = revocation_cache_key X c" "t' \<le> now"
    "unat now \<le> unat t' + unat (max b 1)" "future_run A c' t' ws f" "au_ready A f = Some (Inr dec)" "dc_revoked dec \<longleftrightarrow> d = Deny"
    "\<forall>w'\<in>set ws. moment (gate_sys_step X cancels A) (gate_sys_init b n w) y s (Asking c' t' l) w'"
proof -
  have inv: "evidence_inv X (max b 1) A (moment (gate_sys_step X cancels A) (gate_sys_init b n w) y) y"
    by (rule evidence_inv_reachable [OF assms(1)])
  then have "task_backed X (max b 1) (log_evidence X (gy_log y)) (Finished c now (decision_to_auth d))"
    using assms(2) by (simp add: evidence_inv_def gate_backed_def)
  then obtain t' where ev: "(revocation_cache_key X c, d, t') \<in> log_evidence X (gy_log y)" "t' \<le> now"
    "unat now \<le> unat t' + unat (max b 1)"
    by (auto simp: task_backed_def supported_decision)
  then obtain c' rv ws where entry: "(c', t', rv, ws) \<in> set (gy_log y)"
    "revocation_cache_key X c' = revocation_cache_key X c" "d = (if rv then Deny else Allow)"
    by (auto simp: log_evidence_def)
  moreover obtain s l f dec where "future_run A c' t' ws f" "au_ready A f = Some (Inr dec)" "dc_revoked dec = rv"
    "\<forall>w'\<in>set ws. moment (gate_sys_step X cancels A) (gate_sys_init b n w) y s (Asking c' t' l) w'"
    using inv entry(1) unfolding evidence_inv_def by fastforce
  ultimately show ?thesis using ev that [of c' t' dec ws f s l] by (cases rv) auto
qed

section \<open>Single flight\<close>

text \<open>The lock a task relies on to be the one of its key in the lock map.\<close>

fun task_lock :: "task \<Rightarrow> nat option" where
  "task_lock (Dropping c now l a) = None"
| "task_lock tk = task_arc tk"

definition lock_inv :: "externals \<Rightarrow> gate \<Rightarrow> bool" where
  "lock_inv X g \<longleftrightarrow>
     distinct (map fst (gt_tasks g))
   \<and> (\<forall>t tk l. map_of (gt_tasks g) t = Some tk \<longrightarrow> task_lock tk = Some l \<longrightarrow>
        map_of (gt_key_locks g) (revocation_cache_key X (task_claims tk)) = Some l)
   \<and> (\<forall>t tk t' tk' l. map_of (gt_tasks g) t = Some tk \<longrightarrow> map_of (gt_tasks g) t' = Some tk' \<longrightarrow>
        task_guard tk = Some l \<longrightarrow> task_guard tk' = Some l \<longrightarrow> t = t')"

lemma task_guard_lock: "task_guard tk = Some l \<Longrightarrow> task_lock tk = Some l \<and> task_arc tk = Some l"
  by (cases tk) simp_all

lemma task_lock_arc: "task_lock tk = Some l \<Longrightarrow> task_arc tk = Some l"
  by (cases tk) simp_all

lemma task_guard_held: "map_of (gt_tasks g) t = Some tk \<Longrightarrow> task_guard tk = Some l \<Longrightarrow> guard_held g l"
  by (auto simp: guard_held_def list_ex_iff dest!: map_of_SomeD)

text \<open>A lock with two owners among the tasks is shared, so it stays in the map.\<close>

lemma shared_lock_stays:
  assumes "map_of (gt_key_locks g) key = Some l" "map_of (gt_tasks g) t = Some tk" "task_arc tk = Some l"
    and "map_of (gt_tasks g) t' = Some tk'" "task_arc tk' = Some l" "t \<noteq> t'"
  shows "2 < strong_count g l"
proof -
  let ?own = "filter (\<lambda>(t, tk). task_arc tk = Some l) (gt_tasks g)"
  have "{t, t'} \<subseteq> fst ` set ?own"
    using assms by (auto simp: image_iff dest!: map_of_SomeD)
  then have "card {t, t'} \<le> card (fst ` set ?own)" by (intro card_mono) simp_all
  also have "\<dots> \<le> length ?own" by (meson card_image_le card_length finite_set le_trans)
  finally have "2 \<le> length ?own" using assms(6) by simp
  moreover have "(key, l) \<in> set (filter (\<lambda>(k, l'). l' = l) (gt_key_locks g))"
    using assms(1) by (auto dest: map_of_SomeD)
  then have "0 < length (filter (\<lambda>(k, l'). l' = l) (gt_key_locks g))" by (rule length_pos_if_in_set)
  ultimately show ?thesis unfolding strong_count_def by linarith
qed

lemma lock_inv_guard_eq:
  assumes "lock_inv X g" "map_of (gt_tasks g) t = Some tk" "task_guard tk = Some l"
    and "map_of (gt_tasks g) s = Some sk" "task_guard sk = Some l"
  shows "s = t"
  using assms unfolding lock_inv_def by blast

lemma lock_inv_lock:
  assumes "lock_inv X g" "map_of (gt_tasks g) t = Some tk" "task_lock tk = Some l"
  shows "map_of (gt_key_locks g) (revocation_cache_key X (task_claims tk)) = Some l"
  using assms unfolding lock_inv_def by blast

text \<open>
  A task may take a new program point when its lock is the one of the map and no other task
  has the guard it holds there.
\<close>

lemma lock_inv_set_task:
  assumes inv: "lock_inv X g"
    and lock: "\<And>l. task_lock tk' = Some l \<Longrightarrow>
      map_of (gt_key_locks g) (revocation_cache_key X (task_claims tk')) = Some l"
    and guard: "\<And>l s sk. task_guard tk' = Some l \<Longrightarrow> map_of (gt_tasks g) s = Some sk \<Longrightarrow>
      task_guard sk = Some l \<Longrightarrow> s = t"
  shows "lock_inv X (set_task t tk' g)"
  unfolding lock_inv_def
proof (intro conjI allI impI)
  show "distinct (map fst (gt_tasks (set_task t tk' g)))"
    using inv by (simp add: lock_inv_def distinct_update)
next
  fix s sk l
  assume sk: "map_of (gt_tasks (set_task t tk' g)) s = Some sk" "task_lock sk = Some l"
  show "map_of (gt_key_locks (set_task t tk' g)) (revocation_cache_key X (task_claims sk)) = Some l"
  proof (cases "s = t")
    case True
    with sk lock [of l] show ?thesis by (simp add: update_conv')
  next
    case False
    with sk inv show ?thesis by (simp add: update_conv' lock_inv_def)
  qed
next
  fix s sk s' sk' l
  assume sk: "map_of (gt_tasks (set_task t tk' g)) s = Some sk" "map_of (gt_tasks (set_task t tk' g)) s' = Some sk'"
    and gd: "task_guard sk = Some l" "task_guard sk' = Some l"
  have new: "r = t \<and> rk = tk' \<or> r \<noteq> t \<and> map_of (gt_tasks g) r = Some rk"
    if "map_of (gt_tasks (set_task t tk' g)) r = Some rk" for r rk
    using that by (auto simp: update_conv' split: if_splits)
  show "s = s'"
    using new [OF sk(1)] new [OF sk(2)] guard [of l s sk] guard [of l s' sk'] gd
      lock_inv_guard_eq [OF inv _ gd(2) _ gd(1), of s' s] by auto
qed

lemma lock_inv_frame:
  "lock_inv X g \<Longrightarrow> gt_tasks g' = gt_tasks g \<Longrightarrow> gt_key_locks g' = gt_key_locks g \<Longrightarrow> lock_inv X g'"
  by (simp add: lock_inv_def)

lemma lock_inv_keep:
  assumes "lock_inv X g" "map_of (gt_tasks g) t = Some tk"
    and "task_lock tk' = None \<or> task_lock tk' = task_lock tk \<and> task_claims tk' = task_claims tk"
    and "task_guard tk' = None \<or> task_guard tk' = task_guard tk"
  shows "lock_inv X (set_task t tk' g)"
proof (rule lock_inv_set_task [OF assms(1)])
  show "task_lock tk' = Some l \<Longrightarrow> map_of (gt_key_locks g) (revocation_cache_key X (task_claims tk')) = Some l" for l
    using lock_inv_lock [OF assms(1,2), of l] assms(3) by auto
  show "task_guard tk' = Some l \<Longrightarrow> map_of (gt_tasks g) s = Some sk \<Longrightarrow> task_guard sk = Some l \<Longrightarrow> s = t" for l s sk
    using lock_inv_guard_eq [OF assms(1,2), of l s sk] assms(4) by auto
qed

lemma lock_inv_release:
  assumes "lock_inv X g" "map_of (gt_tasks g) t = Some (Releasing c now l a)"
  shows "lock_inv X (set_task t (Dropping c now l a) (release_key X c l g))"
proof (cases "strong_count g l \<le> 2")
  case False
  with lock_inv_keep [OF assms, of "Dropping c now l a"] show ?thesis by (simp add: release_key_def)
next
  case True
  let ?k = "revocation_cache_key X c" and ?g = "set_task t (Dropping c now l a) g"
  have inv: "lock_inv X ?g" by (rule lock_inv_keep [OF assms]) simp_all
  have own: "map_of (gt_key_locks g) ?k = Some l" using lock_inv_lock [OF assms, of l] by simp
  have free: "revocation_cache_key X (task_claims sk) \<noteq> ?k"
    if "map_of (gt_tasks ?g) s = Some sk" "task_lock sk = Some l'" for s sk l'
  proof
    assume eq: "revocation_cache_key X (task_claims sk) = ?k"
    have "s \<noteq> t" using that by (auto simp: update_conv')
    then have sk: "map_of (gt_tasks g) s = Some sk" using that(1) by (simp add: update_conv')
    have "l' = l" using lock_inv_lock [OF assms(1) sk that(2)] own eq by simp
    then have "task_arc sk = Some l" using that(2) by (simp add: task_lock_arc)
    with shared_lock_stays [OF own assms(2) _ sk] \<open>s \<noteq> t\<close> True show False by simp
  qed
  have "release_key X c l g = g\<lparr>gt_key_locks := AList.delete ?k (gt_key_locks g)\<rparr>"
    using True by (simp add: release_key_def)
  with inv free show ?thesis
    unfolding lock_inv_def by (simp add: delete_conv')
qed

lemma lock_inv_acquire:
  assumes "lock_inv X g" "acquire_key X c now g = (tk', g')"
  shows "lock_inv X (set_task t tk' g')"
proof (cases "map_of (gt_key_locks g) (revocation_cache_key X c)")
  case (Some l)
  with assms(2) have "tk' = Waiting c now l" "g' = g" by (simp_all add: acquire_key_def)
  with Some show ?thesis by (auto intro!: lock_inv_set_task assms(1))
next
  case None
  let ?k = "revocation_cache_key X c"
  have g': "tk' = Waiting c now (gt_next_lock g)"
    "gt_tasks g' = gt_tasks g" "gt_key_locks g' = AList.update ?k (gt_next_lock g) (gt_key_locks g)"
    using assms(2) None by (auto simp: acquire_key_def)
  have "revocation_cache_key X (task_claims sk) \<noteq> ?k"
    if "map_of (gt_tasks g) s = Some sk" "task_lock sk = Some l" for s sk l
    using lock_inv_lock [OF assms(1) that] None by auto
  then have "lock_inv X g'"
    using assms(1) g'(2,3) unfolding lock_inv_def by (simp add: update_conv')
  then show ?thesis by (rule lock_inv_set_task) (simp_all add: g' update_conv')
qed

lemma lock_inv_task_step:
  assumes inv: "lock_inv X g" and tk: "map_of (gt_tasks g) t = Some tk"
    and step: "task_step X g tk = Some (tk', g')"
  shows "lock_inv X (set_task t tk' g')"
proof -
  have keep: ?thesis
    if "gt_tasks g' = gt_tasks g" "gt_key_locks g' = gt_key_locks g"
      "task_lock tk' = None \<or> task_lock tk' = task_lock tk \<and> task_claims tk' = task_claims tk"
      "task_guard tk' = None \<or> task_guard tk' = task_guard tk"
    using lock_inv_keep [of X g' t tk tk'] lock_inv_frame [OF inv that(1,2)] that tk by simp
  show ?thesis
  proof (cases tk)
    case (NeedLock c now)
    with step lock_inv_acquire [OF inv] show ?thesis by simp
  next
    case (Waiting c now l)
    with step have w: "tk' = Guarded c now l" "g' = g" "\<not> guard_held g l" by (auto split: if_splits)
    show ?thesis
      unfolding w(1,2)
      by (rule lock_inv_set_task [OF inv])
         (use w(3) lock_inv_lock [OF inv tk] Waiting task_guard_held in auto)
  next
    case (Releasing c now l a)
    with step tk lock_inv_release [OF inv] show ?thesis by auto
  qed (rule keep;
    use step in \<open>auto simp: fast_path_def recheck_def refresh_start_def apply_answer_def
      split: prod.splits sum.splits lookup_outcome.splits if_splits\<close>)+
qed

lemma lock_inv_gate_step: "lock_inv X g \<Longrightarrow> gate_step X t g = Some g' \<Longrightarrow> lock_inv X g'"
  by (auto elim!: gate_step_SomeD intro: lock_inv_task_step)

lemma lock_inv_gate_answer:
  assumes "lock_inv X g" "gate_answer t rep g = Some g'"
  shows "lock_inv X g'"
proof -
  obtain c now l where asking: "map_of (gt_tasks g) t = Some (Asking c now l)"
    and g': "g' = set_task t (refresh_answer c now l rep) g"
    by (rule gate_answer_SomeD [OF assms(2)])
  have "task_lock (refresh_answer c now l rep) = Some l" "task_guard (refresh_answer c now l rep) = Some l"
    "task_claims (refresh_answer c now l rep) = c"
    by (cases "(c, now, l, rep)" rule: refresh_answer.cases; simp)+
  then show ?thesis unfolding g' by (intro lock_inv_keep [OF assms(1) asking]) simp_all
qed

lemma lock_inv_delete: "lock_inv X g \<Longrightarrow> lock_inv X (g\<lparr>gt_tasks := AList.delete t (gt_tasks g)\<rparr>)"
  unfolding lock_inv_def by (simp add: distinct_delete delete_conv')

lemma lock_inv_step:
  assumes "gate_sys_step X cancels A y y'" "lock_inv X (gy_gate y)"
  shows "lock_inv X (gy_gate y')"
  using assms
proof (induction rule: gate_sys_step.induct)
  case (enter y t c now)
  then show ?case by (auto intro!: lock_inv_set_task)
qed (auto intro: lock_inv_gate_step lock_inv_gate_answer lock_inv_delete)

lemma lock_inv_reachable:
  assumes "(gate_sys_step X cancels A)\<^sup>*\<^sup>* (gate_sys_init b n w) y"
  shows "lock_inv X (gy_gate y)"
  using assms
proof induction
  case base
  then show ?case by (simp add: gate_sys_init_def gate_new_def lock_inv_def)
next
  case (step y z)
  then show ?case by (simp add: lock_inv_step)
qed

section \<open>Progress\<close>

text \<open>How many steps a request still needs.\<close>

fun task_work :: "task \<Rightarrow> nat" where
  "task_work (Entered c now) = 10"
| "task_work (NeedLock c now) = 9"
| "task_work (Waiting c now l) = 8"
| "task_work (Guarded c now l) = 7"
| "task_work (Refreshing c now l) = 6"
| "task_work (Asking c now l) = 5"
| "task_work (Applying c now l d) = 4"
| "task_work (Finishing c now l a) = 3"
| "task_work (Releasing c now l a) = 2"
| "task_work (Dropping c now l a) = 1"
| "task_work (Finished c now a) = 0"

definition gate_work :: "gate \<Rightarrow> nat" where
  "gate_work g = sum_list (map (\<lambda>(t, tk). task_work tk) (gt_tasks g))"

lemma work_update:
  assumes "map_of ts t = Some tk" "task_work tk' < task_work tk"
  shows "sum_list (map (\<lambda>(t, tk). task_work tk) (AList.update t tk' ts)) < sum_list (map (\<lambda>(t, tk). task_work tk) ts)"
  using assms by (induction ts) (auto split: if_splits)

lemma task_step_work:
  assumes "task_step X g tk = Some (tk', g')"
  shows "task_work tk' < task_work tk"
  using assms
  by (cases tk; auto simp: fast_path_def acquire_key_def Let_def recheck_def refresh_start_def apply_answer_def
      release_key_def split: prod.splits sum.splits lookup_outcome.splits if_splits option.splits)+

lemma gate_step_work: "gate_step X t g = Some g' \<Longrightarrow> gate_work g' < gate_work g"
  by (auto elim!: gate_step_SomeD simp: gate_work_def task_step_work task_step_tasks intro!: work_update)

lemma gate_answer_work: "gate_answer t rep g = Some g' \<Longrightarrow> gate_work g' < gate_work g"
proof (elim gate_answer_SomeD)
  fix c now l
  assume "map_of (gt_tasks g) t = Some (Asking c now l)" "g' = set_task t (refresh_answer c now l rep) g"
  moreover have "task_work (refresh_answer c now l rep) < task_work (Asking c now l)"
    by (cases "(c, now, l, rep)" rule: refresh_answer.cases) simp_all
  ultimately show ?thesis by (simp add: gate_work_def work_update)
qed

lemma task_step_None:
  "task_step X g tk = None \<Longrightarrow>
     (\<exists>c now l. tk = Waiting c now l \<and> guard_held g l) \<or> (\<exists>c now l. tk = Asking c now l) \<or> task_work tk = 0"
  by (cases tk) (auto split: if_splits)

lemma unfinished_can_move:
  assumes "lock_inv X g" "map_of (gt_tasks g) t = Some tk" "task_work tk \<noteq> 0"
  shows "\<exists>s g'. gate_step X s g = Some g' \<or> gate_answer s Elapsed g = Some g'"
proof -
  have runs: ?thesis if "map_of (gt_tasks g) s = Some sk" "task_work sk \<noteq> 0"
    "\<And>c now l. sk \<noteq> Waiting c now l" for s sk
  proof (cases "task_step X g sk")
    case None
    with task_step_None [OF None] that obtain c now l where "sk = Asking c now l" by auto
    with that(1) have "\<exists>g'. gate_answer s Elapsed g = Some g'" by (simp add: gate_answer_def)
    then show ?thesis by blast
  next
    case (Some p)
    with that(1) have "\<exists>g'. gate_step X s g = Some g'" by (cases p) (simp add: gate_step_def)
    then show ?thesis by blast
  qed
  show ?thesis
  proof (cases "\<exists>c now l. tk = Waiting c now l \<and> guard_held g l")
    case True
    then obtain s sk l where "(s, sk) \<in> set (gt_tasks g)" "task_guard sk = Some l"
      by (auto simp: guard_held_def list_ex_iff)
    moreover have "distinct (map fst (gt_tasks g))" using assms(1) by (simp add: lock_inv_def)
    ultimately have "map_of (gt_tasks g) s = Some sk" "task_guard sk = Some l" by simp_all
    then show ?thesis by (intro runs [of s sk]) (cases sk; simp)+
  next
    case False
    show ?thesis
    proof (cases "\<exists>c now l. tk = Waiting c now l")
      case True
      with False assms(2) have "\<exists>g'. gate_step X t g = Some g'" by (auto simp: gate_step_def)
      then show ?thesis by blast
    next
      case False
      with assms runs show ?thesis by blast
    qed
  qed
qed

section \<open>The contract of an authority\<close>

text \<open>
  \<open>clear W c now\<close>: the states \<open>W\<close> show that nothing revokes the token with the identity of \<open>c\<close>.  An authority
  may answer that a token is not revoked only when the states its exchanges met show it.
\<close>

definition claims_identity :: "claims \<Rightarrow> string list" where
  "claims_identity c = [cl_iss c, cl_aud c, cl_org_id c, cl_sub c, cl_jti c]"

locale revocation_authority =
  fixes A :: "('w, 'f) authority" and clear :: "'w set \<Rightarrow> claims \<Rightarrow> u64 \<Rightarrow> bool"
  assumes negative_clear:
      "future_run A c now ws f \<Longrightarrow> au_ready A f = Some (Inr d) \<Longrightarrow> \<not> dc_revoked d \<Longrightarrow> clear (set ws) c now"
    and clear_identity: "claims_identity c' = claims_identity c \<Longrightarrow> clear W c' now = clear W c now"
begin

lemma allowed_clear:
  assumes "(gate_sys_step X cancels A)\<^sup>*\<^sup>* (gate_sys_init b n w) y"
    and "map_of (gt_tasks (gy_gate y)) t = Some (Finished c now Allowed)"
    and "\<forall>e\<in>set (gy_log y). revocation_cache_key X (fst e) = revocation_cache_key X c \<longrightarrow>
      claims_identity (fst e) = claims_identity c"
  obtains t' s c' l W where "t' \<le> now" "unat now \<le> unat t' + unat (max b 1)" "claims_identity c' = claims_identity c"
    "clear W c t'" "\<forall>w'\<in>W. moment (gate_sys_step X cancels A) (gate_sys_init b n w) y s (Asking c' t' l) w'"
proof -
  from assms(2) have fin: "map_of (gt_tasks (gy_gate y)) t = Some (Finished c now (decision_to_auth Allow))"
    by simp
  obtain c' t' ws s l f d where ev: "(c', t', dc_revoked d, ws) \<in> set (gy_log y)"
    "revocation_cache_key X c' = revocation_cache_key X c" "t' \<le> now"
    "unat now \<le> unat t' + unat (max b 1)" "future_run A c' t' ws f" "au_ready A f = Some (Inr d)" "\<not> dc_revoked d"
    "\<forall>w'\<in>set ws. moment (gate_sys_step X cancels A) (gate_sys_init b n w) y s (Asking c' t' l) w'"
    by (rule finished_evidence [OF assms(1) fin]) simp
  have same: "claims_identity c' = claims_identity c" using assms(3) ev(1,2) by auto
  with negative_clear [OF ev(5-7)] clear_identity [OF same] ev(3,4,8) show thesis by (intro that) auto
qed

end

text \<open>
  The durable ledger as authority: its future is the rest of \<open>rev_check\<close>, and each of its two reads is an
  exchange of its own with the store.  The memory of a store without a client is not used.
\<close>

inductive future_step :: "server \<Rightarrow> kv_view \<Rightarrow> ('c, 'a) eff \<Rightarrow> kv_view \<Rightarrow> ('c, 'a) eff \<Rightarrow> bool" for server :: server where
  sent: "server \<sigma> rq r \<sigma>' \<Longrightarrow> future_step server \<sigma> (Send rq k) \<sigma>' (k r)"
| local: "future_step server \<sigma> (Locked g k) \<sigma> (k m)"

fun future_result :: "('c, 'a) eff \<Rightarrow> 'a option" where
  "future_result (Done x) = Some x"
| "future_result _ = None"

definition ledger_authority ::
  "externals \<Rightarrow> server \<Rightarrow> kv_client \<Rightarrow>
   (kv_view, (ledger_memory, revocation_error + revocation_decision) eff) authority" where
  "ledger_authority X server kv =
     \<lparr>au_start = rev_check X (Some kv), au_poll = future_step server, au_ready = future_result\<rparr>"

definition ledger_clear :: "externals \<Rightarrow> server \<Rightarrow> kv_view set \<Rightarrow> claims \<Rightarrow> u64 \<Rightarrow> bool" where
  "ledger_clear X server W c now \<longleftrightarrow>
     (kv_contract X server \<longrightarrow>
        (\<forall>sel\<in>{SelTokenId (cl_org_id c) (cl_jti c), SelSubject (cl_org_id c) (cl_sub c)}. \<exists>\<sigma>\<in>W. clear_for X \<sigma> c now sel))"

lemma future_run_rwp:
  assumes "future_run (ledger_authority X server kv) c now ws f" "set ws \<subseteq> W"
    and "rwp server (\<lambda>\<sigma>. \<sigma> \<in> W) Q (rev_check X (Some kv) c now)"
  shows "rwp server (\<lambda>\<sigma>. \<sigma> \<in> W) Q f"
  using assms
proof (induction rule: future_run.induct)
  case started
  then show ?case by (simp add: ledger_authority_def)
next
  case (polled ws f w w' f')
  then have f: "rwp server (\<lambda>\<sigma>. \<sigma> \<in> W) Q f" "w \<in> W" by simp_all
  from polled.hyps(2) have "future_step server w f w' f'" by (simp add: ledger_authority_def)
  then show ?case by cases (use f in auto)
qed

interpretation ledgers: revocation_authority "ledger_authority X server kv" "ledger_clear X server" for X server kv
proof
  fix c now ws f d
  assume run: "future_run (ledger_authority X server kv) c now ws f"
    and res: "au_ready (ledger_authority X server kv) f = Some (Inr d)" "\<not> dc_revoked d"
  have f: "f = Done (Inr d)" using res(1) by (cases f) (simp_all add: ledger_authority_def)
  show "ledger_clear X server (set ws) c now"
    using future_run_rwp [OF run order_refl rwp_check_clear] res(2)
    unfolding ledger_clear_def f by (auto simp: cleared_def)
next
  fix c c' W now
  assume "claims_identity c' = claims_identity c"
  then have id: "cl_iss c' = cl_iss c" "cl_aud c' = cl_aud c" "cl_org_id c' = cl_org_id c"
    "cl_sub c' = cl_sub c" "cl_jti c' = cl_jti c"
    by (simp_all add: claims_identity_def)
  then have "record_matches r c' now = record_matches r c now" for r
    by (simp add: record_matches_def split: revocation_target.split)
  then show "ledger_clear X server W c' now = ledger_clear X server W c now"
    by (simp add: ledger_clear_def clear_for_def lets_pass_def id)
qed

text \<open>The cache key determines the identity it is made from, up to collisions of the digest.\<close>

definition identity_text :: "claims \<Rightarrow> byte list" where
  "identity_text c = frame_parts (map as_bytes (claims_identity c))"

lemma revocation_cache_key_text: "revocation_cache_key X c = to_hex (sha256 X (identity_text c))"
  by (simp add: revocation_cache_key_def identity_text_def claims_identity_def)

lemma identity_text_inject:
  assumes "\<forall>s\<in>set (claims_identity c). length s < 2 ^ 64" "\<forall>s\<in>set (claims_identity c'). length s < 2 ^ 64"
    and "identity_text c = identity_text c'"
  shows "claims_identity c = claims_identity c'"
proof -
  have "map as_bytes (claims_identity c) = map as_bytes (claims_identity c')"
    by (rule frame_parts_inject) (use assms in \<open>auto simp: identity_text_def\<close>)
  then show ?thesis by (simp add: claims_identity_def)
qed

section \<open>Traces\<close>

text \<open>Sequences of steps that do not involve an answer of the authority, as a function.\<close>

datatype gate_act = Enter nat claims u64 | Move nat | Elapse nat | Forget nat

fun do_act :: "externals \<Rightarrow> gate_act \<Rightarrow> gate \<Rightarrow> gate option" where
  "do_act X (Enter t c now) g = (if map_of (gt_tasks g) t = None then Some (set_task t (Entered c now) g) else None)"
| "do_act X (Move t) g = gate_step X t g"
| "do_act X (Elapse t) g = gate_answer t Elapsed g"
| "do_act X (Forget t) g =
     (case map_of (gt_tasks g) t of
        Some (Finished c now a) \<Rightarrow> Some (g\<lparr>gt_tasks := AList.delete t (gt_tasks g)\<rparr>)
      | _ \<Rightarrow> None)"

fun do_acts :: "externals \<Rightarrow> gate_act list \<Rightarrow> gate \<Rightarrow> gate option" where
  "do_acts X [] g = Some g"
| "do_acts X (x # xs) g = (case do_act X x g of None \<Rightarrow> None | Some g' \<Rightarrow> do_acts X xs g')"

fun act_starts :: "gate_act list \<Rightarrow> u64 list \<Rightarrow> u64 list" where
  "act_starts [] ts = ts"
| "act_starts (Enter t c now # xs) ts = act_starts xs (now # ts)"
| "act_starts (_ # xs) ts = act_starts xs ts"

lemma do_act_step:
  assumes "do_act X x (gy_gate y) = Some g" "gy_futures y = Map.empty"
  shows "gate_sys_step X cancels A y (y\<lparr>gy_gate := g, gy_starts := act_starts [x] (gy_starts y)\<rparr>)"
proof (cases x)
  case (Enter t c now)
  with assms gate_sys_step.enter [where y = y and t = t and c = c and now = now] show ?thesis by (auto split: if_splits)
next
  case (Move t)
  with assms gate_sys_step.move [of X t y g cancels A] show ?thesis by simp
next
  case (Elapse t)
  moreover have "y\<lparr>gy_gate := g, gy_futures := (gy_futures y)(t := None)\<rparr> = y\<lparr>gy_gate := g\<rparr>"
    using assms(2) by (cases y) auto
  ultimately show ?thesis using assms(1) gate_sys_step.elapse [of t y g X cancels A] by simp
next
  case (Forget t)
  with assms gate_sys_step.forget [of y t _ _ _ X cancels A] show ?thesis
    by (auto split: option.splits task.splits)
qed

lemma do_acts_reach:
  assumes "do_acts X xs (gy_gate y) = Some g" "gy_futures y = Map.empty"
  shows "(gate_sys_step X cancels A)\<^sup>*\<^sup>* y (y\<lparr>gy_gate := g, gy_starts := act_starts xs (gy_starts y)\<rparr>)"
  using assms
proof (induction xs arbitrary: y)
  case Nil
  then have "y\<lparr>gy_gate := g, gy_starts := act_starts [] (gy_starts y)\<rparr> = y" by (cases y) auto
  then show ?case by simp
next
  case (Cons x xs)
  then obtain g1 where g1: "do_act X x (gy_gate y) = Some g1" "do_acts X xs g1 = Some g"
    by (auto split: option.splits)
  let ?y = "y\<lparr>gy_gate := g1, gy_starts := act_starts [x] (gy_starts y)\<rparr>"
  have "(gate_sys_step X cancels A)\<^sup>*\<^sup>* ?y (?y\<lparr>gy_gate := g, gy_starts := act_starts xs (gy_starts ?y)\<rparr>)"
    using Cons.IH [of ?y] g1(2) Cons.prems(2) by simp
  moreover have "?y\<lparr>gy_gate := g, gy_starts := act_starts xs (gy_starts ?y)\<rparr> =
      y\<lparr>gy_gate := g, gy_starts := act_starts (x # xs) (gy_starts y)\<rparr>"
    by (cases x) simp_all
  ultimately show ?case
    using do_act_step [OF g1(1) Cons.prems(2), of cancels A] by (metis converse_rtranclp_into_rtranclp)
qed

lemma acts_from_init:
  assumes "do_acts X xs (gate_new (cache_new b n)) = Some g"
  shows "(gate_sys_step X cancels A)\<^sup>*\<^sup>* (gate_sys_init b n w)
    \<lparr>gy_gate = g, gy_world = w, gy_futures = Map.empty, gy_log = [], gy_starts = act_starts xs []\<rparr>"
  using do_acts_reach [of X xs "gate_sys_init b n w" g cancels A] assms by (simp add: gate_sys_init_def)

lemmas gate_eval = gate_step_def fast_path_def acquire_key_def recheck_def refresh_start_def apply_answer_def
  release_key_def gate_answer_def guard_held_def strong_count_def cache_lookup_def record_refresh_start_def
  cache_apply_def advance_def Let_def gate_new_def cache_new_def

lemma solo_acts:
  "do_acts X [Enter 0 c now, Move 0, Move 0, Move 0, Move 0, Move 0] (gate_new (cache_new b n)) =
     Some \<lparr>gt_cache = (cache_new b n)\<lparr>rc_high_water := now\<rparr>, gt_key_locks = [(revocation_cache_key X c, 0)],
           gt_next_lock = 1, gt_tasks = [(0, Asking c now 0)]\<rparr>"
  by (simp add: gate_eval)

definition answered_gate :: "externals \<Rightarrow> claims \<Rightarrow> u64 \<Rightarrow> u64 \<Rightarrow> nat \<Rightarrow> decision \<Rightarrow> gate" where
  "answered_gate X c now b n d =
     \<lparr>gt_cache = (cache_new b n)\<lparr>rc_high_water := now,
        rc_entries := [(revocation_cache_key X c, \<lparr>en_decision = d, en_observed_at = now\<rparr>)]\<rparr>,
      gt_key_locks = [], gt_next_lock = 1, gt_tasks = [(0, Finished c now (decision_to_auth d))]\<rparr>"

lemma solo_finishes:
  "do_acts X [Move 0, Move 0, Move 0, Move 0]
     \<lparr>gt_cache = (cache_new b n)\<lparr>rc_high_water := now\<rparr>, gt_key_locks = [(revocation_cache_key X c, 0)],
      gt_next_lock = 1, gt_tasks = [(0, Applying c now 0 d)]\<rparr> = Some (answered_gate X c now b n d)"
  by (simp add: gate_eval answered_gate_def)

text \<open>A single request whose check runs undisturbed.\<close>

lemma solo_future:
  assumes "(\<lambda>f f'. au_poll A w f w f')\<^sup>*\<^sup>* (au_start A c now) f" "map_of (gt_tasks g) 0 = Some (Asking c now 0)"
  shows "\<exists>ws. (gate_sys_step X cancels A)\<^sup>*\<^sup>*
      \<lparr>gy_gate = g, gy_world = w, gy_futures = Map.empty, gy_log = [], gy_starts = st\<rparr>
      \<lparr>gy_gate = g, gy_world = w, gy_futures = [0 \<mapsto> (ws, f)], gy_log = [], gy_starts = st\<rparr>"
  using assms(1)
proof (induction rule: rtranclp_induct)
  case base
  let ?y = "\<lparr>gy_gate = g, gy_world = w, gy_futures = Map.empty, gy_log = [], gy_starts = st\<rparr>"
  have "gate_sys_step X cancels A ?y (?y\<lparr>gy_futures := [0 \<mapsto> ([], au_start A c now)]\<rparr>)"
    using gate_sys_step.ask [where y = ?y and t = 0 and c = c and now = now and l = 0] assms(2) by simp
  then have "(gate_sys_step X cancels A)\<^sup>*\<^sup>* ?y (?y\<lparr>gy_futures := [0 \<mapsto> ([], au_start A c now)]\<rparr>)" by (rule r_into_rtranclp)
  then show ?case by (intro exI [of _ "[]"]) (simp del: fun_upd_apply)
next
  case (step f f')
  then obtain ws where ws: "(gate_sys_step X cancels A)\<^sup>*\<^sup>*
      \<lparr>gy_gate = g, gy_world = w, gy_futures = Map.empty, gy_log = [], gy_starts = st\<rparr>
      \<lparr>gy_gate = g, gy_world = w, gy_futures = [0 \<mapsto> (ws, f)], gy_log = [], gy_starts = st\<rparr>" by blast
  have "gate_sys_step X cancels A
      \<lparr>gy_gate = g, gy_world = w, gy_futures = [0 \<mapsto> (ws, f)], gy_log = [], gy_starts = st\<rparr>
      \<lparr>gy_gate = g, gy_world = w, gy_futures = [0 \<mapsto> (w # ws, f')], gy_log = [], gy_starts = st\<rparr>"
    using gate_sys_step.exchange [where t = 0 and ws = ws and f = f and w' = w and f' = f' and A = A
        and y = "\<lparr>gy_gate = g, gy_world = w, gy_futures = [0 \<mapsto> (ws, f)], gy_log = [], gy_starts = st\<rparr>"] step.hyps(2)
    by simp
  with ws show ?case by (blast intro: rtranclp.rtrancl_into_rtrancl)
qed

lemma solo_request:
  assumes "(\<lambda>f f'. au_poll A w f w f')\<^sup>*\<^sup>* (au_start A c now) f" "au_ready A f = Some (Inr d)"
  shows "\<exists>ws. (gate_sys_step X cancels A)\<^sup>*\<^sup>* (gate_sys_init b n w)
    \<lparr>gy_gate = answered_gate X c now b n (if dc_revoked d then Deny else Allow), gy_world = w, gy_futures = Map.empty,
     gy_log = [(c, now, dc_revoked d, ws)], gy_starts = [now]\<rparr>"
proof -
  let ?R = "gate_sys_step X cancels A" and ?d = "if dc_revoked d then Deny else Allow"
  let ?cache = "(cache_new b n)\<lparr>rc_high_water := now\<rparr>" and ?locks = "[(revocation_cache_key X c, 0)]"
  let ?g1 = "\<lparr>gt_cache = ?cache, gt_key_locks = ?locks, gt_next_lock = 1, gt_tasks = [(0, Asking c now 0)]\<rparr>"
  let ?g2 = "\<lparr>gt_cache = ?cache, gt_key_locks = ?locks, gt_next_lock = 1, gt_tasks = [(0, Applying c now 0 ?d)]\<rparr>"
  let ?y1 = "\<lparr>gy_gate = ?g1, gy_world = w, gy_futures = Map.empty, gy_log = [], gy_starts = [now]\<rparr>"
  obtain ws where ws: "?R\<^sup>*\<^sup>* ?y1 \<lparr>gy_gate = ?g1, gy_world = w, gy_futures = [0 \<mapsto> (ws, f)], gy_log = [], gy_starts = [now]\<rparr>"
    using solo_future [OF assms(1), of ?g1 X cancels "[now]"] by auto
  let ?y2 = "\<lparr>gy_gate = ?g1, gy_world = w, gy_futures = [0 \<mapsto> (ws, f)], gy_log = [], gy_starts = [now]\<rparr>"
  let ?y3 = "\<lparr>gy_gate = ?g2, gy_world = w, gy_futures = Map.empty, gy_log = [(c, now, dc_revoked d, ws)], gy_starts = [now]\<rparr>"
  have "?R\<^sup>*\<^sup>* (gate_sys_init b n w) ?y1"
    using acts_from_init [OF solo_acts [where X = X and c = c and now = now and b = b and n = n], of cancels A w] by simp
  also have "?R\<^sup>*\<^sup>* ?y1 ?y2" by (rule ws)
  also have "?R ?y2 ?y3"
    using gate_sys_step.answered [where y = ?y2 and t = 0 and c = c and now = now and l = 0 and d = d and A = A and ws = ws and f = f] assms(2)
    by (simp add: gate_answer_def)
  also have "?R\<^sup>*\<^sup>* ?y3 \<lparr>gy_gate = answered_gate X c now b n ?d, gy_world = w, gy_futures = Map.empty,
     gy_log = [(c, now, dc_revoked d, ws)], gy_starts = [now]\<rparr>"
    using do_acts_reach [where y = ?y3 and xs = "[Move 0, Move 0, Move 0, Move 0]" and cancels = cancels
        and A = A and X = X and g = "answered_gate X c now b n ?d"] solo_finishes [where X = X and c = c and now = now and b = b and n = n and d = ?d]
    by simp
  finally show ?thesis by blast
qed

lemma reading_future:
  "only_reads p \<Longrightarrow> (\<lambda>f f'. future_step ref_relation \<sigma> f \<sigma> f')\<^sup>*\<^sup>* p (Done (fst (run ref_server p \<sigma> mem)))"
proof (induction p arbitrary: mem)
  case (Send rq k)
  then have get: "rq_method rq = GET" by simp
  then have same: "snd (ref_server \<sigma> rq) = \<sigma>" by (auto simp: ref_server_def split: option.split)
  from ref_relation_get [OF get, of \<sigma>] have "ref_relation \<sigma> rq (fst (ref_server \<sigma> rq)) \<sigma>" unfolding same .
  with Send same show ?case by (auto intro: converse_rtranclp_into_rtranclp future_step.sent)
next
  case (Locked g k)
  then have "(\<lambda>f f'. future_step ref_relation \<sigma> f \<sigma> f')\<^sup>*\<^sup>* (k mem) (Done (fst (run ref_server (k mem) \<sigma> (g mem))))" by simp
  then show ?case using future_step.local [of ref_relation \<sigma> g k mem] by (simp add: converse_rtranclp_into_rtranclp)
qed simp

text \<open>An authority that always answers at once.\<close>

definition demo_authority :: "(unit, unit) authority" where
  "demo_authority = \<lparr>au_start = (\<lambda>c now. ()), au_poll = (\<lambda>w f w' f'. False), au_ready = (\<lambda>f. Some (Inr not_revoked))\<rparr>"

definition gate_kv :: kv_client where
  "gate_kv = \<lparr>kv_base = ''u'', kv_internal_secret = ''k'', kv_storage_org = ''fiducia-auth''\<rparr>"

section \<open>Properties\<close>

lemma identity_small_key:
  assumes "\<forall>s\<in>set (claims_identity c). length s < 2 ^ 64" "\<forall>s\<in>set (claims_identity c'). length s < 2 ^ 64"
    and "revocation_cache_key X c = revocation_cache_key X c'"
    and "\<not> (identity_text c \<noteq> identity_text c' \<and> sha256 X (identity_text c) = sha256 X (identity_text c'))"
  shows "claims_identity c = claims_identity c'"
  using assms by (auto simp: revocation_cache_key_text intro: identity_text_inject)



text \<open>
  C30. Refreshes of one token never overlap: in every reachable state of the gate, two tasks that
  hold the guard of the same cache key, in particular two tasks that await the authority for
  it, are the same task.
\<close>
theorem refreshes_are_single_flight:
  assumes "(gate_sys_step X cancels A)\<^sup>*\<^sup>* (gate_sys_init b n w) y"
    and "map_of (gt_tasks (gy_gate y)) t = Some tk" and "map_of (gt_tasks (gy_gate y)) t' = Some tk'"
    and "task_guard tk \<noteq> None" and "task_guard tk' \<noteq> None"
    and "revocation_cache_key X (task_claims tk) = revocation_cache_key X (task_claims tk')"
  shows "t = t'"
proof -
  have inv: "lock_inv X (gy_gate y)" by (rule lock_inv_reachable [OF assms(1)])
  obtain l l' where l: "task_guard tk = Some l" "task_guard tk' = Some l'" using assms(4,5) by auto
  have "l = l'"
    using lock_inv_lock [OF inv assms(2), of l] lock_inv_lock [OF inv assms(3), of l'] assms(6)
      task_guard_lock [OF l(1)] task_guard_lock [OF l(2)] by simp
  with lock_inv_guard_eq [OF inv assms(3) _ assms(2)] l show ?thesis by simp
qed

theorem refreshes_are_single_flight_witness:
  "\<exists>y. (gate_sys_step demo True demo_authority)\<^sup>*\<^sup>* (gate_sys_init 30 8 ()) y
     \<and> (\<exists>!t. map_option task_guard (map_of (gt_tasks (gy_gate y)) t) = Some (Some 0))"
proof -
  let ?R = "gate_sys_step demo True demo_authority"
  let ?xs = "[Enter 0 demo_claims 30, Move 0, Move 0, Move 0, Move 0, Move 0, Enter 1 demo_claims 31, Move 1, Move 1]"
  obtain g where g: "do_acts demo ?xs (gate_new (cache_new 30 8)) = Some g"
    and tasks: "gt_tasks g = [(0, Asking demo_claims 30 0), (1, Waiting demo_claims 31 0)]"
    by (simp add: gate_eval)
  let ?y = "\<lparr>gy_gate = g, gy_world = (), gy_futures = Map.empty, gy_log = [], gy_starts = act_starts ?xs []\<rparr> :: (unit, unit) gate_sys"
  have reach: "?R\<^sup>*\<^sup>* (gate_sys_init 30 8 ()) ?y"
    using acts_from_init [OF g, of True demo_authority "()"] by simp
  have asking: "map_of (gt_tasks (gy_gate ?y)) 0 = Some (Asking demo_claims 30 0)" by (simp add: tasks)
  have only: "t = 0" if held: "map_option task_guard (map_of (gt_tasks (gy_gate ?y)) t) = Some (Some 0)" for t
  proof -
    obtain tk where tk: "map_of (gt_tasks (gy_gate ?y)) t = Some tk" "task_guard tk = Some 0"
      using held by (cases "map_of (gt_tasks (gy_gate ?y)) t") simp_all
    then have "task_claims tk = demo_claims" by (simp add: tasks split: if_splits) auto
    then show ?thesis by (intro refreshes_are_single_flight [OF reach tk(1) asking]) (simp_all add: tk(2))
  qed
  have one: "\<exists>!t. map_option task_guard (map_of (gt_tasks (gy_gate ?y)) t) = Some (Some 0)"
  proof (rule ex1I [of _ 0])
    show "map_option task_guard (map_of (gt_tasks (gy_gate ?y)) 0) = Some (Some 0)" by (simp add: tasks)
  qed (rule only)
  show ?thesis by (rule exI [of _ ?y], rule conjI, rule reach, rule one)
qed

text \<open>
  C31. The gate does not deadlock and every request needs a bounded number of steps: in every
  reachable state with an unfinished request some task can move or a timeout can end an
  await, and every step of a task and every end of an await lowers the amount of work left,
  which is at most ten for each request.
\<close>
theorem gate_makes_progress:
  assumes "(gate_sys_step X cancels A)\<^sup>*\<^sup>* (gate_sys_init b n w) y"
  shows "(\<forall>t tk. map_of (gt_tasks (gy_gate y)) t = Some tk \<and> (\<forall>c now a. tk \<noteq> Finished c now a) \<longrightarrow>
      (\<exists>s g'. gate_step X s (gy_gate y) = Some g' \<or> gate_answer s Elapsed (gy_gate y) = Some g'))
    \<and> (\<forall>s g'. gate_step X s (gy_gate y) = Some g' \<longrightarrow> gate_work g' < gate_work (gy_gate y))
    \<and> (\<forall>s rep g'. gate_answer s rep (gy_gate y) = Some g' \<longrightarrow> gate_work g' < gate_work (gy_gate y))
    \<and> gate_work (gy_gate y) \<le> 10 * length (gt_tasks (gy_gate y))"
proof (intro conjI allI impI)
  fix t tk
  assume tk: "map_of (gt_tasks (gy_gate y)) t = Some tk \<and> (\<forall>c now a. tk \<noteq> Finished c now a)"
  then have "task_work tk \<noteq> 0" by (cases tk) simp_all
  with tk unfinished_can_move [OF lock_inv_reachable [OF assms]]
  show "\<exists>s g'. gate_step X s (gy_gate y) = Some g' \<or> gate_answer s Elapsed (gy_gate y) = Some g'"
    by blast
next
  have "task_work tk \<le> 10" for tk by (cases tk) simp_all
  then have "sum_list (map (\<lambda>(t, tk). task_work tk) ts) \<le> 10 * length ts" for ts :: "(nat \<times> task) list"
    by (induction ts) (auto intro: add_mono)
  then show "gate_work (gy_gate y) \<le> 10 * length (gt_tasks (gy_gate y))" by (simp add: gate_work_def)
qed (simp_all add: gate_step_work gate_answer_work)

theorem gate_makes_progress_witness:
  "\<exists>y. (gate_sys_step demo True demo_authority)\<^sup>*\<^sup>* (gate_sys_init 30 8 ()) y
     \<and> gate_work (gy_gate y) = 10
     \<and> (\<exists>s g'. gate_step demo s (gy_gate y) = Some g' \<or> gate_answer s Elapsed (gy_gate y) = Some g')"
proof -
  let ?R = "gate_sys_step demo True demo_authority"
  obtain g where g: "do_acts demo [Enter 0 demo_claims 30] (gate_new (cache_new 30 8)) = Some g"
    and tasks: "gt_tasks g = [(0, Entered demo_claims 30)]"
    by (simp add: gate_eval)
  let ?y = "\<lparr>gy_gate = g, gy_world = (), gy_futures = Map.empty, gy_log = [], gy_starts = [30]\<rparr> :: (unit, unit) gate_sys"
  have reach: "?R\<^sup>*\<^sup>* (gate_sys_init 30 8 ()) ?y"
    using acts_from_init [OF g, of True demo_authority "()"] by simp
  have task: "map_of (gt_tasks (gy_gate ?y)) 0 = Some (Entered demo_claims 30)" by (simp add: tasks)
  have "\<exists>s g'. gate_step demo s (gy_gate ?y) = Some g' \<or> gate_answer s Elapsed (gy_gate ?y) = Some g'"
    using conjunct1 [OF gate_makes_progress [OF reach], rule_format, of 0 "Entered demo_claims 30"] task by simp
  moreover have "gate_work (gy_gate ?y) = 10" by (simp add: gate_work_def tasks)
  ultimately show ?thesis using reach by blast
qed

text \<open>
  The lock map is not bounded by the refreshes in flight: two requests for one token that
  both time out and release their lock before either drops its reference leave the entry of
  their key behind.  The state is reachable without any cancelled request.
\<close>
lemma lock_map_keeps_idle_entries:
  "\<exists>y. (gate_sys_step X False A)\<^sup>*\<^sup>* (gate_sys_init b n w) y
     \<and> gt_tasks (gy_gate y) = [] \<and> gt_key_locks (gy_gate y) \<noteq> []"
proof -
  let ?c = "demo_claims"
  let ?xs = "[Enter 0 ?c 1, Enter 1 ?c 1, Move 0, Move 1, Move 0, Move 1,
    Move 0, Move 0, Move 0, Elapse 0, Move 0, Move 1, Move 1, Move 1, Elapse 1, Move 1,
    Move 0, Move 1, Move 0, Move 1, Forget 0, Forget 1]"
  obtain g where g: "do_acts X ?xs (gate_new (cache_new b n)) = Some g"
    and idle: "gt_tasks g = []" "gt_key_locks g = [(revocation_cache_key X ?c, 0)]"
    by (simp add: gate_eval)
  let ?y = "\<lparr>gy_gate = g, gy_world = w, gy_futures = Map.empty, gy_log = [], gy_starts = act_starts ?xs []\<rparr>"
  have "(gate_sys_step X False A)\<^sup>*\<^sup>* (gate_sys_init b n w) ?y"
    by (rule acts_from_init [OF g])
  with idle show ?thesis by (intro exI [of _ ?y]) simp
qed

text \<open>
  A clock regression is reported although no clock moved back: two requests that enter with
  increasing times may look up in the other order, and the earlier one is then refused.
\<close>
lemma regression_without_clock_rollback:
  "\<exists>y t. (gate_sys_step X False A)\<^sup>*\<^sup>* (gate_sys_init b n w) y
     \<and> sorted (rev (gy_starts y))
     \<and> map_of (gt_tasks (gy_gate y)) t = Some (Finished demo_claims 1 (Unavailable GateClockRegression))"
proof -
  let ?xs = "[Enter 0 demo_claims 1, Enter 1 demo_claims 2, Move 1, Move 0]"
  obtain g where g: "do_acts X ?xs (gate_new (cache_new b n)) = Some g"
    and fin: "map_of (gt_tasks g) 0 = Some (Finished demo_claims 1 (Unavailable GateClockRegression))"
    by (simp add: gate_eval)
  let ?y = "\<lparr>gy_gate = g, gy_world = w, gy_futures = Map.empty, gy_log = [], gy_starts = act_starts ?xs []\<rparr>"
  have "(gate_sys_step X False A)\<^sup>*\<^sup>* (gate_sys_init b n w) ?y"
    by (rule acts_from_init [OF g])
  with fin show ?thesis by (intro exI [of _ ?y] exI [of _ 0]) (simp add: word_le_nat_alt)
qed

end
