(* ===== verification/Refresh_Cache.thy ===== *)
theory Refresh_Cache
  imports Cache
begin

text \<open>
  \<open>revocation_cache.rs\<close>: the verifier cache whose refreshes carry permits.  A refresh begins with
  a numbered permit; an answer is applied only with the permit of the latest refresh of its
  key, and only when the generation of the authority does not go back.  The clock discipline is
  the one of \<open>clock_guard\<close>.  The lemmas follow traces of calls: what an allow rests on, that
  a permit is used at most once, and that generations never decrease.
\<close>

section \<open>Data\<close>

datatype authority_state = NotRevoked | StateRevoked "u64 option"

record authority_decision =
  ad_generation :: u64
  ad_state :: authority_state

record refresh_permit =
  pm_key :: string
  pm_sequence :: u64

datatype deny_reason = Cold | DenyStale | DenyRevoked | RevocationExpiredNeedsRefresh

datatype cache_decision = CacheAllow | CacheDeny deny_reason

text \<open>\<open>RcClockRegression observed high_water\<close> and \<open>GenerationRegression observed cached\<close>.\<close>

datatype revocation_cache_error =
    InvalidFreshness
  | InvalidKey
  | RcClockRegression u64 u64
  | UnknownRefresh
  | SupersededRefresh
  | GenerationRegression u64 u64

fun metric_kind :: "revocation_cache_error \<Rightarrow> string" where
  "metric_kind InvalidFreshness = ''invalid_freshness''"
| "metric_kind InvalidKey = ''invalid_key''"
| "metric_kind (RcClockRegression _ _) = ''clock_regression''"
| "metric_kind UnknownRefresh = ''unknown_refresh''"
| "metric_kind SupersededRefresh = ''superseded_refresh''"
| "metric_kind (GenerationRegression _ _) = ''generation_regression''"

fun cache_error_display :: "revocation_cache_error \<Rightarrow> string" where
  "cache_error_display InvalidFreshness = ''invalid revocation-cache freshness''"
| "cache_error_display InvalidKey = ''invalid revocation-cache key''"
| "cache_error_display (RcClockRegression observed high_water) =
     ''revocation-cache clock regressed: observed='' @ u64_to_string observed
     @ '', high_water='' @ u64_to_string high_water"
| "cache_error_display UnknownRefresh = ''unknown revocation-cache refresh''"
| "cache_error_display SupersededRefresh = ''superseded revocation-cache refresh''"
| "cache_error_display (GenerationRegression observed cached) =
     ''revocation generation regressed: observed='' @ u64_to_string observed
     @ '', cached='' @ u64_to_string cached"

definition cache_key_new :: "string \<Rightarrow> revocation_cache_error + string" where
  "cache_key_new value =
     (if value = [] \<or> 512 < length value \<or> (\<exists>c\<in>set (chars value). is_control c)
      then Inl InvalidKey else Inr value)"

record fresh_entry =
  fe_decision :: authority_decision
  fe_fresh_until :: u64

text \<open>The two hash maps are never iterated and become partial functions.\<close>

record refresh_cache =
  fc_freshness_secs :: u64
  fc_high_water :: "u64 option"
  fc_next_refresh_sequence :: u64
  fc_latest_refresh :: "string \<rightharpoonup> u64"
  fc_entries :: "string \<rightharpoonup> fresh_entry"

section \<open>Operations\<close>

definition fc_new :: "u64 \<Rightarrow> revocation_cache_error + refresh_cache" where
  "fc_new freshness_secs =
     (if freshness_secs = 0 then Inl InvalidFreshness
      else Inr \<lparr>fc_freshness_secs = freshness_secs, fc_high_water = None, fc_next_refresh_sequence = 1,
                fc_latest_refresh = Map.empty, fc_entries = Map.empty\<rparr>)"

definition observe_time :: "refresh_cache \<Rightarrow> u64 \<Rightarrow> revocation_cache_error + refresh_cache" where
  "observe_time c now =
     (case fc_high_water c of
        Some high_water \<Rightarrow>
          if now < high_water then Inl (RcClockRegression now high_water)
          else Inr (c\<lparr>fc_high_water := Some now\<rparr>)
      | None \<Rightarrow> Inr (c\<lparr>fc_high_water := Some now\<rparr>))"

text \<open>Every operation returns its result and the cache afterwards.\<close>

fun entry_decision :: "fresh_entry \<Rightarrow> u64 \<Rightarrow> cache_decision" where
  "entry_decision e now =
     (case ad_state (fe_decision e) of
        StateRevoked (Some expires_at) \<Rightarrow>
          if expires_at \<le> now then CacheDeny RevocationExpiredNeedsRefresh else CacheDeny DenyRevoked
      | StateRevoked None \<Rightarrow> CacheDeny DenyRevoked
      | NotRevoked \<Rightarrow> if now < fe_fresh_until e then CacheAllow else CacheDeny DenyStale)"

definition fc_lookup ::
  "refresh_cache \<Rightarrow> string \<Rightarrow> u64 \<Rightarrow> (revocation_cache_error + cache_decision) \<times> refresh_cache" where
  "fc_lookup c key now =
     (case observe_time c now of
        Inl e \<Rightarrow> (Inl e, c)
      | Inr c' \<Rightarrow>
          (Inr (case fc_entries c' key of None \<Rightarrow> CacheDeny Cold | Some e \<Rightarrow> entry_decision e now), c'))"

definition begin_refresh ::
  "refresh_cache \<Rightarrow> string \<Rightarrow> u64 \<Rightarrow> (revocation_cache_error + refresh_permit) \<times> refresh_cache" where
  "begin_refresh c key now =
     (case observe_time c now of
        Inl e \<Rightarrow> (Inl e, c)
      | Inr c' \<Rightarrow>
          let sequence = fc_next_refresh_sequence c'
          in (Inr \<lparr>pm_key = key, pm_sequence = sequence\<rparr>,
              c'\<lparr>fc_next_refresh_sequence := saturating_add sequence 1,
                 fc_latest_refresh := (fc_latest_refresh c')(key \<mapsto> sequence)\<rparr>))"

definition check_generation :: "fresh_entry option \<Rightarrow> authority_decision \<Rightarrow> revocation_cache_error + unit" where
  "check_generation current d =
     (case current of
        Some e \<Rightarrow>
          if ad_generation d < ad_generation (fe_decision e)
          then Inl (GenerationRegression (ad_generation d) (ad_generation (fe_decision e))) else Inr ()
      | None \<Rightarrow> Inr ())"

definition apply_authoritative ::
  "refresh_cache \<Rightarrow> refresh_permit \<Rightarrow> authority_decision \<Rightarrow> u64 \<Rightarrow> (revocation_cache_error + unit) \<times> refresh_cache" where
  "apply_authoritative c permit d now =
     (case observe_time c now of
        Inl e \<Rightarrow> (Inl e, c)
      | Inr c' \<Rightarrow>
          (case fc_latest_refresh c' (pm_key permit) of
             None \<Rightarrow> (Inl UnknownRefresh, c')
           | Some latest_sequence \<Rightarrow>
               if pm_sequence permit \<noteq> latest_sequence then (Inl SupersededRefresh, c')
               else
                 (case check_generation (fc_entries c' (pm_key permit)) d of
                    Inl e \<Rightarrow> (Inl e, c')
                  | Inr _ \<Rightarrow>
                      (Inr (),
                       c'\<lparr>fc_entries := (fc_entries c')(pm_key permit \<mapsto>
                            \<lparr>fe_decision = d, fe_fresh_until = saturating_add now (fc_freshness_secs c')\<rparr>),
                          fc_latest_refresh := (fc_latest_refresh c')(pm_key permit := None)\<rparr>))))"

definition invalidate ::
  "refresh_cache \<Rightarrow> string \<Rightarrow> u64 \<Rightarrow> (revocation_cache_error + unit) \<times> refresh_cache" where
  "invalidate c key now =
     (case observe_time c now of
        Inl e \<Rightarrow> (Inl e, c)
      | Inr c' \<Rightarrow>
          (Inr (), c'\<lparr>fc_entries := (fc_entries c')(key := None),
                      fc_latest_refresh := (fc_latest_refresh c')(key := None)\<rparr>))"

section \<open>The clock discipline\<close>

fun time_ok :: "revocation_cache_error + 'a \<Rightarrow> bool" where
  "time_ok (Inl (RcClockRegression _ _)) = False"
| "time_ok _ = True"

inductive_set fc_ops :: "(refresh_cache \<Rightarrow> u64 \<Rightarrow> bool \<times> refresh_cache) set" where
  "(\<lambda>c now. (time_ok (fst (fc_lookup c key now)), snd (fc_lookup c key now))) \<in> fc_ops"
| "(\<lambda>c now. (time_ok (fst (begin_refresh c key now)), snd (begin_refresh c key now))) \<in> fc_ops"
| "(\<lambda>c now. (time_ok (fst (apply_authoritative c p d now)), snd (apply_authoritative c p d now))) \<in> fc_ops"
| "(\<lambda>c now. (time_ok (fst (invalidate c key now)), snd (invalidate c key now))) \<in> fc_ops"

lemmas fc_defs = fc_lookup_def begin_refresh_def apply_authoritative_def invalidate_def observe_time_def
  check_generation_def Let_def

interpretation fc_clock: clock_guard fc_high_water fc_ops
proof unfold_locales
  fix f :: "refresh_cache \<Rightarrow> u64 \<Rightarrow> bool \<times> refresh_cache" and c :: refresh_cache and m now
  assume "f \<in> fc_ops"
  then show "fc_high_water c = Some m \<Longrightarrow> now < m \<Longrightarrow> f c now = (False, c)"
    by cases (auto simp: fc_defs)
next
  fix f :: "refresh_cache \<Rightarrow> u64 \<Rightarrow> bool \<times> refresh_cache" and c :: refresh_cache and now
  assume "f \<in> fc_ops" "\<And>m. fc_high_water c = Some m \<Longrightarrow> m \<le> now"
  then show "fst (f c now) \<and> fc_high_water (snd (f c now)) = Some now"
    by cases (auto simp: fc_defs not_less[symmetric] split: option.split)
qed

section \<open>Traces\<close>

datatype fc_call =
    FcLookup string u64
  | FcBegin string u64
  | FcApply refresh_permit authority_decision u64
  | FcInvalidate string u64

fun fc_time :: "fc_call \<Rightarrow> u64" where
  "fc_time (FcLookup key now) = now"
| "fc_time (FcBegin key now) = now"
| "fc_time (FcApply p d now) = now"
| "fc_time (FcInvalidate key now) = now"

fun fc_error :: "'e + 'a \<Rightarrow> 'e option" where
  "fc_error (Inl e) = Some e"
| "fc_error (Inr x) = None"

fun fc_do :: "fc_call \<Rightarrow> refresh_cache \<Rightarrow> revocation_cache_error option \<times> refresh_cache" where
  "fc_do (FcLookup key now) c = (fc_error (fst (fc_lookup c key now)), snd (fc_lookup c key now))"
| "fc_do (FcBegin key now) c = (fc_error (fst (begin_refresh c key now)), snd (begin_refresh c key now))"
| "fc_do (FcApply p d now) c = (fc_error (fst (apply_authoritative c p d now)), snd (apply_authoritative c p d now))"
| "fc_do (FcInvalidate key now) c = (fc_error (fst (invalidate c key now)), snd (invalidate c key now))"

fun fc_run :: "fc_call list \<Rightarrow> refresh_cache \<Rightarrow> refresh_cache" where
  "fc_run [] c = c"
| "fc_run (x # xs) c = fc_run xs (snd (fc_do x c))"

lemma fc_run_append [simp]: "fc_run (xs @ ys) c = fc_run ys (fc_run xs c)"
  by (induction xs arbitrary: c) simp_all

text \<open>The calls that can change the entry of a key.\<close>

fun touches :: "string \<Rightarrow> fc_call \<Rightarrow> bool" where
  "touches k (FcApply p d now) = (pm_key p = k)"
| "touches k (FcInvalidate key now) = (key = k)"
| "touches k _ = False"

lemma fc_do_high_water:
  "fc_high_water (snd (fc_do x c)) = Some (fc_time x) \<or> fc_high_water (snd (fc_do x c)) = fc_high_water c"
  by (cases x) (auto simp: fc_defs split: option.splits)

lemma fc_do_ok_time: "fst (fc_do x c) = None \<Longrightarrow> fc_high_water (snd (fc_do x c)) = Some (fc_time x)"
  by (cases x) (auto simp: fc_defs split: option.splits if_splits)

lemma fc_do_freshness [simp]: "fc_freshness_secs (snd (fc_do x c)) = fc_freshness_secs c"
  by (cases x) (auto simp: fc_defs split: option.splits)

lemma fc_run_freshness [simp]: "fc_freshness_secs (fc_run xs c) = fc_freshness_secs c"
  by (induction xs arbitrary: c) simp_all

lemma fc_do_entries_other:
  "\<not> (touches k x \<and> fst (fc_do x c) = None) \<Longrightarrow> fc_entries (snd (fc_do x c)) k = fc_entries c k"
  by (cases x) (auto simp: fc_defs split: option.splits)

lemma fc_do_entries_hit:
  assumes "touches k x" "fst (fc_do x c) = None"
  shows "fc_entries (snd (fc_do x c)) k = (case x of
     FcApply p d t \<Rightarrow> Some \<lparr>fe_decision = d, fe_fresh_until = saturating_add t (fc_freshness_secs c)\<rparr>
   | _ \<Rightarrow> None)"
  using assms by (cases x) (auto simp: fc_defs split: option.splits if_splits)

text \<open>A trace is a sequence of guarded operations, so the clock laws apply to it.\<close>

fun fc_fun :: "fc_call \<Rightarrow> refresh_cache \<Rightarrow> u64 \<Rightarrow> bool \<times> refresh_cache" where
  "fc_fun (FcLookup key _) = (\<lambda>c now. (time_ok (fst (fc_lookup c key now)), snd (fc_lookup c key now)))"
| "fc_fun (FcBegin key _) = (\<lambda>c now. (time_ok (fst (begin_refresh c key now)), snd (begin_refresh c key now)))"
| "fc_fun (FcApply p d _) =
     (\<lambda>c now. (time_ok (fst (apply_authoritative c p d now)), snd (apply_authoritative c p d now)))"
| "fc_fun (FcInvalidate key _) = (\<lambda>c now. (time_ok (fst (invalidate c key now)), snd (invalidate c key now)))"

lemma fc_fun_ops: "fc_fun x \<in> fc_ops"
  by (cases x) (simp_all add: fc_ops.intros)

lemma fc_run_perform: "fc_run xs c = fc_clock.perform (map (\<lambda>x. (fc_fun x, fc_time x)) xs) c"
proof (induction xs arbitrary: c)
  case (Cons x xs)
  then show ?case by (cases x) simp_all
qed simp

lemma fc_run_mark:
  "fc_high_water c = Some m \<Longrightarrow> \<exists>m'. fc_high_water (fc_run xs c) = Some m' \<and> m \<le> m'"
  unfolding fc_run_perform by (rule fc_clock.mark_grows) (auto simp: fc_fun_ops)

lemma fc_lookup_time: "fst (fc_lookup c k now) = Inr r \<Longrightarrow> fc_high_water c = Some m \<Longrightarrow> m \<le> now"
  by (auto simp: fc_lookup_def observe_time_def split: if_splits)

text \<open>Every entry comes from the last accepted call that touched its key.\<close>

lemma entry_origin:
  assumes "fc_entries (fc_run xs c) k = Some e" "fc_entries c k = None"
  shows "\<exists>pre p d t post. xs = pre @ FcApply p d t # post \<and> pm_key p = k
    \<and> fst (fc_do (FcApply p d t) (fc_run pre c)) = None
    \<and> e = \<lparr>fe_decision = d, fe_fresh_until = saturating_add t (fc_freshness_secs c)\<rparr>
    \<and> (\<forall>ys x zs. post = ys @ x # zs \<longrightarrow> touches k x \<longrightarrow>
         fst (fc_do x (fc_run (pre @ FcApply p d t # ys) c)) \<noteq> None)"
  using assms(1)
proof (induction xs rule: rev_induct)
  case Nil
  then show ?case using assms(2) by simp
next
  case (snoc x xs)
  let ?c = "fc_run xs c"
  show ?case
  proof (cases "touches k x \<and> fst (fc_do x ?c) = None")
    case True
    then have "fc_entries (snd (fc_do x ?c)) k = Some e" using snoc.prems by simp
    with True fc_do_entries_hit [of k x ?c] obtain p d t where "x = FcApply p d t" "pm_key p = k"
      "e = \<lparr>fe_decision = d, fe_fresh_until = saturating_add t (fc_freshness_secs c)\<rparr>"
      by (cases x) auto
    with True show ?thesis by (intro exI [of _ xs] exI [of _ p] exI [of _ d] exI [of _ t] exI [of _ "[]"]) simp
  next
    case False
    then have "fc_entries ?c k = Some e" using snoc.prems fc_do_entries_other [of k x ?c] by simp
    from snoc.IH [OF this] obtain pre p d t post where h: "xs = pre @ FcApply p d t # post" "pm_key p = k"
      "fst (fc_do (FcApply p d t) (fc_run pre c)) = None"
      "e = \<lparr>fe_decision = d, fe_fresh_until = saturating_add t (fc_freshness_secs c)\<rparr>"
      "\<forall>ys x zs. post = ys @ x # zs \<longrightarrow> touches k x \<longrightarrow>
         fst (fc_do x (fc_run (pre @ FcApply p d t # ys) c)) \<noteq> None"
      by blast
    have "fst (fc_do z (fc_run (pre @ FcApply p d t # ys) c)) \<noteq> None"
      if "post @ [x] = ys @ z # zs" "touches k z" for ys z zs
    proof (cases zs rule: rev_cases)
      case Nil
      with that False h(1) show ?thesis by auto
    next
      case (snoc zs' z')
      with that h(5) show ?thesis by simp
    qed
    with h(1-4) show ?thesis
      by (intro exI [of _ pre] exI [of _ p] exI [of _ d] exI [of _ t] exI [of _ "post @ [x]"]) simp
  qed
qed

section \<open>Permits\<close>

text \<open>Permits in use are numbered below the next number, unless the counter is exhausted.\<close>

definition permits_ok :: "refresh_cache \<Rightarrow> bool" where
  "permits_ok c \<longleftrightarrow>
     (\<forall>k s. fc_latest_refresh c k = Some s \<longrightarrow> s < fc_next_refresh_sequence c \<or> fc_next_refresh_sequence c = - 1)"

definition spent :: "refresh_permit \<Rightarrow> refresh_cache \<Rightarrow> bool" where
  "spent p c \<longleftrightarrow> pm_sequence p < fc_next_refresh_sequence c
     \<and> fc_latest_refresh c (pm_key p) \<noteq> Some (pm_sequence p)"

lemma saturating_Suc:
  fixes n :: u64
  shows "n < saturating_add n 1 \<or> saturating_add n 1 = - 1" "n \<le> saturating_add n 1"
    "unat (saturating_add n 1) \<le> Suc (unat n)"
proof -
  have "unat n < 2 ^ 64" using unsigned_less [of n] by simp
  then show "n < saturating_add n 1 \<or> saturating_add n 1 = - 1" "n \<le> saturating_add n 1"
    "unat (saturating_add n 1) \<le> Suc (unat n)"
    by (auto simp: word_less_nat_alt word_le_nat_alt unat_saturating_add min_def word_unat_eq_iff
        unsigned_minus_1_eq_mask mask_eq_exp_minus_1)
qed

lemma permits_ok_begin:
  assumes "permits_ok c" "fc_next_refresh_sequence c' = saturating_add (fc_next_refresh_sequence c) 1"
    and "fc_latest_refresh c' = (fc_latest_refresh c)(key \<mapsto> fc_next_refresh_sequence c)"
  shows "permits_ok c'"
  unfolding permits_ok_def
proof (intro allI impI)
  fix k s assume k: "fc_latest_refresh c' k = Some s"
  let ?n = "fc_next_refresh_sequence c"
  have "s \<le> ?n \<or> ?n = - 1"
    using k assms(1,3) by (cases "k = key") (auto simp: permits_ok_def less_imp_le)
  moreover have "?n = - 1 \<Longrightarrow> saturating_add ?n 1 = - 1" by (simp add: saturating_add_def unsigned_minus_1_eq_mask mask_eq_exp_minus_1)
  ultimately show "s < fc_next_refresh_sequence c' \<or> fc_next_refresh_sequence c' = - 1"
    using saturating_Suc(1) [of ?n] unfolding assms(2) by (meson le_less_trans)
qed

lemma permits_ok_do:
  assumes "permits_ok c"
  shows "permits_ok (snd (fc_do x c))"
proof (cases x)
  case (FcBegin key now)
  show ?thesis
  proof (cases "observe_time c now")
    case (Inl e)
    with FcBegin assms show ?thesis by (simp add: begin_refresh_def)
  next
    case (Inr c1)
    then have "c1 = c\<lparr>fc_high_water := Some now\<rparr>" by (auto simp: observe_time_def split: option.splits if_splits)
    with FcBegin Inr show ?thesis
      by (intro permits_ok_begin [OF assms, of _ key]) (simp_all add: begin_refresh_def Let_def)
  qed
qed (use assms in \<open>auto simp: permits_ok_def fc_defs split: option.splits if_splits\<close>)

lemma permits_ok_run: "permits_ok c \<Longrightarrow> permits_ok (fc_run xs c)"
  by (induction xs arbitrary: c) (simp_all add: permits_ok_do)

lemma spent_do: "spent p c \<Longrightarrow> spent p (snd (fc_do x c))"
  using saturating_Suc(2) [of "fc_next_refresh_sequence c"]
  by (cases x) (auto simp: spent_def fc_defs split: option.splits intro: less_le_trans)

lemma spent_run: "spent p c \<Longrightarrow> spent p (fc_run xs c)"
  by (induction xs arbitrary: c) (simp_all add: spent_do)

lemma fc_run_sequence: "unat (fc_next_refresh_sequence (fc_run xs c)) \<le> unat (fc_next_refresh_sequence c) + length xs"
proof (induction xs arbitrary: c)
  case (Cons x xs)
  have "unat (fc_next_refresh_sequence (snd (fc_do x c))) \<le> Suc (unat (fc_next_refresh_sequence c))"
    using saturating_Suc(3) [of "fc_next_refresh_sequence c"]
    by (cases x) (auto simp: fc_defs split: option.splits)
  with Cons.IH [of "snd (fc_do x c)"] show ?case by simp
qed simp

lemma apply_spends:
  assumes "permits_ok c" "fc_next_refresh_sequence c \<noteq> - 1" "fst (fc_do (FcApply p d t) c) = None"
  shows "spent p (snd (fc_do (FcApply p d t) c))"
  using assms by (auto simp: spent_def permits_ok_def fc_defs split: option.splits if_splits)

lemma spent_rejected: "spent p c \<Longrightarrow> fst (fc_do (FcApply p d t) c) \<noteq> None"
  by (auto simp: spent_def fc_defs split: option.splits)

section \<open>Properties\<close>

definition fc_init :: "u64 \<Rightarrow> refresh_cache" where
  "fc_init f = \<lparr>fc_freshness_secs = f, fc_high_water = None, fc_next_refresh_sequence = 1,
                fc_latest_refresh = Map.empty, fc_entries = Map.empty\<rparr>"

lemma fc_new_init [simp]: "fc_new f = Inr c \<longleftrightarrow> f \<noteq> 0 \<and> c = fc_init f"
  by (auto simp: fc_new_def fc_init_def)

lemma fc_init_sel [simp]: "fc_entries (fc_init f) k = None" "fc_freshness_secs (fc_init f) = f"
  "fc_next_refresh_sequence (fc_init f) = 1" "permits_ok (fc_init f)"
  by (simp_all add: fc_init_def permits_ok_def)

text \<open>
  C40. An allow of the refresh cache rests on the last word of the authority: when, after any
  sequence of calls on a new cache, a lookup at some time allows a key, the sequence holds an accepted
  application of a not-revoked decision to that key, made no later than that time and less than
  the freshness period before it, and no later accepted call replaced or removed the entry.
\<close>
theorem allow_rests_on_latest_answer:
  assumes "fc_new f = Inr c" and "fst (fc_lookup (fc_run calls c) k now) = Inr CacheAllow"
  shows "\<exists>pre p d t post. calls = pre @ FcApply p d t # post \<and> pm_key p = k \<and> ad_state d = NotRevoked
    \<and> fst (fc_do (FcApply p d t) (fc_run pre c)) = None
    \<and> t \<le> now \<and> unat now < unat t + unat f
    \<and> (\<forall>ys x zs. post = ys @ x # zs \<longrightarrow> touches k x \<longrightarrow>
         fst (fc_do x (fc_run (pre @ FcApply p d t # ys) c)) \<noteq> None)"
proof -
  obtain e where e: "fc_entries (fc_run calls c) k = Some e" "entry_decision e now = CacheAllow"
    using assms(2) by (auto simp: fc_lookup_def observe_time_def split: option.splits if_splits)
  from entry_origin [OF e(1)] assms(1) obtain pre p d t post where
    h: "calls = pre @ FcApply p d t # post" "pm_key p = k" "fst (fc_do (FcApply p d t) (fc_run pre c)) = None"
      "e = \<lparr>fe_decision = d, fe_fresh_until = saturating_add t f\<rparr>"
      "\<forall>ys x zs. post = ys @ x # zs \<longrightarrow> touches k x \<longrightarrow>
         fst (fc_do x (fc_run (pre @ FcApply p d t # ys) c)) \<noteq> None"
    by auto
  have state: "ad_state d = NotRevoked" and fresh: "now < saturating_add t f"
    using e(2) h(4) by (auto split: authority_state.splits option.splits if_splits)
  obtain m where m: "fc_high_water (fc_run calls c) = Some m" "t \<le> m"
    using fc_run_mark [of "snd (fc_do (FcApply p d t) (fc_run pre c))" t post] fc_do_ok_time [OF h(3)] h(1) by auto
  have "t \<le> now" using m(2) fc_lookup_time [OF assms(2) m(1)] by (rule order_trans)
  moreover have "unat now < unat t + unat f"
    using fresh by (auto simp: word_less_nat_alt unat_saturating_add)
  ultimately show ?thesis using h state by blast
qed

definition demo_trace :: "fc_call list" where
  "demo_trace = [FcBegin ''k'' 5, FcApply \<lparr>pm_key = ''k'', pm_sequence = 1\<rparr> \<lparr>ad_generation = 1, ad_state = NotRevoked\<rparr> 6]"

lemma demo_trace_eval:
  "fst (fc_lookup (fc_run demo_trace (fc_init 30)) ''k'' 35) = Inr CacheAllow"
  "fst (fc_do (FcApply \<lparr>pm_key = ''k'', pm_sequence = 1\<rparr> \<lparr>ad_generation = 1, ad_state = NotRevoked\<rparr> 6)
     (fc_run [FcBegin ''k'' 5] (fc_init 30))) = None"
  by (simp_all add: demo_trace_def fc_init_def fc_defs saturating_add_def)

theorem allow_rests_on_latest_answer_witness:
  "fst (fc_lookup (fc_run demo_trace (fc_init 30)) ''k'' 35) = Inr CacheAllow
    \<and> (\<exists>p d t. FcApply p d t \<in> set demo_trace \<and> ad_state d = NotRevoked \<and> unat (35 :: u64) < unat t + 30)"
proof -
  have new: "fc_new 30 = Inr (fc_init 30)" by simp
  from allow_rests_on_latest_answer [OF new demo_trace_eval(1)] obtain pre p d t post where
    trace: "demo_trace = pre @ FcApply p d t # post" and d: "ad_state d = NotRevoked"
      "unat (35 :: u64) < unat t + unat (30 :: u64)"
    by blast
  have "FcApply p d t \<in> set demo_trace" unfolding trace by simp
  with demo_trace_eval(1) d show ?thesis by auto
qed

text \<open>
  A refresh permit is good for one answer: once an answer was applied with a permit, every
  later application with the same permit, after any further calls, is refused, as long as
  fewer than 2^64 - 2 calls were made before.
\<close>
lemma permit_applies_once:
  assumes "fc_new f = Inr c" and "length pre < 2 ^ 64 - 2"
    and "fst (fc_do (FcApply p d t) (fc_run pre c)) = None"
  shows "fst (fc_do (FcApply p d' t') (fc_run (pre @ FcApply p d t # post) c)) \<noteq> None"
proof -
  have "unat (fc_next_refresh_sequence (fc_run pre c)) \<le> 1 + length pre"
    using fc_run_sequence [of pre c] assms(1) by simp
  with assms(2) have "fc_next_refresh_sequence (fc_run pre c) \<noteq> - 1"
    by (auto simp: unsigned_minus_1_eq_mask mask_eq_exp_minus_1)
  moreover have "permits_ok (fc_run pre c)" using assms(1) by (simp add: permits_ok_run)
  ultimately have "spent p (snd (fc_do (FcApply p d t) (fc_run pre c)))"
    using apply_spends assms(3) by blast
  from spent_rejected [OF spent_run [OF this]] show ?thesis by simp
qed

text \<open>
  The cached generation of a target never goes back: from any state, a sequence of calls
  that does not invalidate the key keeps its entry and never lowers the entry's generation.
\<close>
lemma generation_never_regresses:
  assumes "fc_entries c k = Some e" and "\<forall>x\<in>set calls. \<forall>now. x \<noteq> FcInvalidate k now"
  shows "\<exists>e'. fc_entries (fc_run calls c) k = Some e'
    \<and> ad_generation (fe_decision e) \<le> ad_generation (fe_decision e')"
  using assms
proof (induction calls arbitrary: c e)
  case (Cons x xs)
  have "\<exists>e'. fc_entries (snd (fc_do x c)) k = Some e'
      \<and> ad_generation (fe_decision e) \<le> ad_generation (fe_decision e')"
    using Cons.prems by (cases x) (auto simp: fc_defs not_less split: option.splits if_splits)
  then obtain e1 where e1: "fc_entries (snd (fc_do x c)) k = Some e1"
    "ad_generation (fe_decision e) \<le> ad_generation (fe_decision e1)" by blast
  from Cons.IH [OF e1(1)] Cons.prems(2) e1(2) show ?case by (auto intro: order_trans)
qed simp

theorem generation_never_regresses_witness:
  "\<exists>e'. fc_entries (fc_run [FcBegin ''k'' 7] (fc_run demo_trace (fc_init 30))) ''k'' = Some e'
    \<and> 1 \<le> ad_generation (fe_decision e')"
proof -
  have "fc_entries (fc_run demo_trace (fc_init 30)) ''k'' =
      Some \<lparr>fe_decision = \<lparr>ad_generation = 1, ad_state = NotRevoked\<rparr>, fe_fresh_until = 36\<rparr>"
    by (simp add: demo_trace_def fc_init_def fc_defs saturating_add_def)
  from generation_never_regresses [OF this, of "[FcBegin ''k'' 7]"] show ?thesis by simp
qed

text \<open>
  What applying an answer does, on every branch: it is accepted exactly when the time is not
  below the mark, the permit is the one of the latest open refresh of its key, and the generation
  is not below the cached one; when it is refused, entries and open refreshes are unchanged.
\<close>
lemma apply_authoritative_iff:
  "(fst (apply_authoritative c p d now) = Inr () \<longleftrightarrow>
      (\<forall>m. fc_high_water c = Some m \<longrightarrow> m \<le> now) \<and> fc_latest_refresh c (pm_key p) = Some (pm_sequence p)
      \<and> (\<forall>e. fc_entries c (pm_key p) = Some e \<longrightarrow> ad_generation (fe_decision e) \<le> ad_generation d))
   \<and> (fst (apply_authoritative c p d now) \<noteq> Inr () \<longrightarrow>
      fc_entries (snd (apply_authoritative c p d now)) = fc_entries c
      \<and> fc_latest_refresh (snd (apply_authoritative c p d now)) = fc_latest_refresh c)"
  by (auto simp: fc_defs not_less split: option.splits if_splits)

end
