(* ===== verification/Upstream.thy ===== *)
theory Upstream
  imports Effects
begin

text \<open>
  Handlers of one process that talk to services outside the repository.  Every exchange enters a
  ghost log; the locale \<open>logged_service\<close> states what the components rely on: the state they
  share stays sound with respect to the log, whatever the services answer and however the
  handlers interleave, so the result of a handler can be traced back to answers that were
  really received.
\<close>

section \<open>The interleaved system\<close>

type_synonym exchange_log = "(kv_request \<times> kv_response) set"

record ('c, 'a) net =
  nt_log :: exchange_log
  nt_local :: 'c
  nt_threads :: "nat \<rightharpoonup> ('c, 'a) eff"

definition net_init :: "'c \<Rightarrow> ('c, 'a) net" where
  "net_init c = \<lparr>nt_log = {}, nt_local = c, nt_threads = Map.empty\<rparr>"

text \<open>
  \<open>evolves\<close> is what the state does on its own, such as the passing of time.  A service may give
  any answer to any request.
\<close>

inductive net_step ::
  "('c \<Rightarrow> 'c \<Rightarrow> bool) \<Rightarrow> ('c, 'a) eff set \<Rightarrow> ('c, 'a) net \<Rightarrow> ('c, 'a) net \<Rightarrow> bool"
  for evolves :: "'c \<Rightarrow> 'c \<Rightarrow> bool" and Ops :: "('c, 'a) eff set" where
  spawn: "p \<in> Ops \<Longrightarrow> nt_threads s t = None \<Longrightarrow>
     net_step evolves Ops s (s\<lparr>nt_threads := (nt_threads s)(t \<mapsto> p)\<rparr>)"
| answer: "nt_threads s t = Some (Send rq k) \<Longrightarrow>
     net_step evolves Ops s (s\<lparr>nt_log := insert (rq, r) (nt_log s), nt_threads := (nt_threads s)(t \<mapsto> k r)\<rparr>)"
| critical: "nt_threads s t = Some (Locked g k) \<Longrightarrow>
     net_step evolves Ops s
       (s\<lparr>nt_local := g (nt_local s), nt_threads := (nt_threads s)(t \<mapsto> k (nt_local s))\<rparr>)"
| cancel: "net_step evolves Ops s (s\<lparr>nt_threads := (nt_threads s)(t := None)\<rparr>)"
| evolve: "evolves (nt_local s) c \<Longrightarrow> net_step evolves Ops s (s\<lparr>nt_local := c\<rparr>)"

section \<open>Results traced to the log\<close>

text \<open>
  \<open>lwp sound L Q p\<close>: started when the log is at least \<open>L\<close>, the handler \<open>p\<close> keeps the shared state
  sound and ends with a result that \<open>Q\<close> relates to the log at that moment.
\<close>

primrec lwp ::
  "(exchange_log \<Rightarrow> 'c \<Rightarrow> bool) \<Rightarrow> (exchange_log \<Rightarrow> 'a \<Rightarrow> bool) \<Rightarrow> ('c, 'a) eff \<Rightarrow> exchange_log \<Rightarrow> bool" where
  "lwp sound Q (Done x) = (\<lambda>L. Q L x)"
| "lwp sound Q (Send rq k) = (\<lambda>L. \<forall>L' r. L \<subseteq> L' \<longrightarrow> lwp sound Q (k r) (insert (rq, r) L'))"
| "lwp sound Q (Locked g k) =
     (\<lambda>L. \<forall>L' c. L \<subseteq> L' \<longrightarrow> sound L' c \<longrightarrow> sound L' (g c) \<and> lwp sound Q (k c) L')"

definition stable :: "(exchange_log \<Rightarrow> 'a \<Rightarrow> bool) \<Rightarrow> bool" where
  "stable Q \<longleftrightarrow> (\<forall>L L' x. L \<subseteq> L' \<longrightarrow> Q L x \<longrightarrow> Q L' x)"

lemma stableD: "stable Q \<Longrightarrow> Q L x \<Longrightarrow> L \<subseteq> L' \<Longrightarrow> Q L' x"
  by (auto simp: stable_def)

lemma lwp_mono:
  assumes "stable Q" "lwp sound Q p L" "L \<subseteq> L'"
  shows "lwp sound Q p L'"
  using assms(2,3)
proof (cases p)
  case (Done x)
  with assms stableD [OF assms(1)] show ?thesis by simp
qed (auto dest: subset_trans)

lemma lwp_conseq:
  assumes "lwp sound Q p L" "\<And>L' x. L \<subseteq> L' \<Longrightarrow> Q L' x \<Longrightarrow> R L' x"
  shows "lwp sound R p L"
  using assms
proof (induction p arbitrary: L)
  case (Send rq k)
  show ?case
    unfolding lwp.simps
  proof (intro allI impI)
    fix L' r assume "L \<subseteq> L'"
    with Send show "lwp sound R (k r) (insert (rq, r) L')"
      by (intro Send.IH) (auto dest: subset_insertI2)
  qed
next
  case (Locked g k)
  show ?case
    unfolding lwp.simps
  proof (intro allI impI conjI)
    fix L' c assume "L \<subseteq> L'" "sound L' c"
    then show "sound L' (g c)" "lwp sound R (k c) L'"
      using Locked by (auto intro!: Locked.IH dest: subset_trans)
  qed
qed auto

lemma lwp_bind:
  assumes "lwp sound Q m L" "\<And>L' x. L \<subseteq> L' \<Longrightarrow> Q L' x \<Longrightarrow> lwp sound R (f x) L'"
  shows "lwp sound R (eff_bind m f) L"
  using assms
proof (induction m arbitrary: L)
  case (Send rq k)
  show ?case
    unfolding lwp.simps eff_bind.simps
  proof (intro allI impI)
    fix L' r assume "L \<subseteq> L'"
    with Send show "lwp sound R (eff_bind (k r) f) (insert (rq, r) L')"
      by (intro Send.IH) (auto dest: subset_insertI2)
  qed
next
  case (Locked g k)
  show ?case
    unfolding lwp.simps eff_bind.simps
  proof (intro allI impI conjI)
    fix L' c assume "L \<subseteq> L'" "sound L' c"
    then show "sound L' (g c)" "lwp sound R (eff_bind (k c) f) L'"
      using Locked by (auto intro!: Locked.IH dest: subset_trans)
  qed
qed auto

text \<open>Conditions on successful results only.\<close>

fun on_ok :: "(exchange_log \<Rightarrow> 'a \<Rightarrow> bool) \<Rightarrow> exchange_log \<Rightarrow> 'e + 'a \<Rightarrow> bool" where
  "on_ok P L (Inl e) = True"
| "on_ok P L (Inr x) = P L x"

lemma on_ok_mono: "on_ok P L r \<Longrightarrow> (\<And>x. r = Inr x \<Longrightarrow> P L x \<Longrightarrow> Q L x) \<Longrightarrow> on_ok Q L r"
  by (cases r) auto

lemma lwp_try:
  assumes "lwp sound (on_ok Q) m L" "\<And>L' x. L \<subseteq> L' \<Longrightarrow> Q L' x \<Longrightarrow> lwp sound (on_ok R) (f x) L'"
  shows "lwp sound (on_ok R) (eff_try m f) L"
  unfolding eff_try_def
  by (rule lwp_bind [OF assms(1)]) (auto split: sum.splits intro: assms(2))

section \<open>The contract\<close>

text \<open>
  \<open>good L x\<close>: the exchanges of \<open>L\<close> justify the result \<open>x\<close>.
\<close>

locale logged_service =
  fixes sound :: "exchange_log \<Rightarrow> 'c \<Rightarrow> bool"
    and evolves :: "'c \<Rightarrow> 'c \<Rightarrow> bool"
    and Ops :: "('c, 'a) eff set"
    and good :: "exchange_log \<Rightarrow> 'a \<Rightarrow> bool"
  assumes sound_mono: "sound L c \<Longrightarrow> L \<subseteq> L' \<Longrightarrow> sound L' c"
    and sound_evolves: "sound L c \<Longrightarrow> evolves c c' \<Longrightarrow> sound L c'"
    and good_stable: "stable good"
    and ops_good: "p \<in> Ops \<Longrightarrow> lwp sound good p {}"
begin

definition net_inv :: "('c, 'a) net \<Rightarrow> bool" where
  "net_inv s \<longleftrightarrow> sound (nt_log s) (nt_local s)
     \<and> (\<forall>t p. nt_threads s t = Some p \<longrightarrow> lwp sound good p (nt_log s))"

lemma net_inv_thread: "net_inv s \<Longrightarrow> nt_threads s t = Some p \<Longrightarrow> lwp sound good p (nt_log s)"
  unfolding net_inv_def by blast

lemma net_inv_threads:
  assumes "net_inv s" "sound L c" "nt_log s \<subseteq> L" "lwp sound good p L"
  shows "net_inv \<lparr>nt_log = L, nt_local = c, nt_threads = (nt_threads s)(t \<mapsto> p)\<rparr>"
  unfolding net_inv_def
proof (intro conjI allI impI)
  show "sound (nt_log \<lparr>nt_log = L, nt_local = c, nt_threads = (nt_threads s)(t \<mapsto> p)\<rparr>)
      (nt_local \<lparr>nt_log = L, nt_local = c, nt_threads = (nt_threads s)(t \<mapsto> p)\<rparr>)"
    using assms(2) by simp
  fix t' p'
  assume "nt_threads \<lparr>nt_log = L, nt_local = c, nt_threads = (nt_threads s)(t \<mapsto> p)\<rparr> t' = Some p'"
  then have "p' = p \<or> nt_threads s t' = Some p'" by (auto split: if_splits)
  then have "lwp sound good p' L"
    using assms(4) lwp_mono [OF good_stable net_inv_thread [OF assms(1)] assms(3)] by blast
  then show "lwp sound good p' (nt_log \<lparr>nt_log = L, nt_local = c, nt_threads = (nt_threads s)(t \<mapsto> p)\<rparr>)"
    by simp
qed

lemma net_inv_step:
  assumes "net_step evolves Ops s s'" "net_inv s"
  shows "net_inv s'"
  using assms
proof (induction rule: net_step.induct)
  case (spawn p s t)
  have "lwp sound good p (nt_log s)"
    using lwp_mono [OF good_stable ops_good [OF spawn(1)]] by simp
  with spawn(3) show ?case by (simp add: net_inv_def)
next
  case (answer s t rq k r)
  let ?L = "insert (rq, r) (nt_log s)"
  have "lwp sound good (Send rq k) (nt_log s)" by (rule net_inv_thread [OF answer(2,1)])
  then have "lwp sound good (k r) ?L" by simp
  moreover have "sound ?L (nt_local s)"
    using answer(2) sound_mono [of "nt_log s" "nt_local s" ?L] by (auto simp: net_inv_def)
  moreover have "nt_log s \<subseteq> ?L" by auto
  ultimately show ?case using net_inv_threads [OF answer(2), of ?L "nt_local s" "k r" t] by (cases s) simp
next
  case (critical s t g k)
  have "lwp sound good (Locked g k) (nt_log s)" by (rule net_inv_thread [OF critical(2,1)])
  moreover have "sound (nt_log s) (nt_local s)" using critical by (simp add: net_inv_def)
  ultimately have "sound (nt_log s) (g (nt_local s))" "lwp sound good (k (nt_local s)) (nt_log s)" by auto
  then show ?case using net_inv_threads [OF critical(2), of "nt_log s" "g (nt_local s)" "k (nt_local s)" t]
    by (cases s) simp
next
  case (cancel s t)
  then show ?case by (auto simp: net_inv_def)
next
  case (evolve s c)
  then show ?case using sound_evolves by (auto simp: net_inv_def)
qed

lemma net_inv_from:
  assumes "(net_step evolves Ops)\<^sup>*\<^sup>* s0 s" "net_inv s0"
  shows "net_inv s"
  using assms by (induction) (auto intro: net_inv_step)

lemma net_inv_reachable:
  assumes "(net_step evolves Ops)\<^sup>*\<^sup>* (net_init c) s" "sound {} c"
  shows "net_inv s"
  by (rule net_inv_from [OF assms(1)]) (simp add: net_inv_def net_init_def assms(2))

lemma result_good:
  assumes "(net_step evolves Ops)\<^sup>*\<^sup>* (net_init c) s" "sound {} c" "nt_threads s t = Some (Done x)"
  shows "good (nt_log s) x"
  using net_inv_thread [OF net_inv_reachable [OF assms(1,2)] assms(3)] by simp

lemma local_sound:
  assumes "(net_step evolves Ops)\<^sup>*\<^sup>* (net_init c) s" "sound {} c"
  shows "sound (nt_log s) (nt_local s)"
  using net_inv_reachable [OF assms] by (simp add: net_inv_def)

end

section \<open>One handler alone\<close>

text \<open>Running a handler against fixed answers is one of the interleavings.\<close>

lemma reach_first: "R s s1 \<Longrightarrow> \<exists>s'. R\<^sup>*\<^sup>* s1 s' \<and> P s' \<Longrightarrow> \<exists>s'. R\<^sup>*\<^sup>* s s' \<and> P s'"
  by (auto intro: converse_rtranclp_into_rtranclp)

lemma net_run_reaches:
  assumes "run (\<lambda>u rq. (srv rq, u)) p () (nt_local s) = (x, (), c')" "nt_threads s t = Some p"
  shows "\<exists>s'. (net_step evolves Ops)\<^sup>*\<^sup>* s s' \<and> nt_threads s' t = Some (Done x) \<and> nt_local s' = c'"
  using assms
proof (induction p arbitrary: s)
  case (Done y)
  then show ?case by auto
next
  case (Send rq k)
  let ?s = "s\<lparr>nt_log := insert (rq, srv rq) (nt_log s), nt_threads := (nt_threads s)(t \<mapsto> k (srv rq))\<rparr>"
  have "net_step evolves Ops s ?s" by (rule net_step.answer) (rule Send.prems(2))
  moreover have "\<exists>s'. (net_step evolves Ops)\<^sup>*\<^sup>* ?s s' \<and> nt_threads s' t = Some (Done x) \<and> nt_local s' = c'"
    by (rule Send.IH [of "k (srv rq)" ?s]) (use Send.prems(1) in simp_all)
  ultimately show ?case by (rule reach_first)
next
  case (Locked g k)
  let ?s = "s\<lparr>nt_local := g (nt_local s), nt_threads := (nt_threads s)(t \<mapsto> k (nt_local s))\<rparr>"
  have "net_step evolves Ops s ?s" by (rule net_step.critical) (rule Locked.prems(2))
  moreover have "\<exists>s'. (net_step evolves Ops)\<^sup>*\<^sup>* ?s s' \<and> nt_threads s' t = Some (Done x) \<and> nt_local s' = c'"
    by (rule Locked.IH [of "k (nt_local s)" ?s]) (use Locked.prems(1) in simp_all)
  ultimately show ?case by (rule reach_first)
qed

lemma net_run_from_init:
  assumes "run (\<lambda>u rq. (srv rq, u)) p () c = (x, (), c')" "p \<in> Ops"
  shows "\<exists>s. (net_step evolves Ops)\<^sup>*\<^sup>* (net_init c) s \<and> nt_threads s 0 = Some (Done x)"
proof -
  let ?s = "(net_init c)\<lparr>nt_threads := (nt_threads (net_init c))(0 \<mapsto> p)\<rparr>"
  have "net_step evolves Ops (net_init c) ?s"
    by (rule net_step.spawn [OF assms(2)]) (simp add: net_init_def)
  moreover have "\<exists>s. (net_step evolves Ops)\<^sup>*\<^sup>* ?s s \<and> nt_threads s 0 = Some (Done x) \<and> nt_local s = c'"
    by (rule net_run_reaches [where srv = srv and p = p]) (use assms(1) in \<open>simp_all add: net_init_def\<close>)
  ultimately show ?thesis by (meson converse_rtranclp_into_rtranclp)
qed

end
