(* ===== verification/Composition.thy ===== *)
theory Composition
  imports Protocol Upstream
begin

text \<open>
  How the handlers of one process are put together.  \<open>focus\<close> runs a component on its part of the
  process state; \<open>state_part\<close> is the contract of such a part.  \<open>swp\<close> speaks about a
  handler under arbitrary answers and arbitrary local state: which requests it may send and
  which results it may return.  \<open>follows\<close> is the same view as a trace of exchanges.
\<close>

section \<open>Parts of the process state\<close>

primrec focus :: "('d \<Rightarrow> 'c) \<Rightarrow> ('c \<Rightarrow> 'd \<Rightarrow> 'd) \<Rightarrow> ('c, 'a) eff \<Rightarrow> ('d, 'a) eff" where
  "focus view put (Done x) = Done x"
| "focus view put (Send rq k) = Send rq (\<lambda>r. focus view put (k r))"
| "focus view put (Locked g k) = Locked (\<lambda>d. put (g (view d)) d) (\<lambda>d. focus view put (k (view d)))"

text \<open>\<open>match m { Ok(x) => f(x), Err(e) => return e }\<close>.\<close>

definition or_return :: "('c, 'e + 'a) eff \<Rightarrow> ('a \<Rightarrow> ('c, 'e) eff) \<Rightarrow> ('c, 'e) eff" where
  "or_return m f = eff_bind m (\<lambda>r. case r of Inl e \<Rightarrow> Done e | Inr x \<Rightarrow> f x)"

locale state_part =
  fixes view :: "'d \<Rightarrow> 'c"
    and put :: "'c \<Rightarrow> 'd \<Rightarrow> 'd"
  assumes view_put: "view (put c d) = c"
    and put_view: "put (view d) d = d"
    and put_put: "put c (put c' d) = put c d"
begin

lemma run_focus:
  "run srv (focus view put p) s d =
     (case run srv p s (view d) of (x, s', c) \<Rightarrow> (x, s', put c d))"
  by (induction p arbitrary: s d) (auto simp: view_put put_view put_put split: prod.splits)

end

lemma or_return_Done [simp]:
  "or_return (Done (Inl e)) f = Done e" "or_return (Done (Inr x)) f = f x"
  by (simp_all add: or_return_def)

lemma run_or_return [eff_simps]:
  "run srv (or_return m f) s c =
     (case run srv m s c of (r, s', c') \<Rightarrow>
        (case r of Inl e \<Rightarrow> (e, s', c') | Inr x \<Rightarrow> run srv (f x) s' c'))"
  by (auto simp: or_return_def run_bind split: prod.splits sum.splits)

section \<open>The calculi see through the composition\<close>

lemma gwp_focus:
  "gwp X ini upd p Q H \<Longrightarrow> gwp X ini upd (focus view put p) Q H"
proof (induction p arbitrary: H)
  case (Send rq k)
  then show ?case by (cases "rq_method rq") auto
qed auto

lemma rwp_focus: "rwp server I Q p \<Longrightarrow> rwp server I Q (focus view put p)"
  by (induction p) auto

lemma only_reads_focus: "only_reads p \<Longrightarrow> only_reads (focus view put p)"
  by (induction p) auto

lemma only_reads_or_return:
  "only_reads m \<Longrightarrow> (\<And>x. only_reads (f x)) \<Longrightarrow> only_reads (or_return m f)"
  unfolding or_return_def by (rule only_reads_bind) (auto split: sum.split)

lemma gwp_only_reads:
  assumes "only_reads p" "\<And>x H'. Q x H'"
  shows "gwp X ini upd p Q H"
  using assms(1)
proof (induction p arbitrary: H)
  case (Send rq k)
  then show ?case by auto
qed (auto simp: assms(2))

lemma guarded_bind:
  assumes "guarded X ini upd m H" "\<And>x H'. guarded X ini upd (f x) H'"
  shows "guarded X ini upd (eff_bind m f) H"
  unfolding gwp_bind using assms by (rule gwp_mono)

lemma guarded_or_return:
  assumes "guarded X ini upd m H" "\<And>x H'. guarded X ini upd (f x) H'"
  shows "guarded X ini upd (or_return m f) H"
  unfolding or_return_def using assms by (intro guarded_bind) (auto split: sum.split)

lemma rwp_or_return:
  assumes "rwp server I (\<lambda>r. case r of Inl e \<Rightarrow> Q e | Inr x \<Rightarrow> rwp server I Q (f x)) m"
  shows "rwp server I Q (or_return m f)"
  unfolding or_return_def rwp_bind using assms by (rule rwp_mono) (auto split: sum.splits)

lemma rwp_conj: "rwp server I Q p \<Longrightarrow> rwp server I R p \<Longrightarrow> rwp server I (\<lambda>x. Q x \<and> R x) p"
  by (induction p) auto

section \<open>Requests and results of one handler\<close>

text \<open>
  \<open>swp P Q p\<close>: whatever the services answer and whatever the local state holds, every request of
  \<open>p\<close> satisfies \<open>P\<close> and its result satisfies \<open>Q\<close>.
\<close>

primrec swp :: "(kv_request \<Rightarrow> bool) \<Rightarrow> ('a \<Rightarrow> bool) \<Rightarrow> ('c, 'a) eff \<Rightarrow> bool" where
  "swp P Q (Done x) = Q x"
| "swp P Q (Send rq k) = (P rq \<and> (\<forall>r. swp P Q (k r)))"
| "swp P Q (Locked g k) = (\<forall>c. swp P Q (k c))"

lemma swp_bind: "swp P Q (eff_bind m f) = swp P (\<lambda>x. swp P Q (f x)) m"
  by (induction m) auto

lemma swp_mono: "swp P Q p \<Longrightarrow> (\<And>rq. P rq \<Longrightarrow> P' rq) \<Longrightarrow> (\<And>x. Q x \<Longrightarrow> Q' x) \<Longrightarrow> swp P' Q' p"
  by (induction p) auto

lemma swp_try:
  assumes "swp P (\<lambda>r. case r of Inl e \<Rightarrow> Q (Inl e) | Inr x \<Rightarrow> swp P Q (f x)) m"
  shows "swp P Q (eff_try m f)"
  unfolding eff_try_def swp_bind using assms by (rule swp_mono) (auto split: sum.splits)

lemma swp_or_return:
  assumes "swp P (\<lambda>r. case r of Inl e \<Rightarrow> Q e | Inr x \<Rightarrow> swp P Q (f x)) m"
  shows "swp P Q (or_return m f)"
  unfolding or_return_def swp_bind using assms by (rule swp_mono) (auto split: sum.splits)

lemma swp_map: "swp P Q (eff_map g m) = swp P (\<lambda>x. Q (g x)) m"
  by (simp add: eff_map_def swp_bind)

lemma swp_focus [simp]: "swp P Q p \<Longrightarrow> swp P Q (focus view put p)"
  by (induction p) auto

lemma swp_reads:
  "only_reads p \<Longrightarrow> (\<And>rq. rq_method rq = GET \<Longrightarrow> P rq) \<Longrightarrow> (\<And>x. Q x) \<Longrightarrow> swp P Q p"
  by (induction p) auto

lemma swp_cas_retry:
  assumes "swp P (\<lambda>r. case r of Some x \<Rightarrow> Q x | None \<Rightarrow> True) body" "Q exhausted"
  shows "swp P Q (cas_retry n exhausted body)"
proof (induction n)
  case (Suc n)
  from assms(1) show ?case
    unfolding cas_retry.simps swp_bind by (rule swp_mono) (auto split: option.splits simp: Suc)
qed (simp add: assms(2))

section \<open>Traces\<close>

inductive follows :: "('c, 'a) eff \<Rightarrow> (kv_request \<times> kv_response) list \<Rightarrow> ('c, 'a) eff \<Rightarrow> bool" where
  here: "follows p [] p"
| exchange: "follows (k r) tr q \<Longrightarrow> follows (Send rq k) ((rq, r) # tr) q"
| local: "follows (k c) tr q \<Longrightarrow> follows (Locked g k) tr q"

inductive_cases follows_DoneE: "follows (Done x) tr q"
inductive_cases follows_SendE: "follows (Send rq k) tr q"
inductive_cases follows_LockedE: "follows (Locked g k) tr q"

lemma follows_swp: "follows p tr q \<Longrightarrow> swp P Q p \<Longrightarrow> swp P Q q"
  by (induction rule: follows.induct) auto

lemma follows_bindE:
  assumes "follows (eff_bind m f) tr q"
  obtains (first) m' where "follows m tr m'" "\<And>x. m' \<noteq> Done x" "q = eff_bind m' f"
    | (second) x tr1 tr2 where "tr = tr1 @ tr2" "follows m tr1 (Done x)" "follows (f x) tr2 q"
proof -
  have "(\<exists>m'. follows m tr m' \<and> q = eff_bind m' f)
      \<or> (\<exists>x tr1 tr2. tr = tr1 @ tr2 \<and> follows m tr1 (Done x) \<and> follows (f x) tr2 q)"
    using assms
  proof (induction m arbitrary: tr)
    case (Done x)
    then show ?case using follows.here by force
  next
    case (Send rq k)
    then show ?case
    proof (cases rule: follows_SendE [OF Send.prems [unfolded eff_bind.simps]])
      case 1
      then show ?thesis using follows.here by force
    next
      case (2 r tr')
      from Send.IH [OF _ 2(2)] show ?thesis
        using 2(1) follows.exchange [of k r] append_Cons by (metis rangeI)
    qed
  next
    case (Locked g k)
    then show ?case
    proof (cases rule: follows_LockedE [OF Locked.prems [unfolded eff_bind.simps]])
      case 1
      then show ?thesis using follows.here by force
    next
      case (2 c)
      from Locked.IH [OF _ 2(1)] show ?thesis using follows.local [of k c] by (metis rangeI)
    qed
  qed
  then show thesis
  proof (elim disjE exE conjE)
    fix m' assume m': "follows m tr m'" "q = eff_bind m' f"
    show thesis
    proof (cases m')
      case (Done x)
      with m' show thesis using second [of tr "[]" x] follows.here by auto
    qed (use m' in \<open>auto intro: first\<close>)
  qed (rule second)
qed

lemma follows_focus_Done:
  assumes "follows (focus view put p) tr (Done x)"
  shows "follows p tr (Done x)"
  using assms
proof (induction p arbitrary: tr)
  case (Done y)
  then show ?case by (auto elim: follows_DoneE intro: follows.here)
next
  case (Send rq k)
  then show ?case by (auto elim!: follows_SendE intro!: follows.exchange)
next
  case (Locked g k)
  from Locked.prems obtain d where "follows (focus view put (k (view d))) tr (Done x)"
    by (auto elim: follows_LockedE)
  then have "follows (k (view d)) tr (Done x)" by (intro Locked.IH) auto
  then show ?case by (rule follows.local)
qed

text \<open>A step that returns early on an error, reached at a later point or at its end.\<close>

lemma follows_or_returnE:
  assumes "follows (or_return m f) tr q"
  obtains (first) m' where "follows m tr m'" "\<And>x. m' \<noteq> Done x"
        "q = eff_bind m' (\<lambda>r. case r of Inl e \<Rightarrow> Done e | Inr x \<Rightarrow> f x)"
    | (early) e where "follows m tr (Done (Inl e))" "q = Done e"
    | (second) x tr1 tr2 where "tr = tr1 @ tr2" "follows m tr1 (Done (Inr x))" "follows (f x) tr2 q"
  using assms unfolding or_return_def
proof (cases rule: follows_bindE)
  case (second x tr1 tr2)
  then show thesis using early that(3) by (cases x) (auto elim: follows_DoneE)
qed (use that in blast)

lemma follows_bind: "follows m tr (Done x) \<Longrightarrow> follows (eff_bind m f) tr (f x)"
proof (induction m arbitrary: tr)
  case (Send rq k)
  from Send.prems show ?case by (rule follows_SendE) (auto intro!: follows.exchange Send.IH)
next
  case (Locked g k)
  from Locked.prems show ?case
  proof (rule follows_LockedE)
    fix c assume "follows (k c) tr (Done x)"
    then have "follows (eff_bind (k c) f) tr (f x)" by (intro Locked.IH) auto
    then show ?thesis by (auto intro: follows.local)
  qed simp
qed (auto elim: follows_DoneE intro: follows.here)

lemma follows_or_return: "follows m tr (Done (Inr x)) \<Longrightarrow> f x = q \<Longrightarrow> follows (or_return m f) tr q"
  unfolding or_return_def using follows_bind [of m tr "Inr x" "case_sum Done f"] by auto

end
