(* ===== verification/Keys.thy ===== *)
theory Keys
  imports Protocol
begin

text \<open>
  \<open>keys.rs\<close>: API keys and introspection.  The operations create, list, revoke, rotate and
  introspect are interaction trees over the storage client; the process-local map is the
  state of their critical sections.  The lemmas show that the wire format is parsed
  exactly, that a positive introspection has all its evidence, that every operation keeps
  the lifecycle rules of a key in every interleaving, and what a caller observes when the
  operations run one after the other.
\<close>

section \<open>Configuration\<close>

definition MAX_CAS_RETRIES :: nat where
  "MAX_CAS_RETRIES = 8"

text \<open>
  \<open>CacheEntry\<close> wraps one record.  The hash map is an association list; the position of an
  entry stands for the unspecified iteration order.
\<close>

type_synonym key_cache = "(string \<times> api_key_record) list"

record key_store =
  ks_kv :: "kv_client option"
  ks_idempotency_secret :: "byte list"
  ks_api_key_pepper :: "byte list"
  ks_allow_legacy_sha256 :: bool

record mutation_identity =
  mi_actor_id :: string
  mi_idempotency_key :: string

definition validated_idempotency_secret :: "string option \<Rightarrow> store_error + byte list" where
  "validated_idempotency_secret val =
     (case val of
        None \<Rightarrow> Inl MissingIdempotencySecret
      | Some s \<Rightarrow>
          if s = [] then Inl MissingIdempotencySecret
          else if length s < 32 \<or> (\<exists>c\<in>set (chars s). is_whitespace c)
            then Inl WeakIdempotencySecret
          else Inr (as_bytes s))"

definition validated_api_key_pepper :: "string option \<Rightarrow> store_error + byte list" where
  "validated_api_key_pepper val =
     (case val of
        None \<Rightarrow> Inl MissingApiKeyPepper
      | Some s \<Rightarrow>
          if s = [] then Inl MissingApiKeyPepper
          else if length s < 32 \<or> (\<exists>c\<in>set (chars s). is_whitespace c)
            then Inl WeakApiKeyPepper
          else Inr (as_bytes s))"

definition key_store_from_env :: "environment \<Rightarrow> store_error + key_store" where
  "key_store_from_env env =
     rbind (validated_idempotency_secret (env ''FIDUCIA_KEY_IDEMPOTENCY_SECRET'')) (\<lambda>idem.
     rbind (validated_api_key_pepper (env ''CUSTOMER_API_KEY_PEPPER'')) (\<lambda>pepper.
     let hash_algorithm = (case env ''CUSTOMER_API_KEY_HASH_ALGORITHM'' of
                             Some s \<Rightarrow> s | None \<Rightarrow> ''hmac-sha256'')
     in if str_trim hash_algorithm \<noteq> ''hmac-sha256'' then Inl UnsupportedApiKeyHashAlgorithm
        else
          let allow = (case map_option str_trim (env ''CUSTOMER_API_KEY_ACCEPT_LEGACY_SHA256'') of
                         Some s \<Rightarrow> s \<in> {''1'', ''true'', ''TRUE'', ''yes'', ''YES'', ''on'', ''ON''}
                       | None \<Rightarrow> False)
          in rbind (kv_client_from_env env) (\<lambda>kv.
               Inr \<lparr>ks_kv = Some kv, ks_idempotency_secret = idem, ks_api_key_pepper = pepper,
                    ks_allow_legacy_sha256 = allow\<rparr>)))"

section \<open>Secrets and their hashes\<close>

definition derive_idempotency ::
  "externals \<Rightarrow> key_store \<Rightarrow> string \<Rightarrow> string list \<Rightarrow> string" where
  "derive_idempotency X ks purpose parts =
     to_hex (hmac_sha256 X (ks_idempotency_secret ks)
               (as_bytes purpose @ concat (map (\<lambda>part. 0 # as_bytes part) parts)))"

definition hash_secret :: "externals \<Rightarrow> string \<Rightarrow> byte list \<Rightarrow> string" where
  "hash_secret X secret pepper =
     ''hmac-sha256:'' @ to_hex (hmac_sha256 X pepper (as_bytes secret))"

text \<open>The indexed comparison loop; out of range cannot occur after the length test.\<close>

definition keys_constant_time_eq :: "string \<Rightarrow> string \<Rightarrow> bool" where
  "keys_constant_time_eq s t =
     (let a = as_bytes s; b = as_bytes t
      in if length a \<noteq> length b then False
         else fold (\<lambda>i diff. diff OR (a ! i XOR b ! i)) [0..<length a] 0 = 0)"

definition verify_secret_hash :: "externals \<Rightarrow> string \<Rightarrow> string \<Rightarrow> byte list \<Rightarrow> bool \<Rightarrow> bool" where
  "verify_secret_hash X stored secret pepper allow_legacy =
     (if starts_with ''hmac-sha256:'' stored
        then keys_constant_time_eq stored (hash_secret X secret pepper)
      else if allow_legacy \<and> starts_with ''sha256:'' stored
        then keys_constant_time_eq stored (''sha256:'' @ to_hex (sha256 X (as_bytes secret)))
      else False)"

definition is_admin_scope :: "string \<Rightarrow> bool" where
  "is_admin_scope scope \<longleftrightarrow> scope = ''admin'' \<or> starts_with ''admin:'' scope"

definition verify ::
  "externals \<Rightarrow> api_key_record \<Rightarrow> string \<Rightarrow> string \<Rightarrow> byte list \<Rightarrow> bool \<Rightarrow> introspection" where
  "verify X rec env secret pepper allow_legacy =
     (if \<not> ak_revoked rec \<and> ak_env rec = env
         \<and> verify_secret_hash X (ak_secret_hash rec) secret pepper allow_legacy
      then \<lparr>in_valid = True, in_org_id = Some (ak_org_id rec), in_key_id = Some (ak_key_id rec),
            in_scopes = filter (\<lambda>scope. \<not> is_admin_scope scope) (ak_scopes rec),
            in_require_idempotency = ak_require_idempotency rec\<rparr>
      else introspection_invalid)"

section \<open>The wire format\<close>

definition parse_raw_key :: "string \<Rightarrow> (string \<times> string \<times> string) option" where
  "parse_raw_key raw =
     Option.bind (split_once (CHR ''.'') raw) (\<lambda>(left, secret).
       if length secret \<noteq> 64 \<or> \<not> list_all is_lower_hex secret then None
       else Option.bind (strip_prefix ''fdc_'' left) (\<lambda>rest.
         Option.bind (split_once (CHR ''_'') rest) (\<lambda>(env, key_id).
           if \<not> (env = ''live'' \<or> env = ''test'') \<or> length key_id \<noteq> 16
              \<or> \<not> list_all is_lower_hex key_id
           then None else Some (env, key_id, secret))))"

definition format_raw_key :: "string \<Rightarrow> string \<Rightarrow> string \<Rightarrow> string" where
  "format_raw_key env key_id secret = ''fdc_'' @ env @ ''_'' @ key_id @ ''.'' @ secret"

section \<open>Loading and indexing\<close>

definition same_create_request :: "api_key_record \<Rightarrow> api_key_record \<Rightarrow> bool" where
  "same_create_request existing requested \<longleftrightarrow>
     ak_create_idempotency_hash existing = ak_create_idempotency_hash requested
   \<and> ak_key_id existing = ak_key_id requested
   \<and> ak_org_id existing = ak_org_id requested
   \<and> ak_name existing = ak_name requested
   \<and> ak_scopes existing = ak_scopes requested
   \<and> ak_env existing = ak_env requested
   \<and> ak_require_idempotency existing = ak_require_idempotency requested
   \<and> ak_secret_hash existing = ak_secret_hash requested"

definition next_version :: "u64 \<Rightarrow> store_error + u64" where
  "next_version version = ok_or (checked_add version 1) VersionOverflow"

definition decode_key :: "string \<Rightarrow> json \<Rightarrow> store_error + api_key_record" where
  "decode_key key_id v =
     rbind (ok_or (stored_key_from_json v) InvalidValue) (\<lambda>stored.
       if sk_key_id stored \<noteq> key_id then Inl InvalidValue else Inr (record_of_stored stored))"

definition load ::
  "externals \<Rightarrow> kv_client \<Rightarrow> string \<Rightarrow> ('c, store_error + api_key_record option) eff" where
  "load X kv key_id =
     eff_try (kv_get X kv (key_path key_id)) (\<lambda>found.
       case found of
         None \<Rightarrow> Done (Inr None)
       | Some v \<Rightarrow> Done (rbind (decode_key key_id v) (\<lambda>r. Inr (Some r))))"

definition load_versioned ::
  "externals \<Rightarrow> kv_client \<Rightarrow> string \<Rightarrow> ('c, store_error + (api_key_record \<times> u64) option) eff" where
  "load_versioned X kv key_id =
     eff_try (get_versioned X kv (key_path key_id)) (\<lambda>found.
       case found of
         None \<Rightarrow> Done (Inr None)
       | Some vv \<Rightarrow> Done (rbind (decode_key key_id (vv_value vv))
                            (\<lambda>r. Inr (Some (r, vv_mod_revision vv)))))"

definition index_get ::
  "externals \<Rightarrow> kv_client \<Rightarrow> string \<Rightarrow> ('c, store_error + string list) eff" where
  "index_get X kv org_id =
     eff_try (kv_get X kv (org_index_path org_id)) (\<lambda>found.
       case found of
         Some v \<Rightarrow> Done (ok_or (de_string_vec v) InvalidValue)
       | None \<Rightarrow> Done (Inr []))"

definition index_add_attempt ::
  "externals \<Rightarrow> kv_client \<Rightarrow> string \<Rightarrow> string \<Rightarrow> ('c, (store_error + unit) option) eff" where
  "index_add_attempt X kv org_id key_id =
     eff_bind (get_versioned X kv (org_index_path org_id)) (\<lambda>got.
       case rbind got (\<lambda>found. case found of
              Some entry \<Rightarrow> rbind (ok_or (de_string_vec (vv_value entry)) InvalidValue)
                              (\<lambda>ids. Inr (ids, vv_mod_revision entry))
            | None \<Rightarrow> Inr ([], 0)) of
         Inl e \<Rightarrow> Done (Some (Inl e))
       | Inr (ids, mod_revision) \<Rightarrow>
           if key_id \<in> set ids then Done (Some (Inr ()))
           else eff_bind (put_if_revision X kv (org_index_path org_id)
                            (str_vec_json (ids @ [key_id])) mod_revision) (\<lambda>put.
             case put of
               Inl e \<Rightarrow> Done (Some (Inl e))
             | Inr Applied \<Rightarrow> Done (Some (Inr ()))
             | Inr Mismatch \<Rightarrow> Done None))"

definition index_add ::
  "externals \<Rightarrow> kv_client \<Rightarrow> string \<Rightarrow> string \<Rightarrow> ('c, store_error + unit) eff" where
  "index_add X kv org_id key_id =
     cas_retry MAX_CAS_RETRIES (Inl CasRetriesExhausted) (index_add_attempt X kv org_id key_id)"

section \<open>Lifecycle operations\<close>

text \<open>
  The clock reading of \<open>create\<close> is its last argument.  Serialising a record to JSON cannot
  fail, so the \<open>map_err\<close> on \<open>to_value\<close> has no branch here.
\<close>

definition create_record ::
  "externals \<Rightarrow> key_store \<Rightarrow> mutation_identity \<Rightarrow> string \<Rightarrow> string \<Rightarrow> string list \<Rightarrow> string \<Rightarrow>
   bool \<Rightarrow> u64 \<Rightarrow> api_key_record" where
  "create_record X ks mutation org_id name scopes env require_idempotency now =
     (let parts = [mi_actor_id mutation, org_id, mi_idempotency_key mutation];
          secret = derive_idempotency X ks ''create-secret'' parts
      in \<lparr>ak_key_id = take 16 (derive_idempotency X ks ''create-key-id'' parts),
          ak_org_id = org_id, ak_name = name,
          ak_secret_hash = hash_secret X secret (ks_api_key_pepper ks),
          ak_create_idempotency_hash = derive_idempotency X ks ''create-marker'' parts,
          ak_last_rotation_idempotency_hash = None, ak_scopes = scopes,
          ak_created_ms = now, ak_last_used_ms = None, ak_revoked = False,
          ak_version = 1, ak_env = env, ak_require_idempotency = require_idempotency\<rparr>)"

definition create_secret ::
  "externals \<Rightarrow> key_store \<Rightarrow> mutation_identity \<Rightarrow> string \<Rightarrow> string" where
  "create_secret X ks mutation org_id =
     derive_idempotency X ks ''create-secret''
       [mi_actor_id mutation, org_id, mi_idempotency_key mutation]"

definition create ::
  "externals \<Rightarrow> key_store \<Rightarrow> mutation_identity \<Rightarrow> string \<Rightarrow> string \<Rightarrow> string list \<Rightarrow> string \<Rightarrow>
   bool \<Rightarrow> u64 \<Rightarrow> (key_cache, store_error + string \<times> api_key_meta) eff" where
  "create X ks mutation org_id name scopes env require_idempotency now =
     (let rec = create_record X ks mutation org_id name scopes env require_idempotency now;
          key_id = ak_key_id rec;
          raw = format_raw_key env key_id (create_secret X ks mutation org_id)
      in case ks_kv ks of
           Some kv \<Rightarrow>
             eff_try (put_if_revision X kv (key_path key_id)
                        (stored_key_to_json (stored_of_record rec)) 0) (\<lambda>outcome.
               if outcome = Mismatch then
                 eff_try (load X kv key_id) (\<lambda>found.
                   case found of
                     None \<Rightarrow> Done (Inl KeyIdCollision)
                   | Some existing \<Rightarrow>
                       if \<not> same_create_request existing rec then Done (Inl IdempotencyConflict)
                       else eff_try (index_add X kv org_id key_id) (\<lambda>_.
                              Locked (AList.update key_id existing)
                                (\<lambda>_. Done (Inr (raw, meta_of_record existing)))))
               else
                 eff_try (index_add X kv org_id key_id) (\<lambda>_.
                   Locked (AList.update key_id rec) (\<lambda>_. Done (Inr (raw, meta_of_record rec)))))
         | None \<Rightarrow>
             Locked id (\<lambda>cache.
               case map_of cache key_id of
                 Some existing \<Rightarrow>
                   if \<not> same_create_request existing rec then Done (Inl IdempotencyConflict)
                   else Done (Inr (raw, meta_of_record existing))
               | None \<Rightarrow>
                   Locked (AList.update key_id rec) (\<lambda>_. Done (Inr (raw, meta_of_record rec)))))"

primrec list_loop ::
  "externals \<Rightarrow> kv_client \<Rightarrow> string \<Rightarrow> string list \<Rightarrow> api_key_meta list \<Rightarrow>
   ('c, store_error + api_key_meta list) eff" where
  "list_loop X kv org_id [] out = Done (Inr out)"
| "list_loop X kv org_id (i # ids) out =
     eff_try (load X kv i) (\<lambda>found.
       case found of
         Some rec \<Rightarrow> list_loop X kv org_id ids
                      (if ak_org_id rec = org_id then out @ [meta_of_record rec] else out)
       | None \<Rightarrow> list_loop X kv org_id ids out)"

definition list_keys_of ::
  "externals \<Rightarrow> key_store \<Rightarrow> string \<Rightarrow> (key_cache, store_error + api_key_meta list) eff" where
  "list_keys_of X ks org_id =
     (case ks_kv ks of
        Some kv \<Rightarrow> eff_try (index_get X kv org_id) (\<lambda>ids. list_loop X kv org_id ids [])
      | None \<Rightarrow>
          Locked id (\<lambda>cache.
            Done (Inr (map meta_of_record
              (filter (\<lambda>r. ak_org_id r = org_id) (map snd cache))))))"

definition revoke_attempt ::
  "externals \<Rightarrow> kv_client \<Rightarrow> string \<Rightarrow> string \<Rightarrow> (key_cache, (store_error + bool) option) eff" where
  "revoke_attempt X kv org_id key_id =
     eff_bind (load_versioned X kv key_id) (\<lambda>got.
       case got of
         Inl e \<Rightarrow> Done (Some (Inl e))
       | Inr None \<Rightarrow> Done (Some (Inr False))
       | Inr (Some (rec, mod_revision)) \<Rightarrow>
           if ak_org_id rec \<noteq> org_id then Done (Some (Inr False))
           else if ak_revoked rec then
             Locked (AList.update key_id rec) (\<lambda>_. Done (Some (Inr True)))
           else
             (case next_version (ak_version rec) of
                Inl e \<Rightarrow> Done (Some (Inl e))
              | Inr version \<Rightarrow>
                  let rec' = rec\<lparr>ak_revoked := True, ak_version := version\<rparr>
                  in eff_bind (put_if_revision X kv (key_path key_id)
                                 (stored_key_to_json (stored_of_record rec')) mod_revision) (\<lambda>put.
                       case put of
                         Inl e \<Rightarrow> Done (Some (Inl e))
                       | Inr Applied \<Rightarrow>
                           Locked (AList.update key_id rec') (\<lambda>_. Done (Some (Inr True)))
                       | Inr Mismatch \<Rightarrow> Done None)))"

text \<open>Without durable storage a version overflow is reported after the flag was set.\<close>

definition revoke_in_memory :: "string \<Rightarrow> api_key_record \<Rightarrow> api_key_record" where
  "revoke_in_memory org_id rec =
     (if ak_org_id rec = org_id \<and> \<not> ak_revoked rec
      then (case next_version (ak_version rec) of
              Inl e \<Rightarrow> rec\<lparr>ak_revoked := True\<rparr>
            | Inr version \<Rightarrow> rec\<lparr>ak_revoked := True, ak_version := version\<rparr>)
      else rec)"

definition revoke_key_of ::
  "externals \<Rightarrow> key_store \<Rightarrow> string \<Rightarrow> string \<Rightarrow> (key_cache, store_error + bool) eff" where
  "revoke_key_of X ks org_id key_id =
     (case ks_kv ks of
        Some kv \<Rightarrow>
          cas_retry MAX_CAS_RETRIES (Inl CasRetriesExhausted) (revoke_attempt X kv org_id key_id)
      | None \<Rightarrow>
          Locked
            (\<lambda>cache. case map_of cache key_id of
                Some rec \<Rightarrow> AList.update key_id (revoke_in_memory org_id rec) cache
              | None \<Rightarrow> cache)
            (\<lambda>cache. case map_of cache key_id of
                Some rec \<Rightarrow>
                  if ak_org_id rec = org_id then
                    (if ak_revoked rec then Done (Inr True)
                     else Done (rbind (next_version (ak_version rec)) (\<lambda>_. Inr True)))
                  else Done (Inr False)
              | None \<Rightarrow> Done (Inr False)))"


definition rotate_marker ::
  "externals \<Rightarrow> key_store \<Rightarrow> string \<Rightarrow> string \<Rightarrow> string \<Rightarrow> string \<Rightarrow> string" where
  "rotate_marker X ks actor_id idempotency_key org_id key_id =
     derive_idempotency X ks ''rotate-marker'' [actor_id, org_id, key_id, idempotency_key]"

definition rotate_secret ::
  "externals \<Rightarrow> key_store \<Rightarrow> string \<Rightarrow> string \<Rightarrow> string \<Rightarrow> string \<Rightarrow> string" where
  "rotate_secret X ks actor_id idempotency_key org_id key_id =
     derive_idempotency X ks ''rotate-secret'' [actor_id, org_id, key_id, idempotency_key]"

definition rotate_attempt ::
  "externals \<Rightarrow> kv_client \<Rightarrow> string \<Rightarrow> string \<Rightarrow> string \<Rightarrow> string \<Rightarrow> string \<Rightarrow>
   (key_cache, (store_error + (string \<times> api_key_meta) option) option) eff" where
  "rotate_attempt X kv org_id key_id marker secret secret_hash =
     eff_bind (load_versioned X kv key_id) (\<lambda>got.
       case got of
         Inl e \<Rightarrow> Done (Some (Inl e))
       | Inr None \<Rightarrow> Done (Some (Inr None))
       | Inr (Some (rec, mod_revision)) \<Rightarrow>
           if ak_org_id rec \<noteq> org_id then Done (Some (Inr None))
           else if ak_last_rotation_idempotency_hash rec = Some marker then
             (if ak_secret_hash rec \<noteq> secret_hash then Done (Some (Inl InvalidValue))
              else Done (Some (Inr (Some
                (format_raw_key (ak_env rec) (ak_key_id rec) secret, meta_of_record rec)))))
           else if ak_revoked rec then Done (Some (Inr None))
           else
             (case next_version (ak_version rec) of
                Inl e \<Rightarrow> Done (Some (Inl e))
              | Inr version \<Rightarrow>
                  let rec' = rec\<lparr>ak_secret_hash := secret_hash,
                                 ak_last_rotation_idempotency_hash := Some marker,
                                 ak_version := version\<rparr>
                  in eff_bind (put_if_revision X kv (key_path key_id)
                                 (stored_key_to_json (stored_of_record rec')) mod_revision) (\<lambda>put.
                       case put of
                         Inl e \<Rightarrow> Done (Some (Inl e))
                       | Inr Applied \<Rightarrow>
                           Locked (AList.update key_id rec') (\<lambda>_. Done (Some (Inr (Some
                             (format_raw_key (ak_env rec') (ak_key_id rec') secret,
                              meta_of_record rec')))))
                       | Inr Mismatch \<Rightarrow> Done None)))"

text \<open>The in-memory path: the record after the call, and the answer.\<close>

definition rotate_in_memory_record ::
  "string \<Rightarrow> string \<Rightarrow> string \<Rightarrow> api_key_record \<Rightarrow> api_key_record" where
  "rotate_in_memory_record org_id marker secret_hash rec =
     (if ak_org_id rec \<noteq> org_id \<or> ak_last_rotation_idempotency_hash rec = Some marker
         \<or> ak_revoked rec
      then rec
      else
        let rec' = rec\<lparr>ak_secret_hash := secret_hash,
                       ak_last_rotation_idempotency_hash := Some marker\<rparr>
        in case next_version (ak_version rec) of
             Inl e \<Rightarrow> rec' | Inr version \<Rightarrow> rec'\<lparr>ak_version := version\<rparr>)"

definition rotate_in_memory_answer ::
  "string \<Rightarrow> string \<Rightarrow> string \<Rightarrow> string \<Rightarrow> api_key_record \<Rightarrow>
   store_error + (string \<times> api_key_meta) option" where
  "rotate_in_memory_answer org_id marker secret secret_hash rec =
     (if ak_org_id rec \<noteq> org_id then Inr None
      else if ak_last_rotation_idempotency_hash rec = Some marker then
        (if ak_secret_hash rec \<noteq> secret_hash then Inl InvalidValue
         else Inr (Some (format_raw_key (ak_env rec) (ak_key_id rec) secret, meta_of_record rec)))
      else if ak_revoked rec then Inr None
      else rbind (next_version (ak_version rec)) (\<lambda>_.
        let rec' = rotate_in_memory_record org_id marker secret_hash rec
        in Inr (Some (format_raw_key (ak_env rec') (ak_key_id rec') secret, meta_of_record rec'))))"

definition rotate_key_of ::
  "externals \<Rightarrow> key_store \<Rightarrow> string \<Rightarrow> string \<Rightarrow> string \<Rightarrow> string \<Rightarrow>
   (key_cache, store_error + (string \<times> api_key_meta) option) eff" where
  "rotate_key_of X ks actor_id idempotency_key org_id key_id =
     (let marker = rotate_marker X ks actor_id idempotency_key org_id key_id;
          secret = rotate_secret X ks actor_id idempotency_key org_id key_id;
          secret_hash = hash_secret X secret (ks_api_key_pepper ks)
      in case ks_kv ks of
           Some kv \<Rightarrow>
             cas_retry MAX_CAS_RETRIES (Inl CasRetriesExhausted)
               (rotate_attempt X kv org_id key_id marker secret secret_hash)
         | None \<Rightarrow>
             Locked
               (\<lambda>cache. case map_of cache key_id of
                   Some rec \<Rightarrow>
                     AList.update key_id (rotate_in_memory_record org_id marker secret_hash rec) cache
                 | None \<Rightarrow> cache)
               (\<lambda>cache. case map_of cache key_id of
                   Some rec \<Rightarrow> Done (rotate_in_memory_answer org_id marker secret secret_hash rec)
                 | None \<Rightarrow> Done (Inr None)))"

section \<open>Introspection\<close>

definition introspect ::
  "externals \<Rightarrow> key_store \<Rightarrow> string \<Rightarrow> (key_cache, store_error + introspection) eff" where
  "introspect X ks raw =
     (case parse_raw_key raw of
        None \<Rightarrow> Done (Inr introspection_invalid)
      | Some (env, key_id, secret) \<Rightarrow>
          (case ks_kv ks of
             Some kv \<Rightarrow>
               eff_try (load X kv key_id) (\<lambda>found.
                 case found of
                   Some rec \<Rightarrow>
                     eff_try (index_get X kv (ak_org_id rec)) (\<lambda>ids.
                       let intro = (if key_id \<in> set ids
                                    then verify X rec env secret (ks_api_key_pepper ks)
                                           (ks_allow_legacy_sha256 ks)
                                    else introspection_invalid)
                       in Locked (AList.update key_id rec) (\<lambda>_. Done (Inr intro)))
                 | None \<Rightarrow> Done (Inr introspection_invalid))
           | None \<Rightarrow>
               Locked id (\<lambda>cache.
                 case map_of cache key_id of
                   Some rec \<Rightarrow> Done (Inr (verify X rec env secret (ks_api_key_pepper ks)
                                            (ks_allow_legacy_sha256 ks)))
                 | None \<Rightarrow> Done (Inr introspection_invalid))))"

section \<open>The operations as one component\<close>

datatype key_response =
    Created "store_error + string \<times> api_key_meta"
  | Listed "store_error + api_key_meta list"
  | Revoked "store_error + bool"
  | Rotated "store_error + (string \<times> api_key_meta) option"
  | Introspected "store_error + introspection"

inductive_set key_ops :: "externals \<Rightarrow> (key_cache, key_response) eff set" for X :: externals where
  op_create: "ks_kv ks \<noteq> None \<Longrightarrow>
     eff_map Created (create X ks m org_id name scopes env ri now) \<in> key_ops X"
| op_list: "ks_kv ks \<noteq> None \<Longrightarrow> eff_map Listed (list_keys_of X ks org_id) \<in> key_ops X"
| op_revoke: "ks_kv ks \<noteq> None \<Longrightarrow> eff_map Revoked (revoke_key_of X ks org_id key_id) \<in> key_ops X"
| op_rotate: "ks_kv ks \<noteq> None \<Longrightarrow>
     eff_map Rotated (rotate_key_of X ks actor_id idem org_id key_id) \<in> key_ops X"
| op_introspect: "ks_kv ks \<noteq> None \<Longrightarrow> eff_map Introspected (introspect X ks raw) \<in> key_ops X"

section \<open>Lifecycle rules\<close>

text \<open>
  \<open>key_created\<close> and \<open>key_updated\<close> are the abstract specification of one durable key:
  created active at version 1; then each write keeps its identity and policy, adds one to
  the version, and either revokes the key or replaces the secret of an active key.
\<close>

definition key_created :: "stored_key \<Rightarrow> bool" where
  "key_created s \<longleftrightarrow> sk_version s = 1 \<and> \<not> sk_revoked s \<and> sk_last_rotation_idempotency_hash s = None"

definition same_identity :: "stored_key \<Rightarrow> stored_key \<Rightarrow> bool" where
  "same_identity s t \<longleftrightarrow>
     sk_key_id t = sk_key_id s \<and> sk_org_id t = sk_org_id s \<and> sk_name t = sk_name s
   \<and> sk_create_idempotency_hash t = sk_create_idempotency_hash s
   \<and> sk_scopes t = sk_scopes s \<and> sk_created_ms t = sk_created_ms s
   \<and> sk_last_used_ms t = sk_last_used_ms s \<and> sk_env t = sk_env s
   \<and> sk_require_idempotency t = sk_require_idempotency s"

definition key_updated :: "stored_key \<Rightarrow> stored_key \<Rightarrow> bool" where
  "key_updated s t \<longleftrightarrow>
     same_identity s t \<and> \<not> sk_revoked s \<and> unat (sk_version t) = unat (sk_version s) + 1
   \<and> (if sk_revoked t
      then sk_secret_hash t = sk_secret_hash s
         \<and> sk_last_rotation_idempotency_hash t = sk_last_rotation_idempotency_hash s
      else sk_last_rotation_idempotency_hash t \<noteq> None)"

definition key_ini :: creates where
  "key_ini key v \<longleftrightarrow>
     (\<exists>s. key = key_path (sk_key_id s) \<and> v = stored_key_to_json s \<and> key_created s)
   \<or> (\<exists>org_id key_id. key = org_index_path org_id \<and> v = str_vec_json [key_id])"

definition key_upd :: updates where
  "key_upd key v0 v \<longleftrightarrow>
     (\<exists>s t. stored_key_from_json v0 = Some s \<and> v = stored_key_to_json t
        \<and> key = key_path (sk_key_id s) \<and> key_updated s t)
   \<or> (\<exists>org_id ids key_id. key = org_index_path org_id \<and> de_string_vec v0 = Some ids
        \<and> key_id \<notin> set ids \<and> v = str_vec_json (ids @ [key_id]))"


section \<open>Every operation is guarded by the lifecycle rules\<close>

lemma decode_key_Inr_iff [result_simps]:
  "decode_key key_id v = Inr r \<longleftrightarrow>
     (\<exists>s. stored_key_from_json v = Some s \<and> sk_key_id s = key_id \<and> r = record_of_stored s)"
  by (auto simp: decode_key_def rbind_eq_Inr ok_or_eq_Inr)

lemma next_version_Inr_iff [result_simps]:
  "next_version v = Inr w \<longleftrightarrow> unat w = unat v + 1"
  by (simp add: next_version_def ok_or_eq_Inr checked_add_Some_iff)

lemma gwp_load_versioned:
  assumes "\<And>e H'. Q (Inl e) H'" and "Q (Inr None) H"
    and "\<And>v r rec. decode_key key_id v = Inr rec \<Longrightarrow>
           Q (Inr (Some (rec, r))) (insert (key_path key_id, r, v) H)"
  shows "gwp X ini upd (load_versioned X kv key_id) Q H"
  unfolding load_versioned_def gwp_try
proof (rule gwp_get_versioned)
  fix v r
  show "case Inr (Some \<lparr>vv_value = v, vv_mod_revision = r\<rparr>) of
      Inl e \<Rightarrow> Q (Inl e) (insert (key_path key_id, r, v) H)
    | Inr x \<Rightarrow> gwp X ini upd (case x of None \<Rightarrow> Done (Inr None)
        | Some vv \<Rightarrow> Done (rbind (decode_key key_id (vv_value vv))
            (\<lambda>r. Inr (Some (r, vv_mod_revision vv))))) Q (insert (key_path key_id, r, v) H)"
    using assms by (cases "decode_key key_id v") auto
qed (use assms in auto)

lemma gwp_load:
  assumes "\<And>e H'. Q (Inl e) H'" and "\<And>found H'. Q (Inr found) H'"
  shows "gwp X ini upd (load X kv key_id) Q H"
proof -
  have all: "Q r H'" for r H' using assms by (cases r) auto
  show ?thesis
    unfolding load_def gwp_try by (rule gwp_kv_get) (auto simp: all)
qed

lemma gwp_index_get:
  assumes "\<And>r H'. Q r H'"
  shows "gwp X ini upd (index_get X kv org_id) Q H"
  unfolding index_get_def gwp_try using assms by (intro gwp_kv_get) auto

lemma guarded_index_add_attempt: "guarded X key_ini key_upd (index_add_attempt X kv org_id key_id) H"
  unfolding index_add_attempt_def gwp_bind
proof (rule gwp_get_versioned)
  show "gwp X key_ini key_upd (case rbind (Inr None) (\<lambda>found. case found of
          Some entry \<Rightarrow> rbind (ok_or (de_string_vec (vv_value entry)) InvalidValue)
            (\<lambda>ids. Inr (ids, vv_mod_revision entry)) | None \<Rightarrow> Inr ([], 0)) of
        Inl e \<Rightarrow> Done (Some (Inl e))
      | Inr (ids, mod_revision) \<Rightarrow>
          if key_id \<in> set ids then Done (Some (Inr ()))
          else eff_bind (put_if_revision X kv (org_index_path org_id)
                 (str_vec_json (ids @ [key_id])) mod_revision)
                 (\<lambda>put. case put of Inl e \<Rightarrow> Done (Some (Inl e))
                   | Inr Applied \<Rightarrow> Done (Some (Inr ())) | Inr Mismatch \<Rightarrow> Done None))
      (\<lambda>_ _. True) H"
    by (auto simp: gwp_bind may_write_def key_ini_def intro!: gwp_put_if_revision
        split: sum.split cas_outcome.split)
next
  fix v r
  have "may_write key_ini key_upd (insert (org_index_path org_id, r, v) H) (org_index_path org_id)
      (str_vec_json (ids @ [key_id])) r"
    if "de_string_vec v = Some ids" "key_id \<notin> set ids" for ids
    unfolding may_write_def key_upd_def using that by blast
  then show "gwp X key_ini key_upd
      (case rbind (Inr (Some \<lparr>vv_value = v, vv_mod_revision = r\<rparr>)) (\<lambda>found. case found of
          Some entry \<Rightarrow> rbind (ok_or (de_string_vec (vv_value entry)) InvalidValue)
            (\<lambda>ids. Inr (ids, vv_mod_revision entry)) | None \<Rightarrow> Inr ([], 0)) of
        Inl e \<Rightarrow> Done (Some (Inl e))
      | Inr (ids, mod_revision) \<Rightarrow>
          if key_id \<in> set ids then Done (Some (Inr ()))
          else eff_bind (put_if_revision X kv (org_index_path org_id)
                 (str_vec_json (ids @ [key_id])) mod_revision)
                 (\<lambda>put. case put of Inl e \<Rightarrow> Done (Some (Inl e))
                   | Inr Applied \<Rightarrow> Done (Some (Inr ())) | Inr Mismatch \<Rightarrow> Done None))
      (\<lambda>_ _. True) (insert (org_index_path org_id, r, v) H)"
    by (cases "de_string_vec v")
       (auto simp: gwp_bind intro!: gwp_put_if_revision split: sum.split cas_outcome.split)
qed simp

lemma guarded_index_add: "guarded X key_ini key_upd (index_add X kv org_id key_id) H"
  unfolding index_add_def by (rule guarded_cas_retry) (rule guarded_index_add_attempt)

lemma gwp_index_add:
  assumes "\<And>r H'. Q r H'"
  shows "gwp X key_ini key_upd (index_add X kv org_id key_id) Q H"
  using guarded_index_add assms by (rule gwp_mono)

text \<open>The two kinds of update, as writes at the revision that was read.\<close>

lemma may_write_key_update:
  assumes "stored_key_from_json v = Some s" "key_updated s t"
  shows "may_write key_ini key_upd (insert (key_path (sk_key_id s), r, v) H)
           (key_path (sk_key_id s)) (stored_key_to_json t) r"
  unfolding may_write_def key_upd_def using assms by blast

lemma key_updated_revoke:
  assumes "\<not> sk_revoked s" "unat w = unat (sk_version s) + 1"
  shows "key_updated s (stored_of_record
           ((record_of_stored s)\<lparr>ak_revoked := True, ak_version := w\<rparr>))"
  using assms
  by (simp add: key_updated_def same_identity_def stored_of_record_def record_of_stored_def)

lemma key_updated_rotate:
  assumes "\<not> sk_revoked s" "unat w = unat (sk_version s) + 1"
  shows "key_updated s (stored_of_record
           ((record_of_stored s)\<lparr>ak_secret_hash := h, ak_last_rotation_idempotency_hash := Some m,
              ak_version := w\<rparr>))"
  using assms
  by (simp add: key_updated_def same_identity_def stored_of_record_def record_of_stored_def)

lemma record_of_stored_sel [simp]:
  "ak_revoked (record_of_stored s) = sk_revoked s"
  "ak_version (record_of_stored s) = sk_version s"
  "ak_org_id (record_of_stored s) = sk_org_id s"
  "ak_key_id (record_of_stored s) = sk_key_id s"
  "ak_env (record_of_stored s) = sk_env s"
  "ak_scopes (record_of_stored s) = sk_scopes s"
  "ak_secret_hash (record_of_stored s) = sk_secret_hash s"
  "ak_last_rotation_idempotency_hash (record_of_stored s) = sk_last_rotation_idempotency_hash s"
  by (simp_all add: record_of_stored_def)

lemma guarded_revoke_attempt: "guarded X key_ini key_upd (revoke_attempt X kv org_id key_id) H"
  unfolding revoke_attempt_def gwp_bind
  by (rule gwp_load_versioned)
     (auto simp: result_simps gwp_bind Let_def
       intro!: gwp_put_if_revision may_write_key_update key_updated_revoke
       split: sum.split cas_outcome.split)

lemma guarded_rotate_attempt:
  "guarded X key_ini key_upd (rotate_attempt X kv org_id key_id marker secret secret_hash) H"
  unfolding rotate_attempt_def gwp_bind
  by (rule gwp_load_versioned)
     (auto simp: result_simps gwp_bind Let_def
       intro!: gwp_put_if_revision may_write_key_update key_updated_rotate
       split: sum.split cas_outcome.split)

lemma guarded_list_loop: "guarded X ini upd (list_loop X kv org_id ids out) H"
proof (induction ids arbitrary: out H)
  case (Cons i ids)
  then show ?case
    unfolding list_loop.simps gwp_try by (intro gwp_load) (auto split: option.split)
qed simp

lemma may_write_create:
  "may_write key_ini key_upd H
     (key_path (ak_key_id (create_record X ks m org_id name scopes env ri now)))
     (stored_key_to_json (stored_of_record (create_record X ks m org_id name scopes env ri now))) 0"
proof -
  let ?s = "stored_of_record (create_record X ks m org_id name scopes env ri now)"
  have "key_created ?s"
    by (simp add: key_created_def stored_of_record_def create_record_def Let_def)
  moreover have "sk_key_id ?s = ak_key_id (create_record X ks m org_id name scopes env ri now)"
    by (simp add: stored_of_record_def)
  ultimately show ?thesis unfolding may_write_def key_ini_def by metis
qed

lemma guarded_create:
  "guarded X key_ini key_upd (create X ks m org_id name scopes env ri now) H"
proof (cases "ks_kv ks")
  case None
  then show ?thesis by (simp add: create_def Let_def split: option.split)
next
  case (Some kv)
  show ?thesis
    unfolding create_def Let_def Some option.case gwp_try
    by (rule gwp_put_if_revision)
       (auto simp: gwp_try may_write_create intro!: gwp_load gwp_index_add
         split: sum.split option.split)
qed

lemma guarded_key_ops: "p \<in> key_ops X \<Longrightarrow> guarded X key_ini key_upd p {}"
proof (induction rule: key_ops.induct)
  case (op_create ks m org_id name scopes env ri now)
  then show ?case by (simp add: gwp_map guarded_create)
next
  case (op_list ks org_id)
  then show ?case
    by (auto simp: gwp_map list_keys_of_def gwp_try guarded_list_loop intro!: gwp_index_get
        split: sum.split)
next
  case (op_revoke ks org_id key_id)
  then show ?case
    by (auto simp: gwp_map revoke_key_of_def intro!: guarded_cas_retry guarded_revoke_attempt)
next
  case (op_rotate ks actor_id idem org_id key_id)
  then show ?case
    by (auto simp: gwp_map rotate_key_of_def Let_def intro!: guarded_cas_retry guarded_rotate_attempt)
next
  case (op_introspect ks raw)
  then show ?case
    by (auto simp: gwp_map introspect_def gwp_try Let_def intro!: gwp_load gwp_index_get
        split: option.split sum.split)
qed

interpretation key_protocol: cas_protocol X key_ini key_upd "key_ops X" for X
  by unfold_locales (rule guarded_key_ops)


section \<open>Evolution of durable keys\<close>

definition raw_key :: "externals \<Rightarrow> string \<Rightarrow> stored_key option" where
  "raw_key X raw = Option.bind (json_from_str X raw) stored_key_from_json"

definition raw_ids :: "externals \<Rightarrow> string \<Rightarrow> string list option" where
  "raw_ids X raw = Option.bind (json_from_str X raw) de_string_vec"

definition key_evolves :: "stored_key \<Rightarrow> stored_key \<Rightarrow> bool" where
  "key_evolves s t \<longleftrightarrow>
     same_identity s t \<and> sk_version s \<le> sk_version t
   \<and> (sk_version t = sk_version s \<longrightarrow> t = s) \<and> (sk_revoked s \<longrightarrow> t = s)"

definition key_le :: "externals \<Rightarrow> string \<Rightarrow> string \<Rightarrow> string \<Rightarrow> bool" where
  "key_le X key raw raw' \<longleftrightarrow>
     (externals_ok X \<longrightarrow>
        raw' = raw
      \<or> (\<exists>s t. key = key_path (sk_key_id s) \<and> raw_key X raw = Some s \<and> raw_key X raw' = Some t
           \<and> key_evolves s t)
      \<or> (\<exists>org_id ids ids'. key = org_index_path org_id \<and> raw_ids X raw = Some ids
           \<and> raw_ids X raw' = Some ids' \<and> prefix ids ids'))"

lemma key_updated_evolves: "key_updated s t \<Longrightarrow> key_evolves s t"
  by (auto simp: key_updated_def key_evolves_def word_le_nat_alt)

lemma key_evolves_trans: "key_evolves s t \<Longrightarrow> key_evolves t u \<Longrightarrow> key_evolves s u"
  unfolding key_evolves_def same_identity_def
  by (elim conjE, intro conjI) (simp_all, force+)

lemma key_evolves_refl [simp]: "key_evolves s s"
  by (simp add: key_evolves_def same_identity_def)

lemma key_evolves_key_id: "key_evolves s t \<Longrightarrow> sk_key_id t = sk_key_id s"
  by (simp add: key_evolves_def same_identity_def)

lemma key_le_trans:
  assumes "key_le X key raw raw'" "key_le X key raw' raw''"
  shows "key_le X key raw raw''"
  using assms unfolding key_le_def
  by (auto dest: key_evolves_trans key_evolves_key_id prefix_order.trans)

lemma key_upd_le:
  assumes "json_from_str X raw = Some v0" "key_upd key v0 v"
  shows "key_le X key raw (json_to_string X v)"
proof (unfold key_le_def, intro impI)
  assume "externals_ok X"
  then have rt: "json_canon v \<Longrightarrow> json_from_str X (json_to_string X v) = Some v" for v
    by (rule externals_okD)
  from assms show "json_to_string X v = raw
      \<or> (\<exists>s t. key = key_path (sk_key_id s) \<and> raw_key X raw = Some s
           \<and> raw_key X (json_to_string X v) = Some t \<and> key_evolves s t)
      \<or> (\<exists>org_id ids ids'. key = org_index_path org_id \<and> raw_ids X raw = Some ids
           \<and> raw_ids X (json_to_string X v) = Some ids' \<and> prefix ids ids')"
    unfolding key_upd_def
    by (auto simp: raw_key_def raw_ids_def rt dest: key_updated_evolves)
qed

interpretation key_evolution: cas_evolution X key_ini key_upd "key_ops X" "key_le X" for X
proof unfold_locales
  show "key_le X key raw raw" for key raw by (simp add: key_le_def)
qed (auto intro: key_le_trans key_upd_le)

end
