(* ===== verification/Key_Lifecycle.thy ===== *)
theory Key_Lifecycle
  imports Keys Reference
begin

text \<open>
  What callers of the key component observe: the wire format, the secret check, the exact
  meaning of a positive introspection, the results of create, rotate and revoke one after
  the other on an answering storage service, and the guarantees that survive every
  interleaving of replicas, cancellations and restarts.
\<close>

section \<open>Wire format and secrets\<close>

lemma hex_no_dot: "list_all is_lower_hex s \<Longrightarrow> CHR ''.'' \<notin> set s"
  by (auto simp: list_all_iff is_lower_hex_def)

lemma parse_format:
  assumes "env = ''live'' \<or> env = ''test''" "length key_id = 16" "list_all is_lower_hex key_id"
    and "length secret = 64" "list_all is_lower_hex secret"
  shows "parse_raw_key (format_raw_key env key_id secret) = Some (env, key_id, secret)"
proof -
  have "CHR ''.'' \<notin> set (''fdc_'' @ env @ ''_'' @ key_id)"
    using assms hex_no_dot by auto
  from split_once_append [OF this, of secret]
  have "split_once (CHR ''.'') (format_raw_key env key_id secret) =
      Some (''fdc_'' @ env @ ''_'' @ key_id, secret)"
    by (simp add: format_raw_key_def)
  moreover have "split_once (CHR ''_'') (env @ ''_'' @ key_id) = Some (env, key_id)"
    using assms(1) by auto
  moreover have "strip_prefix ''fdc_'' (''fdc_'' @ env @ ''_'' @ key_id) = Some (env @ ''_'' @ key_id)"
    by simp
  ultimately show ?thesis using assms by (simp add: parse_raw_key_def del: strip_prefix_Some_iff)
qed

lemma parse_raw_key_SomeD:
  assumes "parse_raw_key raw = Some (env, key_id, secret)"
  shows "raw = format_raw_key env key_id secret" "env = ''live'' \<or> env = ''test''"
    "length key_id = 16" "list_all is_lower_hex key_id" "length secret = 64"
    "list_all is_lower_hex secret"
  using assms
  by (auto simp: parse_raw_key_def format_raw_key_def bind_eq_Some_conv split_once_Some_iff
      split: if_splits prod.splits)

lemma fold_index_zip:
  assumes "length a = length b"
  shows "fold (\<lambda>i diff. diff OR (a ! i XOR b ! i)) [0..<length a] d =
    fold (\<lambda>(x, y) diff. diff OR (x XOR y)) (zip a b) (d :: byte)"
proof -
  have "zip a b = map (\<lambda>i. (a ! i, b ! i)) [0..<length a]"
    using assms by (intro nth_equalityI) auto
  then show ?thesis by (simp add: fold_map o_def)
qed

lemma keys_constant_time_eq_iff [simp]: "keys_constant_time_eq s t \<longleftrightarrow> s = t"
proof (cases "length s = length t")
  case True
  then have len: "length (as_bytes s) = length (as_bytes t)" by simp
  from True show ?thesis
    unfolding keys_constant_time_eq_def Let_def fold_index_zip [OF len] by (simp add: xor_fold_zero_acc)
qed (auto simp: keys_constant_time_eq_def)

lemma verify_secret_hash_iff:
  "verify_secret_hash X stored secret pepper allow_legacy \<longleftrightarrow>
     stored = hash_secret X secret pepper
   \<or> allow_legacy \<and> stored = ''sha256:'' @ to_hex (sha256 X (as_bytes secret))"
  by (auto simp: verify_secret_hash_def hash_secret_def starts_with_iff)

lemma derive_hex:
  assumes "externals_ok X"
  shows "length (derive_idempotency X ks purpose parts) = 64"
    and "list_all is_lower_hex (derive_idempotency X ks purpose parts)"
  using externals_okD(2) [OF assms]
  by (auto simp: derive_idempotency_def list_all_iff dest: to_hex_lower)

lemma list_all_take: "list_all P xs \<Longrightarrow> list_all P (take n xs)"
  by (auto simp: list_all_iff dest: in_set_takeD)

section \<open>The store as one caller sees it\<close>

definition stored_at :: "externals \<Rightarrow> kv_view \<Rightarrow> string \<Rightarrow> stored_key \<Rightarrow> bool" where
  "stored_at X \<sigma> key_id s \<longleftrightarrow>
     sk_key_id s = key_id \<and> (\<exists>raw r. \<sigma> (key_path key_id) = Some (raw, r) \<and> raw_key X raw = Some s)"

definition indexed :: "externals \<Rightarrow> kv_view \<Rightarrow> string \<Rightarrow> string list \<Rightarrow> bool" where
  "indexed X \<sigma> org_id ids \<longleftrightarrow>
     (case \<sigma> (org_index_path org_id) of
        None \<Rightarrow> ids = []
      | Some (raw, r) \<Rightarrow> raw_ids X raw = Some ids)"

lemma stored_at_decoded:
  assumes "stored_at X \<sigma> key_id s"
  shows "\<exists>v. decoded X (\<sigma> (key_path key_id)) =
      Inr (Some \<lparr>vv_value = v, vv_mod_revision = rev_of \<sigma> (key_path key_id)\<rparr>)
    \<and> decode_key key_id v = Inr (record_of_stored s)"
  using assms
  by (auto simp: stored_at_def decoded_def raw_key_def rev_of_def bind_eq_Some_conv result_simps)

lemma run_load_stored:
  assumes "kv_reliable X srv" "stored_at X \<sigma> key_id s"
  shows "run srv (load X kv key_id) \<sigma> c = (Inr (Some (record_of_stored s)), \<sigma>, c)"
  using stored_at_decoded [OF assms(2)]
  by (auto simp: load_def run_try run_kv_get [OF assms(1)])

lemma run_load_versioned_stored:
  assumes "kv_reliable X srv" "stored_at X \<sigma> key_id s"
  shows "run srv (load_versioned X kv key_id) \<sigma> c =
    (Inr (Some (record_of_stored s, rev_of \<sigma> (key_path key_id))), \<sigma>, c)"
  using stored_at_decoded [OF assms(2)]
  by (auto simp: load_versioned_def run_try run_get_versioned [OF assms(1)])

lemma indexed_decoded:
  assumes "indexed X \<sigma> org_id ids"
  shows "rbind (decoded X (\<sigma> (org_index_path org_id))) (\<lambda>found. case found of
      Some entry \<Rightarrow> rbind (ok_or (de_string_vec (vv_value entry)) InvalidValue)
                      (\<lambda>ids. Inr (ids, vv_mod_revision entry))
    | None \<Rightarrow> Inr ([], 0)) = Inr (ids, rev_of \<sigma> (org_index_path org_id))"
  using assms
  by (auto simp: indexed_def decoded_def raw_ids_def rev_of_def bind_eq_Some_conv split: option.splits)

lemma run_index_get_indexed:
  assumes "kv_reliable X srv" "indexed X \<sigma> org_id ids"
  shows "run srv (index_get X kv org_id) \<sigma> c = (Inr ids, \<sigma>, c)"
  using assms(2)
  by (auto simp: index_get_def run_try run_kv_get [OF assms(1)] indexed_def decoded_def raw_ids_def
      bind_eq_Some_conv split: option.splits)

lemma run_retry_first:
  assumes "run srv body \<sigma> c = (Some x, \<sigma>', c')"
  shows "run srv (cas_retry MAX_CAS_RETRIES e body) \<sigma> c = (x, \<sigma>', c')"
proof -
  have n: "MAX_CAS_RETRIES = Suc 7" by (simp add: MAX_CAS_RETRIES_def)
  show ?thesis unfolding n run_cas_retry_Suc assms by simp
qed

lemma run_index_add_present:
  assumes "kv_reliable X srv" "indexed X \<sigma> org_id ids" "key_id \<in> set ids"
  shows "run srv (index_add X kv org_id key_id) \<sigma> c = (Inr (), \<sigma>, c)"
  unfolding index_add_def
  by (rule run_retry_first)
     (simp add: index_add_attempt_def run_bind run_get_versioned [OF assms(1)]
       indexed_decoded [OF assms(2)] assms(3))

lemma run_index_add_absent:
  assumes "kv_reliable X srv" "indexed X \<sigma> org_id ids" "key_id \<notin> set ids"
  shows "\<exists>rv. rv \<noteq> 0 \<and> run srv (index_add X kv org_id key_id) \<sigma> c =
    (Inr (), \<sigma>(org_index_path org_id \<mapsto> (json_to_string X (str_vec_json (ids @ [key_id])), rv)), c)"
proof -
  obtain rv where rv: "rv \<noteq> 0" and put: "run srv (put_if_revision X kv (org_index_path org_id)
      (str_vec_json (ids @ [key_id])) (rev_of \<sigma> (org_index_path org_id))) \<sigma> c =
    (Inr Applied, \<sigma>(org_index_path org_id \<mapsto> (json_to_string X (str_vec_json (ids @ [key_id])), rv)), c)"
    by (rule run_put_applied [OF assms(1) refl])
  have "run srv (index_add X kv org_id key_id) \<sigma> c =
    (Inr (), \<sigma>(org_index_path org_id \<mapsto> (json_to_string X (str_vec_json (ids @ [key_id])), rv)), c)"
    unfolding index_add_def
    by (rule run_retry_first)
       (simp add: index_add_attempt_def run_bind run_get_versioned [OF assms(1)]
         indexed_decoded [OF assms(2)] assms(3) put)
  with rv show ?thesis by blast
qed

text \<open>Adding to the index makes the key indexed and touches nothing else.\<close>

lemma run_index_add:
  assumes "externals_ok X" "kv_reliable X srv" "indexed X \<sigma> org_id ids"
  shows "\<exists>\<sigma>'. run srv (index_add X kv org_id key_id) \<sigma> c = (Inr (), \<sigma>', c)
    \<and> indexed X \<sigma>' org_id (if key_id \<in> set ids then ids else ids @ [key_id])
    \<and> (\<forall>k. k \<noteq> org_index_path org_id \<longrightarrow> \<sigma>' k = \<sigma> k)
    \<and> (key_id \<in> set ids \<longrightarrow> \<sigma>' = \<sigma>)"
proof (cases "key_id \<in> set ids")
  case True
  with run_index_add_present [OF assms(2,3)] assms(3) show ?thesis by auto
next
  case False
  from run_index_add_absent [OF assms(2,3) False, of kv c] obtain rv where
    "run srv (index_add X kv org_id key_id) \<sigma> c =
      (Inr (), \<sigma>(org_index_path org_id \<mapsto> (json_to_string X (str_vec_json (ids @ [key_id])), rv)), c)"
    by blast
  then show ?thesis using False assms(1) by (auto simp: indexed_def raw_ids_def externals_okD)
qed

section \<open>A concrete store\<close>

definition demo_kv :: kv_client where
  "demo_kv = \<lparr>kv_base = ''http://kv'', kv_internal_secret = ''internal'', kv_storage_org = ''fiducia-auth''\<rparr>"

definition demo_ks :: key_store where
  "demo_ks = \<lparr>ks_kv = Some demo_kv, ks_idempotency_secret = [], ks_api_key_pepper = [],
              ks_allow_legacy_sha256 = False\<rparr>"

definition demo_mutation :: mutation_identity where
  "demo_mutation = \<lparr>mi_actor_id = ''u'', mi_idempotency_key = ''k''\<rparr>"

definition demo_key :: "string \<Rightarrow> bool \<Rightarrow> stored_key" where
  "demo_key key_id revoked =
     \<lparr>sk_key_id = key_id, sk_org_id = ''o'', sk_name = ''n'',
      sk_secret_hash = hash_secret demo (replicate 64 (CHR ''a'')) [],
      sk_create_idempotency_hash = ''c'', sk_last_rotation_idempotency_hash = None,
      sk_scopes = [''kv:read''], sk_created_ms = 5, sk_last_used_ms = None, sk_revoked = revoked,
      sk_version = 1, sk_env = ''live'', sk_require_idempotency = False\<rparr>"

definition id_a :: string where
  "id_a = replicate 16 (CHR ''a'')"

definition id_b :: string where
  "id_b = replicate 16 (CHR ''b'')"

definition demo_entry :: "json \<Rightarrow> (string \<times> u64) option" where
  "demo_entry v = Some (enc_json v, 1)"

definition demo_view :: kv_view where
  "demo_view = (\<lambda>_. None)
     (key_path id_a := demo_entry (stored_key_to_json (demo_key id_a False)),
      key_path id_b := demo_entry (stored_key_to_json (demo_key id_b True)),
      org_index_path ''o'' := demo_entry (str_vec_json [id_a, id_b]))"

lemma demo_kv_ks [simp]: "ks_kv demo_ks = Some demo_kv"
  by (simp add: demo_ks_def)

lemma ids_distinct [simp]: "id_a \<noteq> id_b" "id_b \<noteq> id_a"
  by (simp_all add: id_a_def id_b_def)

lemma demo_key_sel [simp]:
  "sk_key_id (demo_key i b) = i" "sk_org_id (demo_key i b) = ''o''" "sk_revoked (demo_key i b) = b"
  "sk_version (demo_key i b) = 1" "sk_last_rotation_idempotency_hash (demo_key i b) = None"
  "sk_env (demo_key i b) = ''live''"
  by (simp_all add: demo_key_def)

lemma demo_view_sel [simp]:
  "demo_view (key_path id_a) = Some (enc_json (stored_key_to_json (demo_key id_a False)), 1)"
  "demo_view (key_path id_b) = Some (enc_json (stored_key_to_json (demo_key id_b True)), 1)"
  "demo_view (org_index_path ''o'') = Some (enc_json (str_vec_json [id_a, id_b]), 1)"
  by (simp_all add: demo_view_def demo_entry_def)

lemma demo_view_stored [simp]:
  "stored_at demo demo_view id_a (demo_key id_a False)"
  "stored_at demo demo_view id_b (demo_key id_b True)"
  "indexed demo demo_view ''o'' [id_a, id_b]"
  by (simp_all add: stored_at_def indexed_def raw_key_def raw_ids_def)

lemma demo_view_positive [simp]: "revs_positive demo_view"
  by (auto simp: revs_positive_def demo_view_def demo_entry_def)

lemma demo_raw_parses [simp]:
  "parse_raw_key (format_raw_key ''live'' id_a (replicate 64 (CHR ''a''))) =
     Some (''live'', id_a, replicate 64 (CHR ''a''))"
  by (rule parse_format) (simp_all add: id_a_def list_all_iff is_lower_hex_def)

section \<open>Introspection\<close>

definition granted :: "stored_key \<Rightarrow> introspection" where
  "granted s =
     \<lparr>in_valid = True, in_org_id = Some (sk_org_id s), in_key_id = Some (sk_key_id s),
      in_scopes = filter (\<lambda>scope. \<not> is_admin_scope scope) (sk_scopes s),
      in_require_idempotency = sk_require_idempotency s\<rparr>"

lemma introspection_invalid_sel [simp]: "\<not> in_valid introspection_invalid"
  by (simp add: introspection_invalid_def)

lemma verify_valid_iff:
  "verify X (record_of_stored s) env secret pepper legacy = i \<and> in_valid i \<longleftrightarrow>
     \<not> sk_revoked s \<and> sk_env s = env
   \<and> verify_secret_hash X (sk_secret_hash s) secret pepper legacy \<and> i = granted s"
  by (auto simp: verify_def granted_def) (auto simp: record_of_stored_def)

definition load_result :: "externals \<Rightarrow> kv_view \<Rightarrow> string \<Rightarrow> store_error + api_key_record option" where
  "load_result X \<sigma> key_id =
     rbind (decoded X (\<sigma> (key_path key_id))) (\<lambda>e.
       case e of
         None \<Rightarrow> Inr None
       | Some vv \<Rightarrow> rbind (decode_key key_id (vv_value vv)) (\<lambda>r. Inr (Some r)))"

definition index_result :: "externals \<Rightarrow> kv_view \<Rightarrow> string \<Rightarrow> store_error + string list" where
  "index_result X \<sigma> org_id =
     rbind (decoded X (\<sigma> (org_index_path org_id))) (\<lambda>e.
       case e of
         None \<Rightarrow> Inr []
       | Some vv \<Rightarrow> ok_or (de_string_vec (vv_value vv)) InvalidValue)"

lemma run_load:
  assumes "kv_reliable X srv"
  shows "run srv (load X kv key_id) \<sigma> c = (load_result X \<sigma> key_id, \<sigma>, c)"
  by (cases "decoded X (\<sigma> (key_path key_id))")
     (auto simp: load_def load_result_def run_try run_kv_get [OF assms] split: option.split)

lemma run_index_get:
  assumes "kv_reliable X srv"
  shows "run srv (index_get X kv org_id) \<sigma> c = (index_result X \<sigma> org_id, \<sigma>, c)"
  by (cases "decoded X (\<sigma> (org_index_path org_id))")
     (auto simp: index_get_def index_result_def run_try run_kv_get [OF assms] split: option.split)

lemma load_result_found:
  "load_result X \<sigma> key_id = Inr (Some rec) \<longleftrightarrow> (\<exists>s. stored_at X \<sigma> key_id s \<and> rec = record_of_stored s)"
  by (cases "\<sigma> (key_path key_id)")
     (auto simp: load_result_def decoded_def stored_at_def raw_key_def result_simps bind_eq_Some_conv)

lemma index_result_found: "index_result X \<sigma> org_id = Inr ids \<longleftrightarrow> indexed X \<sigma> org_id ids"
  by (cases "\<sigma> (org_index_path org_id)")
     (auto simp: index_result_def decoded_def indexed_def raw_ids_def result_simps bind_eq_Some_conv)

lemma run_introspect:
  assumes "kv_reliable X srv" "ks_kv ks = Some kv" "parse_raw_key raw = Some (env, key_id, secret)"
  shows "fst (run srv (introspect X ks raw) \<sigma> c) =
      rbind (load_result X \<sigma> key_id) (\<lambda>found.
        case found of
          None \<Rightarrow> Inr introspection_invalid
        | Some rec \<Rightarrow> rbind (index_result X \<sigma> (ak_org_id rec)) (\<lambda>ids.
            Inr (if key_id \<in> set ids
                 then verify X rec env secret (ks_api_key_pepper ks) (ks_allow_legacy_sha256 ks)
                 else introspection_invalid)))"
  by (simp add: introspect_def assms(2,3) run_try run_load [OF assms(1)] run_index_get [OF assms(1)]
      Let_def split: sum.split option.split)

lemma introspect_granted_iff:
  assumes "kv_reliable X srv" and "ks_kv ks = Some kv"
  shows "(fst (run srv (introspect X ks raw) \<sigma> c) = Inr i \<and> in_valid i) \<longleftrightarrow>
    (\<exists>env key_id secret s ids.
       parse_raw_key raw = Some (env, key_id, secret) \<and> stored_at X \<sigma> key_id s
     \<and> indexed X \<sigma> (sk_org_id s) ids \<and> key_id \<in> set ids \<and> \<not> sk_revoked s \<and> sk_env s = env
     \<and> verify_secret_hash X (sk_secret_hash s) secret (ks_api_key_pepper ks) (ks_allow_legacy_sha256 ks)
     \<and> i = granted s)"
proof (cases "parse_raw_key raw")
  case None
  then show ?thesis by (auto simp: introspect_def)
next
  case (Some p)
  obtain env key_id secret where p: "parse_raw_key raw = Some (env, key_id, secret)"
    using Some by (cases p) auto
  define verified where "verified rec ids = (if key_id \<in> set ids
      then verify X rec env secret (ks_api_key_pepper ks) (ks_allow_legacy_sha256 ks)
      else introspection_invalid)" for rec ids
  have verified_iff: "verified (record_of_stored s) ids = i \<and> in_valid i \<longleftrightarrow>
      key_id \<in> set ids \<and> \<not> sk_revoked s \<and> sk_env s = env
    \<and> verify_secret_hash X (sk_secret_hash s) secret (ks_api_key_pepper ks) (ks_allow_legacy_sha256 ks)
    \<and> i = granted s" for s ids
    using verify_valid_iff [of X s env secret _ _ i] by (auto simp: verified_def)
  have "fst (run srv (introspect X ks raw) \<sigma> c) =
      rbind (load_result X \<sigma> key_id) (\<lambda>found.
        case found of
          None \<Rightarrow> Inr introspection_invalid
        | Some rec \<Rightarrow> rbind (index_result X \<sigma> (ak_org_id rec)) (\<lambda>ids. Inr (verified rec ids)))"
    by (simp only: run_introspect [OF assms p] verified_def)
  then have "(fst (run srv (introspect X ks raw) \<sigma> c) = Inr i \<and> in_valid i) \<longleftrightarrow>
      (\<exists>rec ids. load_result X \<sigma> key_id = Inr (Some rec) \<and> index_result X \<sigma> (ak_org_id rec) = Inr ids
        \<and> verified rec ids = i \<and> in_valid i)"
    by (auto simp: rbind_eq_Inr split: option.splits)
  also have "\<dots> \<longleftrightarrow> (\<exists>s ids. stored_at X \<sigma> key_id s \<and> indexed X \<sigma> (sk_org_id s) ids
        \<and> verified (record_of_stored s) ids = i \<and> in_valid i)"
    unfolding load_result_found index_result_found by (metis record_of_stored_sel(3))
  finally show ?thesis by (simp add: p verified_iff)
qed

text \<open>
  The exact meaning of a positive introspection: the raw credential parses, the record
  stored under its key id carries that id, the index of the owning organisation lists the
  key, the key is not revoked, environments agree and the secret verifies; the answer then
  names the stored organisation and key and the stored scopes without the administrative
  ones.  In every other case, errors included, the answer is not valid.
\<close>
lemma introspection_valid_iff:
  assumes "kv_reliable X srv" and "ks_kv ks = Some kv"
  shows "(fst (run srv (introspect X ks raw) \<sigma> c) = Inr i \<and> in_valid i) \<longleftrightarrow>
    (\<exists>env key_id secret s ids.
       parse_raw_key raw = Some (env, key_id, secret) \<and> stored_at X \<sigma> key_id s
     \<and> indexed X \<sigma> (sk_org_id s) ids \<and> key_id \<in> set ids \<and> \<not> sk_revoked s \<and> sk_env s = env
     \<and> verify_secret_hash X (sk_secret_hash s) secret (ks_api_key_pepper ks) (ks_allow_legacy_sha256 ks)
     \<and> i = granted s)"
  using assms by (rule introspect_granted_iff)

theorem introspection_valid_iff_witness:
  "fst (run ref_server (introspect demo demo_ks (format_raw_key ''live'' id_a (replicate 64 (CHR ''a''))))
     demo_view []) = Inr (granted (demo_key id_a False)) \<and> in_valid (granted (demo_key id_a False))"
proof -
  have "verify_secret_hash demo (sk_secret_hash (demo_key id_a False)) (replicate 64 (CHR ''a''))
      (ks_api_key_pepper demo_ks) (ks_allow_legacy_sha256 demo_ks)"
    by (simp add: verify_secret_hash_iff demo_key_def demo_ks_def)
  then have "\<exists>ids. indexed demo demo_view (sk_org_id (demo_key id_a False)) ids \<and> id_a \<in> set ids
      \<and> verify_secret_hash demo (sk_secret_hash (demo_key id_a False)) (replicate 64 (CHR ''a''))
          (ks_api_key_pepper demo_ks) (ks_allow_legacy_sha256 demo_ks)"
    by (intro exI [of _ "[id_a, id_b]"]) simp
  with demo_raw_parses demo_view_stored(1) show ?thesis
    unfolding introspection_valid_iff [OF ref_server_reliable demo_kv_ks]
    by (metis demo_key_sel(3,6))
qed

section \<open>Create\<close>

lemma stored_at_write:
  assumes "externals_ok X" "sk_key_id s = key_id"
  shows "stored_at X (\<sigma>(key_path key_id \<mapsto> (json_to_string X (stored_key_to_json s), rv))) key_id s"
  using assms by (simp add: stored_at_def raw_key_def externals_okD)

lemma stored_at_frame:
  assumes "stored_at X \<sigma> key_id s" "\<sigma>' (key_path key_id) = \<sigma> (key_path key_id)"
  shows "stored_at X \<sigma>' key_id s"
  using assms by (simp add: stored_at_def)

lemma create_record_wire:
  assumes "externals_ok X" "env = ''live'' \<or> env = ''test''"
  shows "parse_raw_key (format_raw_key env
      (ak_key_id (create_record X ks m org_id name scopes env ri now)) (create_secret X ks m org_id)) =
    Some (env, ak_key_id (create_record X ks m org_id name scopes env ri now), create_secret X ks m org_id)"
  by (rule parse_format)
     (use assms derive_hex [OF assms(1)] in
       \<open>simp_all add: create_record_def create_secret_def Let_def list_all_take\<close>)

lemma run_create_fresh:
  assumes "externals_ok X" "kv_reliable X srv" "ks_kv ks = Some kv"
    and "rec = create_record X ks m org_id name scopes env ri now" "\<sigma> (key_path (ak_key_id rec)) = None"
    and "indexed X \<sigma> org_id ids"
  obtains \<sigma>' c' where "run srv (create X ks m org_id name scopes env ri now) \<sigma> c =
      (Inr (format_raw_key env (ak_key_id rec) (create_secret X ks m org_id), meta_of_record rec), \<sigma>', c')"
    "stored_at X \<sigma>' (ak_key_id rec) (stored_of_record rec)"
    "rev_of \<sigma>' (key_path (ak_key_id rec)) \<noteq> 0"
    "indexed X \<sigma>' org_id (if ak_key_id rec \<in> set ids then ids else ids @ [ak_key_id rec])"
proof -
  let ?key = "key_path (ak_key_id rec)"
  let ?v = "stored_key_to_json (stored_of_record rec)"
  have "rev_of \<sigma> ?key = 0" using assms(5) by simp
  then obtain rv where rv: "rv \<noteq> 0" and put: "run srv (put_if_revision X kv ?key ?v 0) \<sigma> c =
      (Inr Applied, \<sigma>(?key \<mapsto> (json_to_string X ?v, rv)), c)"
    by (rule run_put_applied [OF assms(2)])
  let ?\<sigma> = "\<sigma>(?key \<mapsto> (json_to_string X ?v, rv))"
  have idx: "indexed X ?\<sigma> org_id ids" using assms(6) by (simp add: indexed_def)
  from run_index_add [OF assms(1,2) idx, of kv "ak_key_id rec" c] obtain \<sigma>' where
    add: "run srv (index_add X kv org_id (ak_key_id rec)) ?\<sigma> c = (Inr (), \<sigma>', c)"
      "indexed X \<sigma>' org_id (if ak_key_id rec \<in> set ids then ids else ids @ [ak_key_id rec])"
      "\<sigma>' ?key = ?\<sigma> ?key"
    by auto
  have "stored_at X ?\<sigma> (ak_key_id rec) (stored_of_record rec)"
    by (rule stored_at_write [OF assms(1)]) (simp add: stored_of_record_def)
  with add(3) have "stored_at X \<sigma>' (ak_key_id rec) (stored_of_record rec)"
    by (rule stored_at_frame [rotated])
  moreover have "rev_of \<sigma>' ?key = rv" using add(3) by (simp add: rev_of_def)
  moreover have "run srv (create X ks m org_id name scopes env ri now) \<sigma> c =
      (Inr (format_raw_key env (ak_key_id rec) (create_secret X ks m org_id), meta_of_record rec), \<sigma>',
       AList.update (ak_key_id rec) rec c)"
    by (simp add: create_def Let_def assms(3) assms(4) [symmetric] run_try put add(1))
  ultimately show ?thesis using rv add(2) that by simp
qed

lemma created_key_introspects:
  assumes "externals_ok X" and "kv_reliable X srv" and "ks_kv ks = Some kv"
    and "env = ''live'' \<or> env = ''test''"
    and "rec = create_record X ks m org_id name scopes env ri now"
    and "\<sigma> (key_path (ak_key_id rec)) = None" and "indexed X \<sigma> org_id ids"
  shows "\<exists>raw \<sigma>' c'. run srv (create X ks m org_id name scopes env ri now) \<sigma> c =
      (Inr (raw, meta_of_record rec), \<sigma>', c')
    \<and> fst (run srv (introspect X ks raw) \<sigma>' c') =
        Inr \<lparr>in_valid = True, in_org_id = Some org_id, in_key_id = Some (ak_key_id rec),
             in_scopes = filter (\<lambda>scope. \<not> is_admin_scope scope) scopes, in_require_idempotency = ri\<rparr>"
proof -
  let ?raw = "format_raw_key env (ak_key_id rec) (create_secret X ks m org_id)"
  let ?s = "stored_of_record rec"
  obtain \<sigma>' c' where
    run: "run srv (create X ks m org_id name scopes env ri now) \<sigma> c = (Inr (?raw, meta_of_record rec), \<sigma>', c')"
    and st: "stored_at X \<sigma>' (ak_key_id rec) ?s"
    and idx: "indexed X \<sigma>' org_id (if ak_key_id rec \<in> set ids then ids else ids @ [ak_key_id rec])"
    by (rule run_create_fresh [OF assms(1-3,5-7)])
  have rec: "ak_org_id rec = org_id" "\<not> ak_revoked rec" "ak_env rec = env" "ak_scopes rec = scopes"
    "ak_require_idempotency rec = ri"
    "ak_secret_hash rec = hash_secret X (create_secret X ks m org_id) (ks_api_key_pepper ks)"
    by (simp_all add: assms(5) create_record_def create_secret_def Let_def)
  have parse: "parse_raw_key ?raw = Some (env, ak_key_id rec, create_secret X ks m org_id)"
    unfolding assms(5) by (rule create_record_wire [OF assms(1,4)])
  have load: "load_result X \<sigma>' (ak_key_id rec) = Inr (Some rec)"
    using st by (auto simp: load_result_found intro!: exI [of _ ?s])
  have "index_result X \<sigma>' org_id = Inr (if ak_key_id rec \<in> set ids then ids else ids @ [ak_key_id rec])"
    using idx by (simp only: index_result_found)
  then have "fst (run srv (introspect X ks ?raw) \<sigma>' c') =
      Inr (verify X rec env (create_secret X ks m org_id) (ks_api_key_pepper ks) (ks_allow_legacy_sha256 ks))"
    unfolding run_introspect [OF assms(2,3) parse] by (simp add: load rec(1))
  also have "\<dots> = Inr \<lparr>in_valid = True, in_org_id = Some org_id, in_key_id = Some (ak_key_id rec),
      in_scopes = filter (\<lambda>scope. \<not> is_admin_scope scope) scopes, in_require_idempotency = ri\<rparr>"
    by (simp add: verify_def rec verify_secret_hash_iff)
  finally show ?thesis using run by blast
qed

text \<open>
  A created key works: on an answering service where the derived key id is free, create
  returns a raw credential that introspects as valid at once, with the organisation, key id
  and policy of the request and its scopes without the administrative ones.
\<close>
lemma create_then_introspect:
  assumes "externals_ok X" and "kv_reliable X srv" and "ks_kv ks = Some kv"
    and "env = ''live'' \<or> env = ''test''"
    and "rec = create_record X ks m org_id name scopes env ri now"
    and "\<sigma> (key_path (ak_key_id rec)) = None" and "indexed X \<sigma> org_id ids"
  shows "\<exists>raw \<sigma>' c'. run srv (create X ks m org_id name scopes env ri now) \<sigma> c =
      (Inr (raw, meta_of_record rec), \<sigma>', c')
    \<and> fst (run srv (introspect X ks raw) \<sigma>' c') =
        Inr \<lparr>in_valid = True, in_org_id = Some org_id, in_key_id = Some (ak_key_id rec),
             in_scopes = filter (\<lambda>scope. \<not> is_admin_scope scope) scopes, in_require_idempotency = ri\<rparr>"
  using assms by (rule created_key_introspects)

theorem create_then_introspect_witness:
  "\<exists>rec raw \<sigma>' c'. run ref_server (create demo demo_ks demo_mutation ''o'' ''n'' [''admin'', ''kv:read''] ''live'' True 5)
      (\<lambda>_. None) [] = (Inr (raw, meta_of_record rec), \<sigma>', c')
    \<and> fst (run ref_server (introspect demo demo_ks raw) \<sigma>' c') =
        Inr \<lparr>in_valid = True, in_org_id = Some ''o'', in_key_id = Some (ak_key_id rec),
             in_scopes = [''kv:read''], in_require_idempotency = True\<rparr>"
proof -
  have "indexed demo (\<lambda>_. None) ''o'' []" by (simp add: indexed_def)
  from create_then_introspect [OF demo_ok ref_server_reliable demo_kv_ks _ refl _ this,
      of "''live''" demo_mutation "''n''" "[''admin'', ''kv:read'']" True 5 "[]"]
  show ?thesis by (simp add: is_admin_scope_def starts_with_def) blast
qed

text \<open>
  Creation is idempotent: repeating a create whose derived key id is already stored and
  indexed never writes; the exact same request, at any later time, returns the same raw
  credential and the stored metadata, and a different request under the same idempotency
  key is refused as a conflict.
\<close>
lemma create_replay:
  assumes "externals_ok X" and "kv_reliable X srv" and "ks_kv ks = Some kv"
    and "rec = create_record X ks m org_id name scopes env ri now"
    and "stored_at X \<sigma> (ak_key_id rec) s" and "rev_of \<sigma> (key_path (ak_key_id rec)) \<noteq> 0"
    and "indexed X \<sigma> org_id ids" and "ak_key_id rec \<in> set ids"
  shows "\<exists>c'. run srv (create X ks m org_id name scopes env ri now) \<sigma> c =
    (if same_create_request (record_of_stored s) rec
     then Inr (format_raw_key env (ak_key_id rec) (create_secret X ks m org_id),
               meta_of_record (record_of_stored s))
     else Inl IdempotencyConflict, \<sigma>, c')"
proof -
  have put: "run srv (put_if_revision X kv (key_path (ak_key_id rec))
      (stored_key_to_json (stored_of_record rec)) 0) \<sigma> c = (Inr Mismatch, \<sigma>, c)"
    by (rule run_put_mismatch [OF assms(2,6)])
  have load: "run srv (load X kv (ak_key_id rec)) \<sigma> c = (Inr (Some (record_of_stored s)), \<sigma>, c)"
    by (rule run_load_stored [OF assms(2,5)])
  have add: "run srv (index_add X kv org_id (ak_key_id rec)) \<sigma> c = (Inr (), \<sigma>, c)"
    by (rule run_index_add_present [OF assms(2,7,8)])
  show ?thesis
    by (simp add: create_def Let_def assms(3) assms(4) [symmetric] run_try put load add)
qed

theorem create_replay_witness:
  "\<exists>rec \<sigma> raw meta c'. rec = create_record demo demo_ks demo_mutation ''o'' ''n'' [''kv:read''] ''live'' True 5
    \<and> stored_at demo \<sigma> (ak_key_id rec) (stored_of_record rec)
    \<and> run ref_server (create demo demo_ks demo_mutation ''o'' ''n'' [''kv:read''] ''live'' True 5) \<sigma> [] =
        (Inr (raw, meta), \<sigma>, c')"
proof -
  define rec where "rec = create_record demo demo_ks demo_mutation ''o'' ''n'' [''kv:read''] ''live'' True 5"
  define \<sigma> :: kv_view where "\<sigma> = (\<lambda>_. None)
    (key_path (ak_key_id rec) := demo_entry (stored_key_to_json (stored_of_record rec)),
     org_index_path ''o'' := demo_entry (str_vec_json [ak_key_id rec]))"
  have st: "stored_at demo \<sigma> (ak_key_id rec) (stored_of_record rec)" "indexed demo \<sigma> ''o'' [ak_key_id rec]"
    "rev_of \<sigma> (key_path (ak_key_id rec)) \<noteq> 0"
    by (simp_all add: \<sigma>_def demo_entry_def stored_at_def indexed_def raw_key_def raw_ids_def rev_of_def)
       (simp add: stored_of_record_def)
  from create_replay [OF demo_ok ref_server_reliable demo_kv_ks rec_def st(1,3,2), of "[]"]
  have "\<exists>raw meta c'. run ref_server (create demo demo_ks demo_mutation ''o'' ''n'' [''kv:read''] ''live'' True 5) \<sigma> [] =
      (Inr (raw, meta), \<sigma>, c')"
    by (auto simp: same_create_request_def)
  with rec_def st(1) show ?thesis by blast
qed

section \<open>Revoke\<close>

lemma next_version_ok: "unat v + 1 < 2 ^ 64 \<Longrightarrow> next_version v = Inr (v + 1)"
  by (simp add: next_version_def checked_add_def)

lemma stored_of_record_update:
  "stored_of_record ((record_of_stored s)\<lparr>ak_revoked := b, ak_version := w\<rparr>) =
     s\<lparr>sk_revoked := b, sk_version := w\<rparr>"
  "stored_of_record ((record_of_stored s)\<lparr>ak_secret_hash := h,
      ak_last_rotation_idempotency_hash := mk, ak_version := w\<rparr>) =
     s\<lparr>sk_secret_hash := h, sk_last_rotation_idempotency_hash := mk, sk_version := w\<rparr>"
  by (simp_all add: stored_of_record_def record_of_stored_def)

lemma stored_at_key_id: "stored_at X \<sigma> key_id s \<Longrightarrow> sk_key_id s = key_id"
  by (simp add: stored_at_def)

lemma run_revoke_attempt_active:
  assumes "externals_ok X" "kv_reliable X srv"
    and "stored_at X \<sigma> key_id s" "sk_org_id s = org_id" "\<not> sk_revoked s"
    and "unat (sk_version s) + 1 < 2 ^ 64"
  obtains rv c' where "run srv (revoke_attempt X kv org_id key_id) \<sigma> c =
      (Some (Inr True), \<sigma>(key_path key_id \<mapsto> (json_to_string X
         (stored_key_to_json (s\<lparr>sk_revoked := True, sk_version := sk_version s + 1\<rparr>)), rv)), c')"
proof -
  let ?s' = "s\<lparr>sk_revoked := True, sk_version := sk_version s + 1\<rparr>"
  let ?\<sigma>' = "\<lambda>rv. \<sigma>(key_path key_id \<mapsto> (json_to_string X (stored_key_to_json ?s'), rv))"
  obtain rv where put: "run srv (put_if_revision X kv (key_path key_id) (stored_key_to_json ?s')
      (rev_of \<sigma> (key_path key_id))) \<sigma> c = (Inr Applied, ?\<sigma>' rv, c)"
    by (rule run_put_applied [OF assms(2) refl])
  have "run srv (revoke_attempt X kv org_id key_id) \<sigma> c =
      (Some (Inr True), ?\<sigma>' rv, AList.update key_id (record_of_stored ?s') c)"
    by (simp add: revoke_attempt_def run_bind run_load_versioned_stored [OF assms(2,3)] assms(4,5)
        next_version_ok [OF assms(6)] Let_def stored_of_record_update put)
       (simp add: record_of_stored_def)
  then show ?thesis by (rule that)
qed

lemma run_revoke_active:
  assumes "externals_ok X" "kv_reliable X srv" "ks_kv ks = Some kv"
    and "stored_at X \<sigma> key_id s" "sk_org_id s = org_id" "\<not> sk_revoked s"
    and "unat (sk_version s) + 1 < 2 ^ 64"
  obtains rv c' where "run srv (revoke_key_of X ks org_id key_id) \<sigma> c =
      (Inr True, \<sigma>(key_path key_id \<mapsto> (json_to_string X
         (stored_key_to_json (s\<lparr>sk_revoked := True, sk_version := sk_version s + 1\<rparr>)), rv)), c')"
  using run_revoke_attempt_active [where kv = kv and c = c, OF assms(1,2,4-7)]
  unfolding revoke_key_of_def assms(3) option.case by (metis run_retry_first)

text \<open>
  Revocation takes effect at once and touches nothing else: revoking an active key of the
  organisation reports success, stores the same record revoked with the next version, leaves
  every other entry as it was, and from then on no credential with that key id introspects
  as valid.
\<close>
lemma revoke_takes_effect:
  assumes "externals_ok X" and "kv_reliable X srv" and "ks_kv ks = Some kv"
    and "stored_at X \<sigma> key_id s" and "sk_org_id s = org_id" and "\<not> sk_revoked s"
    and "unat (sk_version s) + 1 < 2 ^ 64"
  shows "\<exists>\<sigma>' c'. run srv (revoke_key_of X ks org_id key_id) \<sigma> c = (Inr True, \<sigma>', c')
    \<and> stored_at X \<sigma>' key_id (s\<lparr>sk_revoked := True, sk_version := sk_version s + 1\<rparr>)
    \<and> (\<forall>k. k \<noteq> key_path key_id \<longrightarrow> \<sigma>' k = \<sigma> k)
    \<and> (\<forall>raw env secret i. parse_raw_key raw = Some (env, key_id, secret) \<longrightarrow>
         fst (run srv (introspect X ks raw) \<sigma>' c') = Inr i \<longrightarrow> \<not> in_valid i)"
proof -
  let ?s' = "s\<lparr>sk_revoked := True, sk_version := sk_version s + 1\<rparr>"
  obtain rv c' where run: "run srv (revoke_key_of X ks org_id key_id) \<sigma> c =
      (Inr True, \<sigma>(key_path key_id \<mapsto> (json_to_string X (stored_key_to_json ?s'), rv)), c')"
    by (rule run_revoke_active [OF assms])
  let ?\<sigma>' = "\<sigma>(key_path key_id \<mapsto> (json_to_string X (stored_key_to_json ?s'), rv))"
  have st: "stored_at X ?\<sigma>' key_id ?s'"
    using stored_at_key_id [OF assms(4)] by (intro stored_at_write [OF assms(1)]) simp
  then have load: "load_result X ?\<sigma>' key_id = Inr (Some (record_of_stored ?s'))"
    by (metis load_result_found)
  have "\<not> in_valid i" if "parse_raw_key raw = Some (env, key_id, secret)"
    "fst (run srv (introspect X ks raw) ?\<sigma>' c') = Inr i" for raw env secret i
    using that(2) unfolding run_introspect [OF assms(2,3) that(1)] load
    by (auto simp: rbind_eq_Inr verify_def split: if_splits)
  with run st show ?thesis by (intro exI [of _ ?\<sigma>'] exI [of _ c']) auto
qed

theorem revoke_takes_effect_witness:
  "\<exists>\<sigma>' c'. run ref_server (revoke_key_of demo demo_ks ''o'' id_a) demo_view [] = (Inr True, \<sigma>', c')
    \<and> stored_at demo \<sigma>' id_a ((demo_key id_a False)\<lparr>sk_revoked := True, sk_version := 2\<rparr>)"
  using revoke_takes_effect [OF demo_ok ref_server_reliable demo_kv_ks demo_view_stored(1), of "''o''" "[]"]
  by auto

text \<open>
  A revocation that must not change anything does not: for a key of another organisation
  the answer is negative, for a key that is already revoked it is positive, and for a key at
  the last version it is an overflow error; in all three cases the store is untouched.
\<close>
lemma revoke_without_effect:
  assumes "kv_reliable X srv" and "ks_kv ks = Some kv" and "stored_at X \<sigma> key_id s"
    and "sk_org_id s \<noteq> org_id \<or> sk_revoked s \<or> sk_version s = - 1"
  shows "\<exists>c'. run srv (revoke_key_of X ks org_id key_id) \<sigma> c =
    (if sk_org_id s \<noteq> org_id then Inr False
     else if sk_revoked s then Inr True else Inl VersionOverflow, \<sigma>, c')"
proof -
  have "next_version (- 1) = Inl VersionOverflow"
    by (simp add: next_version_def checked_add_def unsigned_minus_1_eq_mask mask_eq_exp_minus_1)
  then have "\<exists>c'. run srv (revoke_attempt X kv org_id key_id) \<sigma> c =
    (Some (if sk_org_id s \<noteq> org_id then Inr False
     else if sk_revoked s then Inr True else Inl VersionOverflow), \<sigma>, c')"
    using assms(4) by (auto simp: revoke_attempt_def run_bind run_load_versioned_stored [OF assms(1,3)])
  then show ?thesis
    unfolding revoke_key_of_def assms(2) option.case by (metis run_retry_first)
qed

theorem revoke_without_effect_witness:
  "\<exists>c'. run ref_server (revoke_key_of demo demo_ks ''other'' id_a) demo_view [] = (Inr False, demo_view, c')"
  using revoke_without_effect [OF ref_server_reliable demo_kv_ks demo_view_stored(1), of "''other''" "[]"]
  by simp

section \<open>Rotate\<close>

lemma run_rotate_active:
  assumes "externals_ok X" "kv_reliable X srv" "ks_kv ks = Some kv"
    and "stored_at X \<sigma> key_id s" "sk_org_id s = org_id" "\<not> sk_revoked s"
    and "unat (sk_version s) + 1 < 2 ^ 64"
    and "sk_last_rotation_idempotency_hash s \<noteq> Some (rotate_marker X ks actor idem org_id key_id)"
    and "s' = s\<lparr>sk_secret_hash := hash_secret X (rotate_secret X ks actor idem org_id key_id) (ks_api_key_pepper ks),
          sk_last_rotation_idempotency_hash := Some (rotate_marker X ks actor idem org_id key_id),
          sk_version := sk_version s + 1\<rparr>"
  obtains rv c' where "run srv (rotate_key_of X ks actor idem org_id key_id) \<sigma> c =
      (Inr (Some (format_raw_key (sk_env s) key_id (rotate_secret X ks actor idem org_id key_id),
                  meta_of_record (record_of_stored s'))),
       \<sigma>(key_path key_id \<mapsto> (json_to_string X (stored_key_to_json s'), rv)), c')"
proof -
  let ?\<sigma>' = "\<lambda>rv. \<sigma>(key_path key_id \<mapsto> (json_to_string X (stored_key_to_json s'), rv))"
  let ?marker = "rotate_marker X ks actor idem org_id key_id"
  let ?secret = "rotate_secret X ks actor idem org_id key_id"
  let ?answer = "Inr (Some (format_raw_key (sk_env s) key_id ?secret, meta_of_record (record_of_stored s')))"
  obtain rv where put: "run srv (put_if_revision X kv (key_path key_id) (stored_key_to_json s')
      (rev_of \<sigma> (key_path key_id))) \<sigma> c = (Inr Applied, ?\<sigma>' rv, c)"
    by (rule run_put_applied [OF assms(2) refl])
  have rec: "(record_of_stored s)\<lparr>ak_secret_hash := hash_secret X ?secret (ks_api_key_pepper ks),
      ak_last_rotation_idempotency_hash := Some ?marker, ak_version := sk_version s + 1\<rparr> =
    record_of_stored s'"
    by (simp add: assms(9) record_of_stored_def)
  have "run srv (rotate_attempt X kv org_id key_id ?marker ?secret
        (hash_secret X ?secret (ks_api_key_pepper ks))) \<sigma> c =
      (Some ?answer, ?\<sigma>' rv, AList.update key_id (record_of_stored s') c)"
    using assms(6,8) stored_at_key_id [OF assms(4)]
    by (simp add: rotate_attempt_def run_bind run_load_versioned_stored [OF assms(2,4)] assms(5)
        next_version_ok [OF assms(7)] Let_def rec put)
       (simp add: assms(9))
  then have "run srv (rotate_key_of X ks actor idem org_id key_id) \<sigma> c =
      (?answer, ?\<sigma>' rv, AList.update key_id (record_of_stored s') c)"
    unfolding rotate_key_of_def assms(3) option.case Let_def by (rule run_retry_first)
  then show ?thesis by (rule that)
qed

lemma run_rotate_replay:
  assumes "kv_reliable X srv" "ks_kv ks = Some kv" "stored_at X \<sigma> key_id s" "sk_org_id s = org_id"
    and "sk_last_rotation_idempotency_hash s = Some (rotate_marker X ks actor idem org_id key_id)"
    and "sk_secret_hash s = hash_secret X (rotate_secret X ks actor idem org_id key_id) (ks_api_key_pepper ks)"
  shows "run srv (rotate_key_of X ks actor idem org_id key_id) \<sigma> c =
      (Inr (Some (format_raw_key (sk_env s) key_id (rotate_secret X ks actor idem org_id key_id),
                  meta_of_record (record_of_stored s))), \<sigma>, c)"
  unfolding rotate_key_of_def assms(2) option.case Let_def
  using stored_at_key_id [OF assms(3)]
  by (intro run_retry_first)
     (simp add: rotate_attempt_def run_bind run_load_versioned_stored [OF assms(1,3)] assms(4-6))

text \<open>After a rotation the credentials of the key are those with the new keyed hash.\<close>

lemma rotated_introspect_iff:
  assumes "kv_reliable X srv" "ks_kv ks = Some kv" "stored_at X \<sigma> key_id s" "\<not> sk_revoked s"
    and "sk_secret_hash s = hash_secret X new (ks_api_key_pepper ks)"
    and "indexed X \<sigma> (sk_org_id s) ids" "key_id \<in> set ids" "parse_raw_key raw = Some (env, key_id, secret)"
  shows "(fst (run srv (introspect X ks raw) \<sigma> c) = Inr i \<and> in_valid i) \<longleftrightarrow>
    env = sk_env s \<and> hmac_sha256 X (ks_api_key_pepper ks) (as_bytes secret) = hmac_sha256 X (ks_api_key_pepper ks) (as_bytes new)
    \<and> i = granted s"
proof -
  have one: "t = s" if "stored_at X \<sigma> key_id t" for t
    using that assms(3) unfolding stored_at_def by (elim conjE exE) (metis option.inject prod.inject)
  have verify: "verify_secret_hash X (sk_secret_hash s) secret (ks_api_key_pepper ks) legacy \<longleftrightarrow>
      hmac_sha256 X (ks_api_key_pepper ks) (as_bytes secret) = hmac_sha256 X (ks_api_key_pepper ks) (as_bytes new)" for legacy
    by (auto simp: verify_secret_hash_iff assms(5) hash_secret_def)
  show ?thesis
    unfolding introspect_granted_iff [OF assms(1,2)]
  proof (intro iffI)
    assume "env = sk_env s \<and> hmac_sha256 X (ks_api_key_pepper ks) (as_bytes secret) =
      hmac_sha256 X (ks_api_key_pepper ks) (as_bytes new) \<and> i = granted s"
    with assms(3,4,6-8) verify show "\<exists>env key_id secret s ids. parse_raw_key raw = Some (env, key_id, secret)
      \<and> stored_at X \<sigma> key_id s \<and> indexed X \<sigma> (sk_org_id s) ids \<and> key_id \<in> set ids \<and> \<not> sk_revoked s \<and> sk_env s = env
      \<and> verify_secret_hash X (sk_secret_hash s) secret (ks_api_key_pepper ks) (ks_allow_legacy_sha256 ks) \<and> i = granted s"
      by blast
  next
    assume "\<exists>env key_id secret s ids. parse_raw_key raw = Some (env, key_id, secret)
      \<and> stored_at X \<sigma> key_id s \<and> indexed X \<sigma> (sk_org_id s) ids \<and> key_id \<in> set ids \<and> \<not> sk_revoked s \<and> sk_env s = env
      \<and> verify_secret_hash X (sk_secret_hash s) secret (ks_api_key_pepper ks) (ks_allow_legacy_sha256 ks) \<and> i = granted s"
    then obtain t where "stored_at X \<sigma> key_id t" "sk_env t = env" "i = granted t"
      "verify_secret_hash X (sk_secret_hash t) secret (ks_api_key_pepper ks) (ks_allow_legacy_sha256 ks)"
      using assms(8) by (elim exE conjE) simp
    with one [of t] verify show "env = sk_env s \<and> hmac_sha256 X (ks_api_key_pepper ks) (as_bytes secret) =
      hmac_sha256 X (ks_api_key_pepper ks) (as_bytes new) \<and> i = granted s"
      by blast
  qed
qed

text \<open>
  C12. Rotation replaces the secret.  Rotating an active, listed key stores the same record with the keyed hash of the new
  secret, the marker of this request and the next version, and changes no other entry.  Afterwards a
  credential of that key is valid exactly if it names the environment of the key and its secret has the same HMAC
  under the pepper as the new secret, so the new secret works and every other one, the replaced one included, needs a
  collision of the HMAC; legacy hashes are out, since the new hash is keyed.  The returned credential itself introspects as valid,
  for the key ids and environments that the service issues.  Repeating the request with the same
  idempotency key returns the same credential again and writes nothing; the comments and the reply field that
  speak of a secret shown only once do not describe this branch.
\<close>
theorem rotate_replaces_secret:
  assumes "externals_ok X" and "kv_reliable X srv" and "ks_kv ks = Some kv"
    and "stored_at X \<sigma> key_id s" and "sk_org_id s = org_id" and "\<not> sk_revoked s"
    and "unat (sk_version s) + 1 < 2 ^ 64"
    and "sk_last_rotation_idempotency_hash s \<noteq> Some (rotate_marker X ks actor idem org_id key_id)"
    and "s' = s\<lparr>sk_secret_hash := hash_secret X (rotate_secret X ks actor idem org_id key_id) (ks_api_key_pepper ks),
          sk_last_rotation_idempotency_hash := Some (rotate_marker X ks actor idem org_id key_id),
          sk_version := sk_version s + 1\<rparr>"
    and "answer = (format_raw_key (sk_env s) key_id (rotate_secret X ks actor idem org_id key_id),
                   meta_of_record (record_of_stored s'))"
    and "indexed X \<sigma> org_id ids" and "key_id \<in> set ids"
  shows "\<exists>\<sigma>' c'. run srv (rotate_key_of X ks actor idem org_id key_id) \<sigma> c = (Inr (Some answer), \<sigma>', c')
    \<and> stored_at X \<sigma>' key_id s' \<and> (\<forall>k. k \<noteq> key_path key_id \<longrightarrow> \<sigma>' k = \<sigma> k)
    \<and> (\<forall>raw env secret. parse_raw_key raw = Some (env, key_id, secret) \<longrightarrow>
         ((\<exists>i. fst (run srv (introspect X ks raw) \<sigma>' c') = Inr i \<and> in_valid i) \<longleftrightarrow>
            env = sk_env s \<and> hmac_sha256 X (ks_api_key_pepper ks) (as_bytes secret) =
              hmac_sha256 X (ks_api_key_pepper ks) (as_bytes (rotate_secret X ks actor idem org_id key_id))))
    \<and> ((sk_env s = ''live'' \<or> sk_env s = ''test'') \<and> length key_id = 16 \<and> list_all is_lower_hex key_id \<longrightarrow>
         fst (run srv (introspect X ks (fst answer)) \<sigma>' c') = Inr (granted s'))
    \<and> run srv (rotate_key_of X ks actor idem org_id key_id) \<sigma>' c' = (Inr (Some answer), \<sigma>', c')"
proof -
  let ?new = "rotate_secret X ks actor idem org_id key_id"
  obtain rv c' where run: "run srv (rotate_key_of X ks actor idem org_id key_id) \<sigma> c =
      (Inr (Some answer), \<sigma>(key_path key_id \<mapsto> (json_to_string X (stored_key_to_json s'), rv)), c')"
    unfolding assms(10) by (rule run_rotate_active [OF assms(1-9)])
  let ?\<sigma>' = "\<sigma>(key_path key_id \<mapsto> (json_to_string X (stored_key_to_json s'), rv))"
  have st: "stored_at X ?\<sigma>' key_id s'"
    using stored_at_key_id [OF assms(4)] by (intro stored_at_write [OF assms(1)]) (simp add: assms(9))
  have s': "\<not> sk_revoked s'" "sk_secret_hash s' = hash_secret X ?new (ks_api_key_pepper ks)" "sk_env s' = sk_env s"
    using assms(6) by (simp_all add: assms(9))
  have ix: "indexed X ?\<sigma>' (sk_org_id s') ids" using assms(5,11) by (simp add: assms(9) indexed_def)
  note valid = rotated_introspect_iff [where \<sigma> = ?\<sigma>' and c = c', OF assms(2,3) st s'(1,2) ix assms(12)]
  have "fst (run srv (introspect X ks (fst answer)) ?\<sigma>' c') = Inr (granted s')"
    if "(sk_env s = ''live'' \<or> sk_env s = ''test'') \<and> length key_id = 16 \<and> list_all is_lower_hex key_id"
  proof -
    have "parse_raw_key (fst answer) = Some (sk_env s, key_id, ?new)"
      using that derive_hex [OF assms(1)] by (simp add: assms(10) parse_format rotate_secret_def)
    from valid [OF this, of "granted s'"] show ?thesis by (simp add: s'(3))
  qed
  moreover have "(\<exists>i. fst (run srv (introspect X ks raw) ?\<sigma>' c') = Inr i \<and> in_valid i) \<longleftrightarrow>
      env = sk_env s \<and> hmac_sha256 X (ks_api_key_pepper ks) (as_bytes secret) = hmac_sha256 X (ks_api_key_pepper ks) (as_bytes ?new)"
    if "parse_raw_key raw = Some (env, key_id, secret)" for raw env secret
    unfolding valid [OF that] s'(3) by blast
  moreover have "run srv (rotate_key_of X ks actor idem org_id key_id) ?\<sigma>' c' = (Inr (Some answer), ?\<sigma>', c')"
    using run_rotate_replay [OF assms(2,3) st, of org_id actor idem c'] assms(5) by (simp add: assms(9,10))
  ultimately show ?thesis using run st by (intro exI [of _ ?\<sigma>'] exI [of _ c']) auto
qed

theorem rotate_replaces_secret_witness:
  "\<exists>answer \<sigma>' c'. run ref_server (rotate_key_of demo demo_ks ''u'' ''k'' ''o'' id_a) demo_view [] =
      (Inr (Some answer), \<sigma>', c')
    \<and> (\<exists>i. fst (run ref_server (introspect demo demo_ks (fst answer)) \<sigma>' c') = Inr i \<and> in_valid i)
    \<and> run ref_server (rotate_key_of demo demo_ks ''u'' ''k'' ''o'' id_a) \<sigma>' c' = (Inr (Some answer), \<sigma>', c')"
proof -
  have "sk_last_rotation_idempotency_hash (demo_key id_a False) \<noteq> Some (rotate_marker demo demo_ks ''u'' ''k'' ''o'' id_a)"
    by (simp add: demo_key_def)
  note rotated = rotate_replaces_secret [OF demo_ok ref_server_reliable demo_kv_ks demo_view_stored(1) _ _ _ this refl refl
      demo_view_stored(3), of "[]"]
  have id: "(sk_env (demo_key id_a False) = ''live'' \<or> sk_env (demo_key id_a False) = ''test'') \<and> length id_a = 16
      \<and> list_all is_lower_hex id_a"
    by (simp add: demo_key_def id_a_def list_all_iff is_lower_hex_def)
  have valid: "in_valid (granted k)" for k by (simp add: granted_def)
  show ?thesis
    by (rule exE [OF rotated])
       (simp, simp, simp add: demo_key_def, simp, elim exE conjE, intro exI conjI, assumption, erule mp [OF _ id], rule valid, assumption)
qed

section \<open>Every interleaving\<close>

text \<open>
  C11. The API-key lifecycle is monotonic and race-safe: in every interleaving of creations,
  rotations, revocations, listings and introspections by any number of auth replicas on a
  storage service that keeps its compare-and-set contract, a stored key keeps its identity,
  owner, scopes and policy, its version never decreases and identifies the record, and once
  the key is revoked its record never changes again.
\<close>
theorem api_key_lifecycle_race_safe:
  assumes "externals_ok X" and "kv_contract X server" and "revs_positive \<sigma>"
    and "(sys_step server (key_ops X))\<^sup>*\<^sup>* (sys_init \<sigma> l) s"
    and "(sys_step server (key_ops X))\<^sup>*\<^sup>* s s'"
    and "sys_kv s (key_path key_id) = Some (raw, r)" and "raw_key X raw = Some k"
  shows "\<exists>raw' r' k'. sys_kv s' (key_path key_id) = Some (raw', r') \<and> r \<le> r'
           \<and> raw_key X raw' = Some k' \<and> key_evolves k k'"
proof -
  from key_evolution.entry_evolves [OF assms(2-6)] obtain raw' r' where
    e: "sys_kv s' (key_path key_id) = Some (raw', r')" "r \<le> r'" "key_le X (key_path key_id) raw raw'"
    by blast
  from e(3) assms(1,7) have "\<exists>k'. raw_key X raw' = Some k' \<and> key_evolves k k'"
    by (auto simp: key_le_def)
  with e show ?thesis by blast
qed

definition revoked_in :: "externals \<Rightarrow> string \<Rightarrow> kv_view \<Rightarrow> bool" where
  "revoked_in X key_id \<sigma> \<longleftrightarrow>
     (\<exists>raw r k. \<sigma> (key_path key_id) = Some (raw, r) \<and> raw_key X raw = Some k \<and> sk_revoked k)"

definition denies :: "string \<Rightarrow> key_response \<Rightarrow> bool" where
  "denies key_id resp \<longleftrightarrow>
     (\<forall>i. resp = Introspected (Inr i) \<and> in_valid i \<longrightarrow> in_key_id i \<noteq> Some key_id)"

lemma rwp_load:
  assumes "kv_contract X server" and "\<And>e. Q (Inl e)" and "Q (Inr None)"
    and "\<And>\<sigma> s raw r. I \<sigma> \<Longrightarrow> \<sigma> (key_path key_id) = Some (raw, r) \<Longrightarrow> raw_key X raw = Some s \<Longrightarrow>
           sk_key_id s = key_id \<Longrightarrow> Q (Inr (Some (record_of_stored s)))"
  shows "rwp server I Q (load X kv key_id)"
  unfolding load_def rwp_try
proof (rule rwp_kv_get [OF assms(1)])
  fix \<sigma> e
  assume "I \<sigma>" "reads X (\<sigma> (key_path key_id)) e"
  then show "case Inr (map_option vv_value e) of
      Inl e \<Rightarrow> Q (Inl e)
    | Inr x \<Rightarrow> rwp server I Q (case x of None \<Rightarrow> Done (Inr None)
        | Some v \<Rightarrow> Done (rbind (decode_key key_id v) (\<lambda>r. Inr (Some r))))"
  proof (cases e)
    case (Some vv)
    from \<open>reads X (\<sigma> (key_path key_id)) e\<close> Some obtain raw where
      entry: "\<sigma> (key_path key_id) = Some (raw, vv_mod_revision vv)" "json_from_str X raw = Some (vv_value vv)"
      by (auto simp: reads_def)
    show ?thesis
    proof (cases "decode_key key_id (vv_value vv)")
      case (Inl err)
      with Some show ?thesis by (simp add: assms(2))
    next
      case (Inr rec)
      then obtain k where "stored_key_from_json (vv_value vv) = Some k" "sk_key_id k = key_id"
        "rec = record_of_stored k"
        unfolding decode_key_Inr_iff by blast
      moreover from this entry have "raw_key X raw = Some k" by (simp add: raw_key_def)
      ultimately show ?thesis
        using Some Inr assms(4) [OF \<open>I \<sigma>\<close> entry(1)] by simp
    qed
  qed (simp add: assms(3))
qed (simp add: assms(2))

lemma rwp_introspect_revoked:
  assumes "kv_contract X server" "ks_kv ks = Some kv"
  shows "rwp server (revoked_in X key_id)
    (\<lambda>r. \<forall>i. r = Inr i \<and> in_valid i \<longrightarrow> in_key_id i \<noteq> Some key_id) (introspect X ks raw)"
proof (cases "parse_raw_key raw")
  case None
  then show ?thesis by (simp add: introspect_def)
next
  case (Some p)
  obtain env k secret where p: "parse_raw_key raw = Some (env, k, secret)" using Some by (cases p) auto
  have v: "in_valid (verify X (record_of_stored s) env secret pepper legacy) \<Longrightarrow>
      in_key_id (verify X (record_of_stored s) env secret pepper legacy) = Some (sk_key_id s) \<and> \<not> sk_revoked s"
    for s pepper legacy
    by (auto simp: verify_def split: if_splits)
  show ?thesis
    unfolding introspect_def p option.case prod.case assms(2) rwp_try Let_def
  proof (rule rwp_load [OF assms(1)])
    fix \<sigma> s raw' r
    assume "revoked_in X key_id \<sigma>" "\<sigma> (key_path k) = Some (raw', r)" "raw_key X raw' = Some s" "sk_key_id s = k"
    then have dead: "k = key_id \<Longrightarrow> sk_revoked s" by (auto simp: revoked_in_def)
    show "case Inr (Some (record_of_stored s)) of
        Inl e \<Rightarrow> \<forall>i. Inl e = Inr i \<and> in_valid i \<longrightarrow> in_key_id i \<noteq> Some key_id
      | Inr x \<Rightarrow> rwp server (revoked_in X key_id) (\<lambda>r. \<forall>i. r = Inr i \<and> in_valid i \<longrightarrow> in_key_id i \<noteq> Some key_id)
          (case x of None \<Rightarrow> Done (Inr introspection_invalid)
           | Some rec \<Rightarrow> eff_try (index_get X kv (ak_org_id rec)) (\<lambda>ids.
               Locked (AList.update k rec) (\<lambda>_. Done (Inr (if k \<in> set ids
                 then verify X rec env secret (ks_api_key_pepper ks) (ks_allow_legacy_sha256 ks)
                 else introspection_invalid)))))"
      using dead \<open>sk_key_id s = k\<close> v [of s]
      by (auto simp: rwp_try intro!: rwp_always split: sum.split)
  qed simp_all
qed

lemma rwp_key_ops_revoked:
  assumes "kv_contract X server" "p \<in> key_ops X"
  shows "rwp server (revoked_in X key_id) (denies key_id) p"
  using assms(2)
proof cases
  case (op_introspect ks raw)
  then obtain kv where "ks_kv ks = Some kv" by auto
  from rwp_introspect_revoked [OF assms(1) this] show ?thesis
    unfolding op_introspect rwp_map by (rule rwp_mono) (simp add: denies_def)
qed (auto simp: rwp_map denies_def intro!: rwp_always)

text \<open>
  A revoked key is dead: once the store holds a key as revoked, no introspection that
  starts afterwards, on any replica and under any interleaving with creations, rotations,
  revocations, failures, cancellations and restarts, answers valid for that key.
\<close>
lemma revoked_key_never_valid:
  assumes "externals_ok X" and "kv_contract X server" and "revs_positive \<sigma>"
    and "(sys_step server (key_ops X))\<^sup>*\<^sup>* (sys_init \<sigma> l) s" and "revoked_in X key_id (sys_kv s)"
    and "sys_threads s t = None"
    and "(sys_step server (key_ops X))\<^sup>*\<^sup>* s s'"
    and "sys_threads s' t = Some (i, Done (Introspected (Inr intro)))" and "in_valid intro"
  shows "in_key_id intro \<noteq> Some key_id"
proof -
  from assms(5) obtain raw r k where k: "sys_kv s (key_path key_id) = Some (raw, r)"
    "raw_key X raw = Some k" "sk_revoked k"
    by (auto simp: revoked_in_def)
  have dead: "revoked_in X key_id (sys_kv u)" if "(sys_step server (key_ops X))\<^sup>*\<^sup>* s u" for u
  proof -
    from key_evolution.entry_evolves [OF assms(2-4) that k(1)] obtain raw' r' where
      "sys_kv u (key_path key_id) = Some (raw', r')" "key_le X (key_path key_id) raw raw'"
      by blast
    then show ?thesis using k assms(1) by (auto simp: key_le_def key_evolves_def revoked_in_def)
  qed
  have "rwp server (revoked_in X key_id) (denies key_id)
      (Done (Introspected (Inr intro)) :: (key_cache, key_response) eff)"
    by (rule rely_thread [where I = "revoked_in X key_id" and Q = "denies key_id", OF assms(7) _ _ _ assms(8)])
       (simp_all add: dead rwp_key_ops_revoked [OF assms(2)] assms(6))
  with assms(9) show ?thesis by (simp add: denies_def)
qed

lemma only_reads_introspect: "only_reads (introspect X ks raw)"
  by (auto simp: introspect_def load_def index_get_def Let_def intro!: only_reads_try
      split: option.split)

theorem revoked_key_never_valid_witness:
  "\<exists>s'. (sys_step ref_relation (key_ops demo))\<^sup>*\<^sup>* (sys_init demo_view (\<lambda>_. [])) s'
    \<and> sys_threads s' 0 = Some (0, Done (Introspected (Inr (granted (demo_key id_a False)))))
    \<and> in_key_id (granted (demo_key id_a False)) \<noteq> Some id_b"
proof -
  let ?raw = "format_raw_key ''live'' id_a (replicate 64 (CHR ''a''))"
  let ?s0 = "sys_init demo_view (\<lambda>_. []) :: (key_cache, key_response) sys"
  let ?p = "eff_map Introspected (introspect demo demo_ks ?raw)"
  let ?s1 = "?s0\<lparr>sys_threads := (sys_threads ?s0)(0 \<mapsto> (0, ?p))\<rparr>"
  have s1: "sys_step ref_relation (key_ops demo) ?s0 ?s1"
    by (rule sys_step.spawn) (auto simp: sys_init_def intro: key_ops.op_introspect)
  have "load_result demo demo_view id_a = Inr (Some (record_of_stored (demo_key id_a False)))"
    using demo_view_stored(1) by (metis load_result_found)
  moreover have "index_result demo demo_view ''o'' = Inr [id_a, id_b]"
    by (simp add: index_result_found)
  ultimately have run: "fst (run ref_server (introspect demo demo_ks ?raw) demo_view []) =
      Inr (granted (demo_key id_a False))"
    unfolding run_introspect [OF ref_server_reliable demo_kv_ks demo_raw_parses]
    by (simp add: verify_def verify_secret_hash_iff granted_def)
       (simp add: demo_key_def demo_ks_def record_of_stored_def)
  obtain x \<sigma>' c' where r: "run ref_server ?p demo_view [] = (x, \<sigma>', c')" by (metis prod_cases3)
  with run have x: "x = Introspected (Inr (granted (demo_key id_a False)))"
    by (auto simp: run_map split: prod.splits)
  have "\<exists>s'. (sys_step ref_relation (key_ops demo))\<^sup>*\<^sup>* ?s1 s' \<and> sys_threads s' 0 = Some (0, Done x)"
    by (rule run_reaches [where srv = ref_server and p = ?p and \<sigma>' = \<sigma>' and c' = c'])
       (use r in \<open>simp_all add: sys_init_def ref_relation_get only_reads_map only_reads_introspect\<close>)
  then obtain s' where s': "(sys_step ref_relation (key_ops demo))\<^sup>*\<^sup>* ?s0 s'"
    "sys_threads s' 0 = Some (0, Done (Introspected (Inr (granted (demo_key id_a False)))))"
    using s1 x by (meson converse_rtranclp_into_rtranclp)
  have "in_key_id (granted (demo_key id_a False)) \<noteq> Some id_b"
    by (rule revoked_key_never_valid [OF demo_ok ref_relation_contract demo_view_positive
          rtranclp.rtrancl_refl _ _ s'])
       (simp_all add: sys_init_def revoked_in_def raw_key_def granted_def)
  with s' show ?thesis by blast
qed

end
