(* ===== verification/Supabase_Policy.thy ===== *)
theory Supabase_Policy
  imports Store
begin

text \<open>
  \<open>supabase_policy.rs\<close> and \<open>bin/fiducia-auth-production-entrypoint.rs\<close>: the deployment mode, the
  opt-in for remote userinfo verification, and the container guard that normalises the
  environment before it replaces itself with the server.  The lemmas show when remote
  verification is accepted and that the server reads the normalised environment back as the
  guard decided it.
\<close>

section \<open>Policy\<close>

definition DEPLOYMENT_MODE_ENV :: string where
  "DEPLOYMENT_MODE_ENV = ''FIDUCIA_DEPLOYMENT_MODE''"

definition REMOTE_USERINFO_ENV :: string where
  "REMOTE_USERINFO_ENV = ''SUPABASE_AUTH_ALLOW_REMOTE_USERINFO''"

definition PUBLISHABLE_KEY_ENV :: string where
  "PUBLISHABLE_KEY_ENV = ''SUPABASE_PUBLISHABLE_KEY''"

datatype deployment_mode = Production | Staging | Development | TestMode

datatype remote_userinfo_policy_error =
    InvalidDeploymentMode string
  | InvalidBoolean string string
  | ForbiddenInProduction
  | PolicyMissingPublishableKey

definition deployment_mode_parse :: "string option \<Rightarrow> remote_userinfo_policy_error + deployment_mode" where
  "deployment_mode_parse value =
     (let v = to_ascii_lowercase (str_trim (case value of Some s \<Rightarrow> s | None \<Rightarrow> ''production''))
      in if v \<in> {''production'', ''prod''} then Inr Production
         else if v \<in> {''staging'', ''stage''} then Inr Staging
         else if v \<in> {''development'', ''dev''} then Inr Development
         else if v = ''test'' then Inr TestMode
         else Inl (InvalidDeploymentMode v))"

fun deployment_mode_str :: "deployment_mode \<Rightarrow> string" where
  "deployment_mode_str Production = ''production''"
| "deployment_mode_str Staging = ''staging''"
| "deployment_mode_str Development = ''development''"
| "deployment_mode_str TestMode = ''test''"

definition env_value :: "environment \<Rightarrow> string \<Rightarrow> string option" where
  "env_value env name =
     (case env name of
        Some value \<Rightarrow> if str_trim value = [] then None else Some (str_trim value)
      | None \<Rightarrow> None)"

definition parse_optional_bool :: "string \<Rightarrow> string option \<Rightarrow> remote_userinfo_policy_error + bool option" where
  "parse_optional_bool name value =
     (case value of
        None \<Rightarrow> Inr None
      | Some s \<Rightarrow>
          let v = to_ascii_lowercase (str_trim s)
          in if v \<in> {''1'', ''true'', ''yes'', ''on''} then Inr (Some True)
             else if v \<in> {''0'', ''false'', ''no'', ''off''} then Inr (Some False)
             else Inl (InvalidBoolean name v))"

definition remote_userinfo_policy_from_values ::
  "string option \<Rightarrow> string option \<Rightarrow> bool \<Rightarrow> remote_userinfo_policy_error + (deployment_mode \<times> bool)" where
  "remote_userinfo_policy_from_values deployment_mode requested_remote_userinfo has_publishable_key =
     rbind (deployment_mode_parse deployment_mode) (\<lambda>mode.
     rbind (parse_optional_bool REMOTE_USERINFO_ENV requested_remote_userinfo) (\<lambda>requested.
       let allow_remote_userinfo = (case requested of Some b \<Rightarrow> b | None \<Rightarrow> False)
       in if mode = Production \<and> allow_remote_userinfo then Inl ForbiddenInProduction
          else if allow_remote_userinfo \<and> \<not> has_publishable_key then Inl PolicyMissingPublishableKey
          else Inr (mode, allow_remote_userinfo)))"

definition remote_userinfo_policy_from_env ::
  "environment \<Rightarrow> remote_userinfo_policy_error + (deployment_mode \<times> bool)" where
  "remote_userinfo_policy_from_env env =
     remote_userinfo_policy_from_values (env_value env DEPLOYMENT_MODE_ENV) (env_value env REMOTE_USERINFO_ENV)
       (env_value env PUBLISHABLE_KEY_ENV \<noteq> None)"

section \<open>The container guard\<close>

text \<open>
  The outcome of the guard: it exits with status 78, or replaces itself with the server in the
  given environment.  A failing \<open>exec\<close> is the first kind with its own error.
\<close>

datatype startup_policy_error = StartupPolicy remote_userinfo_policy_error | StartupExec

definition entrypoint_environment :: "environment \<Rightarrow> deployment_mode \<Rightarrow> bool \<Rightarrow> environment" where
  "entrypoint_environment env mode allow_remote_userinfo =
     env(DEPLOYMENT_MODE_ENV \<mapsto> deployment_mode_str mode,
         REMOTE_USERINFO_ENV \<mapsto> (if allow_remote_userinfo then ''true'' else ''false''))"

definition entrypoint_run :: "(environment \<Rightarrow> bool) \<Rightarrow> environment \<Rightarrow> startup_policy_error + environment" where
  "entrypoint_run exec_starts env =
     rbind (map_err StartupPolicy (remote_userinfo_policy_from_env env)) (\<lambda>(mode, allow_remote_userinfo).
       let env' = entrypoint_environment env mode allow_remote_userinfo
       in if exec_starts env' then Inr env' else Inl StartupExec)"

definition entrypoint_exit_code :: "startup_policy_error + environment \<Rightarrow> nat option" where
  "entrypoint_exit_code outcome = (case outcome of Inl e \<Rightarrow> Some 78 | Inr env \<Rightarrow> None)"

section \<open>Properties\<close>

lemma policy_from_values_Inr:
  "remote_userinfo_policy_from_values m q key = Inr (mode, allow) \<longleftrightarrow>
     deployment_mode_parse m = Inr mode
   \<and> (\<exists>requested. parse_optional_bool REMOTE_USERINFO_ENV q = Inr requested \<and> allow = (requested = Some True))
   \<and> (allow \<longrightarrow> mode \<noteq> Production \<and> key)"
proof (cases "deployment_mode_parse m")
  case (Inl e)
  then show ?thesis by (simp add: remote_userinfo_policy_from_values_def)
next
  case (Inr md)
  show ?thesis
  proof (cases "parse_optional_bool REMOTE_USERINFO_ENV q")
    case (Inl e)
    with Inr show ?thesis by (simp add: remote_userinfo_policy_from_values_def)
  next
    case (Inr requested)
    with \<open>deployment_mode_parse m = Inr md\<close> show ?thesis
      by (cases requested) (auto simp: remote_userinfo_policy_from_values_def Let_def)
  qed
qed

lemma env_names_distinct [simp]:
  "DEPLOYMENT_MODE_ENV \<noteq> REMOTE_USERINFO_ENV" "DEPLOYMENT_MODE_ENV \<noteq> PUBLISHABLE_KEY_ENV"
  "REMOTE_USERINFO_ENV \<noteq> PUBLISHABLE_KEY_ENV" "REMOTE_USERINFO_ENV \<noteq> DEPLOYMENT_MODE_ENV"
  "PUBLISHABLE_KEY_ENV \<noteq> DEPLOYMENT_MODE_ENV" "PUBLISHABLE_KEY_ENV \<noteq> REMOTE_USERINFO_ENV"
  by (simp_all add: DEPLOYMENT_MODE_ENV_def REMOTE_USERINFO_ENV_def PUBLISHABLE_KEY_ENV_def)

lemma mode_str_trim [simp]:
  "str_trim (deployment_mode_str mode) = deployment_mode_str mode"
  "to_ascii_lowercase (deployment_mode_str mode) = deployment_mode_str mode"
  "deployment_mode_str mode \<noteq> []"
  by (cases mode; simp add: str_trim_printable printable_def to_ascii_lowercase_def)+

lemma mode_str_parse [simp]: "deployment_mode_parse (Some (deployment_mode_str mode)) = Inr mode"
  unfolding deployment_mode_parse_def by (simp add: Let_def) (cases mode; simp)

lemma bool_str_parse [simp]:
  "str_trim ''true'' = ''true''" "str_trim ''false'' = ''false''"
  "parse_optional_bool name (Some ''true'') = Inr (Some True)"
  "parse_optional_bool name (Some ''false'') = Inr (Some False)"
  by (simp_all add: parse_optional_bool_def str_trim_printable printable_def to_ascii_lowercase_def)

lemma entrypoint_env_values [simp]:
  "env_value (entrypoint_environment env mode allow) DEPLOYMENT_MODE_ENV = Some (deployment_mode_str mode)"
  "env_value (entrypoint_environment env mode allow) REMOTE_USERINFO_ENV = Some (if allow then ''true'' else ''false'')"
  "name \<noteq> DEPLOYMENT_MODE_ENV \<Longrightarrow> name \<noteq> REMOTE_USERINFO_ENV \<Longrightarrow>
     env_value (entrypoint_environment env mode allow) name = env_value env name"
  by (simp_all add: env_value_def entrypoint_environment_def)

text \<open>
  Remote userinfo verification is accepted exactly when it was asked for explicitly, the
  deployment mode is a known mode other than production, and a publishable key is configured;
  with no mode configured the deployment counts as production.
\<close>
lemma remote_userinfo_policy_iff:
  "(\<exists>mode. remote_userinfo_policy_from_env env = Inr (mode, True)) \<longleftrightarrow>
     parse_optional_bool REMOTE_USERINFO_ENV (env_value env REMOTE_USERINFO_ENV) = Inr (Some True)
   \<and> env_value env DEPLOYMENT_MODE_ENV \<noteq> None
   \<and> (\<exists>mode\<in>{Staging, Development, TestMode}. deployment_mode_parse (env_value env DEPLOYMENT_MODE_ENV) = Inr mode)
   \<and> env_value env PUBLISHABLE_KEY_ENV \<noteq> None"
proof -
  have "deployment_mode_parse None = Inr Production"
    using mode_str_parse [of Production] by (simp add: deployment_mode_parse_def)
  moreover have "mode \<noteq> Production \<longleftrightarrow> mode \<in> {Staging, Development, TestMode}" for mode by (cases mode) auto
  ultimately show ?thesis
    by (cases "env_value env DEPLOYMENT_MODE_ENV")
       (auto simp: remote_userinfo_policy_from_env_def policy_from_values_Inr)
qed

text \<open>
  C38. The container guard and the server agree: when the guard starts the server, the server reads
  the environment it was given as the same mode and the same decision, which production never
  opens, and every other variable is passed on unchanged; otherwise the guard exits with status 78.
\<close>
theorem entrypoint_roundtrip:
  "case entrypoint_run exec_starts env of
     Inl e \<Rightarrow> entrypoint_exit_code (entrypoint_run exec_starts env) = Some 78
   | Inr env' \<Rightarrow>
       remote_userinfo_policy_from_env env' = remote_userinfo_policy_from_env env
     \<and> (\<exists>mode allow. remote_userinfo_policy_from_env env' = Inr (mode, allow) \<and> \<not> (mode = Production \<and> allow))
     \<and> (\<forall>name. name \<noteq> DEPLOYMENT_MODE_ENV \<and> name \<noteq> REMOTE_USERINFO_ENV \<longrightarrow> env' name = env name)"
proof (cases "remote_userinfo_policy_from_env env")
  case (Inl e)
  then show ?thesis by (simp add: entrypoint_run_def entrypoint_exit_code_def)
next
  case (Inr p)
  obtain mode allow where p: "p = (mode, allow)" by (cases p)
  let ?env = "entrypoint_environment env mode allow"
  have "remote_userinfo_policy_from_env ?env = Inr (mode, allow)"
    using Inr p by (auto simp: remote_userinfo_policy_from_env_def policy_from_values_Inr)
  moreover have "\<not> (mode = Production \<and> allow)"
    using Inr p by (auto simp: remote_userinfo_policy_from_env_def policy_from_values_Inr)
  moreover have "name \<noteq> DEPLOYMENT_MODE_ENV \<and> name \<noteq> REMOTE_USERINFO_ENV \<Longrightarrow> ?env name = env name" for name
    by (simp add: entrypoint_environment_def)
  ultimately show ?thesis
    using Inr p by (cases "exec_starts ?env") (simp_all add: entrypoint_run_def entrypoint_exit_code_def Let_def)
qed

theorem entrypoint_roundtrip_witness:
  "case entrypoint_run (\<lambda>_. True) (\<lambda>_. None) of
     Inl e \<Rightarrow> False
   | Inr env' \<Rightarrow> remote_userinfo_policy_from_env env' = Inr (Production, False)"
proof -
  have "remote_userinfo_policy_from_env (\<lambda>_. None) = Inr (Production, False)"
    using mode_str_parse [of Production]
    by (simp add: remote_userinfo_policy_from_env_def policy_from_values_Inr env_value_def deployment_mode_parse_def
        parse_optional_bool_def)
  with entrypoint_roundtrip [of "\<lambda>_. True" "\<lambda>_. None"] show ?thesis
    by (simp add: entrypoint_run_def)
qed

end
