(* ===== verification/Supabase.thy ===== *)
theory Supabase
  imports Supabase_Policy Upstream Model
begin

text \<open>
  \<open>supabase.rs\<close>: verification of dashboard sessions.  The configured projects and the choice of
  one by the unverified issuer, the cache of their key sets with its time to live and the
  floor under forced refetches, verification against a key set or against the user
  endpoint, and the identity derived from the verified claims.  The JWT library, base64 and the
  services behind the URLs are parameters.  \<open>'k\<close> is the type of a public key.
\<close>

section \<open>Metrics\<close>

datatype unknown_kid_stage = Observed | RefreshBlocked

fun unknown_kid_stage_str :: "unknown_kid_stage \<Rightarrow> string" where
  "unknown_kid_stage_str Observed = ''observed''"
| "unknown_kid_stage_str RefreshBlocked = ''refresh_blocked''"

datatype forced_refresh_outcome = RefreshAttempted | RefreshSucceeded | RefreshFailure | MissingAfterRefresh

fun forced_refresh_outcome_str :: "forced_refresh_outcome \<Rightarrow> string" where
  "forced_refresh_outcome_str RefreshAttempted = ''attempted''"
| "forced_refresh_outcome_str RefreshSucceeded = ''succeeded''"
| "forced_refresh_outcome_str RefreshFailure = ''failed''"
| "forced_refresh_outcome_str MissingAfterRefresh = ''missing_after_refresh''"

datatype remote_userinfo_outcome =
    UserinfoAttempted | UserinfoAccepted | UserinfoClaimRejected | UserinfoRejected
  | UserinfoTransportError | UserinfoInvalidResponse | UserinfoUpstreamStatus

fun remote_userinfo_outcome_str :: "remote_userinfo_outcome \<Rightarrow> string" where
  "remote_userinfo_outcome_str UserinfoAttempted = ''attempted''"
| "remote_userinfo_outcome_str UserinfoAccepted = ''accepted''"
| "remote_userinfo_outcome_str UserinfoClaimRejected = ''claim_rejected''"
| "remote_userinfo_outcome_str UserinfoRejected = ''rejected''"
| "remote_userinfo_outcome_str UserinfoTransportError = ''transport_error''"
| "remote_userinfo_outcome_str UserinfoInvalidResponse = ''invalid_response''"
| "remote_userinfo_outcome_str UserinfoUpstreamStatus = ''upstream_status''"

section \<open>Libraries, errors and state\<close>

datatype jwt_algorithm =
    HS256 | HS384 | HS512 | ES256 | ES384 | RS256 | RS384 | RS512 | PS256 | PS384 | PS512 | EdDSA

text \<open>
  The functions of the JWT and base64 libraries: the header of a token, the decoded payload
  segment, a key set read from a document, the key of a key id, whether a key is symmetric,
  and the claims of a token whose signature, issuer, audience, subject and times the library accepts.
\<close>

record 'k jwt_verifier =
  jv_decode_header :: "string \<Rightarrow> (jwt_algorithm \<times> string option) option"
  jv_b64url :: "string \<Rightarrow> string option"
  jv_jwks_of_json :: "json \<Rightarrow> 'k list option"
  jv_find :: "'k list \<Rightarrow> string \<Rightarrow> 'k option"
  jv_octet :: "'k \<Rightarrow> bool"
  jv_usable :: "'k \<Rightarrow> bool"
  jv_decode :: "string \<Rightarrow> 'k \<Rightarrow> jwt_algorithm \<Rightarrow> string \<Rightarrow> string \<Rightarrow> json option"

datatype verify_error =
    EmptyJwks
  | VerifyHttp
  | InvalidToken string
  | VerifyJwt
  | MissingJwk
  | MissingPublishableKey
  | MissingConfiguration string
  | RemoteUserinfoPolicy remote_userinfo_policy_error
  | RejectedBySupabase
  | SupabaseStatus nat
  | SymmetricJwk
  | UnexpectedAudience "string option"
  | UnexpectedAssurance string
  | UnexpectedRole "string option"
  | UnknownIssuer
  | UnsupportedAlgorithm jwt_algorithm

record supabase_config =
  sc_name :: string
  sc_surfaces :: "string list"
  sc_audience :: string
  sc_issuer :: string
  sc_jwks_ttl :: u64
  sc_jwks_url :: string
  sc_publishable_key :: "string option"
  sc_user_url :: string
  sc_allow_remote_userinfo :: bool

record supabase_project_spec =
  ps_name :: string
  ps_surfaces :: "string list"
  ps_url :: "string option"
  ps_project_ref :: "string option"
  ps_issuer :: "string option"
  ps_jwks_url :: "string option"
  ps_user_url :: "string option"
  ps_audience :: "string option"
  ps_publishable_key_env :: "string option"

record supabase_claims =
  sp_sub :: string
  sp_email :: "string option"
  sp_role :: "string option"
  sp_aal :: "string option"
  sp_app_metadata :: "json option"
  sp_user_metadata :: "json option"

record supabase_user =
  su_id :: string
  su_aud :: "string option"
  su_email :: "string option"
  su_role :: "string option"
  su_aal :: "string option"
  su_app_metadata :: "json option"
  su_user_metadata :: "json option"

text \<open>
  The process-wide state: the cached key sets by URL, the monotonic clock in nanoseconds, and
  the counters as the list of their events.
\<close>

record 'k jwks_entry =
  cj_fetched_at :: nat
  cj_jwks :: "'k list"

datatype auth_event =
    UnknownKidEvent unknown_kid_stage
  | ForcedRefreshEvent forced_refresh_outcome
  | RemoteUserinfoEvent remote_userinfo_outcome

record 'k sb_state =
  sb_jwks_cache :: "string \<rightharpoonup> 'k jwks_entry"
  sb_clock :: nat
  sb_events :: "auth_event list"

definition record_event :: "auth_event \<Rightarrow> ('k sb_state, unit) eff" where
  "record_event e = Locked (\<lambda>s. s\<lparr>sb_events := e # sb_events s\<rparr>) (\<lambda>_. Done ())"

definition DEFAULT_AUDIENCE :: string where
  "DEFAULT_AUDIENCE = ''authenticated''"

definition PROJECTS_ENV :: string where
  "PROJECTS_ENV = ''FIDUCIA_SUPABASE_PROJECTS''"

definition DEFAULT_JWKS_TTL_SECS :: u64 where
  "DEFAULT_JWKS_TTL_SECS = 10 * 60"

definition MIN_FORCED_JWKS_REFRESH_SECS :: nat where
  "MIN_FORCED_JWKS_REFRESH_SECS = 30"

definition from_secs :: "nat \<Rightarrow> nat" where
  "from_secs n = n * 1000000000"

section \<open>Derived deserialisation\<close>

definition opt_str :: "(string \<times> json) list \<Rightarrow> string \<Rightarrow> string option option" where
  "opt_str f name = field_or None (de_option as_str) f name"

definition opt_value :: "(string \<times> json) list \<Rightarrow> string \<Rightarrow> json option option" where
  "opt_value f name = field_or None (de_option Some) f name"

text \<open>A struct with a required last field needs every element of a positional array.\<close>

fun exact_fields :: "string list \<Rightarrow> json \<Rightarrow> (string \<times> json) list option" where
  "exact_fields names (VObj ms) = Some ms"
| "exact_fields names (VArr vs) = (if length vs = length names then Some (zip names vs) else None)"
| "exact_fields names _ = None"

definition supabase_claims_from_json :: "json \<Rightarrow> supabase_claims option" where
  "supabase_claims_from_json v =
     Option.bind (exact_fields [''sub'', ''email'', ''role'', ''aal'', ''app_metadata'', ''user_metadata''] v) (\<lambda>f.
     Option.bind (field as_str f ''sub'') (\<lambda>sub.
     Option.bind (opt_str f ''email'') (\<lambda>email.
     Option.bind (opt_str f ''role'') (\<lambda>role.
     Option.bind (opt_str f ''aal'') (\<lambda>aal.
     Option.bind (opt_value f ''app_metadata'') (\<lambda>app.
     Option.bind (opt_value f ''user_metadata'') (\<lambda>usr.
       Some \<lparr>sp_sub = sub, sp_email = email, sp_role = role, sp_aal = aal, sp_app_metadata = app,
             sp_user_metadata = usr\<rparr>)))))))"

definition supabase_user_from_json :: "json \<Rightarrow> supabase_user option" where
  "supabase_user_from_json v =
     Option.bind (exact_fields [''id'', ''aud'', ''email'', ''role'', ''aal'', ''app_metadata'', ''user_metadata''] v) (\<lambda>f.
     Option.bind (field as_str f ''id'') (\<lambda>id.
     Option.bind (opt_str f ''aud'') (\<lambda>aud.
     Option.bind (opt_str f ''email'') (\<lambda>email.
     Option.bind (opt_str f ''role'') (\<lambda>role.
     Option.bind (opt_str f ''aal'') (\<lambda>aal.
     Option.bind (opt_value f ''app_metadata'') (\<lambda>app.
     Option.bind (opt_value f ''user_metadata'') (\<lambda>usr.
       Some \<lparr>su_id = id, su_aud = aud, su_email = email, su_role = role, su_aal = aal,
             su_app_metadata = app, su_user_metadata = usr\<rparr>))))))))"

definition project_spec_names :: "string list" where
  "project_spec_names =
     [''name'', ''surfaces'', ''url'', ''project_ref'', ''issuer'', ''jwks_url'', ''user_url'', ''audience'',
      ''publishable_key_env'']"

definition project_spec_from_json :: "json \<Rightarrow> supabase_project_spec option" where
  "project_spec_from_json v =
     Option.bind (struct_fields project_spec_names v) (\<lambda>f.
     if \<not> set (map fst f) \<subseteq> set project_spec_names then None
     else
     Option.bind (field as_str f ''name'') (\<lambda>name.
     Option.bind (field de_string_vec f ''surfaces'') (\<lambda>surfaces.
     Option.bind (opt_str f ''url'') (\<lambda>url.
     Option.bind (opt_str f ''project_ref'') (\<lambda>project_ref.
     Option.bind (opt_str f ''issuer'') (\<lambda>issuer.
     Option.bind (opt_str f ''jwks_url'') (\<lambda>jwks_url.
     Option.bind (opt_str f ''user_url'') (\<lambda>user_url.
     Option.bind (opt_str f ''audience'') (\<lambda>audience.
     Option.bind (opt_str f ''publishable_key_env'') (\<lambda>key_env.
       Some \<lparr>ps_name = name, ps_surfaces = surfaces, ps_url = url, ps_project_ref = project_ref,
             ps_issuer = issuer, ps_jwks_url = jwks_url, ps_user_url = user_url, ps_audience = audience,
             ps_publishable_key_env = key_env\<rparr>))))))))))"

section \<open>Configuration\<close>

definition supabase_url_for_project :: "string \<Rightarrow> string" where
  "supabase_url_for_project project_ref = ''https://'' @ str_trim project_ref @ ''.supabase.co''"

definition normalize_url :: "string \<Rightarrow> string" where
  "normalize_url url = trim_end_matches (CHR ''/'') (str_trim url)"

definition jwks_ttl_from_env :: "environment \<Rightarrow> u64" where
  "jwks_ttl_from_env env =
     (case Option.bind (env_value env ''SUPABASE_AUTH_JWKS_TTL_SECS'') parse_u64 of
        Some n \<Rightarrow> n | None \<Rightarrow> DEFAULT_JWKS_TTL_SECS)"

abbreviation or_else :: "'a option \<Rightarrow> 'a \<Rightarrow> 'a" where
  "or_else m d \<equiv> (case m of Some x \<Rightarrow> x | None \<Rightarrow> d)"

fun parse_surfaces :: "string list \<Rightarrow> string list \<Rightarrow> verify_error + string list" where
  "parse_surfaces [] surfaces = Inr surfaces"
| "parse_surfaces (surface # rest) surfaces =
     (let s = str_trim surface
      in if s = ADMIN_SURFACE_AUDIENCE \<or> s = CUSTOMER_SURFACE_AUDIENCE
         then parse_surfaces rest (if s \<in> set surfaces then surfaces else surfaces @ [s])
         else Inl (MissingConfiguration
           ''FIDUCIA_SUPABASE_PROJECTS surfaces must be fiducia-admin or fiducia-customer''))"

definition config_from_spec ::
  "environment \<Rightarrow> supabase_project_spec \<Rightarrow> bool \<Rightarrow> verify_error + supabase_config" where
  "config_from_spec env spec allow_remote_userinfo =
     (if str_trim (ps_name spec) = []
      then Inl (MissingConfiguration ''FIDUCIA_SUPABASE_PROJECTS entries require a non-empty name'')
      else
        rbind (parse_surfaces (ps_surfaces spec) []) (\<lambda>surfaces.
        if surfaces = []
        then Inl (MissingConfiguration ''FIDUCIA_SUPABASE_PROJECTS entries require at least one surface'')
        else
        rbind (case (ps_url spec, ps_project_ref spec) of
                 (Some url, _) \<Rightarrow> Inr (normalize_url url)
               | (None, Some project_ref) \<Rightarrow> Inr (supabase_url_for_project project_ref)
               | (None, None) \<Rightarrow>
                   Inl (MissingConfiguration ''FIDUCIA_SUPABASE_PROJECTS entries require url or project_ref''))
          (\<lambda>url.
        let issuer = or_else (ps_issuer spec) (url @ ''/auth/v1'');
            jwks_url = or_else (ps_jwks_url spec) (issuer @ ''/.well-known/jwks.json'');
            user_url = or_else (ps_user_url spec) (issuer @ ''/user'')
        in rbind (case ps_publishable_key_env spec of
                    Some name \<Rightarrow>
                      ok_or (map_option Some (env_value env name)) (MissingConfiguration
                        ''referenced Supabase publishable-key env var is missing or empty'')
                  | None \<Rightarrow> Inr None)
             (\<lambda>publishable_key.
           Inr \<lparr>sc_name = str_trim (ps_name spec), sc_surfaces = surfaces,
                sc_audience = or_else (ps_audience spec) DEFAULT_AUDIENCE, sc_issuer = issuer,
                sc_jwks_ttl = jwks_ttl_from_env env, sc_jwks_url = jwks_url,
                sc_publishable_key = publishable_key, sc_user_url = user_url,
                sc_allow_remote_userinfo = allow_remote_userinfo\<rparr>))))"

definition config_project_surfaces :: "supabase_config \<Rightarrow> string list option" where
  "config_project_surfaces config = (if sc_surfaces config \<noteq> [] then Some (sc_surfaces config) else None)"

definition config_from_env :: "environment \<Rightarrow> verify_error + supabase_config" where
  "config_from_env env =
     rbind (case env_value env ''SUPABASE_URL'' of
              Some url \<Rightarrow> Inr url
            | None \<Rightarrow>
                rbind (ok_or (case env_value env ''SUPABASE_PROJECT_REF'' of
                                Some r \<Rightarrow> Some r | None \<Rightarrow> env_value env ''SUPABASE_PROJECT_ID'')
                         (MissingConfiguration ''SUPABASE_URL or SUPABASE_PROJECT_REF must be set''))
                  (\<lambda>project_ref. Inr (supabase_url_for_project project_ref))) (\<lambda>raw_url.
       let url = normalize_url raw_url;
           issuer = or_else (env_value env ''SUPABASE_AUTH_ISSUER'') (url @ ''/auth/v1'');
           jwks_url = or_else (env_value env ''SUPABASE_AUTH_JWKS_URL'') (issuer @ ''/.well-known/jwks.json'');
           user_url = or_else (env_value env ''SUPABASE_AUTH_USER_URL'') (issuer @ ''/user'');
           publishable_key = env_value env PUBLISHABLE_KEY_ENV
       in rbind (map_err RemoteUserinfoPolicy (remote_userinfo_policy_from_env env))
            (\<lambda>(deployment_mode, allow_remote_userinfo).
          Inr \<lparr>sc_name = or_else (env_value env ''SUPABASE_PROJECT_NAME'') ''default'', sc_surfaces = [],
               sc_audience = or_else (env_value env ''SUPABASE_AUTH_AUDIENCE'') DEFAULT_AUDIENCE,
               sc_issuer = issuer, sc_jwks_ttl = jwks_ttl_from_env env, sc_jwks_url = jwks_url,
               sc_publishable_key = publishable_key, sc_user_url = user_url,
               sc_allow_remote_userinfo = allow_remote_userinfo\<rparr>))"

fun add_projects ::
  "environment \<Rightarrow> bool \<Rightarrow> supabase_project_spec list \<Rightarrow> supabase_config list \<Rightarrow> verify_error + supabase_config list" where
  "add_projects env allow_remote_userinfo [] projects = Inr projects"
| "add_projects env allow_remote_userinfo (spec # specs) projects =
     rbind (config_from_spec env spec allow_remote_userinfo) (\<lambda>project.
       if \<exists>existing\<in>set projects. sc_issuer existing = sc_issuer project
       then Inl (MissingConfiguration ''FIDUCIA_SUPABASE_PROJECTS contains duplicate issuers'')
       else if \<exists>existing\<in>set projects. sc_name existing = sc_name project
       then Inl (MissingConfiguration ''FIDUCIA_SUPABASE_PROJECTS contains duplicate project names'')
       else if sc_allow_remote_userinfo project \<and> sc_publishable_key project = None
       then Inl MissingPublishableKey
       else add_projects env allow_remote_userinfo specs (projects @ [project]))"

definition registry_from_env :: "externals \<Rightarrow> environment \<Rightarrow> verify_error + supabase_config list" where
  "registry_from_env X env =
     (case env_value env PROJECTS_ENV of
        None \<Rightarrow> rbind (config_from_env env) (\<lambda>project. Inr [project])
      | Some raw \<Rightarrow>
          rbind (ok_or (Option.bind (json_from_str X raw) (de_vec project_spec_from_json))
                   (MissingConfiguration ''FIDUCIA_SUPABASE_PROJECTS must be a JSON array'')) (\<lambda>specs.
          if specs = []
          then Inl (MissingConfiguration ''FIDUCIA_SUPABASE_PROJECTS must not be empty'')
          else
            rbind (map_err RemoteUserinfoPolicy (remote_userinfo_policy_from_env env))
              (\<lambda>(mode, allow_remote_userinfo). add_projects env allow_remote_userinfo specs [])))"

definition supabase_validate_config :: "externals \<Rightarrow> environment \<Rightarrow> verify_error + unit" where
  "supabase_validate_config X env = rbind (registry_from_env X env) (\<lambda>_. Inr ())"

definition unverified_issuer :: "externals \<Rightarrow> 'k jwt_verifier \<Rightarrow> string \<Rightarrow> string option" where
  "unverified_issuer X V jwt =
     (case split_on (CHR ''.'') jwt of
        _ # payload # _ \<Rightarrow>
          if 12 * 1024 < length payload then None
          else
            Option.bind (jv_b64url V payload) (\<lambda>bytes.
            Option.bind (json_from_str X bytes) (\<lambda>value. get_as as_str value ''iss''))
      | _ \<Rightarrow> None)"

fun legacy_project :: "supabase_config list \<Rightarrow> supabase_config option" where
  "legacy_project [only] = (if sc_surfaces only = [] then Some only else None)"
| "legacy_project _ = None"

definition registry_select ::
  "externals \<Rightarrow> 'k jwt_verifier \<Rightarrow> supabase_config list \<Rightarrow> string \<Rightarrow> verify_error + supabase_config" where
  "registry_select X V projects jwt =
     (case legacy_project projects of
        Some only \<Rightarrow> Inr only
      | None \<Rightarrow>
          rbind (ok_or (unverified_issuer X V jwt) (InvalidToken ''missing issuer claim'')) (\<lambda>issuer.
            ok_or (find (\<lambda>project. sc_issuer project = issuer) projects) UnknownIssuer))"

section \<open>The identity of a session\<close>

definition push_org :: "string list \<Rightarrow> string \<Rightarrow> string list" where
  "push_org os org =
     (let t = str_trim org in if t \<noteq> [] \<and> t \<notin> set os then os @ [t] else os)"

fun push_org_value :: "json \<Rightarrow> string list \<Rightarrow> string list" where
  "push_org_value (VStr org) os = push_org os org"
| "push_org_value (VArr values) os = fold push_org_value values os"
| "push_org_value _ os = os"

definition org_keys :: "string list" where
  "org_keys = [''orgs'', ''org_ids'', ''organizations'', ''organization_ids'', ''org_id'', ''organization_id'',
     ''tenant_id'']"

definition orgs_from_metadata :: "json option list \<Rightarrow> string list" where
  "orgs_from_metadata values =
     fold (\<lambda>value os.
        case value of
          None \<Rightarrow> os
        | Some m \<Rightarrow>
            fold (\<lambda>key os. case value_get m key of Some v \<Rightarrow> push_org_value v os | None \<Rightarrow> os) org_keys os)
       values []"

definition push_role :: "string list \<Rightarrow> string \<Rightarrow> string list" where
  "push_role rs role =
     (let t = to_ascii_lowercase (str_trim role) in if t \<noteq> [] \<and> t \<notin> set rs then rs @ [t] else rs)"

fun push_role_value :: "json \<Rightarrow> string list \<Rightarrow> string list" where
  "push_role_value (VStr role) rs = push_role rs role"
| "push_role_value (VArr values) rs = fold push_role_value values rs"
| "push_role_value _ rs = rs"

definition role_keys :: "string list" where
  "role_keys = [''fiducia_roles'', ''roles'', ''role'']"

definition roles_from_metadata :: "json option list \<Rightarrow> string list" where
  "roles_from_metadata values =
     fold (\<lambda>value rs.
        case value of
          None \<Rightarrow> rs
        | Some m \<Rightarrow>
            fold (\<lambda>key rs. case value_get m key of Some v \<Rightarrow> push_role_value v rs | None \<Rightarrow> rs) role_keys rs)
       values []"

definition assurance_level_from_claim :: "string option \<Rightarrow> verify_error + assurance_level" where
  "assurance_level_from_claim value =
     (let v = or_else value ''aal1''
      in if v = ''aal1'' then Inr Aal1 else if v = ''aal2'' then Inr Aal2 else Inl (UnexpectedAssurance v))"

definition user_ctx_from_claims :: "supabase_claims \<Rightarrow> supabase_config \<Rightarrow> verify_error + user_ctx" where
  "user_ctx_from_claims claims config =
     (if sp_role claims \<noteq> Some DEFAULT_AUDIENCE then Inl (UnexpectedRole (sp_role claims))
      else if str_trim (sp_sub claims) = [] then Inl (InvalidToken ''missing subject'')
      else
        rbind (assurance_level_from_claim (sp_aal claims)) (\<lambda>level.
          Inr \<lparr>user_id = sp_sub claims, email = sp_email claims,
               orgs = orgs_from_metadata [sp_app_metadata claims],
               roles = roles_from_metadata [sp_app_metadata claims],
               aal = level, project_surfaces = config_project_surfaces config\<rparr>))"

definition user_ctx_from_remote_user :: "supabase_user \<Rightarrow> supabase_config \<Rightarrow> verify_error + user_ctx" where
  "user_ctx_from_remote_user user config =
     (if \<exists>aud. su_aud user = Some aud \<and> aud \<noteq> sc_audience config then Inl (UnexpectedAudience (su_aud user))
      else if \<exists>role. su_role user = Some role \<and> role \<noteq> DEFAULT_AUDIENCE then Inl (UnexpectedRole (su_role user))
      else if str_trim (su_id user) = [] then Inl (InvalidToken ''missing user id'')
      else
        rbind (assurance_level_from_claim (su_aal user)) (\<lambda>level.
          Inr \<lparr>user_id = su_id user, email = su_email user,
               orgs = orgs_from_metadata [su_app_metadata user],
               roles = roles_from_metadata [su_app_metadata user],
               aal = level, project_surfaces = config_project_surfaces config\<rparr>))"

section \<open>Key sets\<close>

definition is_asymmetric_algorithm :: "jwt_algorithm \<Rightarrow> bool" where
  "is_asymmetric_algorithm alg \<longleftrightarrow>
     alg \<in> {ES256, ES384, RS256, RS384, RS512, PS256, PS384, PS512, EdDSA}"

definition reject_symmetric_jwk :: "'k jwt_verifier \<Rightarrow> 'k \<Rightarrow> verify_error + unit" where
  "reject_symmetric_jwk V jwk = (if jv_octet V jwk then Inl SymmetricJwk else Inr ())"

definition forced_refresh_cooldown_elapsed :: "nat \<Rightarrow> bool" where
  "forced_refresh_cooldown_elapsed cached_age \<longleftrightarrow> from_secs MIN_FORCED_JWKS_REFRESH_SECS \<le> cached_age"

definition jwks_request :: "supabase_config \<Rightarrow> kv_request" where
  "jwks_request config =
     \<lparr>rq_method = GET, rq_url = sc_jwks_url config, rq_query = [], rq_headers = [], rq_body = None\<rparr>"

text \<open>\<open>error_for_status\<close> rejects client and server errors; \<open>json\<close> rejects a body of another shape.\<close>

definition jwks_response :: "'k jwt_verifier \<Rightarrow> kv_response \<Rightarrow> verify_error + 'k list" where
  "jwks_response V r =
     (case r of
        TransportFailure \<Rightarrow> Inl VerifyHttp
      | HttpResponse status body \<Rightarrow>
          if 400 \<le> status \<and> status < 600 then Inl VerifyHttp
          else
            (case Option.bind body (jv_jwks_of_json V) of
               None \<Rightarrow> Inl VerifyHttp
             | Some keys \<Rightarrow> if keys = [] then Inl EmptyJwks else Inr keys))"

definition refresh_jwks :: "'k jwt_verifier \<Rightarrow> supabase_config \<Rightarrow> ('k sb_state, verify_error + 'k list) eff" where
  "refresh_jwks V config =
     Send (jwks_request config) (\<lambda>r.
       case jwks_response V r of
         Inl e \<Rightarrow> Done (Inl e)
       | Inr keys \<Rightarrow>
           Locked (\<lambda>s. s\<lparr>sb_jwks_cache := (sb_jwks_cache s)(sc_jwks_url config \<mapsto>
                      \<lparr>cj_fetched_at = sb_clock s, cj_jwks = keys\<rparr>)\<rparr>)
             (\<lambda>_. Done (Inr keys)))"

definition cached_age :: "'k sb_state \<Rightarrow> 'k jwks_entry \<Rightarrow> nat" where
  "cached_age s cached = sb_clock s - cj_fetched_at cached"

definition cached_jwks :: "'k jwt_verifier \<Rightarrow> supabase_config \<Rightarrow> ('k sb_state, verify_error + 'k list) eff" where
  "cached_jwks V config =
     Locked id (\<lambda>s.
       case sb_jwks_cache s (sc_jwks_url config) of
         Some cached \<Rightarrow>
           if cached_age s cached < from_secs (unat (sc_jwks_ttl config)) then Done (Inr (cj_jwks cached))
           else refresh_jwks V config
       | None \<Rightarrow> refresh_jwks V config)"

definition forced_refresh_allowed :: "supabase_config \<Rightarrow> ('k sb_state, bool) eff" where
  "forced_refresh_allowed config =
     Locked id (\<lambda>s.
       Done (case sb_jwks_cache s (sc_jwks_url config) of
               Some cached \<Rightarrow> forced_refresh_cooldown_elapsed (cached_age s cached)
             | None \<Rightarrow> True))"

section \<open>Verification\<close>

definition verify_token :: "'k jwt_verifier \<Rightarrow> string \<Rightarrow> supabase_config \<Rightarrow> jwt_algorithm \<Rightarrow> 'k \<Rightarrow> verify_error + user_ctx" where
  "verify_token V jwt config alg jwk =
     rbind (reject_symmetric_jwk V jwk) (\<lambda>_.
       if \<not> jv_usable V jwk then Inl VerifyJwt
       else
         rbind (ok_or (Option.bind (jv_decode V jwt jwk alg (sc_issuer config) (sc_audience config))
                         supabase_claims_from_json) VerifyJwt) (\<lambda>claims.
           user_ctx_from_claims claims config))"

definition forced_lookup ::
  "'k jwt_verifier \<Rightarrow> supabase_config \<Rightarrow> string \<Rightarrow> ('k sb_state, verify_error + 'k) eff" where
  "forced_lookup V config kid =
     eff_bind (record_event (UnknownKidEvent Observed)) (\<lambda>_.
     eff_bind (forced_refresh_allowed config) (\<lambda>allowed.
       if \<not> allowed
       then eff_bind (record_event (UnknownKidEvent RefreshBlocked)) (\<lambda>_. Done (Inl MissingJwk))
       else
         eff_bind (record_event (ForcedRefreshEvent RefreshAttempted)) (\<lambda>_.
         eff_bind (refresh_jwks V config) (\<lambda>refreshed.
           case refreshed of
             Inl e \<Rightarrow> eff_bind (record_event (ForcedRefreshEvent RefreshFailure)) (\<lambda>_. Done (Inl e))
           | Inr keys \<Rightarrow>
               (case jv_find V keys kid of
                  Some jwk \<Rightarrow>
                    eff_bind (record_event (ForcedRefreshEvent RefreshSucceeded)) (\<lambda>_. Done (Inr jwk))
                | None \<Rightarrow>
                    eff_bind (record_event (ForcedRefreshEvent MissingAfterRefresh))
                      (\<lambda>_. Done (Inl MissingJwk)))))))"

definition verify_with_jwks ::
  "'k jwt_verifier \<Rightarrow> string \<Rightarrow> supabase_config \<Rightarrow> jwt_algorithm \<Rightarrow> string \<Rightarrow>
   ('k sb_state, verify_error + user_ctx) eff" where
  "verify_with_jwks V jwt config alg kid =
     eff_try (cached_jwks V config) (\<lambda>keys.
     eff_try (case jv_find V keys kid of Some jwk \<Rightarrow> Done (Inr jwk) | None \<Rightarrow> forced_lookup V config kid) (\<lambda>jwk.
       Done (verify_token V jwt config alg jwk)))"

definition user_request :: "supabase_config \<Rightarrow> string \<Rightarrow> string \<Rightarrow> kv_request" where
  "user_request config publishable_key jwt =
     \<lparr>rq_method = GET, rq_url = sc_user_url config, rq_query = [],
      rq_headers = [(''apikey'', publishable_key), (''authorization'', ''Bearer '' @ jwt)], rq_body = None\<rparr>"

fun user_response ::
  "supabase_config \<Rightarrow> kv_response \<Rightarrow> remote_userinfo_outcome \<times> (verify_error + user_ctx)" where
  "user_response config TransportFailure = (UserinfoTransportError, Inl VerifyHttp)"
| "user_response config (HttpResponse status body) =
     (if status = 200
      then
        (case Option.bind body supabase_user_from_json of
           None \<Rightarrow> (UserinfoInvalidResponse, Inl VerifyHttp)
         | Some user \<Rightarrow>
             let result = user_ctx_from_remote_user user config
             in (if is_ok result then UserinfoAccepted else UserinfoClaimRejected, result))
      else if status = 401 \<or> status = 403 then (UserinfoRejected, Inl RejectedBySupabase)
      else (UserinfoUpstreamStatus, Inl (SupabaseStatus status)))"

definition verify_with_user_endpoint ::
  "string \<Rightarrow> supabase_config \<Rightarrow> ('k sb_state, verify_error + user_ctx) eff" where
  "verify_with_user_endpoint jwt config =
     (case sc_publishable_key config of
        None \<Rightarrow> Done (Inl MissingPublishableKey)
      | Some publishable_key \<Rightarrow>
          Send (user_request config publishable_key jwt) (\<lambda>r.
            case user_response config r of
              (outcome, result) \<Rightarrow>
                eff_bind (record_event (RemoteUserinfoEvent outcome)) (\<lambda>_. Done result)))"

definition verify_session_with ::
  "'k jwt_verifier \<Rightarrow> string \<Rightarrow> supabase_config \<Rightarrow> ('k sb_state, verify_error + user_ctx) eff" where
  "verify_session_with V jwt config =
     (case jv_decode_header V jwt of
        None \<Rightarrow> Done (Inl VerifyJwt)
      | Some (alg, kid) \<Rightarrow>
          let remote = eff_bind (record_event (RemoteUserinfoEvent UserinfoAttempted))
                         (\<lambda>_. verify_with_user_endpoint jwt config)
          in if is_asymmetric_algorithm alg \<and> kid \<noteq> None
             then
               eff_bind (verify_with_jwks V jwt config alg (the kid)) (\<lambda>r.
                 case r of
                   Inr user \<Rightarrow> Done (Inr user)
                 | Inl e \<Rightarrow> if \<not> sc_allow_remote_userinfo config then Done (Inl e) else remote)
             else if \<not> sc_allow_remote_userinfo config then Done (Inl (UnsupportedAlgorithm alg))
             else remote)"

definition verify_session_inner ::
  "externals \<Rightarrow> environment \<Rightarrow> 'k jwt_verifier \<Rightarrow> string \<Rightarrow> ('k sb_state, verify_error + user_ctx) eff" where
  "verify_session_inner X env V jwt =
     (if str_trim jwt = [] then Done (Inl (InvalidToken ''empty bearer token''))
      else
        (case registry_from_env X env of
           Inl e \<Rightarrow> Done (Inl (MissingConfiguration ''supabase project registry is invalid''))
         | Inr projects \<Rightarrow>
             (case registry_select X V projects jwt of
                Inl e \<Rightarrow> Done (Inl e)
              | Inr config \<Rightarrow> verify_session_with V jwt config)))"

definition verify_session ::
  "externals \<Rightarrow> environment \<Rightarrow> 'k jwt_verifier \<Rightarrow> string \<Rightarrow> ('k sb_state, user_ctx option) eff" where
  "verify_session X env V jwt =
     eff_map (\<lambda>r. case r of Inr user \<Rightarrow> Some user | Inl e \<Rightarrow> None) (verify_session_inner X env V jwt)"

end
