(* ===== verification/Supabase_Session.thy ===== *)
theory Supabase_Session
  imports Supabase
begin

text \<open>
  What a dashboard session rests on: in every interleaving of verifications the accepted identity
  comes from claims signed by a key that the project's own key-set URL served, or, where the
  policy allows it, from an answer of the user endpoint; and what its organisations, roles
  and surfaces can be.
\<close>

section \<open>Where keys come from\<close>

definition served_keys :: "'k jwt_verifier \<Rightarrow> exchange_log \<Rightarrow> string \<Rightarrow> 'k list \<Rightarrow> bool" where
  "served_keys V L url keys \<longleftrightarrow>
     (\<exists>config r. sc_jwks_url config = url \<and> (jwks_request config, r) \<in> L \<and> jwks_response V r = Inr keys)"

definition jwks_sound :: "'k jwt_verifier \<Rightarrow> exchange_log \<Rightarrow> 'k sb_state \<Rightarrow> bool" where
  "jwks_sound V L s \<longleftrightarrow> (\<forall>url c. sb_jwks_cache s url = Some c \<longrightarrow> served_keys V L url (cj_jwks c))"

definition clock_ticks :: "'k sb_state \<Rightarrow> 'k sb_state \<Rightarrow> bool" where
  "clock_ticks s s' \<longleftrightarrow> (\<exists>n. sb_clock s \<le> n \<and> s' = s\<lparr>sb_clock := n\<rparr>)"

definition by_key :: "'k jwt_verifier \<Rightarrow> exchange_log \<Rightarrow> string \<Rightarrow> supabase_config \<Rightarrow> user_ctx \<Rightarrow> bool" where
  "by_key V L jwt config user \<longleftrightarrow>
     (\<exists>alg kid keys jwk. jv_decode_header V jwt = Some (alg, Some kid) \<and> is_asymmetric_algorithm alg
        \<and> served_keys V L (sc_jwks_url config) keys \<and> jv_find V keys kid = Some jwk
        \<and> verify_token V jwt config alg jwk = Inr user)"

definition by_endpoint :: "exchange_log \<Rightarrow> string \<Rightarrow> supabase_config \<Rightarrow> user_ctx \<Rightarrow> bool" where
  "by_endpoint L jwt config user \<longleftrightarrow>
     sc_allow_remote_userinfo config
   \<and> (\<exists>key r. sc_publishable_key config = Some key \<and> (user_request config key jwt, r) \<in> L
        \<and> snd (user_response config r) = Inr user)"

definition session_good ::
  "externals \<Rightarrow> environment \<Rightarrow> 'k jwt_verifier \<Rightarrow> exchange_log \<Rightarrow> string \<times> (verify_error + user_ctx) \<Rightarrow> bool" where
  "session_good X env V L res \<longleftrightarrow>
     (\<forall>user. snd res = Inr user \<longrightarrow>
        (\<exists>projects config. registry_from_env X env = Inr projects
           \<and> registry_select X V projects (fst res) = Inr config
           \<and> (by_key V L (fst res) config user \<or> by_endpoint L (fst res) config user)))"

definition session_ops :: "externals \<Rightarrow> environment \<Rightarrow> 'k jwt_verifier \<Rightarrow>
    ('k sb_state, string \<times> (verify_error + user_ctx)) eff set" where
  "session_ops X env V = range (\<lambda>jwt. eff_map (\<lambda>r. (jwt, r)) (verify_session_inner X env V jwt))"

lemma served_keys_mono: "served_keys V L url keys \<Longrightarrow> L \<subseteq> L' \<Longrightarrow> served_keys V L' url keys"
  unfolding served_keys_def by blast

lemma by_key_mono: "by_key V L jwt config user \<Longrightarrow> L \<subseteq> L' \<Longrightarrow> by_key V L' jwt config user"
  unfolding by_key_def using served_keys_mono by blast

lemma by_endpoint_mono: "by_endpoint L jwt config user \<Longrightarrow> L \<subseteq> L' \<Longrightarrow> by_endpoint L' jwt config user"
  unfolding by_endpoint_def by blast

lemma jwks_sound_event [simp]: "jwks_sound V L (s\<lparr>sb_events := es\<rparr>) = jwks_sound V L s"
  by (simp add: jwks_sound_def)

lemma lwp_event:
  "(\<And>L'. L \<subseteq> L' \<Longrightarrow> lwp (jwks_sound V) Q (f ()) L') \<Longrightarrow>
   lwp (jwks_sound V) Q (eff_bind (record_event e) f) L"
  by (simp add: record_event_def)

abbreviation keys_of :: "'k jwt_verifier \<Rightarrow> supabase_config \<Rightarrow> exchange_log \<Rightarrow> 'k list \<Rightarrow> bool" where
  "keys_of V config \<equiv> (\<lambda>L keys. served_keys V L (sc_jwks_url config) keys)"

definition key_of :: "'k jwt_verifier \<Rightarrow> supabase_config \<Rightarrow> string \<Rightarrow> exchange_log \<Rightarrow> 'k \<Rightarrow> bool" where
  "key_of V config kid L jwk \<longleftrightarrow>
     (\<exists>keys. served_keys V L (sc_jwks_url config) keys \<and> jv_find V keys kid = Some jwk)"

lemma key_ofI:
  "served_keys V L (sc_jwks_url config) keys \<Longrightarrow> jv_find V keys kid = Some jwk \<Longrightarrow> L \<subseteq> L' \<Longrightarrow> key_of V config kid L' jwk"
  unfolding key_of_def using served_keys_mono by blast

lemma lwp_refresh_jwks: "lwp (jwks_sound V) (on_ok (keys_of V config)) (refresh_jwks V config) L"
  unfolding refresh_jwks_def lwp.simps
proof (intro allI impI)
  fix L' r assume "L \<subseteq> L'"
  let ?L = "insert (jwks_request config, r) L'"
  show "lwp (jwks_sound V) (on_ok (keys_of V config))
      (case jwks_response V r of Inl e \<Rightarrow> Done (Inl e)
       | Inr keys \<Rightarrow> Locked (\<lambda>s. s\<lparr>sb_jwks_cache := (sb_jwks_cache s)(sc_jwks_url config \<mapsto>
           \<lparr>cj_fetched_at = sb_clock s, cj_jwks = keys\<rparr>)\<rparr>) (\<lambda>_. Done (Inr keys))) ?L"
  proof (cases "jwks_response V r")
    case (Inr keys)
    then have "served_keys V ?L (sc_jwks_url config) keys" unfolding served_keys_def by blast
    then have "served_keys V L'' (sc_jwks_url config) keys" if "?L \<subseteq> L''" for L''
      using that by (rule served_keys_mono)
    then show ?thesis by (simp add: Inr jwks_sound_def)
  qed simp
qed

lemma lwp_cached_jwks: "lwp (jwks_sound V) (on_ok (keys_of V config)) (cached_jwks V config) L"
  by (auto simp: cached_jwks_def lwp_refresh_jwks split: option.split) (auto simp: jwks_sound_def)

lemma lwp_forced_lookup: "lwp (jwks_sound V) (on_ok (key_of V config kid)) (forced_lookup V config kid) L"
proof -
  have last: "lwp (jwks_sound V) (on_ok (key_of V config kid)) (eff_bind (record_event e) (\<lambda>_. Done r)) L'"
    if "\<And>L''. L' \<subseteq> L'' \<Longrightarrow> on_ok (key_of V config kid) L'' r" for e r L'
    by (rule lwp_event) (simp add: that)
  have refreshed: "lwp (jwks_sound V) (on_ok (key_of V config kid)) (eff_bind (refresh_jwks V config) (\<lambda>refreshed.
      case refreshed of
        Inl e \<Rightarrow> eff_bind (record_event (ForcedRefreshEvent RefreshFailure)) (\<lambda>_. Done (Inl e))
      | Inr keys \<Rightarrow>
          (case jv_find V keys kid of
             Some jwk \<Rightarrow> eff_bind (record_event (ForcedRefreshEvent RefreshSucceeded)) (\<lambda>_. Done (Inr jwk))
           | None \<Rightarrow> eff_bind (record_event (ForcedRefreshEvent MissingAfterRefresh))
               (\<lambda>_. Done (Inl MissingJwk))))) L'" for L'
    by (rule lwp_bind [OF lwp_refresh_jwks])
       (auto split: sum.splits option.splits intro!: last elim: key_ofI)
  show ?thesis
    unfolding forced_lookup_def
    by (rule lwp_event) (auto simp: forced_refresh_allowed_def intro!: lwp_event refreshed last)
qed

lemma lwp_verify_with_jwks:
  assumes "jv_decode_header V jwt = Some (alg, Some kid)" "is_asymmetric_algorithm alg"
  shows "lwp (jwks_sound V) (on_ok (\<lambda>L user. by_key V L jwt config user)) (verify_with_jwks V jwt config alg kid) L"
  unfolding verify_with_jwks_def
proof (rule lwp_try [OF lwp_cached_jwks])
  fix L' keys assume "served_keys V L' (sc_jwks_url config) keys"
  then have "lwp (jwks_sound V) (on_ok (key_of V config kid))
      (case jv_find V keys kid of Some jwk \<Rightarrow> Done (Inr jwk) | None \<Rightarrow> forced_lookup V config kid) L'"
    by (auto simp: lwp_forced_lookup key_of_def split: option.split)
  then show "lwp (jwks_sound V) (on_ok (\<lambda>L user. by_key V L jwt config user))
      (eff_try (case jv_find V keys kid of Some jwk \<Rightarrow> Done (Inr jwk) | None \<Rightarrow> forced_lookup V config kid)
        (\<lambda>jwk. Done (verify_token V jwt config alg jwk))) L'"
  proof (rule lwp_try)
    fix L'' jwk assume "key_of V config kid L'' jwk"
    then show "lwp (jwks_sound V) (on_ok (\<lambda>L user. by_key V L jwt config user))
        (Done (verify_token V jwt config alg jwk)) L''"
      using assms by (cases "verify_token V jwt config alg jwk") (auto simp: by_key_def key_of_def)
  qed
qed

lemma lwp_user_endpoint:
  assumes "sc_allow_remote_userinfo config"
  shows "lwp (jwks_sound V) (on_ok (\<lambda>L user. by_endpoint L jwt config user)) (verify_with_user_endpoint jwt config) L"
proof (cases "sc_publishable_key config")
  case (Some key)
  show ?thesis
    unfolding verify_with_user_endpoint_def Some option.case lwp.simps
  proof (intro allI impI)
    fix L' r
    obtain outcome result where r: "user_response config r = (outcome, result)" by (cases "user_response config r")
    have "on_ok (\<lambda>L user. by_endpoint L jwt config user) L'' result" if "insert (user_request config key jwt, r) L' \<subseteq> L''" for L''
      using that assms Some r by (cases result) (auto simp: by_endpoint_def intro!: exI [of _ r])
    then show "lwp (jwks_sound V) (on_ok (\<lambda>L user. by_endpoint L jwt config user))
        (case user_response config r of (outcome, result) \<Rightarrow>
          eff_bind (record_event (RemoteUserinfoEvent outcome)) (\<lambda>_. Done result))
        (insert (user_request config key jwt, r) L')"
      unfolding r prod.case by (intro lwp_event) simp
  qed
qed (simp add: verify_with_user_endpoint_def)

lemma lwp_verify_session_with:
  "lwp (jwks_sound V) (on_ok (\<lambda>L user. by_key V L jwt config user \<or> by_endpoint L jwt config user))
     (verify_session_with V jwt config) L"
  (is "lwp _ ?Q _ _")
proof (cases "jv_decode_header V jwt")
  case None
  then show ?thesis by (simp add: verify_session_with_def)
next
  case (Some h)
  obtain alg kid where h: "h = (alg, kid)" by (cases h)
  let ?remote = "eff_bind (record_event (RemoteUserinfoEvent UserinfoAttempted)) (\<lambda>_. verify_with_user_endpoint jwt config)"
  have remote: "lwp (jwks_sound V) ?Q ?remote L'" if "sc_allow_remote_userinfo config" for L'
  proof (rule lwp_event)
    fix L'' assume "L' \<subseteq> L''"
    show "lwp (jwks_sound V) ?Q (verify_with_user_endpoint jwt config) L''"
      by (rule lwp_conseq [OF lwp_user_endpoint [OF that]]) (auto elim: on_ok_mono)
  qed
  show ?thesis
  proof (cases "is_asymmetric_algorithm alg \<and> kid \<noteq> None")
    case True
    then obtain kd where "kid = Some kd" "jv_decode_header V jwt = Some (alg, Some kd)" using Some h by auto
    then show ?thesis
      using True unfolding verify_session_with_def
      by (auto simp: Let_def intro!: lwp_bind [OF lwp_verify_with_jwks] split: sum.split intro: remote)
  next
    case False
    with Some h remote show ?thesis by (auto simp: verify_session_with_def Let_def)
  qed
qed

section \<open>The contract holds\<close>

lemma lwp_session_ops: "p \<in> session_ops X env V \<Longrightarrow> lwp (jwks_sound V) (session_good X env V) p L"
proof -
  have "lwp (jwks_sound V) (\<lambda>L r. session_good X env V L (jwt, r)) (verify_session_inner X env V jwt) L" for jwt
  proof (cases "str_trim jwt = [] \<or> \<not> is_ok (rbind (registry_from_env X env) (\<lambda>ps. registry_select X V ps jwt))")
    case True
    then show ?thesis by (auto simp: verify_session_inner_def session_good_def split: sum.split)
  next
    case False
    then obtain projects config where reg: "registry_from_env X env = Inr projects"
      "registry_select X V projects jwt = Inr config"
      by (cases "registry_from_env X env"; cases "registry_select X V (projr (registry_from_env X env)) jwt") auto
    have "lwp (jwks_sound V) (\<lambda>L r. session_good X env V L (jwt, r)) (verify_session_with V jwt config) L"
      by (rule lwp_conseq [OF lwp_verify_session_with]) (auto simp: session_good_def reg)
    with False reg show ?thesis by (simp add: verify_session_inner_def)
  qed
  then show "p \<in> session_ops X env V \<Longrightarrow> lwp (jwks_sound V) (session_good X env V) p L"
    by (auto simp: session_ops_def eff_map_def intro!: lwp_bind)
qed

interpretation sessions: logged_service "jwks_sound V" clock_ticks "session_ops X env V" "session_good X env V"
  for X env V
proof
  show "jwks_sound V L s \<Longrightarrow> L \<subseteq> L' \<Longrightarrow> jwks_sound V L' s" for L L' s
    unfolding jwks_sound_def using served_keys_mono by blast
  show "jwks_sound V L s \<Longrightarrow> clock_ticks s s' \<Longrightarrow> jwks_sound V L s'" for L s s'
    by (auto simp: clock_ticks_def jwks_sound_def)
  show "stable (session_good X env V)"
    unfolding stable_def
  proof (intro allI impI)
    fix L L' and res :: "string \<times> (verify_error + user_ctx)"
    assume sub: "L \<subseteq> L'" and good: "session_good X env V L res"
    show "session_good X env V L' res"
      unfolding session_good_def
    proof (intro allI impI)
      fix user assume "snd res = Inr user"
      with good obtain projects config where "registry_from_env X env = Inr projects"
        "registry_select X V projects (fst res) = Inr config"
        and "by_key V L (fst res) config user \<or> by_endpoint L (fst res) config user"
        unfolding session_good_def by blast
      then show "\<exists>projects config. registry_from_env X env = Inr projects
          \<and> registry_select X V projects (fst res) = Inr config
          \<and> (by_key V L' (fst res) config user \<or> by_endpoint L' (fst res) config user)"
        using by_key_mono [OF _ sub] by_endpoint_mono [OF _ sub] by blast
    qed
  qed
qed (rule lwp_session_ops)

section \<open>The registry\<close>

definition project_ok :: "environment \<Rightarrow> supabase_config \<Rightarrow> bool" where
  "project_ok env p \<longleftrightarrow>
     set (sc_surfaces p) \<subseteq> {ADMIN_SURFACE_AUDIENCE, CUSTOMER_SURFACE_AUDIENCE}
   \<and> (sc_allow_remote_userinfo p \<longrightarrow> sc_publishable_key p \<noteq> None)
   \<and> (\<exists>mode. remote_userinfo_policy_from_env env = Inr (mode, sc_allow_remote_userinfo p))"

lemma parse_surfaces_Inr:
  "parse_surfaces ss acc = Inr surfaces \<Longrightarrow> set acc \<subseteq> {ADMIN_SURFACE_AUDIENCE, CUSTOMER_SURFACE_AUDIENCE} \<Longrightarrow>
     set surfaces \<subseteq> {ADMIN_SURFACE_AUDIENCE, CUSTOMER_SURFACE_AUDIENCE}"
  by (induction ss acc rule: parse_surfaces.induct) (auto simp: Let_def split: if_splits)

lemma config_from_spec_Inr:
  assumes "config_from_spec env spec allow = Inr p"
  shows "sc_surfaces p \<noteq> []" "set (sc_surfaces p) \<subseteq> {ADMIN_SURFACE_AUDIENCE, CUSTOMER_SURFACE_AUDIENCE}"
    "sc_allow_remote_userinfo p = allow"
  using assms parse_surfaces_Inr [of "ps_surfaces spec" "[]"]
  by (auto simp: config_from_spec_def rbind_eq_Inr Let_def split: if_splits)

lemma add_projects_Inr:
  assumes "add_projects env allow specs acc = Inr projects"
    and "distinct (map sc_issuer acc)" "distinct (map sc_name acc)"
    and "remote_userinfo_policy_from_env env = Inr (mode, allow)"
    and "\<forall>p\<in>set acc. project_ok env p \<and> sc_surfaces p \<noteq> []"
  shows "distinct (map sc_issuer projects) \<and> distinct (map sc_name projects)
    \<and> (\<forall>p\<in>set projects. project_ok env p \<and> sc_surfaces p \<noteq> []) \<and> (specs \<noteq> [] \<or> acc \<noteq> [] \<longrightarrow> projects \<noteq> [])"
  using assms
proof (induction env allow specs acc rule: add_projects.induct)
  case (2 env allow spec specs acc)
  then obtain p where p: "config_from_spec env spec allow = Inr p"
    "\<forall>q\<in>set acc. sc_issuer q \<noteq> sc_issuer p" "\<forall>q\<in>set acc. sc_name q \<noteq> sc_name p"
    "sc_allow_remote_userinfo p \<longrightarrow> sc_publishable_key p \<noteq> None"
    "add_projects env allow specs (acc @ [p]) = Inr projects"
    by (auto simp: rbind_eq_Inr split: if_splits)
  have "project_ok env p" "sc_surfaces p \<noteq> []"
    using config_from_spec_Inr [OF p(1)] p(4) 2(5) by (auto simp: project_ok_def)
  moreover have "distinct (map sc_issuer (acc @ [p]))" "distinct (map sc_name (acc @ [p]))"
    using 2(3,4) p(2,3) by (simp_all add: image_iff, metis+)
  ultimately have "distinct (map sc_issuer projects) \<and> distinct (map sc_name projects)
      \<and> (\<forall>p\<in>set projects. project_ok env p \<and> sc_surfaces p \<noteq> []) \<and> (specs \<noteq> [] \<or> acc @ [p] \<noteq> [] \<longrightarrow> projects \<noteq> [])"
    by (intro 2(1)) (use p 2(5,6) in auto)
  then show ?case by simp
qed simp

lemma registry_Inr:
  assumes "registry_from_env X env = Inr projects"
  shows "projects \<noteq> []" "distinct (map sc_issuer projects)" "distinct (map sc_name projects)"
    "\<forall>p\<in>set projects. project_ok env p"
    "(\<exists>p. projects = [p] \<and> sc_surfaces p = []) \<or> (\<forall>p\<in>set projects. sc_surfaces p \<noteq> [])"
proof -
  have "projects \<noteq> [] \<and> distinct (map sc_issuer projects) \<and> distinct (map sc_name projects)
    \<and> (\<forall>p\<in>set projects. project_ok env p)
    \<and> ((\<exists>p. projects = [p] \<and> sc_surfaces p = []) \<or> (\<forall>p\<in>set projects. sc_surfaces p \<noteq> []))"
  proof (cases "env_value env PROJECTS_ENV")
    case None
    then obtain p where p: "config_from_env env = Inr p" "projects = [p]"
      using assms by (auto simp: registry_from_env_def rbind_eq_Inr)
    then obtain mode allow where policy: "remote_userinfo_policy_from_env env = Inr (mode, allow)"
      "sc_allow_remote_userinfo p = allow" "sc_surfaces p = []" "sc_publishable_key p = env_value env PUBLISHABLE_KEY_ENV"
      by (auto simp: config_from_env_def rbind_eq_Inr map_err_eq_Inr Let_def)
    then have "allow \<longrightarrow> env_value env PUBLISHABLE_KEY_ENV \<noteq> None"
      by (auto simp: remote_userinfo_policy_from_env_def policy_from_values_Inr)
    with p policy show ?thesis by (auto simp: project_ok_def)
  next
    case (Some raw)
    then obtain specs mode allow where "specs \<noteq> []" "remote_userinfo_policy_from_env env = Inr (mode, allow)"
      "add_projects env allow specs [] = Inr projects"
      using assms by (auto simp: registry_from_env_def rbind_eq_Inr map_err_eq_Inr split: if_splits)
    with add_projects_Inr [of env allow specs "[]" projects mode] show ?thesis by auto
  qed
  then show "projects \<noteq> []" "distinct (map sc_issuer projects)" "distinct (map sc_name projects)"
    "\<forall>p\<in>set projects. project_ok env p"
    "(\<exists>p. projects = [p] \<and> sc_surfaces p = []) \<or> (\<forall>p\<in>set projects. sc_surfaces p \<noteq> [])"
    by simp_all
qed

lemma registry_select_mem:
  assumes "registry_select X V projects jwt = Inr config"
  shows "config \<in> set projects"
proof (cases "legacy_project projects")
  case None
  with assms show ?thesis by (auto simp: registry_select_def rbind_eq_Inr find_Some_iff ok_or_eq_Inr)
next
  case (Some only)
  with assms show ?thesis
    by (cases projects rule: legacy_project.cases) (auto simp: registry_select_def split: if_splits)
qed

section \<open>Organisations and roles\<close>

text \<open>The texts of a claim: a string, or the strings of nested arrays.\<close>

fun json_texts :: "json \<Rightarrow> string set" where
  "json_texts (VStr s) = {s}"
| "json_texts (VArr vs) = (\<Union>v\<in>set vs. json_texts v)"
| "json_texts _ = {}"

definition metadata_texts :: "string list \<Rightarrow> json option \<Rightarrow> string set" where
  "metadata_texts keys metadata =
     {s. \<exists>m key v. metadata = Some m \<and> key \<in> set keys \<and> value_get m key = Some v \<and> s \<in> json_texts v}"

lemma push_org_value_set:
  "set (push_org_value v os) = set os \<union> (str_trim ` json_texts v - {[]})"
  "distinct os \<Longrightarrow> distinct (push_org_value v os)"
proof (induction v os rule: push_org_value.induct)
  case (2 vs os)
  have "set (fold push_org_value ws os) = set os \<union> ((\<Union>v\<in>set ws. str_trim ` json_texts v) - {[]})
      \<and> (distinct os \<longrightarrow> distinct (fold push_org_value ws os))" if "set ws \<subseteq> set vs" for ws os
    using that
  proof (induction ws arbitrary: os)
    case (Cons w ws)
    with 2 show ?case by auto
  qed simp
  from this [of vs os] show "set (push_org_value (VArr vs) os) = set os \<union> (str_trim ` json_texts (VArr vs) - {[]})"
    "distinct os \<Longrightarrow> distinct (push_org_value (VArr vs) os)"
    by (auto simp: image_UN)
qed (auto simp: push_org_def Let_def)

lemma push_role_value_set:
  "set (push_role_value v rs) = set rs \<union> ((\<lambda>s. to_ascii_lowercase (str_trim s)) ` json_texts v - {[]})"
  "distinct rs \<Longrightarrow> distinct (push_role_value v rs)"
proof (induction v rs rule: push_role_value.induct)
  case (2 vs rs)
  have "set (fold push_role_value ws rs) =
        set rs \<union> ((\<Union>v\<in>set ws. (\<lambda>s. to_ascii_lowercase (str_trim s)) ` json_texts v) - {[]})
      \<and> (distinct rs \<longrightarrow> distinct (fold push_role_value ws rs))" if "set ws \<subseteq> set vs" for ws rs
    using that
  proof (induction ws arbitrary: rs)
    case (Cons w ws)
    with 2 show ?case by auto
  qed simp
  from this [of vs rs] show
    "set (push_role_value (VArr vs) rs) = set rs \<union> ((\<lambda>s. to_ascii_lowercase (str_trim s)) ` json_texts (VArr vs) - {[]})"
    "distinct rs \<Longrightarrow> distinct (push_role_value (VArr vs) rs)"
    by (auto simp: image_UN)
qed (auto simp: push_role_def Let_def)

lemma fold_keys:
  assumes "\<And>v acc. set (f v acc) = set acc \<union> (g ` json_texts v - {[]})" "\<And>v acc. distinct acc \<Longrightarrow> distinct (f v acc)"
  shows "set (fold (\<lambda>key acc. case value_get m key of Some v \<Rightarrow> f v acc | None \<Rightarrow> acc) keys acc) =
      set acc \<union> (g ` metadata_texts keys (Some m) - {[]})
    \<and> (distinct acc \<longrightarrow> distinct (fold (\<lambda>key acc. case value_get m key of Some v \<Rightarrow> f v acc | None \<Rightarrow> acc) keys acc))"
proof (induction keys arbitrary: acc)
  case (Cons key keys)
  have "metadata_texts (key # keys) (Some m) =
      (case value_get m key of Some v \<Rightarrow> json_texts v | None \<Rightarrow> {}) \<union> metadata_texts keys (Some m)"
    by (auto simp: metadata_texts_def split: option.split)
  with Cons assms show ?case by (auto split: option.split)
qed (simp add: metadata_texts_def)

lemma orgs_from_metadata_set:
  "set (orgs_from_metadata [app]) = str_trim ` metadata_texts org_keys app - {[]}"
  "distinct (orgs_from_metadata [app])"
  using fold_keys [of push_org_value str_trim _ org_keys "[]", OF push_org_value_set]
  by (cases app; simp add: orgs_from_metadata_def metadata_texts_def)+

lemma roles_from_metadata_set:
  "set (roles_from_metadata [app]) = (\<lambda>s. to_ascii_lowercase (str_trim s)) ` metadata_texts role_keys app - {[]}"
  "distinct (roles_from_metadata [app])"
  using fold_keys [of push_role_value "\<lambda>s. to_ascii_lowercase (str_trim s)" _ role_keys "[]", OF push_role_value_set]
  by (cases app; simp add: roles_from_metadata_def metadata_texts_def)+

section \<open>Properties\<close>

definition sb_start :: "nat \<Rightarrow> 'k sb_state" where
  "sb_start n = \<lparr>sb_jwks_cache = Map.empty, sb_clock = n, sb_events = []\<rparr>"

lemma jwks_sound_start [simp]: "jwks_sound V L (sb_start n)"
  by (simp add: jwks_sound_def sb_start_def)

lemma verify_token_Inr:
  "verify_token V jwt config alg jwk = Inr user \<longleftrightarrow>
     \<not> jv_octet V jwk \<and> jv_usable V jwk
   \<and> (\<exists>v claims. jv_decode V jwt jwk alg (sc_issuer config) (sc_audience config) = Some v
        \<and> supabase_claims_from_json v = Some claims \<and> user_ctx_from_claims claims config = Inr user)"
  by (auto simp: verify_token_def reject_symmetric_jwk_def rbind_eq_Inr ok_or_eq_Inr bind_eq_Some_conv split: if_splits)

lemma user_ctx_Inr:
  "user_ctx_from_claims claims config = Inr user \<Longrightarrow>
     project_surfaces user = config_project_surfaces config \<and> sp_role claims = Some DEFAULT_AUDIENCE
   \<and> orgs user = orgs_from_metadata [sp_app_metadata claims] \<and> roles user = roles_from_metadata [sp_app_metadata claims]"
  by (auto simp: user_ctx_from_claims_def rbind_eq_Inr split: if_splits)

lemma remote_user_Inr:
  "user_ctx_from_remote_user u config = Inr user \<Longrightarrow>
     project_surfaces user = config_project_surfaces config
   \<and> orgs user = orgs_from_metadata [su_app_metadata u] \<and> roles user = roles_from_metadata [su_app_metadata u]"
  by (auto simp: user_ctx_from_remote_user_def rbind_eq_Inr split: if_splits)

lemma user_response_Inr:
  "snd (user_response config r) = Inr user \<Longrightarrow>
     \<exists>body u. r = HttpResponse 200 (Some body) \<and> supabase_user_from_json body = Some u
       \<and> user_ctx_from_remote_user u config = Inr user"
  by (cases "(config, r)" rule: user_response.cases)
     (auto simp: Let_def bind_eq_Some_conv split: if_splits option.splits)

lemma session_surfaces:
  "by_key V L jwt config user \<or> by_endpoint L jwt config user \<Longrightarrow>
     project_surfaces user = config_project_surfaces config"
  by (auto simp: by_key_def by_endpoint_def verify_token_Inr dest!: user_ctx_Inr user_response_Inr remote_user_Inr)

text \<open>
  C34. A dashboard session is accepted only on real evidence: in every interleaving of
  verifications with any answers of the services, an accepted token was routed to a configured
  project, and either a key from a key set that this project's own URL served, found under the
  token's key id and not symmetric, verified the token under an asymmetric algorithm for the
  project's issuer and audience, or the policy allows remote verification outside production and the
  project's user endpoint answered 200 for this very token.
\<close>
theorem accepted_session_has_evidence:
  assumes "(net_step clock_ticks (session_ops X env V))\<^sup>*\<^sup>* (net_init (sb_start n)) s"
    and "nt_threads s t = Some (Done (jwt, Inr user))"
  shows "\<exists>projects config. registry_from_env X env = Inr projects \<and> config \<in> set projects
    \<and> registry_select X V projects jwt = Inr config
    \<and> ((\<exists>alg kid keys jwk v claims. jv_decode_header V jwt = Some (alg, Some kid) \<and> is_asymmetric_algorithm alg
          \<and> served_keys V (nt_log s) (sc_jwks_url config) keys \<and> jv_find V keys kid = Some jwk \<and> \<not> jv_octet V jwk
          \<and> jv_decode V jwt jwk alg (sc_issuer config) (sc_audience config) = Some v
          \<and> supabase_claims_from_json v = Some claims \<and> user_ctx_from_claims claims config = Inr user)
      \<or> (\<exists>mode key body u. remote_userinfo_policy_from_env env = Inr (mode, True) \<and> mode \<noteq> Production
          \<and> sc_publishable_key config = Some key
          \<and> (user_request config key jwt, HttpResponse 200 (Some body)) \<in> nt_log s
          \<and> supabase_user_from_json body = Some u \<and> user_ctx_from_remote_user u config = Inr user))"
proof -
  have "session_good X env V (nt_log s) (jwt, Inr user)"
    by (rule sessions.result_good [OF assms(1) jwks_sound_start assms(2)])
  then obtain projects config where reg: "registry_from_env X env = Inr projects"
    "registry_select X V projects jwt = Inr config"
    and ev: "by_key V (nt_log s) jwt config user \<or> by_endpoint (nt_log s) jwt config user"
    by (auto simp: session_good_def)
  have mem: "config \<in> set projects" by (rule registry_select_mem [OF reg(2)])
  then have "project_ok env config" using registry_Inr(4) [OF reg(1)] by blast
  then have policy: "\<exists>mode. remote_userinfo_policy_from_env env = Inr (mode, True) \<and> mode \<noteq> Production"
    if "sc_allow_remote_userinfo config"
    using that by (auto simp: project_ok_def remote_userinfo_policy_from_env_def policy_from_values_Inr)
  from ev show ?thesis
  proof
    assume "by_key V (nt_log s) jwt config user"
    then show ?thesis using reg mem unfolding by_key_def verify_token_Inr by blast
  next
    assume "by_endpoint (nt_log s) jwt config user"
    then obtain key r where "sc_allow_remote_userinfo config" "sc_publishable_key config = Some key"
      "(user_request config key jwt, r) \<in> nt_log s" "snd (user_response config r) = Inr user"
      by (auto simp: by_endpoint_def)
    moreover from user_response_Inr [OF this(4)] obtain body u where "r = HttpResponse 200 (Some body)"
      "supabase_user_from_json body = Some u" "user_ctx_from_remote_user u config = Inr user"
      by blast
    ultimately show ?thesis using reg mem policy by blast
  qed
qed

text \<open>
  C35. A session never leaves the surfaces of its project: in every interleaving, the surfaces that
  an accepted session may use are among those its project is bound to, and with a project that is
  not bound to the admin surface it has no administrative capability, whatever its claims say.
\<close>
theorem session_stays_on_project_surfaces:
  assumes "(net_step clock_ticks (session_ops X env V))\<^sup>*\<^sup>* (net_init (sb_start n)) s"
    and "nt_threads s t = Some (Done (jwt, Inr user))"
    and "registry_from_env X env = Inr projects" and "registry_select X V projects jwt = Inr config"
    and "sc_surfaces config \<noteq> []"
  shows "set (ac_surface_audiences (authorization_context user)) \<subseteq> set (sc_surfaces config)
    \<and> (ADMIN_SURFACE_AUDIENCE \<notin> set (sc_surfaces config) \<longrightarrow>
         set (ac_capabilities (authorization_context user)) \<subseteq> {''customer:self-service''})"
proof -
  have "session_good X env V (nt_log s) (jwt, Inr user)"
    by (rule sessions.result_good [OF assms(1) jwks_sound_start assms(2)])
  then have "by_key V (nt_log s) jwt config user \<or> by_endpoint (nt_log s) jwt config user"
    using assms(3,4) by (auto simp: session_good_def)
  from session_surfaces [OF this] have "project_surfaces user = Some (sc_surfaces config)"
    using assms(5) by (simp add: config_project_surfaces_def)
  then have "set (ac_surface_audiences (authorization_context user)) \<subseteq> set (sc_surfaces config)"
    by (auto simp: authorization_surfaces project_permits_def)
  then show ?thesis by (auto simp: authorization_capabilities)
qed

text \<open>
  C37. The project registry is unambiguous: an accepted configuration has at least one project, no
  two projects share an issuer or a name, every project is bound to known surfaces unless it is
  the single legacy project, and remote verification is open only outside production and with a key.
\<close>
theorem registry_is_unambiguous:
  assumes "registry_from_env X env = Inr projects"
  shows "projects \<noteq> [] \<and> distinct (map sc_issuer projects) \<and> distinct (map sc_name projects)
    \<and> ((\<exists>p. projects = [p] \<and> sc_surfaces p = []) \<or> (\<forall>p\<in>set projects. sc_surfaces p \<noteq> []))
    \<and> (\<forall>p\<in>set projects. set (sc_surfaces p) \<subseteq> {ADMIN_SURFACE_AUDIENCE, CUSTOMER_SURFACE_AUDIENCE}
         \<and> (sc_allow_remote_userinfo p \<longrightarrow> sc_publishable_key p \<noteq> None
              \<and> (\<exists>mode. remote_userinfo_policy_from_env env = Inr (mode, True) \<and> mode \<noteq> Production)))"
proof -
  have "\<exists>mode. remote_userinfo_policy_from_env env = Inr (mode, True) \<and> mode \<noteq> Production"
    if "p \<in> set projects" "sc_allow_remote_userinfo p" for p
    using registry_Inr(4) [OF assms] that
    by (auto simp: project_ok_def remote_userinfo_policy_from_env_def policy_from_values_Inr)
  then show ?thesis
    using registry_Inr [OF assms] by (auto simp: project_ok_def)
qed

text \<open>The metadata that the user can write is not looked at, on either path.\<close>

lemma user_metadata_ignored:
  "user_ctx_from_claims (claims\<lparr>sp_user_metadata := anything\<rparr>) config = user_ctx_from_claims claims config"
  "user_ctx_from_remote_user (u\<lparr>su_user_metadata := anything\<rparr>) config = user_ctx_from_remote_user u config"
  unfolding user_ctx_from_claims_def user_ctx_from_remote_user_def
  by (cases claims, simp only: supabase_claims.simps) (cases u, simp only: supabase_user.simps)

text \<open>
  C36. Membership and roles come from administrator-controlled metadata alone.  In every interleaving of
  verifications with any answers of the services, an accepted session has its claims from the token, or its user record
  from an answer of the user endpoint.  On both paths its organisations are exactly the non-blank trimmed texts
  under the organisation keys of the \<open>app_metadata\<close> there, its roles those under the role keys in lower case, both
  without repetition, and with any other metadata of the user in the same place the identity would be the same.
\<close>
theorem membership_from_app_metadata:
  assumes "(net_step clock_ticks (session_ops X env V))\<^sup>*\<^sup>* (net_init (sb_start n)) s"
    and "nt_threads s t = Some (Done (jwt, Inr user))"
  shows "\<exists>config app. set (orgs user) = str_trim ` metadata_texts org_keys app - {[]}
    \<and> set (roles user) = (\<lambda>s. to_ascii_lowercase (str_trim s)) ` metadata_texts role_keys app - {[]}
    \<and> distinct (orgs user) \<and> distinct (roles user)
    \<and> ((\<exists>alg jwk v claims. jv_decode V jwt jwk alg (sc_issuer config) (sc_audience config) = Some v
          \<and> supabase_claims_from_json v = Some claims \<and> app = sp_app_metadata claims
          \<and> (\<forall>anything. user_ctx_from_claims (claims\<lparr>sp_user_metadata := anything\<rparr>) config = Inr user))
      \<or> (\<exists>key body u. (user_request config key jwt, HttpResponse 200 (Some body)) \<in> nt_log s
          \<and> supabase_user_from_json body = Some u \<and> app = su_app_metadata u
          \<and> (\<forall>anything. user_ctx_from_remote_user (u\<lparr>su_user_metadata := anything\<rparr>) config = Inr user)))"
proof -
  have "session_good X env V (nt_log s) (jwt, Inr user)"
    by (rule sessions.result_good [OF assms(1) jwks_sound_start assms(2)])
  then obtain config where "by_key V (nt_log s) jwt config user \<or> by_endpoint (nt_log s) jwt config user"
    by (auto simp: session_good_def)
  then consider
      (key) alg jwk v claims where "jv_decode V jwt jwk alg (sc_issuer config) (sc_audience config) = Some v"
        "supabase_claims_from_json v = Some claims" "user_ctx_from_claims claims config = Inr user"
    | (endpoint) key body u where "(user_request config key jwt, HttpResponse 200 (Some body)) \<in> nt_log s"
        "supabase_user_from_json body = Some u" "user_ctx_from_remote_user u config = Inr user"
    by (auto simp: by_key_def by_endpoint_def verify_token_Inr dest!: user_response_Inr)
  then show ?thesis
  proof cases
    case key
    from user_ctx_Inr [OF key(3)] have from_app: "orgs user = orgs_from_metadata [sp_app_metadata claims]"
      "roles user = roles_from_metadata [sp_app_metadata claims]" by blast+
    have "\<forall>anything. user_ctx_from_claims (claims\<lparr>sp_user_metadata := anything\<rparr>) config = Inr user"
      by (simp only: user_metadata_ignored key(3)) simp
    with key(1,2) show ?thesis
      unfolding from_app orgs_from_metadata_set(1) roles_from_metadata_set(1)
      by (intro exI [of _ config] exI [of _ "sp_app_metadata claims"] conjI disjI1 refl orgs_from_metadata_set(2) roles_from_metadata_set(2)) blast
  next
    case endpoint
    from remote_user_Inr [OF endpoint(3)] have from_app: "orgs user = orgs_from_metadata [su_app_metadata u]"
      "roles user = roles_from_metadata [su_app_metadata u]" by blast+
    have "\<forall>anything. user_ctx_from_remote_user (u\<lparr>su_user_metadata := anything\<rparr>) config = Inr user"
      by (simp only: user_metadata_ignored endpoint(3)) simp
    with endpoint(1,2) show ?thesis
      unfolding from_app orgs_from_metadata_set(1) roles_from_metadata_set(1)
      by (intro exI [of _ config] exI [of _ "su_app_metadata u"] conjI disjI2 refl orgs_from_metadata_set(2) roles_from_metadata_set(2)) blast
  qed
qed

text \<open>
  Unknown key ids cause no traffic: while the cached key set is within its time to live and
  younger than thirty seconds, a token whose key id is not in it is refused without any request and
  without touching the cache, whatever the services would answer.
\<close>
lemma unknown_kid_sends_nothing:
  assumes "sb_jwks_cache s (sc_jwks_url config) = Some cached" and "jv_find V (cj_jwks cached) kid = None"
    and "cached_age s cached < from_secs (unat (sc_jwks_ttl config))"
    and "cached_age s cached < from_secs MIN_FORCED_JWKS_REFRESH_SECS"
  shows "run srv (verify_with_jwks V jwt config alg kid) \<sigma> s =
    (Inl MissingJwk, \<sigma>, s\<lparr>sb_events := UnknownKidEvent RefreshBlocked # UnknownKidEvent Observed # sb_events s\<rparr>)"
  using assms
  by (simp add: verify_with_jwks_def cached_jwks_def forced_lookup_def record_event_def forced_refresh_allowed_def
      forced_refresh_cooldown_elapsed_def cached_age_def)

section \<open>A concrete deployment\<close>

text \<open>One bound project, a key set of one key, and one token.\<close>

definition demo_spec :: json where
  "demo_spec = VArr [VObj [(''name'', VStr ''c''), (''project_ref'', VStr ''r''),
     (''surfaces'', VArr [VStr ''fiducia-customer''])]]"

definition demo_externals :: externals where
  "demo_externals = \<lparr>sha256 = (\<lambda>_. []), hmac_sha256 = (\<lambda>_ _. []),
     json_from_str = (\<lambda>s. if s = ''p'' then Some demo_spec
                           else Some (VObj [(''iss'', VStr ''https://r.supabase.co/auth/v1'')])),
     json_to_string = (\<lambda>_. [])\<rparr>"

definition demo_env :: environment where
  "demo_env = [PROJECTS_ENV \<mapsto> ''p'']"

definition demo_session_claims :: json where
  "demo_session_claims = VObj [(''app_metadata'', VObj [(''org_id'', VStr ''o''), (''role'', VStr ''admin'')]),
     (''role'', VStr ''authenticated''), (''sub'', VStr ''u'')]"

definition demo_verifier :: "unit jwt_verifier" where
  "demo_verifier = \<lparr>jv_decode_header = (\<lambda>_. Some (ES256, Some ''k'')), jv_b64url = Some,
     jv_jwks_of_json = (\<lambda>_. Some [()]), jv_find = (\<lambda>keys kid. if kid = ''k'' then Some () else None),
     jv_octet = (\<lambda>_. False), jv_usable = (\<lambda>_. True), jv_decode = (\<lambda>_ _ _ _ _. Some demo_session_claims)\<rparr>"

definition demo_project :: supabase_config where
  "demo_project = \<lparr>sc_name = ''c'', sc_surfaces = [''fiducia-customer''], sc_audience = ''authenticated'',
     sc_issuer = ''https://r.supabase.co/auth/v1'', sc_jwks_ttl = 600,
     sc_jwks_url = ''https://r.supabase.co/auth/v1/.well-known/jwks.json'', sc_publishable_key = None,
     sc_user_url = ''https://r.supabase.co/auth/v1/user'', sc_allow_remote_userinfo = False\<rparr>"

definition demo_user :: user_ctx where
  "demo_user = \<lparr>user_id = ''u'', email = None, orgs = [''o''], roles = [''admin''], aal = Aal1,
     project_surfaces = Some [''fiducia-customer'']\<rparr>"

lemma trim_demo [simp]:
  "str_trim ''c'' = ''c''" "str_trim ''r'' = ''r''" "str_trim ''p'' = ''p''" "str_trim ''u'' = ''u''" "str_trim ''o'' = ''o''"
  "str_trim ''admin'' = ''admin''" "str_trim ''fiducia-customer'' = ''fiducia-customer''" "str_trim ''a.b'' = ''a.b''"
  by (simp_all add: str_trim_printable printable_def)

lemma demo_policy: "remote_userinfo_policy_from_env demo_env = Inr (Production, False)"
  using mode_str_parse [of Production]
  by (simp add: remote_userinfo_policy_from_env_def policy_from_values_Inr env_value_def demo_env_def deployment_mode_parse_def
      parse_optional_bool_def PROJECTS_ENV_def DEPLOYMENT_MODE_ENV_def REMOTE_USERINFO_ENV_def)

lemma demo_registry: "registry_from_env demo_externals demo_env = Inr [demo_project]"
  by (simp add: registry_from_env_def demo_policy)
     (simp add: env_value_def demo_env_def demo_externals_def demo_spec_def project_spec_from_json_def project_spec_names_def
      field_def opt_str_def field_or_def config_from_spec_def supabase_url_for_project_def jwks_ttl_from_env_def
      PROJECTS_ENV_def demo_project_def DEFAULT_AUDIENCE_def DEFAULT_JWKS_TTL_SECS_def ADMIN_SURFACE_AUDIENCE_def
      CUSTOMER_SURFACE_AUDIENCE_def Let_def demo_policy [unfolded demo_env_def PROJECTS_ENV_def])

lemma demo_select: "registry_select demo_externals demo_verifier [demo_project] ''a.b'' = Inr demo_project"
  by (simp add: registry_select_def unverified_issuer_def demo_project_def demo_verifier_def demo_externals_def)

lemma demo_token: "verify_token demo_verifier ''a.b'' demo_project ES256 () = Inr demo_user"
  by (simp add: verify_token_def reject_symmetric_jwk_def demo_verifier_def demo_session_claims_def
      supabase_claims_from_json_def field_def opt_str_def opt_value_def field_or_def user_ctx_from_claims_def
      DEFAULT_AUDIENCE_def assurance_level_from_claim_def orgs_from_metadata_def roles_from_metadata_def org_keys_def
      role_keys_def push_org_def push_role_def to_ascii_lowercase_def demo_user_def config_project_surfaces_def
      demo_project_def Let_def)

lemma demo_run:
  "fst (run (\<lambda>u rq. (HttpResponse 200 (Some VNull), u)) (verify_session_inner demo_externals demo_env demo_verifier ''a.b'')
     () (sb_start 0)) = Inr demo_user"
  by (simp add: verify_session_inner_def demo_registry demo_select verify_session_with_def)
     (simp add: demo_verifier_def is_asymmetric_algorithm_def verify_with_jwks_def cached_jwks_def sb_start_def
      refresh_jwks_def jwks_response_def run_bind run_try demo_token [unfolded demo_verifier_def])

lemma demo_session:
  "\<exists>s. (net_step clock_ticks (session_ops demo_externals demo_env demo_verifier))\<^sup>*\<^sup>* (net_init (sb_start 0)) s
     \<and> nt_threads s 0 = Some (Done (''a.b'', Inr demo_user))"
proof -
  let ?p = "verify_session_inner demo_externals demo_env demo_verifier ''a.b''"
  obtain x c where r: "run (\<lambda>u rq. (HttpResponse 200 (Some VNull), u)) ?p () (sb_start 0) = (x, (), c)"
    by (cases "run (\<lambda>u rq. (HttpResponse 200 (Some VNull), u)) ?p () (sb_start 0)" rule: prod_cases3) simp
  then have "x = Inr demo_user" using demo_run by simp
  with r have "run (\<lambda>u rq. (HttpResponse 200 (Some VNull), u)) (eff_map (\<lambda>r. (''a.b'', r)) ?p) () (sb_start 0)
      = ((''a.b'', Inr demo_user), (), c)"
    by (simp add: run_map)
  from net_run_from_init [OF this] show ?thesis by (simp add: session_ops_def)
qed

theorem accepted_session_has_evidence_witness:
  "\<exists>s projects config. nt_threads s 0 = Some (Done (''a.b'', Inr demo_user))
     \<and> (net_step clock_ticks (session_ops demo_externals demo_env demo_verifier))\<^sup>*\<^sup>* (net_init (sb_start 0)) s
     \<and> registry_from_env demo_externals demo_env = Inr projects \<and> config \<in> set projects"
proof -
  obtain s where s: "(net_step clock_ticks (session_ops demo_externals demo_env demo_verifier))\<^sup>*\<^sup>* (net_init (sb_start 0)) s"
    "nt_threads s 0 = Some (Done (''a.b'', Inr demo_user))"
    using demo_session by blast
  from accepted_session_has_evidence [OF s] s show ?thesis by blast
qed

theorem session_stays_on_project_surfaces_witness:
  "set (ac_capabilities (authorization_context demo_user)) \<subseteq> {''customer:self-service''} \<and> ''admin'' \<in> set (roles demo_user)"
proof -
  obtain s where s: "(net_step clock_ticks (session_ops demo_externals demo_env demo_verifier))\<^sup>*\<^sup>* (net_init (sb_start 0)) s"
    "nt_threads s 0 = Some (Done (''a.b'', Inr demo_user))"
    using demo_session by blast
  have "sc_surfaces demo_project \<noteq> []" "ADMIN_SURFACE_AUDIENCE \<notin> set (sc_surfaces demo_project)"
    by (simp_all add: demo_project_def ADMIN_SURFACE_AUDIENCE_def)
  with session_stays_on_project_surfaces [OF s demo_registry demo_select] show ?thesis by (simp add: demo_user_def)
qed

theorem registry_is_unambiguous_witness:
  "registry_from_env demo_externals demo_env = Inr [demo_project] \<and> distinct (map sc_issuer [demo_project])"
  using registry_is_unambiguous [OF demo_registry] demo_registry by simp

theorem membership_from_app_metadata_witness:
  "\<exists>s app. nt_threads s 0 = Some (Done (''a.b'', Inr demo_user))
     \<and> (net_step clock_ticks (session_ops demo_externals demo_env demo_verifier))\<^sup>*\<^sup>* (net_init (sb_start 0)) s
     \<and> set (orgs demo_user) = str_trim ` metadata_texts org_keys app - {[]}"
proof -
  obtain s where s: "(net_step clock_ticks (session_ops demo_externals demo_env demo_verifier))\<^sup>*\<^sup>* (net_init (sb_start 0)) s"
    "nt_threads s 0 = Some (Done (''a.b'', Inr demo_user))"
    using demo_session by blast
  from membership_from_app_metadata [OF s] obtain app where
    "set (orgs demo_user) = str_trim ` metadata_texts org_keys app - {[]}" by (elim exE conjE)
  with s show ?thesis by (intro exI [of _ s] exI [of _ app] conjI)
qed

theorem unknown_kid_sends_nothing_witness:
  "run (\<lambda>u rq. (TransportFailure, u)) (verify_with_jwks demo_verifier ''a.b'' demo_project ES256 ''z'') ()
     \<lparr>sb_jwks_cache = [sc_jwks_url demo_project \<mapsto> \<lparr>cj_fetched_at = 0, cj_jwks = [()]\<rparr>], sb_clock = 5, sb_events = []\<rparr>
   = (Inl MissingJwk, (),
      \<lparr>sb_jwks_cache = [sc_jwks_url demo_project \<mapsto> \<lparr>cj_fetched_at = 0, cj_jwks = [()]\<rparr>], sb_clock = 5,
       sb_events = [UnknownKidEvent RefreshBlocked, UnknownKidEvent Observed]\<rparr>)"
  by (subst unknown_kid_sends_nothing [where cached = "\<lparr>cj_fetched_at = 0, cj_jwks = [()]\<rparr>"])
     (simp_all add: cached_age_def from_secs_def demo_project_def demo_verifier_def MIN_FORCED_JWKS_REFRESH_SECS_def)

end
