(* ===== verification/Sync.thy ===== *)
theory Sync
  imports Store Upstream
begin

text \<open>
  \<open>sync.rs\<close>: the in-memory copy of the organisations table.  Start-up pulls the table once and
  fails when it cannot; afterwards one iteration per tick replaces the whole copy or keeps it.
  The lemmas show that the copy is always one complete answer of the system of record.
\<close>

section \<open>Configuration and rows\<close>

type_synonym org_cache = "string \<rightharpoonup> json"

record sync_config =
  sy_base :: string
  sy_service_key :: string
  sy_table :: string
  sy_id_column :: string
  sy_interval :: u64

datatype sync_error =
    ServiceKeyMissing
  | SupabaseUrlMissing
  | PullFailed
  | PullStatus nat

definition sync_env_or :: "environment \<Rightarrow> string \<Rightarrow> string \<Rightarrow> string" where
  "sync_env_or env name d = (case env name of Some s \<Rightarrow> if s = [] then d else s | None \<Rightarrow> d)"

definition sync_config_from_env :: "environment \<Rightarrow> sync_error + sync_config" where
  "sync_config_from_env env =
     rbind (ok_or (non_blank (env ''SUPABASE_SERVICE_ROLE_KEY'')) ServiceKeyMissing) (\<lambda>service_key.
     rbind (ok_or (non_blank (env ''SUPABASE_URL'')) SupabaseUrlMissing) (\<lambda>base.
       Inr \<lparr>sy_base = trim_end_matches (CHR ''/'') base, sy_service_key = service_key,
            sy_table = sync_env_or env ''SUPABASE_ORGS_TABLE'' ''organizations'',
            sy_id_column = sync_env_or env ''SUPABASE_ORGS_ID_COLUMN'' ''id'',
            sy_interval = (case Option.bind (env ''SUPABASE_SYNC_INTERVAL_SECS'') parse_u64 of
                             Some n \<Rightarrow> n | None \<Rightarrow> 60)\<rparr>))"

definition int_to_string :: "int \<Rightarrow> string" where
  "int_to_string i = (if i < 0 then ''-'' @ dec_nat (nat (- i)) else dec_nat (nat i))"

definition value_as_id :: "json \<Rightarrow> string option" where
  "value_as_id v =
     (case as_str v of Some s \<Rightarrow> Some s | None \<Rightarrow> map_option int_to_string (as_i64 v))"

definition row_id :: "sync_config \<Rightarrow> json \<Rightarrow> string option" where
  "row_id config row = Option.bind (value_get row (sy_id_column config)) value_as_id"

definition collect_rows :: "sync_config \<Rightarrow> json list \<Rightarrow> org_cache" where
  "collect_rows config rows =
     fold (\<lambda>row out. case row_id config row of Some i \<Rightarrow> out(i \<mapsto> row) | None \<Rightarrow> out) rows Map.empty"

section \<open>Pulling and serving\<close>

definition pull_request :: "sync_config \<Rightarrow> kv_request" where
  "pull_request config =
     \<lparr>rq_method = GET, rq_url = sy_base config @ ''/rest/v1/'' @ sy_table config @ ''?select=*'', rq_query = [],
      rq_headers = [(''apikey'', sy_service_key config), (''authorization'', ''Bearer '' @ sy_service_key config)],
      rq_body = None\<rparr>"

fun pull_rows :: "kv_response \<Rightarrow> sync_error + json list" where
  "pull_rows TransportFailure = Inl PullFailed"
| "pull_rows (HttpResponse status body) =
     (if \<not> is_success status then Inl (PullStatus status)
      else case body of Some (VArr rows) \<Rightarrow> Inr rows | _ \<Rightarrow> Inl PullFailed)"

definition pull :: "sync_config \<Rightarrow> (org_cache, sync_error + org_cache) eff" where
  "pull config = Send (pull_request config) (\<lambda>r. Done (rbind (pull_rows r) (\<lambda>rows. Inr (collect_rows config rows))))"

definition org_replace :: "org_cache \<Rightarrow> (org_cache, unit) eff" where
  "org_replace rows = Locked (\<lambda>_. rows) (\<lambda>_. Done ())"

definition org_get :: "string \<Rightarrow> (org_cache, json option) eff" where
  "org_get org_id = Locked id (\<lambda>orgs. Done (orgs org_id))"

definition sync_start :: "environment \<Rightarrow> (org_cache, sync_error + unit) eff" where
  "sync_start env =
     (case sync_config_from_env env of
        Inl e \<Rightarrow> Done (Inl e)
      | Inr config \<Rightarrow> eff_try (pull config) (\<lambda>initial. eff_bind (org_replace initial) (\<lambda>_. Done (Inr ()))))"

text \<open>One iteration of the background loop.\<close>

definition sync_tick :: "sync_config \<Rightarrow> (org_cache, sync_error + unit) eff" where
  "sync_tick config =
     eff_bind (pull config) (\<lambda>pulled.
       case pulled of
         Inr rows \<Rightarrow> eff_bind (org_replace rows) (\<lambda>_. Done (Inr ()))
       | Inl e \<Rightarrow> Done (Inl e))"

section \<open>The copy is one answer\<close>

datatype org_answer = OrgRow string "json option" | SyncDone "sync_error + unit"

definition org_served :: "environment \<Rightarrow> exchange_log \<Rightarrow> org_cache \<Rightarrow> bool" where
  "org_served env L m \<longleftrightarrow>
     (\<exists>config r rows. sync_config_from_env env = Inr config \<and> (pull_request config, r) \<in> L
        \<and> pull_rows r = Inr rows \<and> m = collect_rows config rows)"

definition org_ops :: "environment \<Rightarrow> (org_cache, org_answer) eff set" where
  "org_ops env =
     {eff_map SyncDone (sync_start env)}
   \<union> {eff_map SyncDone (sync_tick config) | config. sync_config_from_env env = Inr config}
   \<union> range (\<lambda>i. eff_map (OrgRow i) (org_get i))"

fun org_good :: "environment \<Rightarrow> exchange_log \<Rightarrow> org_answer \<Rightarrow> bool" where
  "org_good env L (OrgRow i res) = (\<exists>m. org_served env L m \<and> res = m i)"
| "org_good env L (SyncDone res) = (res = Inr () \<longrightarrow> (\<exists>m. org_served env L m))"

lemma org_served_mono: "org_served env L m \<Longrightarrow> L \<subseteq> L' \<Longrightarrow> org_served env L' m"
  unfolding org_served_def by blast

lemma lwp_pull:
  assumes "sync_config_from_env env = Inr config"
  shows "lwp (org_served env) (on_ok (org_served env)) (pull config) L"
  unfolding pull_def lwp.simps
proof (intro allI impI)
  fix L' r
  show "on_ok (org_served env) (insert (pull_request config, r) L')
      (rbind (pull_rows r) (\<lambda>rows. Inr (collect_rows config rows)))"
    using assms by (cases "pull_rows r") (auto simp: org_served_def)
qed

lemma lwp_replace:
  assumes "org_served env L rows"
  shows "lwp (org_served env) (\<lambda>L res. res = Inr () \<longrightarrow> (\<exists>m. org_served env L m))
    (eff_bind (org_replace rows) (\<lambda>_. Done (Inr () :: sync_error + unit))) L"
  using org_served_mono [OF assms] by (auto simp: org_replace_def)

lemma lwp_sync_tick:
  assumes "sync_config_from_env env = Inr config"
  shows "lwp (org_served env) (\<lambda>L res. res = Inr () \<longrightarrow> (\<exists>m. org_served env L m)) (sync_tick config) L"
  unfolding sync_tick_def
  by (rule lwp_bind [OF lwp_pull [OF assms]]) (auto split: sum.split intro: lwp_replace)

lemma sync_start_tick:
  "sync_config_from_env env = Inr config \<Longrightarrow> sync_start env = sync_tick config"
  by (simp add: sync_start_def sync_tick_def eff_try_def pull_def)

lemma lwp_org_ops:
  assumes "p \<in> org_ops env"
  shows "lwp (org_served env) (org_good env) p L"
proof -
  have tick: "lwp (org_served env) (org_good env) (eff_map SyncDone (sync_tick config)) L"
    if "sync_config_from_env env = Inr config" for config
    unfolding eff_map_def by (rule lwp_bind [OF lwp_sync_tick [OF that]]) simp
  have "lwp (org_served env) (org_good env) (eff_map SyncDone (sync_start env)) L"
    using tick by (cases "sync_config_from_env env") (simp_all add: sync_start_tick, simp add: sync_start_def eff_map_def)
  moreover have "lwp (org_served env) (org_good env) (eff_map (OrgRow i) (org_get i)) L" for i
    by (auto simp: eff_map_def org_get_def)
  ultimately show ?thesis using assms tick by (auto simp: org_ops_def)
qed

interpretation org_sync: logged_service "org_served env" "(=)" "org_ops env" "org_good env" for env
proof
  show "stable (org_good env)"
    unfolding stable_def
  proof (intro allI impI)
    fix L L' and x :: org_answer
    assume "L \<subseteq> L'" "org_good env L x"
    then show "org_good env L' x"
      by (cases x) (auto dest: org_served_mono)
  qed
qed (auto intro: org_served_mono lwp_org_ops)

lemma collect_rows_Some:
  "collect_rows config rows i = Some row \<Longrightarrow> row \<in> set rows \<and> row_id config row = Some i"
proof -
  have "fold (\<lambda>row out. case row_id config row of Some i \<Rightarrow> out(i \<mapsto> row) | None \<Rightarrow> out) rows m0 i = Some row \<Longrightarrow>
      row \<in> set rows \<and> row_id config row = Some i \<or> m0 i = Some row" for m0
  proof (induction rows arbitrary: m0)
    case (Cons r rows)
    from Cons.IH [OF Cons.prems [simplified]] show ?case by (auto split: option.splits if_splits)
  qed simp
  from this [of Map.empty] show "collect_rows config rows i = Some row \<Longrightarrow> row \<in> set rows \<and> row_id config row = Some i"
    by (simp add: collect_rows_def)
qed

lemma collect_rows_None:
  "collect_rows config rows i = None \<longleftrightarrow> (\<forall>row\<in>set rows. row_id config row \<noteq> Some i)"
proof -
  have "fold (\<lambda>row out. case row_id config row of Some i \<Rightarrow> out(i \<mapsto> row) | None \<Rightarrow> out) rows m0 i = None \<longleftrightarrow>
      (\<forall>row\<in>set rows. row_id config row \<noteq> Some i) \<and> m0 i = None" for m0
    by (induction rows arbitrary: m0) (auto split: option.splits)
  then show ?thesis by (simp add: collect_rows_def)
qed

text \<open>
  C39. The organisation cache answers from one complete answer of the system of record: after a
  successful start-up, in every interleaving of refreshes and reads and with any further
  answers of the service, what a read returns for an id agrees with one successful pull of the
  configured table: a row is one of its rows under its own id, and no row means that this pull had
  none for the id.  A failing refresh never empties the cache.
\<close>
theorem org_reads_agree_with_one_pull:
  assumes "fst (run (\<lambda>u rq. (r0, u)) (sync_start env) () Map.empty) = Inr ()"
    and "sync_config_from_env env = Inr config"
    and "(net_step (=) (org_ops env))\<^sup>*\<^sup>*
      \<lparr>nt_log = {(pull_request config, r0)}, nt_local = snd (snd (run (\<lambda>u rq. (r0, u)) (sync_start env) () Map.empty)),
       nt_threads = Map.empty\<rparr> s"
    and "nt_threads s t = Some (Done (OrgRow i res))"
  shows "\<exists>r rows. (pull_request config, r) \<in> nt_log s \<and> pull_rows r = Inr rows
    \<and> (case res of Some row \<Rightarrow> row \<in> set rows \<and> row_id config row = Some i
       | None \<Rightarrow> \<forall>row\<in>set rows. row_id config row \<noteq> Some i)"
proof -
  let ?c = "snd (snd (run (\<lambda>u rq. (r0, u)) (sync_start env) () Map.empty))"
  obtain rows0 where r0: "pull_rows r0 = Inr rows0" "?c = collect_rows config rows0"
    using assms(1,2)
    by (cases "pull_rows r0") (auto simp: sync_start_def pull_def org_replace_def run_try run_bind)
  then have "org_served env {(pull_request config, r0)} ?c" using assms(2) by (auto simp: org_served_def)
  then have "org_sync.net_inv env \<lparr>nt_log = {(pull_request config, r0)}, nt_local = ?c, nt_threads = Map.empty\<rparr>"
    by (simp add: org_sync.net_inv_def)
  from org_sync.net_inv_thread [OF org_sync.net_inv_from [OF assms(3) this] assms(4)]
  obtain m where "org_served env (nt_log s) m" "res = m i" by auto
  then obtain r rows where "(pull_request config, r) \<in> nt_log s" "pull_rows r = Inr rows" "res = collect_rows config rows i"
    using assms(2) by (auto simp: org_served_def)
  then show ?thesis
    by (intro exI [of _ r] exI [of _ rows]) (auto simp: collect_rows_None dest: collect_rows_Some split: option.split)
qed

definition demo_sync_env :: environment where
  "demo_sync_env = [''SUPABASE_SERVICE_ROLE_KEY'' \<mapsto> ''k'', ''SUPABASE_URL'' \<mapsto> ''u'']"

definition demo_rows :: kv_response where
  "demo_rows = HttpResponse 200 (Some (VArr [VObj [(''id'', VStr ''o'')]]))"

definition demo_sync_config :: sync_config where
  "demo_sync_config = \<lparr>sy_base = ''u'', sy_service_key = ''k'', sy_table = ''organizations'', sy_id_column = ''id'',
     sy_interval = 60\<rparr>"

lemma demo_sync_config: "sync_config_from_env demo_sync_env = Inr demo_sync_config"
  by (simp add: sync_config_from_env_def demo_sync_env_def demo_sync_config_def non_blank_def sync_env_or_def
      str_trim_printable printable_def trim_end_matches_def)

lemma demo_sync_run:
  "run (\<lambda>u rq. (demo_rows, u)) (sync_start demo_sync_env) () Map.empty =
     (Inr (), (), [''o'' \<mapsto> VObj [(''id'', VStr ''o'')]])"
  by (simp add: sync_start_def demo_sync_config)
     (simp add: pull_def org_replace_def run_try run_bind demo_rows_def is_success_def collect_rows_def row_id_def
      value_as_id_def demo_sync_config_def)

theorem org_reads_agree_with_one_pull_witness:
  "\<exists>s :: (org_cache, org_answer) net. nt_threads s 0 = Some (Done (OrgRow ''o'' (Some (VObj [(''id'', VStr ''o'')]))))
     \<and> (\<exists>r rows. (pull_request demo_sync_config, r) \<in> nt_log s \<and> pull_rows r = Inr rows
          \<and> VObj [(''id'', VStr ''o'')] \<in> set rows)"
proof -
  let ?c = "[''o'' \<mapsto> VObj [(''id'', VStr ''o'')]] :: org_cache" and ?row = "VObj [(''id'', VStr ''o'')]"
  let ?p = "eff_map (OrgRow ''o'') (org_get ''o'')"
  let ?s0 = "\<lparr>nt_log = {(pull_request demo_sync_config, demo_rows)}, nt_local = ?c, nt_threads = Map.empty\<rparr>
    :: (org_cache, org_answer) net"
  let ?s1 = "?s0\<lparr>nt_threads := (nt_threads ?s0)(0 \<mapsto> ?p)\<rparr>"
  have "net_step (=) (org_ops demo_sync_env) ?s0 ?s1"
    by (rule net_step.spawn) (simp_all add: org_ops_def)
  moreover have "\<exists>s. (net_step (=) (org_ops demo_sync_env))\<^sup>*\<^sup>* ?s1 s \<and> nt_threads s 0 = Some (Done (OrgRow ''o'' (Some ?row)))
      \<and> nt_local s = ?c"
    by (rule net_run_reaches [where srv = "\<lambda>_. demo_rows" and p = ?p]) (simp_all add: run_map org_get_def)
  ultimately obtain s where s: "(net_step (=) (org_ops demo_sync_env))\<^sup>*\<^sup>* ?s0 s"
    "nt_threads s 0 = Some (Done (OrgRow ''o'' (Some ?row)))"
    by (meson converse_rtranclp_into_rtranclp)
  have "\<exists>r rows. (pull_request demo_sync_config, r) \<in> nt_log s \<and> pull_rows r = Inr rows
      \<and> (case Some ?row of Some row \<Rightarrow> row \<in> set rows \<and> row_id demo_sync_config row = Some ''o''
         | None \<Rightarrow> \<forall>row\<in>set rows. row_id demo_sync_config row \<noteq> Some ''o'')"
    by (rule org_reads_agree_with_one_pull [where env = demo_sync_env and ?r0.0 = demo_rows, OF _ demo_sync_config _ s(2)])
       (simp_all only: demo_sync_run fst_conv snd_conv s(1))
  then show ?thesis using s(2) by auto
qed

end
