(* ===== verification/Server.thy ===== *)
theory Server
  imports Composition Key_Lifecycle Supabase_Session Sync Token
begin

text \<open>
  \<open>main.rs\<close>: the HTTP server.  Start-up validates the configuration of every component and fills
  the organisation cache before traffic is accepted; each request runs one handler, which
  composes sessions, keys, organisations and tokens.  The process state has one part per
  component; the URL library, the JWT libraries, clock readings and entropy are parameters.
\<close>

section \<open>Constants and state\<close>

definition SERVICE :: string where
  "SERVICE = ''fiducia-auth''"

definition DEFAULT_ROTATION_OVERLAP_SECONDS :: u64 where
  "DEFAULT_ROTATION_OVERLAP_SECONDS = 60"

definition ALLOWED_API_KEY_SCOPES :: "string list" where
  "ALLOWED_API_KEY_SCOPES =
     [''requests:read'', ''requests:write'', ''locks:read'', ''locks:write'', ''kv:read'', ''kv:write'',
      ''services:read'', ''services:write'', ''elections:read'', ''elections:write'', ''cron:read'',
      ''cron:write'', ''rate-limit:read'', ''rate-limit:write'']"

definition MIN_INTROSPECT_SECRET_BYTES :: nat where
  "MIN_INTROSPECT_SECRET_BYTES = 32"

record app_state =
  as_keys :: key_store
  as_introspect_secret :: string
  as_rotation_overlap_seconds :: u64

text \<open>The state behind locks: one part per component.\<close>

record 'k app_local =
  al_keys :: key_cache
  al_orgs :: org_cache
  al_sessions :: "'k sb_state"

definition on_keys :: "(key_cache, 'a) eff \<Rightarrow> ('k app_local, 'a) eff" where
  "on_keys = focus al_keys (\<lambda>c s. s\<lparr>al_keys := c\<rparr>)"

definition on_orgs :: "(org_cache, 'a) eff \<Rightarrow> ('k app_local, 'a) eff" where
  "on_orgs = focus al_orgs (\<lambda>c s. s\<lparr>al_orgs := c\<rparr>)"

definition on_sessions :: "('k sb_state, 'a) eff \<Rightarrow> ('k app_local, 'a) eff" where
  "on_sessions = focus al_sessions (\<lambda>c s. s\<lparr>al_sessions := c\<rparr>)"

text \<open>What the process got from its environment and libraries.\<close>

record 'k runtime =
  rt_ext :: externals
  rt_env :: environment
  rt_verifier :: "'k jwt_verifier"
  rt_jwt :: jwt_lib
  rt_signer :: signer

section \<open>Replies and headers\<close>

text \<open>A reply without a JSON body has \<open>None\<close> there.\<close>

record http_reply =
  re_status :: nat
  re_headers :: "(string \<times> string) list"
  re_body :: "json option"

definition json_reply :: "nat \<Rightarrow> json \<Rightarrow> http_reply" where
  "json_reply status body = \<lparr>re_status = status, re_headers = [], re_body = Some body\<rparr>"

definition secret_reply :: "json \<Rightarrow> http_reply" where
  "secret_reply body =
     \<lparr>re_status = 200, re_headers = [(''cache-control'', ''no-store'')], re_body = Some body\<rparr>"

text \<open>
  Header names are lower case, in the order received; a value that is not visible text
  is \<open>None\<close>.
\<close>

type_synonym header_map = "(string \<times> string option) list"

definition single_header_str :: "header_map \<Rightarrow> string \<Rightarrow> string option" where
  "single_header_str headers name =
     (case map snd (filter (\<lambda>(n, _). n = name) headers) of
        [] \<Rightarrow> None
      | first # others \<Rightarrow>
          Option.bind first (\<lambda>text.
            let value = str_trim text
            in if value = [] \<or> CHR '','' \<in> set value \<or> others \<noteq> [] then None else Some value))"

text \<open>The first value of a header, when it is visible text.\<close>

definition header_get :: "header_map \<Rightarrow> string \<Rightarrow> string option" where
  "header_get headers name =
     (case map snd (filter (\<lambda>(n, _). n = name) headers) of [] \<Rightarrow> None | first # _ \<Rightarrow> first)"

definition unauthorized :: "string \<Rightarrow> http_reply" where
  "unauthorized msg = json_reply 401 (VObj [(''detail'', VStr msg), (''error'', VStr ''unauthorized'')])"

definition bad_key_request :: "string \<Rightarrow> http_reply" where
  "bad_key_request e = json_reply 400 (VObj [(''error'', VStr e)])"

definition storage_unavailable :: http_reply where
  "storage_unavailable = json_reply 503 (VObj [(''error'', VStr ''storage_unavailable'')])"

definition key_store_error :: "store_error \<Rightarrow> http_reply" where
  "key_store_error e =
     (if e = IdempotencyConflict then json_reply 409 (VObj [(''error'', VStr ''idempotency_conflict'')])
      else storage_unavailable)"

definition bearer_token :: "header_map \<Rightarrow> string option" where
  "bearer_token headers =
     Option.bind (Option.bind (single_header_str headers ''authorization'') (strip_prefix ''Bearer ''))
       (\<lambda>value. if value = [] then None else Some value)"

definition require_user :: "'k runtime \<Rightarrow> header_map \<Rightarrow> ('k app_local, http_reply + user_ctx) eff" where
  "require_user R headers =
     (case bearer_token headers of
        Some jwt \<Rightarrow>
          eff_map (\<lambda>u. ok_or u (unauthorized ''invalid or expired session''))
            (on_sessions (verify_session (rt_ext R) (rt_env R) (rt_verifier R) jwt))
      | None \<Rightarrow> Done (Inl (unauthorized ''missing bearer token'')))"

definition require_idempotency_key :: "header_map \<Rightarrow> http_reply + string" where
  "require_idempotency_key headers =
     (case single_header_str headers ''idempotency-key'' of
        None \<Rightarrow> Inl (bad_key_request ''idempotency_key_required'')
      | Some value \<Rightarrow>
          if value = [] \<or> 128 < length value \<or> (\<exists>c\<in>set (chars value). is_control c \<or> is_whitespace c)
          then Inl (bad_key_request ''invalid_idempotency_key'') else Inr value)"

definition internal_secret_authorized :: "header_map \<Rightarrow> string \<Rightarrow> bool" where
  "internal_secret_authorized headers expected =
     (case single_header_str headers ''x-server-auth'' of
        Some provided \<Rightarrow> constant_time_eq (as_bytes provided) (as_bytes expected)
      | None \<Rightarrow> False)"

section \<open>Tenant and input checks\<close>

definition select_user_org :: "user_ctx \<Rightarrow> string option \<Rightarrow> http_reply + string" where
  "select_user_org user requested =
     (case non_blank requested of
        Some r \<Rightarrow>
          let org_id = str_trim r
          in if org_id \<in> set (orgs user) then Inr org_id
             else Inl (json_reply 403 (VObj [(''error'', VStr ''forbidden_org''), (''org_id'', VStr org_id)]))
      | None \<Rightarrow>
          (case orgs user of
             [] \<Rightarrow> Inl (json_reply 403 (VObj [(''error'', VStr ''no_org'')]))
           | [org_id] \<Rightarrow> Inr org_id
           | _ \<Rightarrow> Inl (json_reply 400 (VObj [(''error'', VStr ''org_id_required'')]))))"

record key_create_input =
  ki_name :: string
  ki_scopes :: "string list"
  ki_env :: string
  ki_require_idempotency :: bool

fun collect_scopes :: "string list \<Rightarrow> string list \<Rightarrow> string + string list" where
  "collect_scopes [] out = Inr out"
| "collect_scopes (s # ss) out =
     (let scope = str_trim s
      in if scope = [] then collect_scopes ss out
         else if scope \<notin> set ALLOWED_API_KEY_SCOPES then Inl ''invalid_scope''
         else collect_scopes ss (if scope \<in> set out then out else out @ [scope]))"

definition validated_key_create_input :: "create_key_body \<Rightarrow> string + key_create_input" where
  "validated_key_create_input body =
     (let name = str_trim (cb_name body)
      in if name = [] then Inl ''name_required''
         else
           let env = str_trim (case cb_env body of Some e \<Rightarrow> e | None \<Rightarrow> ''live'')
           in if env \<noteq> ''live'' \<and> env \<noteq> ''test'' then Inl ''invalid_environment''
              else
                rbind (collect_scopes (cb_scopes body) []) (\<lambda>scopes.
                  Inr \<lparr>ki_name = name, ki_scopes = (if scopes = [] then [''requests:write''] else scopes),
                       ki_env = env, ki_require_idempotency = cb_require_idempotency body\<rparr>))"

section \<open>Handlers\<close>

definition health :: http_reply where
  "health = json_reply 200 (VObj [(''service'', VStr SERVICE), (''status'', VStr ''ok'')])"

definition jwks_handler :: "'k runtime \<Rightarrow> http_reply" where
  "jwks_handler R = json_reply 200 (jwks (rt_signer R))"

definition me :: "'k runtime \<Rightarrow> header_map \<Rightarrow> ('k app_local, http_reply) eff" where
  "me R headers =
     or_return (require_user R headers) (\<lambda>user. Done (json_reply 200 (VObj [(''user'', user_ctx_json user)])))"

definition get_org :: "'k runtime \<Rightarrow> header_map \<Rightarrow> string \<Rightarrow> ('k app_local, http_reply) eff" where
  "get_org R headers org_id =
     or_return (require_user R headers) (\<lambda>user.
       if org_id \<notin> set (orgs user)
       then Done (json_reply 403 (VObj [(''error'', VStr ''forbidden_org''), (''org_id'', VStr org_id)]))
       else
         eff_bind (on_orgs (org_get org_id)) (\<lambda>found.
           case found of
             Some org \<Rightarrow>
               Done (json_reply 200 (VObj [(''org'', org), (''org_id'', VStr org_id),
                                           (''source'', VStr ''synced-cache'')]))
           | None \<Rightarrow>
               Done (json_reply 404 (VObj [(''error'', VStr ''not_found''), (''org_id'', VStr org_id)]))))"

text \<open>The last argument is the clock reading of the key component.\<close>

definition create_key ::
  "'k runtime \<Rightarrow> app_state \<Rightarrow> header_map \<Rightarrow> create_key_body \<Rightarrow> u64 \<Rightarrow> ('k app_local, http_reply) eff" where
  "create_key R S headers body now =
     or_return (require_user R headers) (\<lambda>user.
     or_return (Done (require_idempotency_key headers)) (\<lambda>idempotency_key.
     or_return (Done (select_user_org user (cb_org_id body))) (\<lambda>org.
     or_return (Done (map_err bad_key_request (validated_key_create_input body))) (\<lambda>input.
     or_return (eff_map (map_err key_store_error)
       (on_keys (create (rt_ext R) (as_keys S)
          \<lparr>mi_actor_id = user_id user, mi_idempotency_key = idempotency_key\<rparr> org (ki_name input)
          (ki_scopes input) (ki_env input) (ki_require_idempotency input) now))) (\<lambda>(raw, meta).
     Done (secret_reply (VObj [(''api_key'', VStr raw), (''key'', api_key_meta_json meta)])))))))"

definition rotate_key ::
  "'k runtime \<Rightarrow> app_state \<Rightarrow> header_map \<Rightarrow> string \<Rightarrow> string option \<Rightarrow> ('k app_local, http_reply) eff" where
  "rotate_key R S headers key_id org_query =
     or_return (require_user R headers) (\<lambda>user.
     or_return (Done (require_idempotency_key headers)) (\<lambda>idempotency_key.
     or_return (Done (select_user_org user org_query)) (\<lambda>org.
     or_return (eff_map (map_err key_store_error)
       (on_keys (rotate_key_of (rt_ext R) (as_keys S) (user_id user) idempotency_key org key_id))) (\<lambda>rotated.
       case rotated of
         Some (raw, meta) \<Rightarrow>
           Done (secret_reply (VObj [(''api_key'', VStr raw), (''key'', api_key_meta_json meta), (''ok'', VBool True),
             (''overlap_seconds'', VNum (PosInt (as_rotation_overlap_seconds S))), (''secret_once'', VBool True)]))
       | None \<Rightarrow>
           Done (json_reply 404 (VObj [(''error'', VStr ''key_not_found''), (''ok'', VBool False)]))))))"

definition list_keys ::
  "'k runtime \<Rightarrow> app_state \<Rightarrow> header_map \<Rightarrow> string option \<Rightarrow> ('k app_local, http_reply) eff" where
  "list_keys R S headers org_query =
     or_return (require_user R headers) (\<lambda>user.
     or_return (Done (select_user_org user org_query)) (\<lambda>org.
     or_return (eff_map (map_err (\<lambda>_. storage_unavailable)) (on_keys (list_keys_of (rt_ext R) (as_keys S) org))) (\<lambda>keys.
     Done (json_reply 200 (VObj [(''keys'', VArr (map api_key_meta_json keys))])))))"

definition revoke_key ::
  "'k runtime \<Rightarrow> app_state \<Rightarrow> header_map \<Rightarrow> string \<Rightarrow> string option \<Rightarrow> ('k app_local, http_reply) eff" where
  "revoke_key R S headers key_id org_query =
     or_return (require_user R headers) (\<lambda>user.
     or_return (Done (select_user_org user org_query)) (\<lambda>org.
     or_return (eff_map (map_err (\<lambda>_. storage_unavailable)) (on_keys (revoke_key_of (rt_ext R) (as_keys S) org key_id))) (\<lambda>revoked.
     Done (json_reply 200 (VObj [(''revoked'', VBool revoked)])))))"

definition introspect_handler ::
  "'k runtime \<Rightarrow> app_state \<Rightarrow> header_map \<Rightarrow> introspect_body \<Rightarrow> ('k app_local, http_reply) eff" where
  "introspect_handler R S headers body =
     (if \<not> internal_secret_authorized headers (as_introspect_secret S)
      then Done (unauthorized ''missing or invalid internal auth'')
      else
        or_return (eff_map (map_err (\<lambda>_. storage_unavailable))
          (on_keys (introspect (rt_ext R) (as_keys S) (ib_api_key body)))) (\<lambda>result.
        Done (json_reply 200 (introspection_json result))))"

text \<open>
  The last two arguments are the clock reading and the entropy of the mint.  A panic of the mint
  becomes the reply of the panic layer.
\<close>

definition panic_reply :: http_reply where
  "panic_reply = \<lparr>re_status = 500, re_headers = [], re_body = None\<rparr>"

definition exchange_token ::
  "'k runtime \<Rightarrow> app_state \<Rightarrow> token_body \<Rightarrow> u64 \<Rightarrow> byte list option \<Rightarrow> ('k app_local, http_reply) eff" where
  "exchange_token R S body now entropy =
     or_return (eff_map (map_err (\<lambda>_. storage_unavailable))
       (on_keys (introspect (rt_ext R) (as_keys S) (tb_api_key body)))) (\<lambda>intro.
       if \<not> in_valid intro then Done (unauthorized ''invalid api key'')
       else
         let org = (case in_org_id intro of Some o' \<Rightarrow> o' | None \<Rightarrow> [])
         in case mint_token (rt_jwt R) (rt_signer R) org (in_scopes intro) 900 now entropy of
              Some jwt \<Rightarrow>
                Done (json_reply 200 (VObj [(''expires_in'', VNum (PosInt 900)), (''token'', VStr jwt),
                                            (''token_type'', VStr ''Bearer'')]))
            | None \<Rightarrow> Done panic_reply)"

section \<open>Routes\<close>

datatype api_request =
    Health
  | Jwks
  | Me header_map
  | CreateKey header_map create_key_body u64
  | ListKeys header_map "string option"
  | RevokeKey header_map string "string option"
  | RotateKey header_map string "string option"
  | GetOrg header_map string
  | Introspect header_map introspect_body
  | ExchangeToken token_body u64 "byte list option"

fun handle :: "'k runtime \<Rightarrow> app_state \<Rightarrow> api_request \<Rightarrow> ('k app_local, http_reply) eff" where
  "handle R S Health = Done health"
| "handle R S Jwks = Done (jwks_handler R)"
| "handle R S (Me headers) = me R headers"
| "handle R S (CreateKey headers body now) = create_key R S headers body now"
| "handle R S (ListKeys headers org_query) = list_keys R S headers org_query"
| "handle R S (RevokeKey headers key_id org_query) = revoke_key R S headers key_id org_query"
| "handle R S (RotateKey headers key_id org_query) = rotate_key R S headers key_id org_query"
| "handle R S (GetOrg headers org_id) = get_org R headers org_id"
| "handle R S (Introspect headers body) = introspect_handler R S headers body"
| "handle R S (ExchangeToken body now entropy) = exchange_token R S body now entropy"

section \<open>Start-up\<close>

text \<open>A variable may be set to a text that is not Unicode.\<close>

datatype var_result = VarPresent string | VarNotPresent | VarNotUnicode

definition env_var :: "environment \<Rightarrow> string list \<Rightarrow> string \<Rightarrow> var_result" where
  "env_var env not_unicode name =
     (if name \<in> set not_unicode then VarNotUnicode
      else case env name of Some v \<Rightarrow> VarPresent v | None \<Rightarrow> VarNotPresent)"

datatype startup_error =
    StartToken token_config_error
  | StartSupabase verify_error
  | SecretMissing
  | SecretWeak
  | SecretNotUnicode
  | OverlapNotInteger
  | OverlapZero
  | OverlapNotUnicode
  | StartKeys store_error
  | OriginNotAbsolute
  | OriginNotBare
  | OriginNotHeader
  | StartSync sync_error

definition introspect_secret_from :: "string option \<Rightarrow> startup_error + string" where
  "introspect_secret_from value =
     (case value of
        None \<Rightarrow> Inl SecretMissing
      | Some secret \<Rightarrow>
          if secret = [] then Inl SecretMissing
          else if str_trim secret \<noteq> secret \<or> length secret < MIN_INTROSPECT_SECRET_BYTES
               \<or> (\<exists>c\<in>set (chars secret). is_control c \<or> is_whitespace c \<or> c = 44)
            then Inl SecretWeak
          else Inr secret)"

fun introspect_secret_from_env :: "var_result \<Rightarrow> startup_error + string" where
  "introspect_secret_from_env (VarPresent value) = introspect_secret_from (Some value)"
| "introspect_secret_from_env VarNotPresent = introspect_secret_from None"
| "introspect_secret_from_env VarNotUnicode = Inl SecretNotUnicode"

definition rotation_overlap_seconds_from :: "string option \<Rightarrow> startup_error + u64" where
  "rotation_overlap_seconds_from value =
     (case value of
        None \<Rightarrow> Inr DEFAULT_ROTATION_OVERLAP_SECONDS
      | Some v \<Rightarrow>
          rbind (ok_or (parse_u64 (str_trim v)) OverlapNotInteger) (\<lambda>seconds.
            if seconds = 0 then Inl OverlapZero else Inr seconds))"

fun rotation_overlap_seconds_from_env :: "var_result \<Rightarrow> startup_error + u64" where
  "rotation_overlap_seconds_from_env (VarPresent value) = rotation_overlap_seconds_from (Some value)"
| "rotation_overlap_seconds_from_env VarNotPresent = rotation_overlap_seconds_from None"
| "rotation_overlap_seconds_from_env VarNotUnicode = Inl OverlapNotUnicode"

definition customer_origin_from :: "url_lib \<Rightarrow> string option \<Rightarrow> startup_error + string" where
  "customer_origin_from U value =
     (let configured = str_trim (case value of Some v \<Rightarrow> v | None \<Rightarrow> ''https://app.fiducia.cloud'')
      in rbind (ok_or (ul_parse U configured) OriginNotAbsolute) (\<lambda>parsed.
           if pu_scheme parsed \<notin> {''http'', ''https''} \<or> pu_host parsed = None \<or> pu_username parsed \<noteq> []
              \<or> pu_password parsed \<noteq> None \<or> pu_path parsed \<noteq> ''/'' \<or> pu_query parsed \<noteq> None
              \<or> pu_fragment parsed \<noteq> None
           then Inl OriginNotBare
           else if ul_header_value U (pu_origin parsed) then Inr (pu_origin parsed)
           else Inl OriginNotHeader))"

definition customer_origin_from_env :: "url_lib \<Rightarrow> environment \<Rightarrow> startup_error + string" where
  "customer_origin_from_env U env = customer_origin_from U (env ''FIDUCIA_CUSTOMER_ORIGIN'')"

record cors_layer =
  co_origin :: string
  co_methods :: "string list"
  co_headers :: "string list"

definition customer_cors_layer :: "string \<Rightarrow> cors_layer" where
  "customer_cors_layer origin =
     \<lparr>co_origin = origin, co_methods = [''GET'', ''POST'', ''DELETE'', ''OPTIONS''],
      co_headers = [''authorization'', ''content-type'', ''idempotency-key'', ''x-fiducia-org-id'']\<rparr>"

definition listen_port :: "environment \<Rightarrow> u16" where
  "listen_port env =
     (case Option.bind (env ''PORT'') parse_u64 of
        Some p \<Rightarrow> if unat p < 2 ^ 16 then ucast p else 8097
      | None \<Rightarrow> 8097)"

text \<open>The fallible steps of \<open>main\<close> up to the initial synchronisation, in their order.\<close>

definition start_config ::
  "externals \<Rightarrow> jwt_lib \<Rightarrow> url_lib \<Rightarrow> environment \<Rightarrow> string list \<Rightarrow> startup_error + app_state \<times> cors_layer" where
  "start_config X J U env not_unicode =
     rbind (map_err StartToken (token_validate_config X J env)) (\<lambda>_.
     rbind (map_err StartSupabase (supabase_validate_config X env)) (\<lambda>_.
     rbind (introspect_secret_from_env (env_var env not_unicode ''FIDUCIA_INTROSPECT_SECRET'')) (\<lambda>secret.
     rbind (rotation_overlap_seconds_from_env (env_var env not_unicode ''FIDUCIA_ROTATION_OVERLAP_SECONDS'')) (\<lambda>overlap.
     rbind (map_err StartKeys (key_store_from_env env)) (\<lambda>keys.
     rbind (customer_origin_from_env U env) (\<lambda>origin.
       Inr (\<lparr>as_keys = keys, as_introspect_secret = secret, as_rotation_overlap_seconds = overlap\<rparr>,
            customer_cors_layer origin)))))))"

definition server_start ::
  "externals \<Rightarrow> jwt_lib \<Rightarrow> url_lib \<Rightarrow> environment \<Rightarrow> string list \<Rightarrow>
   ('k app_local, startup_error + app_state \<times> cors_layer \<times> u16) eff" where
  "server_start X J U env not_unicode =
     eff_try (Done (start_config X J U env not_unicode)) (\<lambda>(state, cors).
     eff_try (eff_map (map_err StartSync) (on_orgs (sync_start env))) (\<lambda>_.
       Done (Inr (state, cors, listen_port env))))"

section \<open>Parts of the process state\<close>

interpretation keys_part: state_part al_keys "\<lambda>c s. s\<lparr>al_keys := c\<rparr>"
  by unfold_locales simp_all

interpretation orgs_part: state_part al_orgs "\<lambda>c s. s\<lparr>al_orgs := c\<rparr>"
  by unfold_locales simp_all

interpretation sessions_part: state_part al_sessions "\<lambda>c s. s\<lparr>al_sessions := c\<rparr>"
  by unfold_locales simp_all

lemmas run_parts = keys_part.run_focus orgs_part.run_focus sessions_part.run_focus

end
