(* ===== verification/Server_Demo.thy ===== *)
theory Server_Demo
  imports Server
begin

text \<open>
  A small deployment on which the statements about the server are instantiated: one unbound
  project whose key set holds one key, the reference store with two keys of one organisation,
  and a service that answers both.
\<close>

section \<open>Services\<close>

definition demo_services :: "kv_view server_fun" where
  "demo_services \<sigma> rq =
     (if rq_key rq = None then (HttpResponse 200 (Some VNull), \<sigma>) else ref_server \<sigma> rq)"

definition demo_network :: server where
  "demo_network \<sigma> rq r \<sigma>' \<longleftrightarrow>
     (if rq_key rq = None then r = HttpResponse 200 (Some VNull) \<and> \<sigma>' = \<sigma> else ref_relation \<sigma> rq r \<sigma>')"

lemma demo_services_reliable [simp]: "kv_reliable X demo_services"
  using ref_server_reliable [of X] by (simp add: kv_reliable_def demo_services_def)

lemma demo_network_contract [simp]: "kv_contract X demo_network"
  using ref_relation_contract [of X] unfolding kv_contract_def demo_network_def by auto

lemma demo_network_get:
  "rq_method rq = GET \<Longrightarrow> demo_network \<sigma> rq (fst (demo_services \<sigma> rq)) (snd (demo_services \<sigma> rq))"
  by (simp add: demo_network_def demo_services_def ref_relation_get)

section \<open>The process\<close>

definition demo_server_env :: environment where
  "demo_server_env = [''SUPABASE_URL'' \<mapsto> ''u'']"

definition demo_runtime :: "unit runtime" where
  "demo_runtime =
     \<lparr>rt_ext = demo, rt_env = demo_server_env, rt_verifier = demo_verifier, rt_jwt = demo_lib,
      rt_signer = \<lparr>sn_encoding = [], sn_jwk = VNull, sn_kid = ''kid''\<rparr>\<rparr>"

definition demo_secret :: string where
  "demo_secret = replicate 32 (CHR ''s'')"

definition demo_state :: app_state where
  "demo_state =
     \<lparr>as_keys = demo_ks, as_introspect_secret = demo_secret, as_rotation_overlap_seconds = 60\<rparr>"

definition demo_local :: "unit app_local" where
  "demo_local = \<lparr>al_keys = [], al_orgs = Map.empty, al_sessions = sb_start 0\<rparr>"

definition demo_headers :: header_map where
  "demo_headers = [(''authorization'', Some ''Bearer a.b''), (''idempotency-key'', Some ''k''),
     (''x-server-auth'', Some demo_secret)]"

definition demo_body :: create_key_body where
  "demo_body = \<lparr>cb_name = ''n'', cb_org_id = None, cb_scopes = [''kv:read''], cb_env = None,
     cb_require_idempotency = True\<rparr>"

definition demo_member :: user_ctx where
  "demo_member = \<lparr>user_id = ''u'', email = None, orgs = [''o''], roles = [''admin''], aal = Aal1,
     project_surfaces = None\<rparr>"

lemma demo_runtime_sel [simp]:
  "rt_ext demo_runtime = demo" "rt_env demo_runtime = demo_server_env" "rt_verifier demo_runtime = demo_verifier"
  by (simp_all add: demo_runtime_def)

lemma demo_state_sel [simp]: "as_keys demo_state = demo_ks" "as_introspect_secret demo_state = demo_secret"
  by (simp_all add: demo_state_def)

lemma trim_text [simp]:
  "str_trim ''Bearer a.b'' = ''Bearer a.b''" "str_trim ''k'' = ''k''" "str_trim ''n'' = ''n''"
  "str_trim ''live'' = ''live''" "str_trim ''kv:read'' = ''kv:read''" "str_trim demo_secret = demo_secret"
  by (simp_all add: str_trim_printable printable_def demo_secret_def list_all_iff str_trim_ascii ascii_char_def)

lemma demo_bearer [simp]: "bearer_token demo_headers = Some ''a.b''"
  by (simp add: bearer_token_def single_header_str_def demo_headers_def)

lemma demo_idempotency [simp]: "require_idempotency_key demo_headers = Inr ''k''"
  by (simp add: require_idempotency_key_def single_header_str_def demo_headers_def chars_def utf8_width_def
      is_control_def is_whitespace_def)

lemma demo_internal [simp]: "internal_secret_authorized demo_headers demo_secret"
  by (simp add: internal_secret_authorized_def single_header_str_def demo_headers_def)
     (simp add: demo_secret_def)

lemma demo_org [simp]: "select_user_org demo_member None = Inr ''o''"
  by (simp add: select_user_org_def demo_member_def non_blank_def)

lemma demo_input [simp]:
  "validated_key_create_input demo_body =
     Inr \<lparr>ki_name = ''n'', ki_scopes = [''kv:read''], ki_env = ''live'', ki_require_idempotency = True\<rparr>"
  by (simp add: validated_key_create_input_def demo_body_def ALLOWED_API_KEY_SCOPES_def)

section \<open>Its session\<close>

definition demo_config :: supabase_config where
  "demo_config = \<lparr>sc_name = ''default'', sc_surfaces = [], sc_audience = ''authenticated'',
     sc_issuer = ''u/auth/v1'', sc_jwks_ttl = 600, sc_jwks_url = ''u/auth/v1/.well-known/jwks.json'',
     sc_publishable_key = None, sc_user_url = ''u/auth/v1/user'', sc_allow_remote_userinfo = False\<rparr>"

lemma demo_server_policy: "remote_userinfo_policy_from_env demo_server_env = Inr (Production, False)"
  using mode_str_parse [of Production]
  by (simp add: remote_userinfo_policy_from_env_def policy_from_values_Inr env_value_def demo_server_env_def
      deployment_mode_parse_def parse_optional_bool_def DEPLOYMENT_MODE_ENV_def REMOTE_USERINFO_ENV_def)

lemma demo_server_registry: "registry_from_env demo demo_server_env = Inr [demo_config]"
proof -
  have "config_from_env demo_server_env = Inr demo_config"
    unfolding config_from_env_def demo_server_policy
    by (simp add: env_value_def demo_server_env_def normalize_url_def trim_end_matches_def PUBLISHABLE_KEY_ENV_def
        jwks_ttl_from_env_def DEFAULT_JWKS_TTL_SECS_def DEFAULT_AUDIENCE_def demo_config_def)
  then show ?thesis by (simp add: registry_from_env_def) (simp add: env_value_def demo_server_env_def PROJECTS_ENV_def)
qed

lemma demo_server_token: "verify_token demo_verifier ''a.b'' demo_config ES256 () = Inr demo_member"
  by (simp add: verify_token_def reject_symmetric_jwk_def demo_verifier_def demo_session_claims_def
      supabase_claims_from_json_def field_def opt_str_def opt_value_def field_or_def user_ctx_from_claims_def
      DEFAULT_AUDIENCE_def assurance_level_from_claim_def orgs_from_metadata_def roles_from_metadata_def org_keys_def
      role_keys_def push_org_def push_role_def to_ascii_lowercase_def demo_member_def config_project_surfaces_def
      demo_config_def Let_def)

definition demo_sessions :: "unit sb_state" where
  "demo_sessions = (sb_start 0)\<lparr>sb_jwks_cache := [sc_jwks_url demo_config \<mapsto> \<lparr>cj_fetched_at = 0, cj_jwks = [()]\<rparr>]\<rparr>"

lemma demo_session_with:
  assumes "verify_token V ''a.b'' demo_config ES256 () = Inr user"
    and "jv_jwks_of_json V = jv_jwks_of_json demo_verifier" "jv_find V = jv_find demo_verifier"
    and "jv_decode_header V = jv_decode_header demo_verifier"
  shows "run demo_services (verify_session demo demo_server_env V ''a.b'') \<sigma> (sb_start 0) = (Some user, \<sigma>, demo_sessions)"
proof -
  have "jwks_response V (HttpResponse 200 (Some VNull)) = Inr [()]"
    by (simp add: jwks_response_def assms(2)) (simp add: demo_verifier_def)
  moreover have "demo_services \<sigma> (jwks_request demo_config) = (HttpResponse 200 (Some VNull), \<sigma>)"
    by (simp add: demo_services_def jwks_request_def rq_key_def)
  moreover have "sc_surfaces demo_config = []" by (simp add: demo_config_def)
  moreover have "jv_find V [()] ''k'' = Some ()" "jv_decode_header V ''a.b'' = Some (ES256, Some ''k'')"
    by (simp_all add: assms(3,4)) (simp_all add: demo_verifier_def)
  ultimately show ?thesis
    by (simp add: verify_session_def verify_session_inner_def demo_server_registry registry_select_def
        run_map verify_session_with_def is_asymmetric_algorithm_def run_bind verify_with_jwks_def run_try cached_jwks_def
        refresh_jwks_def assms(1) demo_sessions_def sb_start_def)
qed

lemmas demo_server_session = demo_session_with [OF demo_server_token refl refl refl]

text \<open>A handler that runs alone gives one of its traces.\<close>

lemma run_follows: "\<exists>tr. follows p tr (Done (fst (run srv p s c)))"
proof (induction p arbitrary: s c)
  case (Done x)
  then show ?case by (auto intro: follows.here)
next
  case (Send rq k)
  then obtain tr where "follows (k (fst (srv s rq))) tr (Done (fst (run srv (k (fst (srv s rq))) (snd (srv s rq)) c)))"
    by blast
  then show ?case by (auto intro: follows.exchange)
next
  case (Locked g k)
  then obtain tr where "follows (k c) tr (Done (fst (run srv (k c) s (g c))))" by blast
  then show ?case by (auto intro: follows.local)
qed

lemma demo_require_user:
  "run demo_services (require_user demo_runtime demo_headers) \<sigma> demo_local =
     (Inr demo_member, \<sigma>, demo_local\<lparr>al_sessions := demo_sessions\<rparr>)"
  by (simp add: require_user_def run_map on_sessions_def sessions_part.run_focus demo_local_def demo_server_session)

end
