(* ===== verification/Server_Tenancy.thy ===== *)
theory Server_Tenancy
  imports Server_Demo
begin

text \<open>
  What the HTTP server does with the store and with other tenants' keys: every handler keeps
  the lifecycle rules of the key component, so its guarantees hold of the whole server; a write
  follows an accepted session of a member of the organisation it is for; and the key
  documents in a reply belong to that organisation.
\<close>

section \<open>Sessions and organisations only read\<close>

lemma only_reads_event [simp]: "only_reads (record_event e)"
  by (simp add: record_event_def)

lemma only_reads_refresh_jwks [simp]: "only_reads (refresh_jwks V config)"
  by (auto simp: refresh_jwks_def jwks_request_def split: sum.split)

lemma only_reads_cached_jwks [simp]: "only_reads (cached_jwks V config)"
  by (auto simp: cached_jwks_def split: option.split)

lemma only_reads_forced_lookup [simp]: "only_reads (forced_lookup V config kid)"
  unfolding forced_lookup_def
  by (intro only_reads_bind)
     (auto simp: forced_refresh_allowed_def intro!: only_reads_bind split: sum.split option.split)

lemma only_reads_verify_with_jwks [simp]: "only_reads (verify_with_jwks V jwt config alg kid)"
  unfolding verify_with_jwks_def by (intro only_reads_try) (auto split: option.split)

lemma only_reads_user_endpoint [simp]: "only_reads (verify_with_user_endpoint jwt config)"
  by (auto simp: verify_with_user_endpoint_def user_request_def intro!: only_reads_bind
      split: option.split prod.split)

lemma only_reads_verify_session_with [simp]: "only_reads (verify_session_with V jwt config)"
  by (auto simp: verify_session_with_def Let_def intro!: only_reads_bind split: option.split sum.split)

lemma only_reads_verify_session [simp]: "only_reads (verify_session X env V jwt)"
  by (auto simp: verify_session_def verify_session_inner_def intro!: only_reads_map split: sum.split)

lemma only_reads_require_user [simp]: "only_reads (require_user R headers)"
  by (auto simp: require_user_def on_sessions_def intro!: only_reads_map only_reads_focus split: option.split)

section \<open>The server keeps the lifecycle rules of keys\<close>

lemma guarded_require_user: "guarded X ini upd (require_user R headers) H"
  by (rule gwp_only_reads) simp_all

lemma guarded_on_keys:
  "guarded X ini upd p H \<Longrightarrow> guarded X ini upd (eff_map g (on_keys p)) H"
  by (simp add: gwp_map on_keys_def gwp_focus)

lemma guarded_list_keys_of: "guarded X ini upd (list_keys_of X ks org_id) H"
  by (auto simp: list_keys_of_def gwp_try guarded_list_loop intro!: gwp_index_get split: sum.split option.split)

lemma guarded_revoke_key_of: "guarded X key_ini key_upd (revoke_key_of X ks org_id key_id) H"
  by (auto simp: revoke_key_of_def intro!: guarded_cas_retry guarded_revoke_attempt split: option.split)

lemma guarded_rotate_key_of: "guarded X key_ini key_upd (rotate_key_of X ks actor idem org_id key_id) H"
  by (auto simp: rotate_key_of_def Let_def intro!: guarded_cas_retry guarded_rotate_attempt split: option.split)

lemma guarded_introspect: "guarded X ini upd (introspect X ks raw) H"
  by (rule gwp_only_reads) (simp_all add: only_reads_introspect)

lemma guarded_Done: "guarded X ini upd (Done x) H"
  by simp

lemmas guarded_rules = guarded_or_return guarded_require_user guarded_on_keys guarded_Done guarded_create
  guarded_list_keys_of guarded_revoke_key_of guarded_rotate_key_of guarded_introspect

lemma guarded_handle: "guarded (rt_ext R) key_ini key_upd (handle R S req) H"
proof (cases req)
  case (GetOrg headers org_id)
  have "guarded (rt_ext R) key_ini key_upd (on_orgs (org_get org_id)) H" for H
    unfolding on_orgs_def by (rule gwp_focus) (simp add: org_get_def)
  then show ?thesis
    unfolding GetOrg handle.simps get_org_def
    by (intro guarded_rules) (auto intro!: guarded_bind split: option.split)
qed (auto simp: me_def create_key_def rotate_key_def list_keys_def revoke_key_def introspect_handler_def
    exchange_token_def Let_def intro!: guarded_rules split: option.split)

text \<open>The operations of the server: a request together with its reply.\<close>

definition http_ops :: "'k runtime \<Rightarrow> app_state \<Rightarrow> ('k app_local, api_request \<times> http_reply) eff set" where
  "http_ops R S = range (\<lambda>req. eff_map (\<lambda>reply. (req, reply)) (handle R S req))"

lemma guarded_http_ops: "p \<in> http_ops R S \<Longrightarrow> guarded (rt_ext R) key_ini key_upd p {}"
  by (auto simp: http_ops_def gwp_map guarded_handle)

interpretation http_evolution:
  cas_evolution "rt_ext R" key_ini key_upd "http_ops R S" "key_le (rt_ext R)" for R S
proof unfold_locales
  show "key_le (rt_ext R) key raw raw" for key raw by (simp add: key_le_def)
qed (auto intro: guarded_http_ops key_le_trans key_upd_le)

section \<open>Writes of one handler\<close>

text \<open>
  \<open>write_for X org rq\<close>: the request is no write, or writes the key index of \<open>org\<close>, or the record
  of a key that belongs to \<open>org\<close>, under the id of that key.
\<close>

definition write_for :: "externals \<Rightarrow> string \<Rightarrow> kv_request \<Rightarrow> bool" where
  "write_for X org rq \<longleftrightarrow>
     rq_method rq = GET
   \<or> (\<exists>v prev. rq_write rq = Some (json_to_string X v, prev)
        \<and> (rq_key rq = Some (org_index_path org)
          \<or> (\<exists>s. v = stored_key_to_json s \<and> rq_key rq = Some (key_path (sk_key_id s)) \<and> sk_org_id s = org)))"

lemma write_for_GET [simp]: "rq_method rq = GET \<Longrightarrow> write_for X org rq"
  by (simp add: write_for_def)

lemma write_for_index [simp]:
  "write_for X org (kv_put_request X kv (org_index_path org) v (Some prev))"
  unfolding write_for_def by (intro disjI2) auto

lemma write_for_key:
  "ak_key_id rec = key_id \<Longrightarrow> ak_org_id rec = org \<Longrightarrow>
   write_for X org (kv_put_request X kv (key_path key_id) (stored_key_to_json (stored_of_record rec)) (Some prev))"
  unfolding write_for_def
  by (intro disjI2, rule exI, rule exI, rule conjI, rule kv_put_request_sel(3), rule disjI2,
      rule exI [of _ "stored_of_record rec"]) (simp add: stored_of_record_def)

lemma swp_put:
  assumes "write_for X org (kv_put_request X kv key v (Some prev))" "\<And>r. Q r"
  shows "swp (write_for X org) Q (put_if_revision X kv key v prev)"
  using assms by (simp add: put_if_revision_def put_inner_def)

lemma decode_key_id: "decode_key key_id v = Inr rec \<Longrightarrow> ak_key_id rec = key_id"
  by (auto simp: decode_key_Inr_iff)

lemma swp_load:
  assumes "\<And>e. Q (Inl e)" "Q (Inr None)" "\<And>rec. ak_key_id rec = key_id \<Longrightarrow> Q (Inr (Some rec))"
  shows "swp (write_for X org) Q (load X kv key_id)"
proof -
  have "Q (rbind (decode_key key_id v) (\<lambda>r. Inr (Some r)))" for v
    using assms decode_key_id [of key_id v] by (cases "decode_key key_id v") simp_all
  then show ?thesis
    unfolding load_def kv_get_def
    by (intro swp_try) (auto simp: get_versioned_def assms split: sum.split option.split intro!: swp_try)
qed

lemma swp_load_versioned:
  assumes "\<And>e. Q (Inl e)" "Q (Inr None)" "\<And>rec r. ak_key_id rec = key_id \<Longrightarrow> Q (Inr (Some (rec, r)))"
  shows "swp (write_for X org) Q (load_versioned X kv key_id)"
proof -
  have "Q (rbind (decode_key key_id v) (\<lambda>r. Inr (Some (r, rv))))" for v rv
    using assms decode_key_id [of key_id v] by (cases "decode_key key_id v") simp_all
  then show ?thesis
    unfolding load_versioned_def
    by (intro swp_try) (auto simp: get_versioned_def assms split: sum.split option.split)
qed

lemma swp_index_add:
  assumes "\<And>r. Q r"
  shows "swp (write_for X org) Q (index_add X kv org key_id)"
  unfolding index_add_def
  by (rule swp_cas_retry)
     (auto simp: index_add_attempt_def swp_bind get_versioned_def assms intro!: swp_put
       split: sum.split option.split cas_outcome.split)

text \<open>
  Each key operation for \<open>org\<close> writes for \<open>org\<close> only and hands out keys of \<open>org\<close> only.
\<close>

definition meta_of :: "string \<Rightarrow> ('e + 'a) \<Rightarrow> ('a \<Rightarrow> api_key_meta set) \<Rightarrow> bool" where
  "meta_of org r metas \<longleftrightarrow> (\<forall>x. r = Inr x \<longrightarrow> (\<forall>m\<in>metas x. am_org_id m = org))"

lemma meta_of_simps [simp]:
  "meta_of org (Inl e) metas" "meta_of org (Inr x) metas \<longleftrightarrow> (\<forall>m\<in>metas x. am_org_id m = org)"
  by (auto simp: meta_of_def)

lemma meta_of_record_org [simp]: "am_org_id (meta_of_record rec) = ak_org_id rec"
  by (simp add: meta_of_record_def)

lemma create_record_org [simp]:
  "ak_org_id (create_record X ks m org name scopes env ri now) = org"
  by (simp add: create_record_def Let_def)

lemma swp_create:
  assumes "ks_kv ks = Some kv"
  shows "swp (write_for X org) (\<lambda>r. meta_of org r (\<lambda>(raw, meta). {meta}))
    (create X ks m org name scopes env ri now)"
  unfolding create_def Let_def assms option.case
  by (intro swp_try swp_put write_for_key)
     (auto intro!: swp_try swp_load swp_index_add simp: same_create_request_def split: sum.split option.split)

lemma swp_list_loop:
  assumes "\<forall>m\<in>set out. am_org_id m = org"
  shows "swp (write_for X org) (\<lambda>r. meta_of org r set) (list_loop X kv org ids out)"
  using assms
proof (induction ids arbitrary: out)
  case (Cons i ids)
  then show ?case
    unfolding list_loop.simps by (intro swp_try swp_load) (auto intro!: Cons.IH)
qed simp

lemma swp_list_keys_of:
  assumes "ks_kv ks = Some kv"
  shows "swp (write_for X org) (\<lambda>r. meta_of org r set) (list_keys_of X ks org)"
  unfolding list_keys_of_def assms option.case index_get_def kv_get_def
  by (intro swp_try) (auto simp: get_versioned_def intro!: swp_try swp_list_loop split: sum.split option.split)

lemma swp_revoke_key_of:
  assumes "ks_kv ks = Some kv"
  shows "swp (write_for X org) (\<lambda>_. True) (revoke_key_of X ks org key_id)"
  unfolding revoke_key_of_def assms option.case
  by (rule swp_cas_retry)
     (auto simp: revoke_attempt_def swp_bind Let_def intro!: swp_load_versioned swp_put write_for_key
       split: sum.split option.split cas_outcome.split)

lemma swp_rotate_key_of:
  assumes "ks_kv ks = Some kv"
  shows "swp (write_for X org) (\<lambda>r. meta_of org r (\<lambda>res. snd ` set_option res))
    (rotate_key_of X ks actor idem org key_id)"
  unfolding rotate_key_of_def assms option.case Let_def
  by (rule swp_cas_retry)
     (auto simp: rotate_attempt_def swp_bind Let_def intro!: swp_load_versioned swp_put write_for_key
       split: sum.split option.split cas_outcome.split)

section \<open>Members only\<close>

lemma select_user_org_cases:
  obtains (member) org where "select_user_org user q = Inr org" "org \<in> set (orgs user)"
    | (refused) e where "select_user_org user q = Inl e" "re_status e \<noteq> 200"
        "\<And>name. name \<in> {''key'', ''keys'', ''org''} \<Longrightarrow> Option.bind (re_body e) (\<lambda>b. value_get b name) = None"
proof (cases "\<exists>org\<in>set (orgs user). select_user_org user q = Inr org")
  case False
  then obtain e where "select_user_org user q = Inl e" "re_status e \<noteq> 200"
    "\<forall>name\<in>{''key'', ''keys'', ''org''}. Option.bind (re_body e) (\<lambda>b. value_get b name) = None"
    by (auto simp: select_user_org_def Let_def json_reply_def split: option.splits if_splits list.splits)
  then show thesis by (intro refused) auto
qed (use member in blast)

text \<open>The organisations whose keys or row a reply carries.\<close>

definition tenant_documents :: "json \<Rightarrow> json list" where
  "tenant_documents b =
     (case value_get b ''key'' of Some doc \<Rightarrow> [doc] | None \<Rightarrow> [])
   @ (case value_get b ''keys'' of Some (VArr docs) \<Rightarrow> docs | _ \<Rightarrow> [])
   @ (case value_get b ''org'' of Some _ \<Rightarrow> [b] | None \<Rightarrow> [])"

definition reply_tenants :: "http_reply \<Rightarrow> string list" where
  "reply_tenants reply =
     (case re_body reply of
        None \<Rightarrow> []
      | Some b \<Rightarrow> List.map_filter (\<lambda>doc. get_as as_str doc ''org_id'') (tenant_documents b))"

abbreviation member_write :: "externals \<Rightarrow> user_ctx \<Rightarrow> kv_request \<Rightarrow> bool" where
  "member_write X user rq \<equiv> (\<exists>org\<in>set (orgs user). write_for X org rq)"

abbreviation member_reply :: "user_ctx \<Rightarrow> http_reply \<Rightarrow> bool" where
  "member_reply user reply \<equiv> set (reply_tenants reply) \<subseteq> set (orgs user)"

lemma meta_json_org [simp]: "get_as as_str (api_key_meta_json m) ''org_id'' = Some (am_org_id m)"
  by (simp add: api_key_meta_json_def)

lemmas reply_defs = json_reply_def secret_reply_def unauthorized_def bad_key_request_def storage_unavailable_def
  key_store_error_def panic_reply_def

lemma no_tenants [simp]:
  "reply_tenants (unauthorized msg) = []" "reply_tenants (bad_key_request e) = []"
  "reply_tenants storage_unavailable = []" "reply_tenants (key_store_error err) = []"
  "reply_tenants panic_reply = []"
  by (simp_all add: reply_defs reply_tenants_def tenant_documents_def List.map_filter_simps)

lemma select_refused_tenants: "select_user_org user q = Inl e \<Longrightarrow> reply_tenants e = []"
  by (auto simp: select_user_org_def Let_def reply_defs reply_tenants_def tenant_documents_def List.map_filter_simps
      split: option.splits if_splits list.splits)

lemma idempotency_refused_tenants: "require_idempotency_key headers = Inl e \<Longrightarrow> reply_tenants e = []"
  by (auto simp: require_idempotency_key_def split: option.splits if_splits)

lemma swp_select:
  assumes "\<And>org. org \<in> set (orgs user) \<Longrightarrow> swp P (member_reply user) (f org)"
  shows "swp P (member_reply user) (or_return (Done (select_user_org user q)) f)"
proof (cases rule: select_user_org_cases [of user q])
  case (refused e)
  then show ?thesis by (simp add: select_refused_tenants)
qed (simp add: assms)

lemma swp_checked:
  assumes "\<And>e. r = Inl e \<Longrightarrow> Q e" "\<And>x. swp P Q (f x)"
  shows "swp P Q (or_return (Done r) f)"
  using assms by (cases r) auto

text \<open>A key operation for one of the user's organisations, followed by its reply.\<close>

lemma swp_key_operation:
  assumes "org \<in> set (orgs user)" "swp (write_for X org) Q p"
    and "\<And>e. member_reply user (g e)" "\<And>x. org \<in> set (orgs user) \<Longrightarrow> Q (Inr x) \<Longrightarrow> swp (member_write X user) (member_reply user) (f x)"
  shows "swp (member_write X user) (member_reply user) (or_return (eff_map (map_err g) (on_keys p)) f)"
proof -
  have "swp (member_write X user) Q p" by (rule swp_mono [OF assms(2)]) (use assms(1) in auto)
  then have "swp (member_write X user) (\<lambda>r. case map_err g r of Inl e \<Rightarrow> member_reply user e
      | Inr x \<Rightarrow> swp (member_write X user) (member_reply user) (f x)) p"
    by (rule swp_mono) (use assms(1,3,4) in \<open>auto split: sum.splits simp: map_err_eq_Inl map_err_eq_Inr\<close>)
  then show ?thesis by (intro swp_or_return) (simp add: swp_map on_keys_def)
qed

lemma one_key_tenants:
  "reply_tenants (secret_reply (VObj [(''api_key'', a), (''key'', api_key_meta_json m)])) = [am_org_id m]"
  "reply_tenants (secret_reply (VObj [(''api_key'', a), (''key'', api_key_meta_json m), (''ok'', b),
     (''overlap_seconds'', c), (''secret_once'', d)])) = [am_org_id m]"
  by (simp_all add: secret_reply_def reply_tenants_def tenant_documents_def List.map_filter_simps)

lemma bare_tenants:
  "reply_tenants (json_reply 404 (VObj [(''error'', a), (''ok'', b)])) = []"
  "reply_tenants (json_reply 200 (VObj [(''revoked'', a)])) = []"
  "reply_tenants (json_reply 200 (VObj [(''user'', a)])) = []"
  "reply_tenants (json_reply n (VObj [(''error'', a), (''org_id'', b)])) = []"
  "reply_tenants (json_reply 200 (VObj [(''org'', a), (''org_id'', VStr org_id), (''source'', b)])) = [org_id]"
  "reply_tenants (json_reply 200 (VObj [(''expires_in'', a), (''token'', b), (''token_type'', c)])) = []"
  "reply_tenants (json_reply 200 (introspection_json i)) = []" "reply_tenants health = []"
  by (simp_all add: json_reply_def reply_tenants_def tenant_documents_def List.map_filter_simps introspection_json_def
      health_def)

lemma key_list_tenants:
  "reply_tenants (json_reply 200 (VObj [(''keys'', VArr (map api_key_meta_json ms))])) = map am_org_id ms"
  by (simp add: json_reply_def reply_tenants_def tenant_documents_def map_filter_map_filter o_def List.map_filter_def)

text \<open>The headers of the requests that need a session.\<close>

fun session_headers :: "api_request \<Rightarrow> header_map option" where
  "session_headers (Me headers) = Some headers"
| "session_headers (CreateKey headers _ _) = Some headers"
| "session_headers (ListKeys headers _) = Some headers"
| "session_headers (RevokeKey headers _ _) = Some headers"
| "session_headers (RotateKey headers _ _) = Some headers"
| "session_headers (GetOrg headers _) = Some headers"
| "session_headers _ = None"

definition member_tail :: "'k runtime \<Rightarrow> (user_ctx \<Rightarrow> ('k app_local, http_reply) eff) \<Rightarrow> bool" where
  "member_tail R rest \<longleftrightarrow> (\<forall>user. swp (member_write (rt_ext R) user) (member_reply user) (rest user))"

lemma swp_error_tenants [simp]: "set (reply_tenants storage_unavailable) \<subseteq> A" "set (reply_tenants (key_store_error e)) \<subseteq> A"
  by simp_all

lemma tailI:
  assumes "\<And>user. swp (member_write (rt_ext R) user) (member_reply user) (rest user)"
  shows "\<exists>rest'. or_return (require_user R headers) rest = or_return (require_user R headers) rest' \<and> member_tail R rest'"
  by (rule exI [of _ rest]) (simp add: member_tail_def assms)

lemma create_key_tail:
  assumes "ks_kv (as_keys S) = Some kv"
  shows "\<exists>rest. create_key R S headers body now = or_return (require_user R headers) rest \<and> member_tail R rest"
  unfolding create_key_def
proof (rule tailI, rule swp_checked, simp add: idempotency_refused_tenants, rule swp_select, rule swp_checked)
  show "map_err bad_key_request (validated_key_create_input body) = Inl e \<Longrightarrow> member_reply user e" for user e
    by (auto simp: map_err_eq_Inl)
qed (erule swp_key_operation [OF _ swp_create [OF assms]], simp, auto simp: one_key_tenants)

lemma rotate_key_tail:
  assumes "ks_kv (as_keys S) = Some kv"
  shows "\<exists>rest. rotate_key R S headers key_id q = or_return (require_user R headers) rest \<and> member_tail R rest"
  unfolding rotate_key_def
  by (rule tailI, rule swp_checked, simp add: idempotency_refused_tenants, rule swp_select,
      erule swp_key_operation [OF _ swp_rotate_key_of [OF assms]], simp)
     (auto simp: one_key_tenants bare_tenants split: option.split)

lemma list_keys_tail:
  assumes "ks_kv (as_keys S) = Some kv"
  shows "\<exists>rest. list_keys R S headers q = or_return (require_user R headers) rest \<and> member_tail R rest"
  unfolding list_keys_def
  by (rule tailI, rule swp_select, erule swp_key_operation [OF _ swp_list_keys_of [OF assms]], simp)
     (auto simp: key_list_tenants)

lemma revoke_key_tail:
  assumes "ks_kv (as_keys S) = Some kv"
  shows "\<exists>rest. revoke_key R S headers key_id q = or_return (require_user R headers) rest \<and> member_tail R rest"
  unfolding revoke_key_def
  by (rule tailI, rule swp_select, erule swp_key_operation [OF _ swp_revoke_key_of [OF assms]], simp)
     (simp add: bare_tenants)

lemma get_org_tail:
  "\<exists>rest. get_org R headers org_id = or_return (require_user R headers) rest \<and> member_tail R rest"
  unfolding get_org_def
  by (rule tailI) (auto simp: bare_tenants on_orgs_def org_get_def split: option.splits)

lemma me_tail: "\<exists>rest. me R headers = or_return (require_user R headers) rest \<and> member_tail R rest"
  unfolding me_def by (rule tailI) (simp add: bare_tenants)

lemma handle_tail:
  assumes "ks_kv (as_keys S) = Some kv" "session_headers req = Some headers"
  obtains rest where "handle R S req = or_return (require_user R headers) rest" "member_tail R rest"
proof -
  have "\<exists>rest. handle R S req = or_return (require_user R headers) rest \<and> member_tail R rest"
    using assms(2)
    by (cases req) (auto simp: create_key_tail [OF assms(1)] rotate_key_tail [OF assms(1)] list_keys_tail [OF assms(1)]
        revoke_key_tail [OF assms(1)] get_org_tail me_tail)
  then show thesis using that by blast
qed

lemma handle_no_session:
  assumes "session_headers req = None" "req \<noteq> Jwks"
  shows "swp (\<lambda>rq. rq_method rq = GET) (\<lambda>reply. reply_tenants reply = []) (handle R S req)"
proof -
  have intro: "swp (\<lambda>rq. rq_method rq = GET) (\<lambda>reply. reply_tenants reply = [])
      (or_return (eff_map (map_err (\<lambda>_. storage_unavailable)) (on_keys (introspect X ks raw))) f)"
    if "\<And>i. swp (\<lambda>rq. rq_method rq = GET) (\<lambda>reply. reply_tenants reply = []) (f i)"
    for X ks raw and f :: "introspection \<Rightarrow> ('a app_local, http_reply) eff"
    by (intro swp_or_return, unfold swp_map, intro swp_reads)
       (auto simp: that map_err_eq_Inl on_keys_def only_reads_introspect intro!: only_reads_focus split: sum.split)
  show ?thesis
    using assms
    by (cases req)
       (auto simp: introspect_handler_def exchange_token_def bare_tenants Let_def intro!: intro split: option.split)
qed

section \<open>Sessions before effects\<close>

text \<open>
  \<open>member_session R req tr user\<close>: the exchanges \<open>tr\<close> begin with those of the verification of the bearer
  token of \<open>req\<close>, which accepted \<open>user\<close>.
\<close>

definition member_session ::
  "'k runtime \<Rightarrow> api_request \<Rightarrow> (kv_request \<times> kv_response) list \<Rightarrow> user_ctx \<Rightarrow> bool" where
  "member_session R req tr user \<longleftrightarrow>
     (\<exists>headers jwt tr1 tr2. session_headers req = Some headers \<and> bearer_token headers = Some jwt \<and> tr = tr1 @ tr2
        \<and> follows (verify_session (rt_ext R) (rt_env R) (rt_verifier R) jwt) tr1 (Done (Some user)))"

lemma follows_mapE:
  assumes "follows (eff_map g m) tr (Done y)"
  obtains x where "follows m tr (Done x)" "g x = y"
  using assms unfolding eff_map_def
proof (cases rule: follows_bindE)
  case (first m')
  then show thesis by (cases m') auto
next
  case (second x tr1 tr2)
  then show thesis using that by (auto elim!: follows_DoneE)
qed

lemma require_user_accepts:
  assumes "follows (require_user R headers) tr (Done (Inr user))"
  shows "\<exists>jwt. bearer_token headers = Some jwt
    \<and> follows (verify_session (rt_ext R) (rt_env R) (rt_verifier R) jwt) tr (Done (Some user))"
  using assms
  by (auto simp: require_user_def on_sessions_def ok_or_eq_Inr elim!: follows_mapE follows_DoneE
      dest!: follows_focus_Done [where x = "Some user"] split: option.splits)

lemma require_user_refuses:
  assumes "follows (require_user R headers) tr (Done (Inl e))"
  shows "reply_tenants e = []"
  using assms
  by (auto simp: require_user_def ok_or_eq_Inl elim!: follows_mapE follows_DoneE split: option.splits)

lemma only_reads_follows: "follows p tr q \<Longrightarrow> only_reads p \<Longrightarrow> only_reads q"
  by (induction rule: follows.induct) auto

lemma member_effects:
  assumes "ks_kv (as_keys S) = Some kv" "session_headers req = Some headers" "follows (handle R S req) tr q"
    and "(\<exists>rq k. q = Send rq k \<and> rq_method rq = PUT) \<or> (\<exists>reply. q = Done reply \<and> reply_tenants reply \<noteq> [])"
  obtains user where "member_session R req tr user" "swp (member_write (rt_ext R) user) (member_reply user) q"
proof -
  obtain rest where rest: "handle R S req = or_return (require_user R headers) rest" "member_tail R rest"
    using handle_tail [OF assms(1,2)] .
  from assms(3) [unfolded rest(1)] show thesis
  proof (cases rule: follows_or_returnE)
    case (first m')
    then have "only_reads m'" using only_reads_follows [OF first(1)] by simp
    with first assms(4) show thesis by (cases m') auto
  next
    case (early e)
    with require_user_refuses [OF early(1)] assms(4) show thesis by auto
  next
    case (second user tr1 tr2)
    from rest(2) have "swp (member_write (rt_ext R) user) (member_reply user) q"
      by (intro follows_swp [OF second(3)]) (simp add: member_tail_def)
    moreover have "member_session R req tr user"
      using require_user_accepts [OF second(2)] second(1) assms(2) unfolding member_session_def by blast
    ultimately show thesis using that by blast
  qed
qed

text \<open>
  C1. Only members write: in every run of every handler, whatever the services answer, a write to the
  store comes after the verification of the request's bearer token accepted a user, and it writes
  the key index of one of the organisations of that user or the record of a key that belongs
  to one of them.
\<close>
theorem only_members_write:
  assumes "ks_kv (as_keys S) = Some kv"
    and "follows (handle R S req) tr (Send rq k)" and "rq_method rq = PUT"
  shows "\<exists>user. \<exists>org\<in>set (orgs user). member_session R req tr user \<and> write_for (rt_ext R) org rq"
proof (cases "session_headers req")
  case None
  have "req \<noteq> Jwks" using assms(2) by (auto elim: follows_DoneE)
  from follows_swp [OF assms(2) handle_no_session [OF None this]] assms(3) show ?thesis by simp
next
  case (Some headers)
  from member_effects [OF assms(1) Some assms(2)] assms(3) obtain user where
    "member_session R req tr user" "swp (member_write (rt_ext R) user) (member_reply user) (Send rq k)"
    by blast
  then show ?thesis by auto
qed

text \<open>
  C6. Replies stay in the tenant: a reply that carries the keys or the row of an organisation, to
  whatever request and whatever the services answer, follows the verification of a session of
  a user who is a member of that organisation.
\<close>
theorem replies_stay_in_tenant:
  assumes "ks_kv (as_keys S) = Some kv"
    and "follows (handle R S req) tr (Done reply)" and "req \<noteq> Jwks" and "org \<in> set (reply_tenants reply)"
  shows "\<exists>user. member_session R req tr user \<and> org \<in> set (orgs user)"
proof (cases "session_headers req")
  case None
  from follows_swp [OF assms(2) handle_no_session [OF None assms(3)]] assms(4) show ?thesis by simp
next
  case (Some headers)
  from assms(4) have "reply_tenants reply \<noteq> []" by auto
  with member_effects [OF assms(1) Some assms(2)] obtain user where "member_session R req tr user"
    "swp (member_write (rt_ext R) user) (member_reply user) (Done reply :: ('a app_local, http_reply) eff)"
    by blast
  with assms(4) show ?thesis by auto
qed

section \<open>On the small deployment\<close>

lemma demo_user_trace:
  "\<exists>tr. follows (require_user demo_runtime demo_headers) tr (Done (Inr demo_member))"
  using run_follows [of "require_user demo_runtime demo_headers" demo_services demo_view demo_local]
  by (simp add: demo_require_user)

theorem only_members_write_witness:
  "\<exists>tr rq k. \<exists>user :: user_ctx. follows (handle demo_runtime demo_state (CreateKey demo_headers demo_body 5)) tr (Send rq k)
     \<and> rq_method rq = PUT \<and> (\<exists>org\<in>set (orgs user). write_for demo org rq)"
proof -
  obtain tr where tr: "follows (require_user demo_runtime demo_headers) tr (Done (Inr demo_member))"
    using demo_user_trace by blast
  let ?rest = "or_return (eff_map (map_err key_store_error) (on_keys (create demo demo_ks
      \<lparr>mi_actor_id = ''u'', mi_idempotency_key = ''k''\<rparr> ''o'' ''n'' [''kv:read''] ''live'' True 5)))
      (\<lambda>(raw, meta). Done (secret_reply (VObj [(''api_key'', VStr raw), (''key'', api_key_meta_json meta)])))
      :: (unit app_local, http_reply) eff"
  have "cb_org_id demo_body = None" "user_id demo_member = ''u''" by (simp_all add: demo_body_def demo_member_def)
  then have "follows (handle demo_runtime demo_state (CreateKey demo_headers demo_body 5)) tr ?rest"
    unfolding handle.simps create_key_def by (intro follows_or_return [OF tr]) simp
  moreover obtain rq k where rest: "?rest = Send rq k" "rq_method rq = PUT"
    by (simp add: create_def Let_def put_if_revision_def put_inner_def on_keys_def eff_map_def or_return_def)
  ultimately have f: "follows (handle demo_runtime demo_state (CreateKey demo_headers demo_body 5)) tr (Send rq k)"
    by simp
  have "ks_kv (as_keys demo_state) = Some demo_kv" by simp
  from only_members_write [OF this f rest(2)] have "\<exists>user :: user_ctx. \<exists>org\<in>set (orgs user). write_for demo org rq"
    by auto
  with f rest(2) show ?thesis by blast
qed

text \<open>The listing of the member's keys.\<close>

lemma demo_list:
  "fst (run demo_services (handle demo_runtime demo_state (ListKeys demo_headers None)) demo_view demo_local) =
     json_reply 200 (VObj [(''keys'', VArr (map (\<lambda>s. api_key_meta_json (meta_of_record (record_of_stored s)))
       [demo_key id_a False, demo_key id_b True]))])"
proof -
  have load: "run demo_services (load demo demo_kv id_a) demo_view c = (Inr (Some (record_of_stored (demo_key id_a False))), demo_view, c)"
    "run demo_services (load demo demo_kv id_b) demo_view c = (Inr (Some (record_of_stored (demo_key id_b True))), demo_view, c)"
    for c :: key_cache
    by (simp_all add: run_load_stored)
  have "run demo_services (index_get demo demo_kv ''o'') demo_view c = (Inr [id_a, id_b], demo_view, c)" for c :: key_cache
    by (rule run_index_get_indexed) simp_all
  then show ?thesis
    by (simp add: list_keys_def run_or_return demo_require_user run_map on_keys_def keys_part.run_focus list_keys_of_def
        run_try load)
qed

theorem replies_stay_in_tenant_witness:
  "\<exists>tr reply. \<exists>user :: user_ctx. follows (handle demo_runtime demo_state (ListKeys demo_headers None)) tr (Done reply)
     \<and> ''o'' \<in> set (reply_tenants reply) \<and> ''o'' \<in> set (orgs user)"
proof -
  let ?reply = "json_reply 200 (VObj [(''keys'', VArr (map (\<lambda>s. api_key_meta_json (meta_of_record (record_of_stored s)))
       [demo_key id_a False, demo_key id_b True]))])"
  obtain tr where tr: "follows (handle demo_runtime demo_state (ListKeys demo_headers None)) tr (Done ?reply)"
    using run_follows [of "handle demo_runtime demo_state (ListKeys demo_headers None)" demo_services demo_view demo_local]
    unfolding demo_list by blast
  have "reply_tenants ?reply = [''o'', ''o'']"
    using key_list_tenants [of "map (\<lambda>s. meta_of_record (record_of_stored s)) [demo_key id_a False, demo_key id_b True]"]
    by simp
  then have t: "''o'' \<in> set (reply_tenants ?reply)" by simp
  have "ks_kv (as_keys demo_state) = Some demo_kv" by simp
  from replies_stay_in_tenant [OF this tr _ t] have "\<exists>user :: user_ctx. ''o'' \<in> set (orgs user)" by auto
  with tr t show ?thesis by blast
qed

end
