(* ===== verification/Server_Access.thy ===== *)
theory Server_Access
  imports Server_Tenancy
begin

text \<open>
  The two planes of the server: what start-up establishes, who may introspect, what a token
  exchange hands out, that a key created by a session works on the data plane, and that a
  revoked key is refused there in every interleaving of requests.
\<close>

section \<open>Start-up\<close>

lemma introspect_secret_from_Inr:
  "introspect_secret_from value = Inr secret \<longleftrightarrow>
     value = Some secret \<and> secret \<noteq> [] \<and> str_trim secret = secret \<and> 32 \<le> length secret
   \<and> (\<forall>c\<in>set (chars secret). \<not> is_control c \<and> \<not> is_whitespace c \<and> c \<noteq> 44)"
  by (auto simp: introspect_secret_from_def MIN_INTROSPECT_SECRET_BYTES_def split: option.splits if_splits)

lemma introspect_secret_from_env_Inr:
  "introspect_secret_from_env v = Inr secret \<longleftrightarrow>
     v = VarPresent secret \<and> introspect_secret_from (Some secret) = Inr secret"
  by (cases v) (auto simp: introspect_secret_from_Inr)

lemma rotation_overlap_Inr:
  "rotation_overlap_seconds_from_env v = Inr n \<Longrightarrow> n \<noteq> 0"
  by (cases v) (auto simp: rotation_overlap_seconds_from_def DEFAULT_ROTATION_OVERLAP_SECONDS_def rbind_eq_Inr
      split: if_splits)

lemma key_store_from_env_durable: "key_store_from_env env = Inr ks \<Longrightarrow> \<exists>kv. ks_kv ks = Some kv"
  by (auto simp: key_store_from_env_def rbind_eq_Inr Let_def split: if_splits)

lemma start_config_Inr:
  assumes "start_config X J U env bad = Inr (state, cors)"
  shows "token_validate_config X J env = Inr ()" "supabase_validate_config X env = Inr ()"
    "introspect_secret_from_env (env_var env bad ''FIDUCIA_INTROSPECT_SECRET'') = Inr (as_introspect_secret state)"
    "as_rotation_overlap_seconds state \<noteq> 0" "key_store_from_env env = Inr (as_keys state)"
    "customer_origin_from_env U env = Inr (co_origin cors)"
  using assms rotation_overlap_Inr
  by (auto simp: start_config_def rbind_eq_Inr map_err_eq_Inr customer_cors_layer_def)

lemma run_server_start:
  assumes "start_config X J U env bad = Inr (state, cors)"
  shows "run srv (server_start X J U env bad) s loc =
    (case run srv (sync_start env) s (al_orgs loc) of
       (r, s', m) \<Rightarrow> (rbind (map_err StartSync r) (\<lambda>_. Inr (state, cors, listen_port env)), s', loc\<lparr>al_orgs := m\<rparr>))"
  using assms
  by (auto simp: server_start_def run_try run_map on_orgs_def orgs_part.run_focus split: prod.splits sum.splits)

lemma run_sync_start_Inr:
  assumes "run srv (sync_start env) s m = (Inr u, s', m')"
  shows "\<exists>config rows. sync_config_from_env env = Inr config
    \<and> pull_rows (fst (srv s (pull_request config))) = Inr rows \<and> m' = collect_rows config rows"
  using assms
  by (auto simp: sync_start_def pull_def org_replace_def run_try rbind_eq_Inr split: sum.splits)

definition server_ready ::
  "externals \<Rightarrow> jwt_lib \<Rightarrow> url_lib \<Rightarrow> environment \<Rightarrow> (kv_request \<Rightarrow> kv_response) \<Rightarrow> app_state \<Rightarrow> cors_layer \<Rightarrow> org_cache \<Rightarrow> bool" where
  "server_ready X J U env answer state cors m \<longleftrightarrow>
     token_validate_config X J env = Inr () \<and> is_ok (registry_from_env X env)
   \<and> introspect_secret_from (Some (as_introspect_secret state)) = Inr (as_introspect_secret state)
   \<and> 32 \<le> length (as_introspect_secret state) \<and> as_rotation_overlap_seconds state \<noteq> 0
   \<and> (\<exists>kv. ks_kv (as_keys state) = Some kv) \<and> customer_origin_from_env U env = Inr (co_origin cors)
   \<and> (\<exists>config rows. sync_config_from_env env = Inr config
        \<and> pull_rows (answer (pull_request config)) = Inr rows \<and> m = collect_rows config rows)"

text \<open>
  C10. The server starts only when everything it relies on is there: a configured signing key
  that passes the self-check, a valid project registry, an introspection secret of at least 32 bytes
  without blanks, controls and commas, a positive rotation overlap, durable key storage, a bare
  origin, and one complete answer of the organisations table, which then fills the cache.  Any
  other configuration is refused before the first request is sent.
\<close>
theorem startup_needs_every_check:
  assumes "run srv (server_start X J U env bad) s loc = (result, s', loc')"
  shows "(\<forall>state cors port. result = Inr (state, cors, port) \<longrightarrow>
        server_ready X J U env (\<lambda>rq. fst (srv s rq)) state cors (al_orgs loc'))
    \<and> (\<forall>e. start_config X J U env bad = Inl e \<longrightarrow> result = Inl e \<and> s' = s \<and> loc' = loc)"
proof (intro conjI allI impI)
  fix state cors port assume result: "result = Inr (state, cors, port)"
  with assms obtain state' cors' where sc: "start_config X J U env bad = Inr (state', cors')"
    by (cases "start_config X J U env bad") (auto simp: server_start_def)
  obtain r s1 m where sync: "run srv (sync_start env) s (al_orgs loc) = (r, s1, m)"
    by (cases "run srv (sync_start env) s (al_orgs loc)")
  with assms result run_server_start [OF sc, of srv s loc]
  have eqs: "r = Inr ()" "state' = state" "cors' = cors" "al_orgs loc' = m"
    by (auto simp: rbind_eq_Inr map_err_eq_Inr)
  with run_sync_start_Inr [of srv env s "al_orgs loc" "()" s1 m] sync
  show "server_ready X J U env (\<lambda>rq. fst (srv s rq)) state cors (al_orgs loc')"
    using start_config_Inr [OF sc [unfolded eqs]] key_store_from_env_durable
    unfolding server_ready_def
    by (auto simp: supabase_validate_config_def rbind_eq_Inr introspect_secret_from_env_Inr introspect_secret_from_Inr is_ok_iff)
next
  fix e assume "start_config X J U env bad = Inl e"
  with assms show "result = Inl e" "s' = s" "loc' = loc" by (auto simp: server_start_def)
qed

section \<open>Introspection\<close>

lemma chars_comma:
  assumes "list_all ascii_char s" "CHR '','' \<in> set s"
  shows "44 \<in> set (chars s)"
proof -
  have "(of_char (CHR '','') :: nat) = 44" by simp
  with assms show ?thesis by (force simp: chars_ascii)
qed

text \<open>
  C9. Introspection is internal: with an ASCII secret that start-up accepted, a request is
  authorised exactly when it has one \<open>x-server-auth\<close> header, whose text is the secret up to surrounding
  blanks.  Any other request is answered 401 without touching the store; an authorised one
  is answered with the outcome of the introspection.
\<close>
theorem introspection_is_internal:
  assumes "introspect_secret_from v = Inr (as_introspect_secret S)" and "list_all ascii_char (as_introspect_secret S)"
  shows "handle R S (Introspect headers body) =
    (if \<exists>text. map snd (filter (\<lambda>(n, _). n = ''x-server-auth'') headers) = [Some text]
          \<and> str_trim text = as_introspect_secret S
     then eff_map (\<lambda>r. case r of Inl e \<Rightarrow> storage_unavailable | Inr i \<Rightarrow> json_reply 200 (introspection_json i))
            (on_keys (introspect (rt_ext R) (as_keys S) (ib_api_key body)))
     else Done (unauthorized ''missing or invalid internal auth''))"
proof -
  let ?s = "as_introspect_secret S"
  have "?s \<noteq> []" "44 \<notin> set (chars ?s)" using assms(1) by (auto simp: introspect_secret_from_Inr)
  then have s: "?s \<noteq> []" "CHR '','' \<notin> set ?s" using chars_comma [OF assms(2)] by auto
  have auth: "internal_secret_authorized headers ?s \<longleftrightarrow>
      (\<exists>text. map snd (filter (\<lambda>(n, _). n = ''x-server-auth'') headers) = [Some text] \<and> str_trim text = ?s)"
    using s by (auto simp: internal_secret_authorized_def single_header_str_def Let_def bind_eq_Some_conv
        split: list.splits option.splits if_splits)
  have answer: "or_return (eff_map (map_err (\<lambda>_. storage_unavailable)) p) (\<lambda>result. Done (json_reply 200 (introspection_json result)))
      = eff_map (\<lambda>r. case r of Inl e \<Rightarrow> storage_unavailable | Inr i \<Rightarrow> json_reply 200 (introspection_json i)) p"
    for p :: "('a app_local, store_error + introspection) eff"
  proof -
    have "(\<lambda>x. case map_err (\<lambda>_. storage_unavailable) x of Inl e \<Rightarrow> Done e | Inr i \<Rightarrow> Done (json_reply 200 (introspection_json i)))
        = (\<lambda>r. Done (case r of Inl e \<Rightarrow> storage_unavailable | Inr i \<Rightarrow> json_reply 200 (introspection_json i))
            :: ('a app_local, http_reply) eff)"
      by (rule ext) (auto split: sum.split simp: map_err_eq_Inl map_err_eq_Inr)
    then show ?thesis
      unfolding or_return_def eff_map_def eff_bind_assoc eff_bind.simps by (rule arg_cong [where f = "eff_bind p"])
  qed
  have flip: "(if \<not> P then x else y) = (if P then y else x)" for P and x y :: "('a app_local, http_reply) eff"
    by simp
  show ?thesis unfolding handle.simps introspect_handler_def auth answer flip by (rule refl)
qed

section \<open>Token exchange\<close>

lemma mint_token_Some_iff:
  "mint_token J sg org scopes 900 now entropy = Some jwt \<longleftrightarrow>
     (\<exists>bytes. entropy = Some bytes
        \<and> lib_encode J (sn_kid sg) \<lparr>cl_sub = org, cl_org_id = org, cl_scopes = scopes, cl_iss = ISSUER, cl_aud = AUDIENCE,
             cl_iat = now, cl_exp = saturating_add now 900, cl_jti = lib_b64u J bytes\<rparr> (sn_encoding sg) = Some jwt)"
  by (auto simp: mint_token_def try_mint_token_def mint_with_def validate_ttl_def MAX_ACCESS_TOKEN_TTL_SECS_def
      random_jti_def Let_def ok_or_eq_Inr rbind_eq_Inr rbind_eq_Inl ok_or_eq_Inl split: sum.splits)

definition token_reply :: "string \<Rightarrow> http_reply" where
  "token_reply jwt = json_reply 200 (VObj [(''expires_in'', VNum (PosInt 900)), (''token'', VStr jwt), (''token_type'', VStr ''Bearer'')])"

lemma run_exchange_token:
  "fst (run srv (exchange_token R S body now entropy) \<sigma> loc) = token_reply jwt \<longleftrightarrow>
     (\<exists>i. fst (run srv (introspect (rt_ext R) (as_keys S) (tb_api_key body)) \<sigma> (al_keys loc)) = Inr i \<and> in_valid i
        \<and> mint_token (rt_jwt R) (rt_signer R) (case in_org_id i of Some o' \<Rightarrow> o' | None \<Rightarrow> []) (in_scopes i) 900 now entropy
            = Some jwt)"
  by (auto simp: exchange_token_def run_or_return run_map on_keys_def keys_part.run_focus Let_def token_reply_def json_reply_def
      storage_unavailable_def unauthorized_def panic_reply_def map_err_eq_Inl map_err_eq_Inr
      split: prod.splits sum.splits option.splits if_splits)

text \<open>
  C8. What a token exchange hands out: on an answering store the reply carries a token exactly when the
  presented credential is the current secret of a stored, indexed key that is not revoked, entropy was
  available and the signature succeeded; the signed claims then name the organisation of that key and its
  scopes without the administrative ones, and expire 900 seconds after the time of issue.
\<close>
theorem token_exchange_iff:
  assumes "kv_reliable (rt_ext R) srv" and "ks_kv (as_keys S) = Some kv"
  shows "fst (run srv (handle R S (ExchangeToken body now entropy)) \<sigma> loc) = token_reply jwt \<longleftrightarrow>
    (\<exists>env key_id secret s ids bytes.
       parse_raw_key (tb_api_key body) = Some (env, key_id, secret) \<and> stored_at (rt_ext R) \<sigma> key_id s
     \<and> indexed (rt_ext R) \<sigma> (sk_org_id s) ids \<and> key_id \<in> set ids \<and> \<not> sk_revoked s \<and> sk_env s = env
     \<and> verify_secret_hash (rt_ext R) (sk_secret_hash s) secret (ks_api_key_pepper (as_keys S)) (ks_allow_legacy_sha256 (as_keys S))
     \<and> entropy = Some bytes
     \<and> lib_encode (rt_jwt R) (sn_kid (rt_signer R))
         \<lparr>cl_sub = sk_org_id s, cl_org_id = sk_org_id s, cl_scopes = filter (\<lambda>scope. \<not> is_admin_scope scope) (sk_scopes s),
          cl_iss = ''fiducia-auth'', cl_aud = ''fiducia-api'', cl_iat = now, cl_exp = saturating_add now 900,
          cl_jti = lib_b64u (rt_jwt R) bytes\<rparr> (sn_encoding (rt_signer R)) = Some jwt)"
    (is "?lhs \<longleftrightarrow> ?rhs")
proof -
  let ?intro = "fst (run srv (introspect (rt_ext R) (as_keys S) (tb_api_key body)) \<sigma> (al_keys loc))"
  let ?mints = "\<lambda>i. mint_token (rt_jwt R) (rt_signer R) (case in_org_id i of Some o' \<Rightarrow> o' | None \<Rightarrow> []) (in_scopes i) 900 now entropy
      = Some jwt"
  have "?lhs \<longleftrightarrow> (\<exists>i. (?intro = Inr i \<and> in_valid i) \<and> ?mints i)"
    by (simp only: handle.simps run_exchange_token) blast
  also have "\<dots> \<longleftrightarrow> (\<exists>env key_id secret s ids.
       parse_raw_key (tb_api_key body) = Some (env, key_id, secret) \<and> stored_at (rt_ext R) \<sigma> key_id s
     \<and> indexed (rt_ext R) \<sigma> (sk_org_id s) ids \<and> key_id \<in> set ids \<and> \<not> sk_revoked s \<and> sk_env s = env
     \<and> verify_secret_hash (rt_ext R) (sk_secret_hash s) secret (ks_api_key_pepper (as_keys S)) (ks_allow_legacy_sha256 (as_keys S))
     \<and> ?mints (granted s))"
    unfolding introspect_granted_iff [OF assms] by blast
  also have "\<dots> \<longleftrightarrow> ?rhs"
    by (simp add: granted_def mint_token_Some_iff ISSUER_def AUDIENCE_def)
  finally show ?thesis .
qed

section \<open>A key made by a session works\<close>

lemma collect_scopes_Inr:
  assumes "collect_scopes ss out = Inr scopes" "set out \<subseteq> set ALLOWED_API_KEY_SCOPES" "distinct out"
  shows "set scopes \<subseteq> set ALLOWED_API_KEY_SCOPES \<and> distinct scopes"
  using assms by (induction ss out rule: collect_scopes.induct) (auto simp: Let_def split: if_splits)

lemma collect_scopes_set:
  "collect_scopes ss out = Inr scopes \<Longrightarrow> set scopes = set out \<union> (str_trim ` set ss - {[]})"
  by (induction ss out rule: collect_scopes.induct) (auto simp: Let_def split: if_splits)

text \<open>The scopes a body asks for, or the default.\<close>

definition asked_scopes :: "create_key_body \<Rightarrow> string set" where
  "asked_scopes body =
     (let asked = str_trim ` set (cb_scopes body) - {[]} in if asked = {} then {''requests:write''} else asked)"

lemma validated_scopes_asked:
  assumes "validated_key_create_input body = Inr input"
  shows "set (ki_scopes input) = asked_scopes body"
proof -
  obtain scopes where scopes: "collect_scopes (cb_scopes body) [] = Inr scopes"
    "ki_scopes input = (if scopes = [] then [''requests:write''] else scopes)"
    using assms by (auto simp: validated_key_create_input_def Let_def rbind_eq_Inr split: if_splits)
  have "str_trim ` set (cb_scopes body) - {[]} = set scopes" using collect_scopes_set [OF scopes(1)] by simp
  with scopes(2) show ?thesis unfolding asked_scopes_def by (simp only: Let_def) simp
qed

lemma allowed_not_admin: "scope \<in> set ALLOWED_API_KEY_SCOPES \<Longrightarrow> \<not> is_admin_scope scope"
  by (auto simp: ALLOWED_API_KEY_SCOPES_def is_admin_scope_def starts_with_def)

lemma validated_input_Inr:
  assumes "validated_key_create_input body = Inr input"
  shows "ki_env input = ''live'' \<or> ki_env input = ''test''" "ki_scopes input \<noteq> []"
    "set (ki_scopes input) \<subseteq> set ALLOWED_API_KEY_SCOPES" "distinct (ki_scopes input)" "ki_name input \<noteq> []"
  using assms collect_scopes_Inr [of "cb_scopes body" "[]"]
  by (auto simp: validated_key_create_input_def Let_def rbind_eq_Inr ALLOWED_API_KEY_SCOPES_def split: if_splits)

lemma validated_scopes_kept:
  assumes "validated_key_create_input body = Inr input"
  shows "filter (\<lambda>scope. \<not> is_admin_scope scope) (ki_scopes input) = ki_scopes input"
  using validated_input_Inr(3) [OF assms] allowed_not_admin by (auto simp: filter_id_conv)

lemma run_require_user:
  assumes "bearer_token headers = Some jwt"
    and "run srv (verify_session (rt_ext R) (rt_env R) (rt_verifier R) jwt) \<sigma> (al_sessions loc) = (Some user, \<sigma>', sess)"
  shows "run srv (require_user R headers) \<sigma> loc = (Inr user, \<sigma>', loc\<lparr>al_sessions := sess\<rparr>)"
  using assms by (simp add: require_user_def run_map on_sessions_def sessions_part.run_focus)

text \<open>
  C7. A key made by a session works: when the store answers, the session is accepted for an
  organisation, the input passes validation and the derived key id is free, creation over HTTP answers with the
  raw credential, and the next internal introspection of that credential answers valid with exactly the
  organisation, the scopes and the policy that were asked for.
\<close>
theorem created_key_works_over_http:
  assumes "externals_ok (rt_ext R)" and "kv_reliable (rt_ext R) srv" and "ks_kv (as_keys S) = Some kv"
    and "bearer_token headers = Some jwt"
    and "run srv (verify_session (rt_ext R) (rt_env R) (rt_verifier R) jwt) \<sigma> (al_sessions loc) = (Some user, \<sigma>, sess)"
    and "require_idempotency_key headers = Inr idem" and "select_user_org user (cb_org_id body) = Inr org"
    and "validated_key_create_input body = Inr input"
    and "rec = create_record (rt_ext R) (as_keys S) \<lparr>mi_actor_id = user_id user, mi_idempotency_key = idem\<rparr> org
           (ki_name input) (ki_scopes input) (ki_env input) (ki_require_idempotency input) now"
    and "\<sigma> (key_path (ak_key_id rec)) = None" and "indexed (rt_ext R) \<sigma> org ids"
    and "internal_secret_authorized internal (as_introspect_secret S)"
  shows "\<exists>raw \<sigma>' loc'. run srv (handle R S (CreateKey headers body now)) \<sigma> loc =
      (secret_reply (VObj [(''api_key'', VStr raw), (''key'', api_key_meta_json (meta_of_record rec))]), \<sigma>', loc')
    \<and> fst (run srv (handle R S (Introspect internal \<lparr>ib_api_key = raw\<rparr>)) \<sigma>' loc') =
        json_reply 200 (introspection_json
          \<lparr>in_valid = True, in_org_id = Some org, in_key_id = Some (ak_key_id rec), in_scopes = ki_scopes input,
           in_require_idempotency = ki_require_idempotency input\<rparr>)
    \<and> set (ki_scopes input) = asked_scopes body \<and> ki_require_idempotency input = cb_require_idempotency body"
proof -
  let ?m = "\<lparr>mi_actor_id = user_id user, mi_idempotency_key = idem\<rparr>"
  obtain raw \<sigma>' c where create: "run srv (create (rt_ext R) (as_keys S) ?m org (ki_name input) (ki_scopes input) (ki_env input)
      (ki_require_idempotency input) now) \<sigma> (al_keys loc) = (Inr (raw, meta_of_record rec), \<sigma>', c)"
    and intro: "fst (run srv (introspect (rt_ext R) (as_keys S) raw) \<sigma>' c) =
        Inr \<lparr>in_valid = True, in_org_id = Some org, in_key_id = Some (ak_key_id rec),
             in_scopes = filter (\<lambda>scope. \<not> is_admin_scope scope) (ki_scopes input),
             in_require_idempotency = ki_require_idempotency input\<rparr>"
    using created_key_introspects [OF assms(1-3) validated_input_Inr(1) [OF assms(8)] assms(9-11), of "al_keys loc"] by blast
  let ?loc = "loc\<lparr>al_sessions := sess, al_keys := c\<rparr>"
  have "run srv (handle R S (CreateKey headers body now)) \<sigma> loc =
      (secret_reply (VObj [(''api_key'', VStr raw), (''key'', api_key_meta_json (meta_of_record rec))]), \<sigma>', ?loc)"
    by (simp add: create_key_def run_or_return run_require_user [OF assms(4,5)] assms(6-8) run_map on_keys_def
        keys_part.run_focus create)
  moreover have "fst (run srv (handle R S (Introspect internal \<lparr>ib_api_key = raw\<rparr>)) \<sigma>' ?loc) =
      json_reply 200 (introspection_json
          \<lparr>in_valid = True, in_org_id = Some org, in_key_id = Some (ak_key_id rec), in_scopes = ki_scopes input,
           in_require_idempotency = ki_require_idempotency input\<rparr>)"
    using intro
    by (auto simp: introspect_handler_def assms(12) run_or_return run_map on_keys_def keys_part.run_focus
        validated_scopes_kept [OF assms(8)] split: prod.splits)
  moreover have "ki_require_idempotency input = cb_require_idempotency body"
    using assms(8) by (auto simp: validated_key_create_input_def Let_def rbind_eq_Inr split: if_splits)
  ultimately show ?thesis using validated_scopes_asked [OF assms(8)] by blast
qed

section \<open>Revoked keys\<close>

text \<open>The replies that make a key count as good.\<close>

fun vouches_for :: "string \<Rightarrow> api_request \<times> http_reply \<Rightarrow> bool" where
  "vouches_for key_id (Introspect headers body, reply) =
     (\<exists>b. re_body reply = Some b \<and> get_as as_bool b ''valid'' = Some True \<and> get_as as_str b ''key_id'' = Some key_id)"
| "vouches_for key_id (ExchangeToken body now entropy, reply) =
     (re_status reply = 200 \<and> (\<exists>env secret. parse_raw_key (tb_api_key body) = Some (env, key_id, secret)))"
| "vouches_for key_id _ = False"

lemma swp_rwp: "swp P Q p \<Longrightarrow> rwp server I Q p"
  by (induction p) auto

lemma swp_introspect_id:
  assumes "ks_kv ks = Some kv" "parse_raw_key raw = Some (env, key_id, secret)"
  shows "swp (write_for X org) (\<lambda>r. \<forall>i. r = Inr i \<and> in_valid i \<longrightarrow> in_key_id i = Some key_id) (introspect X ks raw)"
  unfolding introspect_def assms option.case prod.case Let_def
  by (intro swp_try swp_load)
     (auto simp: index_get_def kv_get_def get_versioned_def verify_def intro!: swp_try split: sum.split option.split if_splits)

text \<open>The result of an introspection of a revoked key.\<close>

lemma rwp_introspect_dead:
  assumes "kv_contract X server" "ks_kv ks = Some kv"
  shows "rwp server (revoked_in X key_id)
    (\<lambda>r. \<forall>i. r = Inr i \<and> in_valid i \<longrightarrow> in_key_id i \<noteq> Some key_id
        \<and> (\<forall>env secret. parse_raw_key raw \<noteq> Some (env, key_id, secret))) (introspect X ks raw)"
proof (cases "\<exists>env secret. parse_raw_key raw = Some (env, key_id, secret)")
  case True
  then obtain env secret where p: "parse_raw_key raw = Some (env, key_id, secret)" by blast
  from rwp_conj [OF rwp_introspect_revoked [OF assms] swp_rwp [OF swp_introspect_id [OF assms(2) p]]] show ?thesis
    by (rule rwp_mono) auto
next
  case False
  from rwp_introspect_revoked [OF assms] show ?thesis by (rule rwp_mono) (use False in auto)
qed

lemma as_str_opt [simp]: "as_str (opt_json VStr v) = v"
  by (cases v) simp_all

lemma rwp_introspecting:
  assumes "kv_contract X server" "ks_kv ks = Some kv" "Q storage_unavailable"
    and "\<And>i. (in_valid i \<Longrightarrow> in_key_id i \<noteq> Some key_id \<and> (\<forall>env secret. parse_raw_key raw \<noteq> Some (env, key_id, secret))) \<Longrightarrow>
           rwp server (revoked_in X key_id) Q (f i)"
  shows "rwp server (revoked_in X key_id) Q
    (or_return (eff_map (map_err (\<lambda>_. storage_unavailable)) (on_keys (introspect X ks raw))) f)"
  by (intro rwp_or_return, unfold rwp_map on_keys_def, rule rwp_focus, rule rwp_mono [OF rwp_introspect_dead [OF assms(1,2)]])
     (auto simp: map_err_eq_Inl map_err_eq_Inr assms(3) intro!: assms(4) split: sum.split)

lemma rwp_http_ops_dead:
  assumes "kv_contract (rt_ext R) server" "ks_kv (as_keys S) = Some kv" "p \<in> http_ops R S"
  shows "rwp server (revoked_in (rt_ext R) key_id) (\<lambda>x. \<not> vouches_for key_id x) p"
proof -
  obtain req where p: "p = eff_map (\<lambda>reply. (req, reply)) (handle R S req)" using assms(3) by (auto simp: http_ops_def)
  show ?thesis
  proof (cases req)
    case (Introspect headers body)
    have "rwp server (revoked_in (rt_ext R) key_id) (\<lambda>reply. \<not> vouches_for key_id (req, reply)) (introspect_handler R S headers body)"
      unfolding introspect_handler_def Introspect
      by (auto intro!: rwp_introspecting [OF assms(1,2)])
         (auto simp: reply_defs introspection_json_def)
    then show ?thesis by (simp add: p rwp_map Introspect)
  next
    case (ExchangeToken body now entropy)
    have "rwp server (revoked_in (rt_ext R) key_id) (\<lambda>reply. \<not> vouches_for key_id (req, reply)) (exchange_token R S body now entropy)"
      unfolding exchange_token_def ExchangeToken
      by (rule rwp_introspecting [OF assms(1,2)]) (auto simp: reply_defs Let_def split: option.split)
    then show ?thesis by (simp add: p rwp_map ExchangeToken)
  qed (simp_all add: p rwp_map rwp_always del: handle.simps)
qed

text \<open>
  A revoked key is refused on the whole data plane: once the store holds a key as revoked, no request that
  starts afterwards, on any replica and under any interleaving of requests, failures, cancellations and
  restarts, is answered with a valid introspection of that key or with a token for it.
\<close>
lemma revoked_key_refused_over_http:
  assumes "externals_ok (rt_ext R)" and "kv_contract (rt_ext R) server" and "revs_positive \<sigma>"
    and "ks_kv (as_keys S) = Some kv"
    and "(sys_step server (http_ops R S))\<^sup>*\<^sup>* (sys_init \<sigma> l) s" and "revoked_in (rt_ext R) key_id (sys_kv s)"
    and "sys_threads s t = None" and "(sys_step server (http_ops R S))\<^sup>*\<^sup>* s s'"
    and "sys_threads s' t = Some (i, Done (req, reply))"
  shows "\<not> vouches_for key_id (req, reply)"
proof -
  from assms(6) obtain raw r k where k: "sys_kv s (key_path key_id) = Some (raw, r)" "raw_key (rt_ext R) raw = Some k" "sk_revoked k"
    by (auto simp: revoked_in_def)
  have dead: "revoked_in (rt_ext R) key_id (sys_kv u)" if "(sys_step server (http_ops R S))\<^sup>*\<^sup>* s u" for u
  proof -
    from http_evolution.entry_evolves [OF assms(2,3,5) that k(1)] obtain raw' r' where
      "sys_kv u (key_path key_id) = Some (raw', r')" "key_le (rt_ext R) (key_path key_id) raw raw'"
      by blast
    then show ?thesis using k assms(1) by (auto simp: key_le_def key_evolves_def revoked_in_def)
  qed
  have "rwp server (revoked_in (rt_ext R) key_id) (\<lambda>x. \<not> vouches_for key_id x)
      (Done (req, reply) :: ('a app_local, api_request \<times> http_reply) eff)"
    by (rule rely_thread [where I = "revoked_in (rt_ext R) key_id" and Q = "\<lambda>x. \<not> vouches_for key_id x", OF assms(8) _ _ _ assms(9)])
       (simp_all add: dead rwp_http_ops_dead [OF assms(2,4)] assms(7))
  then show ?thesis by simp
qed

section \<open>On the small deployment\<close>

definition demo_start_env :: environment where
  "demo_start_env =
     [''FIDUCIA_JWT_SIGNING_KEY'' \<mapsto> ''p'', ''SUPABASE_URL'' \<mapsto> ''u'', ''FIDUCIA_INTROSPECT_SECRET'' \<mapsto> demo_secret,
      ''FIDUCIA_KEY_IDEMPOTENCY_SECRET'' \<mapsto> demo_secret, ''CUSTOMER_API_KEY_PEPPER'' \<mapsto> demo_secret,
      ''FIDUCIA_KV_URL'' \<mapsto> ''u'', ''FIDUCIA_INTERNAL_SECRET'' \<mapsto> ''p'', ''SUPABASE_SERVICE_ROLE_KEY'' \<mapsto> ''k'']"

definition demo_start_ext :: externals where
  "demo_start_ext = demo\<lparr>sha256 := (\<lambda>m. replicate 31 0 @ [of_nat (length m)])\<rparr>"

definition demo_url_lib :: url_lib where
  "demo_url_lib = \<lparr>ul_parse = (\<lambda>_. Some \<lparr>pu_scheme = ''https'', pu_host = Some ''h'', pu_username = [], pu_password = None,
     pu_path = ''/'', pu_query = None, pu_fragment = None, pu_origin = ''https://h''\<rparr>), ul_header_value = (\<lambda>_. True)\<rparr>"

definition demo_table :: "unit server_fun" where
  "demo_table u rq = (HttpResponse 200 (Some (VArr [])), u)"

lemma demo_start_token: "token_validate_config demo_start_ext demo_lib demo_start_env = Inr ()"
  unfolding startup_check_iff
  by (simp add: demo_start_env_def demo_start_ext_def demo_lib_def startup_exact_def startup_subject_def record_scope_def
      frame_parts_def startup_claims_def ISSUER_def AUDIENCE_def)

lemma demo_start_registry: "is_ok (registry_from_env demo_start_ext demo_start_env)"
proof -
  have policy: "remote_userinfo_policy_from_env demo_start_env = Inr (Production, False)"
    using mode_str_parse [of Production]
    by (simp add: remote_userinfo_policy_from_env_def policy_from_values_Inr env_value_def demo_start_env_def
        deployment_mode_parse_def parse_optional_bool_def DEPLOYMENT_MODE_ENV_def REMOTE_USERINFO_ENV_def)
  have "is_ok (config_from_env demo_start_env)"
    unfolding config_from_env_def policy by (simp add: env_value_def demo_start_env_def Let_def)
  then show ?thesis
    by (auto simp: registry_from_env_def is_ok_iff) (simp add: env_value_def demo_start_env_def PROJECTS_ENV_def)
qed

lemma demo_secret_chars: "chars demo_secret = replicate 32 115"
  by (subst chars_ascii) (simp_all add: demo_secret_def list_all_iff ascii_char_def printable_def)

lemma demo_start_secret: "introspect_secret_from (Some demo_secret) = Inr demo_secret"
  unfolding introspect_secret_from_Inr demo_secret_chars
  by (simp add: is_control_def is_whitespace_def) (simp add: demo_secret_def)

lemma demo_start_keys: "is_ok (key_store_from_env demo_start_env)"
proof -
  have "validated_idempotency_secret (Some demo_secret) = Inr (as_bytes demo_secret)"
    "validated_api_key_pepper (Some demo_secret) = Inr (as_bytes demo_secret)"
    by (simp_all add: validated_idempotency_secret_def validated_api_key_pepper_def demo_secret_chars is_whitespace_def)
       (simp_all add: demo_secret_def)
  moreover have "is_ok (kv_client_from_env demo_start_env)"
    by (simp add: kv_client_from_env_def demo_start_env_def non_blank_def chars_def utf8_width_def is_whitespace_def
        is_control_def Let_def is_ok_iff)
  moreover have "str_trim ''hmac-sha256'' = ''hmac-sha256''" by (simp add: str_trim_printable printable_def)
  ultimately show ?thesis
    by (auto simp: key_store_from_env_def is_ok_iff) (simp add: demo_start_env_def)
qed

lemma demo_start_config: "\<exists>state cors. start_config demo_start_ext demo_lib demo_url_lib demo_start_env [] = Inr (state, cors)"
proof -
  obtain projects keys where "registry_from_env demo_start_ext demo_start_env = Inr projects"
    "key_store_from_env demo_start_env = Inr keys"
    using demo_start_registry demo_start_keys by (auto simp: is_ok_iff)
  moreover have "env_var demo_start_env [] ''FIDUCIA_INTROSPECT_SECRET'' = VarPresent demo_secret"
    "env_var demo_start_env [] ''FIDUCIA_ROTATION_OVERLAP_SECONDS'' = VarNotPresent"
    by (simp_all add: env_var_def demo_start_env_def)
  moreover have "customer_origin_from_env demo_url_lib demo_start_env = Inr ''https://h''"
    by (simp add: customer_origin_from_env_def customer_origin_from_def demo_url_lib_def)
  ultimately show ?thesis
    by (simp add: start_config_def demo_start_token supabase_validate_config_def demo_start_secret rotation_overlap_seconds_from_def)
qed

theorem startup_needs_every_check_witness:
  "\<exists>state cors port loc. run demo_table (server_start demo_start_ext demo_lib demo_url_lib demo_start_env []) () demo_local
       = (Inr (state, cors, port), (), loc)
     \<and> server_ready demo_start_ext demo_lib demo_url_lib demo_start_env (\<lambda>rq. fst (demo_table () rq)) state cors (al_orgs loc)"
proof -
  obtain state cors where sc: "start_config demo_start_ext demo_lib demo_url_lib demo_start_env [] = Inr (state, cors)"
    using demo_start_config by blast
  have "\<exists>m. run demo_table (sync_start demo_start_env) () Map.empty = (Inr (), (), m)"
    by (simp add: sync_start_def sync_config_from_env_def demo_start_env_def non_blank_def pull_def demo_table_def
        is_success_def org_replace_def)
  then obtain m where "run demo_table (sync_start demo_start_env) () (al_orgs demo_local) = (Inr (), (), m)"
    by (auto simp: demo_local_def)
  with run_server_start [OF sc, of demo_table "()" demo_local]
  have r: "run demo_table (server_start demo_start_ext demo_lib demo_url_lib demo_start_env []) () demo_local =
      (Inr (state, cors, listen_port demo_start_env), (), demo_local\<lparr>al_orgs := m\<rparr>)"
    by simp
  from startup_needs_every_check [OF r] r show ?thesis by blast
qed

theorem introspection_is_internal_witness:
  "handle demo_runtime demo_state (Introspect [(''x-server-auth'', Some demo_secret), (''x-server-auth'', Some demo_secret)]
       \<lparr>ib_api_key = ''x''\<rparr>) = Done (unauthorized ''missing or invalid internal auth'')"
proof -
  have "introspect_secret_from (Some demo_secret) = Inr (as_introspect_secret demo_state)"
    "list_all ascii_char (as_introspect_secret demo_state)"
    by (simp_all add: demo_start_secret) (simp add: demo_secret_def list_all_iff ascii_char_def printable_def)
  then show ?thesis by (subst introspection_is_internal) simp_all
qed

definition raw_a :: string where
  "raw_a = format_raw_key ''live'' id_a (replicate 64 (CHR ''a''))"

lemma parse_raw_a: "parse_raw_key raw_a = Some (''live'', id_a, replicate 64 (CHR ''a''))"
  by (simp add: raw_a_def)

lemma demo_durable: "ks_kv (as_keys demo_state) = Some demo_kv"
  by simp

lemma demo_ext_ok: "externals_ok (rt_ext demo_runtime)" "kv_reliable (rt_ext demo_runtime) demo_services"
  by simp_all

theorem token_exchange_iff_witness:
  "fst (run demo_services (handle demo_runtime demo_state (ExchangeToken \<lparr>tb_api_key = raw_a\<rparr> 1000 (Some [7]))) demo_view demo_local)
     = token_reply ''kidjti''"
proof -
  have "verify_secret_hash demo (sk_secret_hash (demo_key id_a False)) (replicate 64 (CHR ''a''))
      (ks_api_key_pepper demo_ks) (ks_allow_legacy_sha256 demo_ks)"
    by (simp add: verify_secret_hash_iff demo_key_def demo_ks_def)
  moreover have "indexed demo demo_view (sk_org_id (demo_key id_a False)) [id_a, id_b]" by simp
  moreover have "lib_encode (rt_jwt demo_runtime) (sn_kid (rt_signer demo_runtime)) c (sn_encoding (rt_signer demo_runtime)) =
      Some (''kid'' @ cl_jti c)" "lib_b64u (rt_jwt demo_runtime) bytes = ''jti''" for c bytes
    by (simp_all add: demo_runtime_def demo_lib_def)
  ultimately show ?thesis
    unfolding token_exchange_iff [OF demo_ext_ok(2) demo_durable]
    by (intro exI [of _ "''live''"] exI [of _ id_a] exI [of _ "replicate 64 (CHR ''a'')"] exI [of _ "demo_key id_a False"]
        exI [of _ "[id_a, id_b]"] exI [of _ "[7]"]) (simp add: parse_raw_a)
qed

theorem created_key_works_over_http_witness:
  "\<exists>raw \<sigma>' loc' doc. run demo_services (handle demo_runtime demo_state (CreateKey demo_headers demo_body 5)) (\<lambda>_. None) demo_local =
      (secret_reply (VObj [(''api_key'', VStr raw), (''key'', doc)]), \<sigma>', loc')
    \<and> re_status (fst (run demo_services (handle demo_runtime demo_state (Introspect demo_headers \<lparr>ib_api_key = raw\<rparr>)) \<sigma>' loc')) = 200"
proof -
  have session: "run demo_services (verify_session (rt_ext demo_runtime) (rt_env demo_runtime) (rt_verifier demo_runtime) ''a.b'')
      (\<lambda>_. None) (al_sessions demo_local) = (Some demo_member, \<lambda>_. None, demo_sessions)"
    by (simp add: demo_server_session demo_local_def)
  have org: "select_user_org demo_member (cb_org_id demo_body) = Inr ''o''" by (simp add: demo_body_def)
  have "indexed (rt_ext demo_runtime) (\<lambda>_. None) ''o'' []" by (simp add: indexed_def)
  from created_key_works_over_http [OF demo_ext_ok demo_durable demo_bearer session demo_idempotency org demo_input refl _ this,
      of demo_headers 5]
  obtain raw \<sigma>' loc' doc i where
    "run demo_services (handle demo_runtime demo_state (CreateKey demo_headers demo_body 5)) (\<lambda>_. None) demo_local =
      (secret_reply (VObj [(''api_key'', VStr raw), (''key'', doc)]), \<sigma>', loc')"
    "fst (run demo_services (handle demo_runtime demo_state (Introspect demo_headers \<lparr>ib_api_key = raw\<rparr>)) \<sigma>' loc') =
      json_reply 200 (introspection_json i)"
    by (auto simp del: handle.simps)
  then show ?thesis by (intro exI conjI) (assumption, simp add: json_reply_def del: handle.simps)
qed

lemma only_reads_exchange: "only_reads (exchange_token R S body now entropy)"
  unfolding exchange_token_def on_keys_def
  by (intro only_reads_or_return only_reads_map only_reads_focus only_reads_introspect)
     (auto simp: Let_def split: option.split)

theorem revoked_key_refused_over_http_witness:
  "\<exists>s' reply. (sys_step demo_network (http_ops demo_runtime demo_state))\<^sup>*\<^sup>* (sys_init demo_view (\<lambda>_. demo_local)) s'
     \<and> sys_threads s' 0 = Some (0, Done (ExchangeToken \<lparr>tb_api_key = raw_a\<rparr> 1000 (Some [7]), reply))
     \<and> revoked_in demo id_b demo_view \<and> \<not> vouches_for id_b (ExchangeToken \<lparr>tb_api_key = raw_a\<rparr> 1000 (Some [7]), reply)"
proof -
  let ?req = "ExchangeToken \<lparr>tb_api_key = raw_a\<rparr> 1000 (Some [7])"
  let ?p = "eff_map (\<lambda>reply. (?req, reply)) (handle demo_runtime demo_state ?req)"
  let ?s0 = "sys_init demo_view (\<lambda>_. demo_local) :: (unit app_local, api_request \<times> http_reply) sys"
  let ?s1 = "?s0\<lparr>sys_threads := (sys_threads ?s0)(0 \<mapsto> (0, ?p))\<rparr>"
  have s1: "sys_step demo_network (http_ops demo_runtime demo_state) ?s0 ?s1"
    by (rule sys_step.spawn) (auto simp: sys_init_def http_ops_def simp del: handle.simps)
  obtain x \<sigma>' c' where r: "run demo_services ?p demo_view demo_local = (x, \<sigma>', c')" by (metis prod_cases3)
  then have "fst x = ?req" by (auto simp: run_map split: prod.splits)
  then obtain reply where x: "x = (?req, reply)" by (cases x) auto
  have "\<exists>s'. (sys_step demo_network (http_ops demo_runtime demo_state))\<^sup>*\<^sup>* ?s1 s' \<and> sys_threads s' 0 = Some (0, Done x)"
    by (rule run_reaches [where srv = demo_services and p = ?p and \<sigma>' = \<sigma>' and c' = c'])
       (use r in \<open>simp_all add: sys_init_def demo_network_get only_reads_map only_reads_exchange\<close>)
  then obtain s' where s': "(sys_step demo_network (http_ops demo_runtime demo_state))\<^sup>*\<^sup>* ?s0 s'"
    "sys_threads s' 0 = Some (0, Done (?req, reply))"
    using s1 x by (meson converse_rtranclp_into_rtranclp)
  have dead: "revoked_in demo id_b demo_view" by (simp add: revoked_in_def raw_key_def)
  have "\<not> vouches_for id_b (?req, reply)"
    by (rule revoked_key_refused_over_http [OF demo_ext_ok(1) _ demo_view_positive demo_durable rtranclp.rtrancl_refl _ _ s'(1) s'(2)])
       (simp_all add: sys_init_def dead)
  with s' dead show ?thesis by blast
qed

end
