(* ===== verification/Governance_Base.thy ===== *)
theory Governance_Base
  imports Store
begin

text \<open>
  What the parts of the governance ceremony service share (\<open>governance_ceremony.rs\<close>): its error
  type, the constants, the identifier and digest validators of \<open>routes.inc.rs\<close> and
  \<open>integrity.inc.rs\<close>, the ceremony identifier, its storage path and the challenge derived from it.
  Base64, the authenticated cipher and the digests are parameters.
\<close>

section \<open>Constants\<close>

definition CONTRACT_VERSION :: string where
  "CONTRACT_VERSION = ''1.0''"

definition OBJECT_KIND :: string where
  "OBJECT_KIND = ''governance_webauthn_ceremony''"

definition VERIFIER_HEADER :: string where
  "VERIFIER_HEADER = ''x-fiducia-governance-verifier-auth''"

definition IDEMPOTENCY_HEADER :: string where
  "IDEMPOTENCY_HEADER = ''idempotency-key''"

definition DEFAULT_TTL_SECS :: u64 where
  "DEFAULT_TTL_SECS = 300"

definition MIN_TTL_SECS :: u64 where
  "MIN_TTL_SECS = 60"

definition MAX_TTL_SECS :: u64 where
  "MAX_TTL_SECS = 900"

definition MAX_CAS_ATTEMPTS :: nat where
  "MAX_CAS_ATTEMPTS = 8"

definition CEREMONY_ID_PREFIX :: string where
  "CEREMONY_ID_PREFIX = ''gcer_''"

definition SHA256_URN_PREFIX :: string where
  "SHA256_URN_PREFIX = ''sha256:''"

definition SHA256_HEX_BYTES :: nat where
  "SHA256_HEX_BYTES = 64"

section \<open>Errors\<close>

datatype ceremony_error =
    CeDisabled
  | CeMissingConfig string
  | CeWeakSecret string
  | CeInvalidConfig string
  | CeInvalidRequest string
  | CeProtectedState string
  | CeNotFound
  | CeConflict
  | CeExpired
  | CeStaleFencing
  | CeAlreadyClaimed
  | CeNotClaimed
  | CeClaimMismatch
  | CeUnauthorized
  | CeCasRetriesExhausted
  | CeWebauthn
  | CeStore store_error
  | CeJson

definition corrupt :: "string \<Rightarrow> ceremony_error" where
  "corrupt reason = CeProtectedState reason"

definition stored :: "ceremony_error + 'a \<Rightarrow> string \<Rightarrow> ceremony_error + 'a" where
  "stored result reason = map_err (\<lambda>_. corrupt reason) result"

section \<open>Libraries\<close>

text \<open>
  Base64 without padding in the URL-safe alphabet, and XChaCha20-Poly1305 with a 32-byte key, a
  24-byte nonce and associated data.
\<close>

record gov_lib =
  gl_b64u :: "byte list \<Rightarrow> string"
  gl_b64u_decode :: "string \<Rightarrow> byte list option"
  gl_encrypt :: "byte list \<Rightarrow> byte list \<Rightarrow> byte list \<Rightarrow> byte list \<Rightarrow> byte list option"
  gl_decrypt :: "byte list \<Rightarrow> byte list \<Rightarrow> byte list \<Rightarrow> byte list \<Rightarrow> byte list option"

definition gov_lib_ok :: "gov_lib \<Rightarrow> bool" where
  "gov_lib_ok G \<longleftrightarrow>
     (\<forall>bs. gl_b64u_decode G (gl_b64u G bs) = Some bs)
   \<and> (\<forall>key nonce aad msg ct. gl_encrypt G key nonce aad msg = Some ct \<longrightarrow>
        gl_decrypt G key nonce aad ct = Some msg)"

text \<open>
  The text of a document without floating-point numbers determines its members, in whatever
  order a struct lists them.
\<close>

fun num_plain :: "json_number \<Rightarrow> bool" where
  "num_plain (PosInt n) = True"
| "num_plain (NegInt i) = (i < 0)"
| "num_plain (Float f) = False"

fun json_plain :: "json \<Rightarrow> bool" where
  "json_plain (VNum n) = num_plain n"
| "json_plain (VArr vs) = (\<forall>v\<in>set vs. json_plain v)"
| "json_plain (VObj fs) = (\<forall>v\<in>snd ` set fs. json_plain v)"
| "json_plain _ = True"

definition json_text_exact :: "externals \<Rightarrow> bool" where
  "json_text_exact X \<longleftrightarrow>
     (\<forall>v w. json_plain v \<and> json_plain w \<and> json_to_string X v = json_to_string X w \<longrightarrow> v = w)"

section \<open>Validation\<close>

definition has_blank_or_control :: "string \<Rightarrow> bool" where
  "has_blank_or_control val \<longleftrightarrow> (\<exists>c\<in>set (chars val). is_whitespace c \<or> is_control c)"

definition gov_validate_identifier :: "string \<Rightarrow> ceremony_error + unit" where
  "gov_validate_identifier val =
     (if val = [] \<or> 160 < length val \<or> has_blank_or_control val
      then Inl (CeInvalidRequest ''invalid_identifier'') else Inr ())"

definition is_ascii_hexdigit :: "char \<Rightarrow> bool" where
  "is_ascii_hexdigit c \<longleftrightarrow>
     (let n = (of_char c :: nat) in 48 \<le> n \<and> n \<le> 57 \<or> 65 \<le> n \<and> n \<le> 70 \<or> 97 \<le> n \<and> n \<le> 102)"

definition is_ascii_uppercase :: "char \<Rightarrow> bool" where
  "is_ascii_uppercase c \<longleftrightarrow> 65 \<le> (of_char c :: nat) \<and> (of_char c :: nat) \<le> 90"

definition gov_is_lower_hex :: "char \<Rightarrow> bool" where
  "gov_is_lower_hex c \<longleftrightarrow> is_ascii_hexdigit c \<and> \<not> is_ascii_uppercase c"

definition validate_sha256_urn :: "string \<Rightarrow> ceremony_error + unit" where
  "validate_sha256_urn val =
     (case strip_prefix ''sha256:'' val of
        None \<Rightarrow> Inl (CeInvalidRequest ''invalid_sha256_urn'')
      | Some hex \<Rightarrow>
          if length hex \<noteq> 64 \<or> \<not> list_all is_ascii_hexdigit hex
          then Inl (CeInvalidRequest ''invalid_sha256_urn'') else Inr ())"

definition validate_canonical_sha256_urn :: "string \<Rightarrow> ceremony_error + unit" where
  "validate_canonical_sha256_urn val =
     (case strip_prefix SHA256_URN_PREFIX val of
        Some hex \<Rightarrow>
          if length hex = SHA256_HEX_BYTES \<and> list_all gov_is_lower_hex hex then Inr ()
          else Inl (CeInvalidRequest ''invalid_sha256_urn'')
      | None \<Rightarrow> Inl (CeInvalidRequest ''invalid_sha256_urn''))"

definition validate_ceremony_id :: "string \<Rightarrow> ceremony_error + unit" where
  "validate_ceremony_id val =
     (case strip_prefix CEREMONY_ID_PREFIX val of
        Some hex \<Rightarrow>
          if length hex = SHA256_HEX_BYTES \<and> list_all gov_is_lower_hex hex then Inr ()
          else Inl (CeInvalidRequest ''invalid_ceremony_id'')
      | None \<Rightarrow> Inl (CeInvalidRequest ''invalid_ceremony_id''))"

definition validate_idempotency_key :: "string \<Rightarrow> ceremony_error + unit" where
  "validate_idempotency_key val =
     (if length val < 16 \<or> 128 < length val \<or> has_blank_or_control val
      then Inl (CeInvalidRequest ''invalid_idempotency_key'') else Inr ())"

section \<open>Digests, identifiers and challenges\<close>

definition HEX :: string where
  "HEX = ''0123456789abcdef''"

definition hex_lower :: "byte list \<Rightarrow> string" where
  "hex_lower val =
     concat (map (\<lambda>b. [HEX ! unat (drop_bit 4 b), HEX ! unat (b AND 15)]) val)"

definition sha256_bytes :: "externals \<Rightarrow> byte list \<Rightarrow> string" where
  "sha256_bytes X val = ''sha256:'' @ hex_lower (sha256 X val)"

text \<open>Serialising the documents of this service to text cannot fail.\<close>

definition sha256_json :: "externals \<Rightarrow> json \<Rightarrow> ceremony_error + string" where
  "sha256_json X val = Inr (sha256_bytes X (as_bytes (json_to_string X val)))"

definition ceremony_id :: "externals \<Rightarrow> string \<Rightarrow> string \<Rightarrow> string \<Rightarrow> string \<Rightarrow> string" where
  "ceremony_id X tenant_id participant_id proposal_id key =
     ''gcer_'' @ hex_lower (sha256 X (frame_parts (map as_bytes [tenant_id, participant_id, proposal_id, key])))"

definition ceremony_path :: "string \<Rightarrow> string" where
  "ceremony_path cid = ''__auth/governance/ceremonies/'' @ cid"

text \<open>A key of any length is accepted by the HMAC.\<close>

definition derive_challenge ::
  "externals \<Rightarrow> gov_lib \<Rightarrow> byte list \<Rightarrow> string \<Rightarrow> string \<Rightarrow> ceremony_error + string" where
  "derive_challenge X G secret cid binding_hash =
     Inr (gl_b64u G (hmac_sha256 X secret
       (as_bytes ''fiducia-governance-ceremony-v1'' @ [0] @ frame_parts [as_bytes cid, as_bytes binding_hash])))"

section \<open>Facts\<close>

lemma stored_eq_Inr [result_simps]: "stored r reason = Inr x \<longleftrightarrow> r = Inr x"
  by (simp add: stored_def map_err_eq_Inr)

lemma gov_is_lower_hex_eq: "gov_is_lower_hex = is_lower_hex"
  by (rule ext) (auto simp: gov_is_lower_hex_def is_lower_hex_def is_ascii_hexdigit_def is_ascii_uppercase_def Let_def)

lemma HEX_digits: "HEX = map hex_digit [0..<16]"
  by (simp add: HEX_def upt_rec hex_digit_def char_of_def bit_0)

lemma HEX_nth: "n < 16 \<Longrightarrow> HEX ! n = hex_digit n"
  by (simp add: HEX_digits)

lemma hex_lower_eq [simp]: "hex_lower bs = to_hex bs"
  by (simp add: hex_lower_def to_hex_def HEX_nth nibbles_lt)

lemma validate_ceremony_id_iff [result_simps]:
  "validate_ceremony_id s = Inr () \<longleftrightarrow>
     (\<exists>hex. s = ''gcer_'' @ hex \<and> length hex = 64 \<and> list_all is_lower_hex hex)"
  by (auto simp: validate_ceremony_id_def CEREMONY_ID_PREFIX_def SHA256_HEX_BYTES_def gov_is_lower_hex_eq
      split: option.splits)

lemma validate_canonical_iff [result_simps]:
  "validate_canonical_sha256_urn s = Inr () \<longleftrightarrow>
     (\<exists>hex. s = ''sha256:'' @ hex \<and> length hex = 64 \<and> list_all is_lower_hex hex)"
  by (auto simp: validate_canonical_sha256_urn_def SHA256_URN_PREFIX_def SHA256_HEX_BYTES_def gov_is_lower_hex_eq
      split: option.splits)

lemma canonical_is_urn: "validate_canonical_sha256_urn s = Inr () \<Longrightarrow> validate_sha256_urn s = Inr ()"
  by (auto simp: validate_canonical_iff validate_sha256_urn_def list_all_iff is_lower_hex_def
      is_ascii_hexdigit_def Let_def split: option.splits)

lemma gov_validate_identifier_iff [result_simps]:
  "gov_validate_identifier s = Inr () \<longleftrightarrow> s \<noteq> [] \<and> length s \<le> 160 \<and> \<not> has_blank_or_control s"
  by (auto simp: gov_validate_identifier_def)

lemma sha256_bytes_canonical [simp]:
  "externals_ok X \<Longrightarrow> validate_canonical_sha256_urn (sha256_bytes X bs) = Inr ()"
  by (auto simp: validate_canonical_iff sha256_bytes_def externals_okD list_all_iff to_hex_lower)

lemma ceremony_id_valid [simp]:
  "externals_ok X \<Longrightarrow> validate_ceremony_id (ceremony_id X t p q k) = Inr ()"
  by (auto simp: validate_ceremony_id_iff ceremony_id_def externals_okD list_all_iff to_hex_lower)

lemma sha256_bytes_inject: "sha256_bytes X a = sha256_bytes X b \<longleftrightarrow> sha256 X a = sha256 X b"
  by (simp add: sha256_bytes_def)

lemma ceremony_path_inject [simp]: "ceremony_path a = ceremony_path b \<longleftrightarrow> a = b"
  by (simp add: ceremony_path_def)

lemma gov_lib_okD:
  assumes "gov_lib_ok G"
  shows "gl_b64u_decode G (gl_b64u G bs) = Some bs"
    and "gl_encrypt G key nonce aad msg = Some ct \<Longrightarrow> gl_decrypt G key nonce aad ct = Some msg"
  using assms by (auto simp: gov_lib_ok_def)

text \<open>Equal identifiers of different ceremonies exhibit a collision of the digest.\<close>

abbreviation ceremony_frame :: "string list \<Rightarrow> byte list" where
  "ceremony_frame parts \<equiv> frame_parts (map as_bytes parts)"

lemma ceremony_id_collision:
  assumes "ceremony_id X t p q k = ceremony_id X t' p' q' k'" "[t, p, q, k] \<noteq> [t', p', q', k']"
    and "\<forall>s\<in>{t, p, q, k, t', p', q', k'}. length s < 2 ^ 64"
  shows "ceremony_frame [t, p, q, k] \<noteq> ceremony_frame [t', p', q', k']"
    and "sha256 X (ceremony_frame [t, p, q, k]) = sha256 X (ceremony_frame [t', p', q', k'])"
proof -
  show "ceremony_frame [t, p, q, k] \<noteq> ceremony_frame [t', p', q', k']"
  proof
    assume "ceremony_frame [t, p, q, k] = ceremony_frame [t', p', q', k']"
    then have "map as_bytes [t, p, q, k] = map as_bytes [t', p', q', k']"
      by (rule frame_parts_inject [rotated 2]) (use assms(3) in auto)
    with assms(2) show False by simp
  qed
  show "sha256 X (ceremony_frame [t, p, q, k]) = sha256 X (ceremony_frame [t', p', q', k'])"
    using assms(1) by (simp add: ceremony_id_def del: frame_parts_Cons list.map)
qed

end
