(* ===== verification/Protected_State.thy ===== *)
theory Protected_State
  imports Governance_Base
begin

text \<open>
  \<open>governance_ceremony/webauthn.rs\<close>: the authenticated envelope in which browser options and the
  matching opaque WebAuthn state are kept on the server, and the adapter around the WebAuthn
  library.  The library is a parameter (record \<open>webauthn_lib\<close>, with the types of its values as
  type parameters); the nonce the operating system delivers is an argument.  The lemmas show that
  an envelope opens to what was sealed, under any key ring that still has its key, and only in
  the context it was sealed for.
\<close>

section \<open>Contexts, envelopes and key rings\<close>

definition PROTECTED_STATE_CONTRACT_VERSION :: string where
  "PROTECTED_STATE_CONTRACT_VERSION = ''1.0''"

definition PROTECTED_STATE_OBJECT_KIND :: string where
  "PROTECTED_STATE_OBJECT_KIND = ''governance_webauthn_protected_bundle''"

definition PROTECTED_STATE_ALGORITHM :: string where
  "PROTECTED_STATE_ALGORITHM = ''xchacha20poly1305''"

definition XCHACHA_NONCE_BYTES :: nat where
  "XCHACHA_NONCE_BYTES = 24"

datatype protected_state_kind = RegistrationKind | AuthenticationKind

fun protected_state_kind_str :: "protected_state_kind \<Rightarrow> string" where
  "protected_state_kind_str RegistrationKind = ''passkey_registration''"
| "protected_state_kind_str AuthenticationKind = ''passkey_authentication''"

record protected_state_context =
  pc_tenant_id :: string
  pc_ceremony_id :: string
  pc_binding_hash :: string
  pc_state_kind :: protected_state_kind
  pc_expires_at_ms :: u64

definition context_validate :: "protected_state_context \<Rightarrow> ceremony_error + unit" where
  "context_validate ctx =
     (if pc_tenant_id ctx = [] \<or> pc_ceremony_id ctx = []
      then Inl (CeProtectedState ''tenant and ceremony identifiers are required'')
      else rbind (validate_sha256_urn (pc_binding_hash ctx)) (\<lambda>_.
        if pc_expires_at_ms ctx = 0
        then Inl (CeProtectedState ''protected state expiry must be positive'') else Inr ()))"

record protected_ceremony_state =
  pe_contract_version :: string
  pe_object_kind :: string
  pe_algorithm :: string
  pe_key_id :: string
  pe_keyring_version :: u64
  pe_state_kind :: protected_state_kind
  pe_nonce :: string
  pe_ciphertext :: string
  pe_associated_data_hash :: string

record protected_state_codec =
  cd_active_key_id :: string
  cd_keyring_version :: u64
  cd_keys :: "string \<rightharpoonup> byte list"

definition codec_new ::
  "string \<Rightarrow> u64 \<Rightarrow> (string \<rightharpoonup> byte list) \<Rightarrow> ceremony_error + protected_state_codec" where
  "codec_new active_key_id keyring_version ring =
     (if keyring_version = 0
        then Inl (CeProtectedState ''protected-state keyring version must be positive'')
      else if active_key_id = [] \<or> ring active_key_id = None
        then Inl (CeProtectedState ''active protected-state key is missing'')
      else if dom ring = {} \<or> (\<exists>key_id\<in>dom ring. key_id = [] \<or> 128 < length key_id \<or> has_blank_or_control key_id)
        then Inl (CeProtectedState ''protected-state key identifiers are invalid'')
      else Inr \<lparr>cd_active_key_id = active_key_id, cd_keyring_version = keyring_version, cd_keys = ring\<rparr>)"

fun decode_keys ::
  "gov_lib \<Rightarrow> (string \<times> string) list \<Rightarrow> (string \<rightharpoonup> byte list) \<Rightarrow> ceremony_error + (string \<rightharpoonup> byte list)" where
  "decode_keys G [] ring = Inr ring"
| "decode_keys G ((key_id, encoded) # rest) ring =
     rbind (ok_or (gl_b64u_decode G encoded) (CeProtectedState ''invalid state-key encoding'')) (\<lambda>decoded.
       if length decoded \<noteq> 32 then Inl (CeProtectedState ''state key must be 32 bytes'')
       else decode_keys G rest (ring(key_id \<mapsto> decoded)))"

definition from_base64_keys ::
  "gov_lib \<Rightarrow> string \<Rightarrow> u64 \<Rightarrow> (string \<times> string) list \<Rightarrow> ceremony_error + protected_state_codec" where
  "from_base64_keys G active_key_id keyring_version encoded_keys =
     rbind (decode_keys G encoded_keys Map.empty) (\<lambda>ring. codec_new active_key_id keyring_version ring)"

section \<open>Sealing and opening\<close>

definition context_json :: "protected_state_context \<Rightarrow> json" where
  "context_json ctx =
     VObj [(''tenant_id'', VStr (pc_tenant_id ctx)), (''ceremony_id'', VStr (pc_ceremony_id ctx)),
           (''binding_hash'', VStr (pc_binding_hash ctx)),
           (''state_kind'', VStr (protected_state_kind_str (pc_state_kind ctx))),
           (''expires_at_ms'', VNum (PosInt (pc_expires_at_ms ctx)))]"

definition associated_data ::
  "externals \<Rightarrow> protected_state_context \<Rightarrow> string \<Rightarrow> u64 \<Rightarrow> byte list" where
  "associated_data X ctx key_id keyring_version =
     as_bytes (json_to_string X (VObj
       [(''contract_version'', VStr PROTECTED_STATE_CONTRACT_VERSION),
        (''object_kind'', VStr PROTECTED_STATE_OBJECT_KIND),
        (''algorithm'', VStr PROTECTED_STATE_ALGORITHM), (''key_id'', VStr key_id),
        (''keyring_version'', VNum (PosInt keyring_version)), (''context'', context_json ctx)]))"

text \<open>
  \<open>nonce\<close> is what the operating system put into the nonce buffer; \<open>val\<close> is the JSON form of the
  sealed value.
\<close>

definition seal ::
  "externals \<Rightarrow> gov_lib \<Rightarrow> protected_state_codec \<Rightarrow> protected_state_context \<Rightarrow> json \<Rightarrow> byte list option \<Rightarrow>
   ceremony_error + protected_ceremony_state" where
  "seal X G codec ctx val nonce =
     rbind (context_validate ctx) (\<lambda>_.
     rbind (ok_or (cd_keys codec (cd_active_key_id codec))
              (CeProtectedState ''active protected-state key is unavailable'')) (\<lambda>key.
     let aad = associated_data X ctx (cd_active_key_id codec) (cd_keyring_version codec);
         plaintext = as_bytes (json_to_string X val)
     in rbind (ok_or nonce (CeProtectedState ''nonce generation failed'')) (\<lambda>nonce.
        rbind (ok_or (gl_encrypt G key nonce aad plaintext)
                 (CeProtectedState ''state encryption failed'')) (\<lambda>ciphertext.
        Inr \<lparr>pe_contract_version = PROTECTED_STATE_CONTRACT_VERSION,
             pe_object_kind = PROTECTED_STATE_OBJECT_KIND, pe_algorithm = PROTECTED_STATE_ALGORITHM,
             pe_key_id = cd_active_key_id codec, pe_keyring_version = cd_keyring_version codec,
             pe_state_kind = pc_state_kind ctx, pe_nonce = gl_b64u G nonce,
             pe_ciphertext = gl_b64u G ciphertext, pe_associated_data_hash = sha256_bytes X aad\<rparr>))))"

text \<open>\<open>from_json\<close> is the deserialiser of the type the caller asks for, on the plaintext bytes.\<close>

definition bytes_to_string :: "byte list \<Rightarrow> string" where
  "bytes_to_string bs = map (\<lambda>b. char_of (unat b)) bs"

definition open_state ::
  "externals \<Rightarrow> gov_lib \<Rightarrow> (json \<Rightarrow> 'a option) \<Rightarrow> protected_state_codec \<Rightarrow> protected_state_context \<Rightarrow>
   protected_ceremony_state \<Rightarrow> ceremony_error + 'a" where
  "open_state X G from_json codec ctx envelope =
     rbind (context_validate ctx) (\<lambda>_.
     if pe_contract_version envelope \<noteq> PROTECTED_STATE_CONTRACT_VERSION
        \<or> pe_object_kind envelope \<noteq> PROTECTED_STATE_OBJECT_KIND
        \<or> pe_algorithm envelope \<noteq> PROTECTED_STATE_ALGORITHM
        \<or> pe_keyring_version envelope = 0 \<or> pe_state_kind envelope \<noteq> pc_state_kind ctx
     then Inl (CeProtectedState ''protected-state envelope metadata mismatch'')
     else
       rbind (ok_or (cd_keys codec (pe_key_id envelope))
                (CeProtectedState ''protected-state key is unavailable'')) (\<lambda>key.
       let aad = associated_data X ctx (pe_key_id envelope) (pe_keyring_version envelope)
       in if pe_associated_data_hash envelope \<noteq> sha256_bytes X aad
          then Inl (CeProtectedState ''protected-state associated data mismatch'')
          else
            rbind (ok_or (gl_b64u_decode G (pe_nonce envelope))
                     (CeProtectedState ''invalid protected-state nonce'')) (\<lambda>nonce.
            if length nonce \<noteq> XCHACHA_NONCE_BYTES
            then Inl (CeProtectedState ''invalid protected-state nonce'')
            else
              rbind (ok_or (gl_b64u_decode G (pe_ciphertext envelope))
                       (CeProtectedState ''invalid protected-state ciphertext'')) (\<lambda>ciphertext.
              rbind (ok_or (gl_decrypt G key nonce aad ciphertext)
                       (CeProtectedState ''protected-state authentication failed'')) (\<lambda>plaintext.
              ok_or (Option.bind (json_from_str X (bytes_to_string plaintext)) from_json) CeJson)))))"

section \<open>The WebAuthn adapter\<close>

text \<open>
  The functions of the WebAuthn library.  \<open>'w\<close> is a configured relying party, \<open>'r\<close> and \<open>'a\<close> its
  opaque registration and authentication state, \<open>'c\<close> what an authenticator returned, \<open>'p\<close> a passkey
  and \<open>'v\<close> the result of a verified assertion.  The random choices of the library are the last
  argument of the starting functions; challenges are given by their JSON form.
\<close>

record ('w, 'r, 'a, 'c, 'p, 'v) webauthn_lib =
  wl_build :: "string \<Rightarrow> parsed_url \<Rightarrow> 'w option"
  wl_start_registration ::
    "'w \<Rightarrow> string \<Rightarrow> string \<Rightarrow> string \<Rightarrow> string list option \<Rightarrow> byte list \<Rightarrow> (json \<times> 'r) option"
  wl_finish_registration :: "'w \<Rightarrow> 'c \<Rightarrow> 'r \<Rightarrow> 'p option"
  wl_start_authentication :: "'w \<Rightarrow> 'p list \<Rightarrow> byte list \<Rightarrow> (json \<times> 'a) option"
  wl_finish_authentication :: "'w \<Rightarrow> 'c \<Rightarrow> 'a \<Rightarrow> 'v option"
  wl_reg_to_json :: "'r \<Rightarrow> json"
  wl_reg_from_json :: "json \<Rightarrow> 'r option"
  wl_auth_to_json :: "'a \<Rightarrow> json"
  wl_auth_from_json :: "json \<Rightarrow> 'a option"

record 'w governance_webauthn =
  gw_webauthn :: 'w
  gw_protected_state :: protected_state_codec

definition bundle_to_json :: "('s \<Rightarrow> json) \<Rightarrow> json \<times> 's \<Rightarrow> json" where
  "bundle_to_json enc b = VObj [(''client_options'', fst b), (''state'', enc (snd b))]"

definition bundle_from_json :: "(json \<Rightarrow> 's option) \<Rightarrow> json \<Rightarrow> (json \<times> 's) option" where
  "bundle_from_json dec v =
     Option.bind (struct_fields [''client_options'', ''state''] v) (\<lambda>f.
     Option.bind (field Some f ''client_options'') (\<lambda>opts.
     Option.bind (field dec f ''state'') (\<lambda>st. Some (opts, st))))"

definition governance_webauthn_new ::
  "url_lib \<Rightarrow> ('w, 'r, 'a, 'c, 'p, 'v) webauthn_lib \<Rightarrow> string \<Rightarrow> string \<Rightarrow> protected_state_codec \<Rightarrow>
   ceremony_error + 'w governance_webauthn" where
  "governance_webauthn_new U W rp_id rp_origin codec =
     rbind (ok_or (ul_parse U rp_origin) (CeInvalidConfig ''invalid governance WebAuthn origin'')) (\<lambda>origin.
     rbind (ok_or (wl_build W rp_id origin) CeWebauthn) (\<lambda>w.
       Inr \<lparr>gw_webauthn = w, gw_protected_state = codec\<rparr>))"

definition require_kind :: "protected_state_context \<Rightarrow> protected_state_kind \<Rightarrow> ceremony_error + unit" where
  "require_kind ctx required =
     (if pc_state_kind ctx \<noteq> required then Inl (CeProtectedState ''protected-state ceremony kind mismatch'')
      else Inr ())"

definition start_registration ::
  "externals \<Rightarrow> gov_lib \<Rightarrow> ('w, 'r, 'a, 'c, 'p, 'v) webauthn_lib \<Rightarrow> 'w governance_webauthn \<Rightarrow>
   protected_state_context \<Rightarrow> string \<Rightarrow> string \<Rightarrow> string \<Rightarrow> string list option \<Rightarrow> byte list \<Rightarrow> byte list option \<Rightarrow>
   ceremony_error + json \<times> protected_ceremony_state" where
  "start_registration X G W gw ctx user_unique_id user_name user_display_name exclude_credentials random nonce =
     rbind (require_kind ctx RegistrationKind) (\<lambda>_.
     rbind (ok_or (wl_start_registration W (gw_webauthn gw) user_unique_id user_name user_display_name
                     exclude_credentials random) CeWebauthn) (\<lambda>(challenge, state).
     rbind (seal X G (gw_protected_state gw) ctx (bundle_to_json (wl_reg_to_json W) (challenge, state)) nonce)
       (\<lambda>envelope. Inr (challenge, envelope))))"

definition finish_registration ::
  "externals \<Rightarrow> gov_lib \<Rightarrow> ('w, 'r, 'a, 'c, 'p, 'v) webauthn_lib \<Rightarrow> 'w governance_webauthn \<Rightarrow>
   protected_state_context \<Rightarrow> protected_ceremony_state \<Rightarrow> 'c \<Rightarrow> ceremony_error + 'p" where
  "finish_registration X G W gw ctx envelope credential =
     rbind (require_kind ctx RegistrationKind) (\<lambda>_.
     rbind (open_state X G (bundle_from_json (wl_reg_from_json W)) (gw_protected_state gw) ctx envelope) (\<lambda>bundle.
     ok_or (wl_finish_registration W (gw_webauthn gw) credential (snd bundle)) CeWebauthn))"

definition start_authentication ::
  "externals \<Rightarrow> gov_lib \<Rightarrow> ('w, 'r, 'a, 'c, 'p, 'v) webauthn_lib \<Rightarrow> 'w governance_webauthn \<Rightarrow>
   protected_state_context \<Rightarrow> 'p list \<Rightarrow> byte list \<Rightarrow> byte list option \<Rightarrow>
   ceremony_error + json \<times> protected_ceremony_state" where
  "start_authentication X G W gw ctx passkeys random nonce =
     rbind (require_kind ctx AuthenticationKind) (\<lambda>_.
     if passkeys = [] then Inl (CeInvalidRequest ''at least one active passkey is required'')
     else
       rbind (ok_or (wl_start_authentication W (gw_webauthn gw) passkeys random) CeWebauthn) (\<lambda>(challenge, state).
       rbind (seal X G (gw_protected_state gw) ctx (bundle_to_json (wl_auth_to_json W) (challenge, state)) nonce)
         (\<lambda>envelope. Inr (challenge, envelope))))"

definition finish_authentication ::
  "externals \<Rightarrow> gov_lib \<Rightarrow> ('w, 'r, 'a, 'c, 'p, 'v) webauthn_lib \<Rightarrow> 'w governance_webauthn \<Rightarrow>
   protected_state_context \<Rightarrow> protected_ceremony_state \<Rightarrow> 'c \<Rightarrow> ceremony_error + 'v" where
  "finish_authentication X G W gw ctx envelope credential =
     rbind (require_kind ctx AuthenticationKind) (\<lambda>_.
     rbind (open_state X G (bundle_from_json (wl_auth_from_json W)) (gw_protected_state gw) ctx envelope) (\<lambda>bundle.
     ok_or (wl_finish_authentication W (gw_webauthn gw) credential (snd bundle)) CeWebauthn))"

definition recover_client_options ::
  "externals \<Rightarrow> gov_lib \<Rightarrow> ('w, 'r, 'a, 'c, 'p, 'v) webauthn_lib \<Rightarrow> 'w governance_webauthn \<Rightarrow>
   protected_state_context \<Rightarrow> protected_ceremony_state \<Rightarrow> ceremony_error + json" where
  "recover_client_options X G W gw ctx envelope =
     (case pc_state_kind ctx of
        RegistrationKind \<Rightarrow>
          rbind (open_state X G (bundle_from_json (wl_reg_from_json W)) (gw_protected_state gw) ctx envelope)
            (\<lambda>bundle. Inr (fst bundle))
      | AuthenticationKind \<Rightarrow>
          rbind (open_state X G (bundle_from_json (wl_auth_from_json W)) (gw_protected_state gw) ctx envelope)
            (\<lambda>bundle. Inr (fst bundle)))"

section \<open>Facts\<close>

lemma bytes_to_string_as_bytes [simp]: "bytes_to_string (as_bytes s) = s"
proof -
  have "char_of (unat (of_nat (of_char c) :: byte)) = c" for c :: char
    by (simp add: unat_of_nat)
  then show ?thesis by (simp add: bytes_to_string_def as_bytes_def comp_def)
qed

text \<open>What a key ring that was built guarantees.\<close>

lemma codec_new_iff:
  "codec_new active version ring = Inr codec \<longleftrightarrow>
     codec = \<lparr>cd_active_key_id = active, cd_keyring_version = version, cd_keys = ring\<rparr>
   \<and> version \<noteq> 0 \<and> (\<exists>key. ring active = Some key)
   \<and> (\<forall>key_id\<in>dom ring. key_id \<noteq> [] \<and> length key_id \<le> 128 \<and> \<not> has_blank_or_control key_id)"
  by (auto simp: codec_new_def not_less) (meson domI not_le)+

lemma decode_keys_ran:
  "decode_keys G enc ring = Inr ring' \<Longrightarrow> \<forall>key\<in>ran ring. length key = 32 \<Longrightarrow> \<forall>key\<in>ran ring'. length key = 32"
proof (induction enc arbitrary: ring)
  case (Cons e rest)
  obtain key_id encoded where e: "e = (key_id, encoded)" by (cases e)
  with Cons.prems(1) obtain decoded where "length decoded = 32" "decode_keys G rest (ring(key_id \<mapsto> decoded)) = Inr ring'"
    by (auto simp: result_simps split: if_splits)
  moreover from this(1) Cons.prems(2) have "\<forall>key\<in>ran (ring(key_id \<mapsto> decoded)). length key = 32"
    by (auto simp: ran_def split: if_splits)
  ultimately show ?case using Cons.IH by blast
qed simp

lemma seal_Inr:
  assumes "seal X G codec ctx val nonce = Inr env"
  obtains key bytes ct where "context_validate ctx = Inr ()" "cd_keys codec (cd_active_key_id codec) = Some key"
    "nonce = Some bytes"
    "gl_encrypt G key bytes (associated_data X ctx (cd_active_key_id codec) (cd_keyring_version codec))
       (as_bytes (json_to_string X val)) = Some ct"
    "env = \<lparr>pe_contract_version = PROTECTED_STATE_CONTRACT_VERSION,
       pe_object_kind = PROTECTED_STATE_OBJECT_KIND, pe_algorithm = PROTECTED_STATE_ALGORITHM,
       pe_key_id = cd_active_key_id codec, pe_keyring_version = cd_keyring_version codec,
       pe_state_kind = pc_state_kind ctx, pe_nonce = gl_b64u G bytes, pe_ciphertext = gl_b64u G ct,
       pe_associated_data_hash = sha256_bytes X
         (associated_data X ctx (cd_active_key_id codec) (cd_keyring_version codec))\<rparr>"
  using assms by (auto simp: seal_def Let_def result_simps)

text \<open>
  Opening by any key ring that still has the sealing key gives back what was sealed.
\<close>

lemma open_sealed:
  assumes "externals_ok X" "gov_lib_ok G" "json_canon val" "cd_keyring_version codec \<noteq> 0"
    and "seal X G codec ctx val (Some bytes) = Inr env" "length bytes = 24"
    and "cd_keys ring (cd_active_key_id codec) = cd_keys codec (cd_active_key_id codec)"
  shows "open_state X G from_json ring ctx env = ok_or (from_json val) CeJson"
  using assms(5)
proof (rule seal_Inr)
  fix key bs ct
  assume "context_validate ctx = Inr ()" "cd_keys codec (cd_active_key_id codec) = Some key"
    "Some bytes = Some bs"
    "gl_encrypt G key bs (associated_data X ctx (cd_active_key_id codec) (cd_keyring_version codec))
       (as_bytes (json_to_string X val)) = Some ct"
    and env: "env = \<lparr>pe_contract_version = PROTECTED_STATE_CONTRACT_VERSION,
       pe_object_kind = PROTECTED_STATE_OBJECT_KIND, pe_algorithm = PROTECTED_STATE_ALGORITHM,
       pe_key_id = cd_active_key_id codec, pe_keyring_version = cd_keyring_version codec,
       pe_state_kind = pc_state_kind ctx, pe_nonce = gl_b64u G bs, pe_ciphertext = gl_b64u G ct,
       pe_associated_data_hash = sha256_bytes X
         (associated_data X ctx (cd_active_key_id codec) (cd_keyring_version codec))\<rparr>"
  then show ?thesis
    using assms by (simp add: open_state_def XCHACHA_NONCE_BYTES_def gov_lib_okD externals_okD)
qed

lemma context_json_inject: "context_json a = context_json b \<longleftrightarrow> a = b"
proof
  assume "context_json a = context_json b"
  then have "protected_state_kind_str (pc_state_kind a) = protected_state_kind_str (pc_state_kind b)"
    and eq: "pc_tenant_id a = pc_tenant_id b" "pc_ceremony_id a = pc_ceremony_id b"
      "pc_binding_hash a = pc_binding_hash b" "pc_expires_at_ms a = pc_expires_at_ms b"
    by (simp_all add: context_json_def)
  then have "pc_state_kind a = pc_state_kind b" by (cases "pc_state_kind a"; cases "pc_state_kind b") simp_all
  with eq show "a = b" by simp
qed simp

lemma associated_data_inject:
  assumes "json_text_exact X" "associated_data X a k v = associated_data X b k' v'"
  shows "a = b \<and> k = k' \<and> v = v'"
proof -
  let ?doc = "\<lambda>ctx key_id version. VObj
       [(''contract_version'', VStr PROTECTED_STATE_CONTRACT_VERSION),
        (''object_kind'', VStr PROTECTED_STATE_OBJECT_KIND),
        (''algorithm'', VStr PROTECTED_STATE_ALGORITHM), (''key_id'', VStr key_id),
        (''keyring_version'', VNum (PosInt version)), (''context'', context_json ctx)]"
  have "json_plain (?doc a k v)" "json_plain (?doc b k' v')" by (simp_all add: context_json_def)
  moreover have "json_to_string X (?doc a k v) = json_to_string X (?doc b k' v')"
    using assms(2) by (simp add: associated_data_def)
  ultimately have "?doc a k v = ?doc b k' v'" using assms(1) unfolding json_text_exact_def by blast
  then show ?thesis by (simp add: context_json_inject)
qed

lemma open_state_aad:
  assumes "open_state X G from_json ring ctx env = Inr x"
  shows "pe_associated_data_hash env =
      sha256_bytes X (associated_data X ctx (pe_key_id env) (pe_keyring_version env))"
    and "pe_state_kind env = pc_state_kind ctx"
  using assms by (auto simp: open_state_def Let_def result_simps split: if_splits)

text \<open>
  C21. Protected WebAuthn state survives storage and key rotation: an envelope sealed by an accepted
  key ring is opened, in the same context, by every key ring that still holds its key, and gives
  back exactly the sealed value; in a different context it is never opened, unless the two
  contexts exhibit a collision of the digest.
\<close>
theorem protected_state_roundtrip:
  assumes "externals_ok X" and "gov_lib_ok G" and "json_text_exact X"
    and "codec_new active version keyring = Inr codec" and "length nonce = 24" and "json_canon val"
    and "from_json val = Some x"
    and "seal X G codec ctx val (Some nonce) = Inr envelope"
  shows "(\<forall>ring. cd_keys ring active = keyring active \<longrightarrow>
            open_state X G from_json ring ctx envelope = Inr x)
       \<and> (\<forall>ring ctx' y. open_state X G from_json ring ctx' envelope = Inr y \<longrightarrow>
            ctx' = ctx
          \<or> associated_data X ctx' active version \<noteq> associated_data X ctx active version
            \<and> sha256 X (associated_data X ctx' active version) = sha256 X (associated_data X ctx active version))"
proof (intro conjI allI impI)
  have codec: "codec = \<lparr>cd_active_key_id = active, cd_keyring_version = version, cd_keys = keyring\<rparr>" "version \<noteq> 0"
    using assms(4) by (auto simp: codec_new_iff)
  show "open_state X G from_json ring ctx envelope = Inr x" if "cd_keys ring active = keyring active" for ring
    using open_sealed [OF assms(1,2,6) _ assms(8,5), of ring from_json] that codec assms(7) by simp
  fix ring ctx' y assume opened: "open_state X G from_json ring ctx' envelope = Inr y"
  have env: "pe_key_id envelope = active" "pe_keyring_version envelope = version"
    "pe_associated_data_hash envelope = sha256_bytes X (associated_data X ctx active version)"
    using assms(8) codec by (auto elim!: seal_Inr)
  with open_state_aad(1) [OF opened] associated_data_inject [OF assms(3), of ctx' active version ctx active version]
  show "ctx' = ctx \<or> associated_data X ctx' active version \<noteq> associated_data X ctx active version
      \<and> sha256 X (associated_data X ctx' active version) = sha256 X (associated_data X ctx active version)"
    by (auto simp: sha256_bytes_inject)
qed

lemma bundle_roundtrip:
  "dec (enc st) = Some st \<Longrightarrow> bundle_from_json dec (bundle_to_json enc (opts, st)) = Some (opts, st)"
  by (simp add: bundle_from_json_def bundle_to_json_def field_def)

lemma bundle_canon: "json_canon opts \<Longrightarrow> json_canon (enc st) \<Longrightarrow> json_canon (bundle_to_json enc (opts, st))"
  by (simp add: bundle_to_json_def)

text \<open>
  An authentication that was started can be finished from its envelope alone: whatever the
  authenticator returns is judged by the WebAuthn library against exactly the state that library
  produced at the start, and the browser options are recovered unchanged; the envelope of an
  authentication is useless for finishing a registration.
\<close>
lemma authentication_state_recovered:
  assumes "externals_ok X" and "gov_lib_ok G" and "length nonce = 24"
    and "codec_new active version keyring = Inr (gw_protected_state gw)"
    and "\<forall>st. wl_auth_from_json W (wl_auth_to_json W st) = Some st \<and> json_canon (wl_auth_to_json W st)"
    and "\<forall>passkeys random opts st. wl_start_authentication W (gw_webauthn gw) passkeys random = Some (opts, st)
           \<longrightarrow> json_canon opts"
    and "start_authentication X G W gw ctx passkeys random (Some nonce) = Inr (opts, envelope)"
  shows "passkeys \<noteq> []
       \<and> (\<exists>state. wl_start_authentication W (gw_webauthn gw) passkeys random = Some (opts, state)
            \<and> (\<forall>credential. finish_authentication X G W gw ctx envelope credential =
                 ok_or (wl_finish_authentication W (gw_webauthn gw) credential state) CeWebauthn))
       \<and> recover_client_options X G W gw ctx envelope = Inr opts
       \<and> (\<forall>credential. finish_registration X G W gw ctx envelope credential =
            Inl (CeProtectedState ''protected-state ceremony kind mismatch''))"
proof -
  from assms(7) obtain state where kind: "pc_state_kind ctx = AuthenticationKind" and ne: "passkeys \<noteq> []"
    and start: "wl_start_authentication W (gw_webauthn gw) passkeys random = Some (opts, state)"
    and sealed: "seal X G (gw_protected_state gw) ctx (bundle_to_json (wl_auth_to_json W) (opts, state)) (Some nonce)
      = Inr envelope"
    by (auto simp: start_authentication_def result_simps require_kind_def split: if_splits)
  have version: "cd_keyring_version (gw_protected_state gw) \<noteq> 0"
    using assms(4) by (auto simp: codec_new_iff)
  have "json_canon (bundle_to_json (wl_auth_to_json W) (opts, state))"
    using assms(5,6) start by (intro bundle_canon) blast+
  from open_sealed [OF assms(1,2) this version sealed assms(3) refl,
      of "bundle_from_json (wl_auth_from_json W)"]
  have "open_state X G (bundle_from_json (wl_auth_from_json W)) (gw_protected_state gw) ctx envelope = Inr (opts, state)"
    using assms(5) by (simp add: bundle_roundtrip)
  with kind ne start show ?thesis
    by (simp add: finish_authentication_def finish_registration_def recover_client_options_def require_kind_def)
qed

end
