(* ===== verification/Governance_Config.thy ===== *)
theory Governance_Config
  imports Protected_State
begin

text \<open>
  \<open>governance_ceremony/config.inc.rs\<close>: the configuration of the governance service from its
  environment.  The service is off unless it is switched on explicitly; when it is on, every
  secret, the relying party, its origin and the key ring are checked first.  The URL parser and
  the JSON reader are parameters; the build mode is an argument.
\<close>

record governance_config =
  gc_enabled :: bool
  gc_rp_id :: "string option"
  gc_origin :: "string option"
  gc_allowed_tenants :: "string set"
  gc_ttl_ms :: u64
  gc_ceremony_secret :: "byte list option"
  gc_verifier_secret :: "string option"
  gc_protected_state_codec :: "protected_state_codec option"

section \<open>Accessors\<close>

definition config_ceremony_secret :: "governance_config \<Rightarrow> ceremony_error + byte list" where
  "config_ceremony_secret c = ok_or (gc_ceremony_secret c) CeDisabled"

definition config_verifier_secret :: "governance_config \<Rightarrow> ceremony_error + string" where
  "config_verifier_secret c = ok_or (gc_verifier_secret c) CeDisabled"

definition config_rp_id :: "governance_config \<Rightarrow> ceremony_error + string" where
  "config_rp_id c = ok_or (gc_rp_id c) CeDisabled"

definition config_origin :: "governance_config \<Rightarrow> ceremony_error + string" where
  "config_origin c = ok_or (gc_origin c) CeDisabled"

definition config_codec :: "governance_config \<Rightarrow> ceremony_error + protected_state_codec" where
  "config_codec c = ok_or (gc_protected_state_codec c) CeDisabled"

section \<open>Debug output\<close>

text \<open>
  The hand-written \<open>Debug\<close>: the fields it shows, with their values.  It ends with \<open>finish_non_exhaustive\<close>; the two
  secrets and the key ring are not among them.
\<close>

datatype debug_value =
    DebugBool bool
  | DebugText "string option"
  | DebugSet "string set"
  | DebugNumber u64
  | DebugVersion "u64 option"

definition codec_active_key_id :: "protected_state_codec \<Rightarrow> string" where
  "codec_active_key_id codec = cd_active_key_id codec"

definition codec_keyring_version :: "protected_state_codec \<Rightarrow> u64" where
  "codec_keyring_version codec = cd_keyring_version codec"

definition config_debug :: "governance_config \<Rightarrow> (string \<times> debug_value) list" where
  "config_debug c =
     [(''enabled'', DebugBool (gc_enabled c)),
      (''rp_id'', DebugText (gc_rp_id c)),
      (''origin'', DebugText (gc_origin c)),
      (''allowed_tenants'', DebugSet (gc_allowed_tenants c)),
      (''ttl_ms'', DebugNumber (gc_ttl_ms c)),
      (''protected_state_active_key_id'', DebugText (map_option codec_active_key_id (gc_protected_state_codec c))),
      (''protected_state_keyring_version'', DebugVersion (map_option codec_keyring_version (gc_protected_state_codec c)))]"

text \<open>The output is the same whatever the secrets and the state keys are.\<close>

lemma config_debug_redacted:
  "config_debug (c\<lparr>gc_ceremony_secret := ceremony, gc_verifier_secret := verifier,
     gc_protected_state_codec := map_option (\<lambda>codec. codec\<lparr>cd_keys := ring\<rparr>) (gc_protected_state_codec c)\<rparr>)
   = config_debug c"
  by (cases "gc_protected_state_codec c") (simp_all add: config_debug_def codec_active_key_id_def codec_keyring_version_def)

section \<open>Parsers\<close>

definition parse_strict_bool :: "string option \<Rightarrow> ceremony_error + bool" where
  "parse_strict_bool val =
     (case map_option str_trim val of
        None \<Rightarrow> Inr False
      | Some s \<Rightarrow>
          if s = [] \<or> s = ''false'' \<or> s = ''0'' then Inr False
          else if s = ''true'' \<or> s = ''1'' then Inr True
          else Inl (CeInvalidConfig ''FIDUCIA_GOVERNANCE_WEBAUTHN_ENABLED must be true, false, 1, or 0''))"

definition parse_ttl_secs :: "string option \<Rightarrow> ceremony_error + u64" where
  "parse_ttl_secs val =
     rbind (case val of
              None \<Rightarrow> Inr DEFAULT_TTL_SECS
            | Some v \<Rightarrow>
                if str_trim v = [] then Inr DEFAULT_TTL_SECS
                else ok_or (parse_u64 (str_trim v))
                       (CeInvalidConfig ''FIDUCIA_GOVERNANCE_CEREMONY_TTL_SECS must be an integer'')) (\<lambda>ttl.
       if \<not> (MIN_TTL_SECS \<le> ttl \<and> ttl \<le> MAX_TTL_SECS)
       then Inl (CeInvalidConfig ''FIDUCIA_GOVERNANCE_CEREMONY_TTL_SECS must be between 60 and 900'')
       else Inr ttl)"

definition parse_keyring_version :: "string \<Rightarrow> ceremony_error + u64" where
  "parse_keyring_version val =
     rbind (ok_or (parse_u64 (str_trim val))
              (CeInvalidConfig ''FIDUCIA_GOVERNANCE_STATE_KEYRING_VERSION must be a positive integer'')) (\<lambda>version.
       if version = 0
       then Inl (CeInvalidConfig ''FIDUCIA_GOVERNANCE_STATE_KEYRING_VERSION must be a positive integer'')
       else Inr version)"

definition validate_config_identifier :: "string \<Rightarrow> ceremony_error + unit" where
  "validate_config_identifier val =
     (if val = [] \<or> 128 < length val \<or> has_blank_or_control val
      then Inl (CeInvalidConfig
        ''protected-state identifiers must be non-empty and contain no whitespace or control characters'')
      else Inr ())"

text \<open>A JSON object of strings, as a map from names to texts.\<close>

fun de_string_members :: "(string \<times> json) list \<Rightarrow> (string \<times> string) list option" where
  "de_string_members [] = Some []"
| "de_string_members ((k, v) # rest) =
     Option.bind (as_str v) (\<lambda>s. map_option (\<lambda>ms. (k, s) # ms) (de_string_members rest))"

fun de_string_map :: "json \<Rightarrow> (string \<times> string) list option" where
  "de_string_map (VObj members) = de_string_members members"
| "de_string_map _ = None"

definition parse_protected_state_codec ::
  "externals \<Rightarrow> gov_lib \<Rightarrow> string \<Rightarrow> string \<Rightarrow> string \<Rightarrow> ceremony_error + protected_state_codec" where
  "parse_protected_state_codec X G active_key_id keyring_version keys_json =
     rbind (validate_config_identifier active_key_id) (\<lambda>_.
     rbind (parse_keyring_version keyring_version) (\<lambda>version.
     rbind (ok_or (Option.bind (json_from_str X keys_json) de_string_map)
              (CeInvalidConfig
                ''FIDUCIA_GOVERNANCE_STATE_KEYS_JSON must be a JSON object of key IDs to base64url keys'')) (\<lambda>encoded_keys.
     if encoded_keys = []
     then Inl (CeInvalidConfig ''FIDUCIA_GOVERNANCE_STATE_KEYS_JSON must contain at least one key'')
     else
       rbind (try_each validate_config_identifier (map fst encoded_keys)) (\<lambda>_.
       from_base64_keys G active_key_id version encoded_keys))))"

definition required_env :: "environment \<Rightarrow> string \<Rightarrow> ceremony_error + string" where
  "required_env env name =
     (case env name of
        Some v \<Rightarrow> if str_trim v = [] then Inl (CeMissingConfig name) else Inr (str_trim v)
      | None \<Rightarrow> Inl (CeMissingConfig name))"

definition validate_secret :: "string \<Rightarrow> string \<Rightarrow> ceremony_error + string" where
  "validate_secret name val =
     (if length val < 32 \<or> has_blank_or_control val then Inl (CeWeakSecret name) else Inr val)"

fun collect_tenants :: "string list \<Rightarrow> string set \<Rightarrow> ceremony_error + string set" where
  "collect_tenants [] tenants = Inr tenants"
| "collect_tenants (t # ts) tenants =
     rbind (gov_validate_identifier t) (\<lambda>_. collect_tenants ts (insert t tenants))"

definition parse_tenants :: "string \<Rightarrow> ceremony_error + string set" where
  "parse_tenants val =
     rbind (collect_tenants (filter (\<lambda>t. t \<noteq> []) (map str_trim (split_on (CHR '','') val))) {}) (\<lambda>tenants.
       if tenants = {}
       then Inl (CeInvalidConfig ''FIDUCIA_GOVERNANCE_TENANTS must contain at least one tenant'')
       else Inr tenants)"

definition ends_with :: "string \<Rightarrow> string \<Rightarrow> bool" where
  "ends_with suf s \<longleftrightarrow> suffix suf s"

definition validate_rp_origin :: "url_lib \<Rightarrow> bool \<Rightarrow> string \<Rightarrow> string \<Rightarrow> ceremony_error + unit" where
  "validate_rp_origin U debug_assertions rp_id origin =
     rbind (gov_validate_identifier rp_id) (\<lambda>_.
     rbind (ok_or (ul_parse U origin) (CeInvalidConfig ''FIDUCIA_GOVERNANCE_ORIGIN is invalid'')) (\<lambda>parsed.
     if pu_username parsed \<noteq> [] \<or> pu_password parsed \<noteq> None \<or> pu_path parsed \<noteq> ''/''
        \<or> pu_query parsed \<noteq> None \<or> pu_fragment parsed \<noteq> None
     then Inl (CeInvalidConfig ''FIDUCIA_GOVERNANCE_ORIGIN must contain only scheme, host, and optional port'')
     else
       rbind (ok_or (pu_host parsed) (CeInvalidConfig ''FIDUCIA_GOVERNANCE_ORIGIN needs a host'')) (\<lambda>host.
       let rp_matches = (host = rp_id \<or> ends_with (CHR ''.'' # rp_id) host);
           loopback = (host \<in> {''localhost'', ''127.0.0.1'', ''::1''})
       in if \<not> rp_matches
            then Inl (CeInvalidConfig
              ''FIDUCIA_GOVERNANCE_RP_ID must equal or be a registrable suffix of the origin host'')
          else if pu_scheme parsed \<noteq> ''https'' \<and> \<not> (debug_assertions \<and> pu_scheme parsed = ''http'' \<and> loopback)
            then Inl (CeInvalidConfig ''FIDUCIA_GOVERNANCE_ORIGIN must use HTTPS outside loopback debug builds'')
          else Inr ())))"

section \<open>The whole configuration\<close>

definition governance_config_from_env ::
  "externals \<Rightarrow> gov_lib \<Rightarrow> url_lib \<Rightarrow> bool \<Rightarrow> environment \<Rightarrow> ceremony_error + governance_config" where
  "governance_config_from_env X G U debug_assertions env =
     rbind (parse_strict_bool (env ''FIDUCIA_GOVERNANCE_WEBAUTHN_ENABLED'')) (\<lambda>enabled.
     rbind (parse_ttl_secs (env ''FIDUCIA_GOVERNANCE_CEREMONY_TTL_SECS'')) (\<lambda>ttl_secs.
     if \<not> enabled
     then Inr \<lparr>gc_enabled = enabled, gc_rp_id = None, gc_origin = None, gc_allowed_tenants = {},
               gc_ttl_ms = ttl_secs * 1000, gc_ceremony_secret = None, gc_verifier_secret = None,
               gc_protected_state_codec = None\<rparr>
     else
       rbind (required_env env ''FIDUCIA_GOVERNANCE_RP_ID'') (\<lambda>rp_id.
       rbind (required_env env ''FIDUCIA_GOVERNANCE_ORIGIN'') (\<lambda>origin.
       rbind (validate_rp_origin U debug_assertions rp_id origin) (\<lambda>_.
       rbind (rbind (required_env env ''FIDUCIA_GOVERNANCE_TENANTS'') parse_tenants) (\<lambda>allowed_tenants.
       rbind (rbind (required_env env ''FIDUCIA_GOVERNANCE_CEREMONY_SECRET'')
                (validate_secret ''FIDUCIA_GOVERNANCE_CEREMONY_SECRET'')) (\<lambda>ceremony_secret.
       rbind (rbind (required_env env ''FIDUCIA_GOVERNANCE_VERIFIER_SECRET'')
                (validate_secret ''FIDUCIA_GOVERNANCE_VERIFIER_SECRET'')) (\<lambda>verifier_secret.
       rbind (required_env env ''FIDUCIA_GOVERNANCE_STATE_ACTIVE_KEY_ID'') (\<lambda>active.
       rbind (required_env env ''FIDUCIA_GOVERNANCE_STATE_KEYRING_VERSION'') (\<lambda>version.
       rbind (required_env env ''FIDUCIA_GOVERNANCE_STATE_KEYS_JSON'') (\<lambda>keys_json.
       rbind (parse_protected_state_codec X G active version keys_json) (\<lambda>codec.
       Inr \<lparr>gc_enabled = enabled, gc_rp_id = Some rp_id, gc_origin = Some origin,
            gc_allowed_tenants = allowed_tenants, gc_ttl_ms = ttl_secs * 1000,
            gc_ceremony_secret = Some (as_bytes ceremony_secret), gc_verifier_secret = Some verifier_secret,
            gc_protected_state_codec = Some codec\<rparr>))))))))))))"

section \<open>Facts\<close>

lemma parse_strict_bool_True: "parse_strict_bool v = Inr True \<longleftrightarrow> (\<exists>s. v = Some s \<and> str_trim s \<in> {''true'', ''1''})"
  by (cases v) (auto simp: parse_strict_bool_def)

lemma ttl_ms_bounds:
  assumes "parse_ttl_secs v = Inr ttl"
  shows "60000 \<le> ttl * 1000 \<and> ttl * 1000 \<le> 900000"
proof -
  have "60 \<le> ttl" "ttl \<le> 900"
    using assms by (auto simp: parse_ttl_secs_def result_simps MIN_TTL_SECS_def MAX_TTL_SECS_def split: if_splits)
  then have n: "60 \<le> unat ttl" "unat ttl \<le> 900" by (simp_all add: word_le_nat_alt)
  then have "unat (ttl * 1000) = unat ttl * 1000" by (simp add: unat_word_ariths)
  with n show ?thesis by (simp add: word_le_nat_alt)
qed

lemma collect_tenants_Inr:
  assumes "collect_tenants ts acc = Inr tenants"
  shows "tenants = acc \<union> set ts" "\<forall>t\<in>set ts. gov_validate_identifier t = Inr ()"
  using assms by (induction ts arbitrary: acc) (auto simp: result_simps)

lemma parse_tenants_Inr:
  assumes "parse_tenants v = Inr tenants"
  shows "tenants \<noteq> {}" "\<forall>t\<in>tenants. gov_validate_identifier t = Inr ()"
proof -
  obtain ts where "collect_tenants ts {} = Inr tenants" "tenants \<noteq> {}"
    using assms by (auto simp: parse_tenants_def rbind_eq_Inr split: if_splits)
  with collect_tenants_Inr [OF this(1)] show "tenants \<noteq> {}" "\<forall>t\<in>tenants. gov_validate_identifier t = Inr ()"
    by simp_all
qed

lemma validate_secret_Inr: "validate_secret name v = Inr s \<longleftrightarrow> s = v \<and> 32 \<le> length v \<and> \<not> has_blank_or_control v"
  by (auto simp: validate_secret_def)

definition origin_serves :: "url_lib \<Rightarrow> bool \<Rightarrow> string \<Rightarrow> string \<Rightarrow> bool" where
  "origin_serves U debug rp_id origin \<longleftrightarrow>
     (\<exists>parsed host. ul_parse U origin = Some parsed \<and> pu_host parsed = Some host
        \<and> (host = rp_id \<or> suffix (CHR ''.'' # rp_id) host)
        \<and> pu_username parsed = [] \<and> pu_password parsed = None \<and> pu_path parsed = ''/''
        \<and> pu_query parsed = None \<and> pu_fragment parsed = None
        \<and> (pu_scheme parsed = ''https''
           \<or> debug \<and> pu_scheme parsed = ''http'' \<and> host \<in> {''localhost'', ''127.0.0.1'', ''::1''}))"

lemma validate_rp_origin_Inr:
  "validate_rp_origin U debug rp_id origin = Inr () \<longleftrightarrow>
     gov_validate_identifier rp_id = Inr () \<and> origin_serves U debug rp_id origin"
proof (cases "ul_parse U origin")
  case None
  then show ?thesis by (simp add: validate_rp_origin_def origin_serves_def rbind_eq_Inr)
next
  case (Some parsed)
  show ?thesis
  proof (cases "pu_host parsed")
    case None
    with Some show ?thesis by (simp add: validate_rp_origin_def origin_serves_def rbind_eq_Inr)
  next
    case (Some host)
    with \<open>ul_parse U origin = Some parsed\<close> show ?thesis
      by (simp add: validate_rp_origin_def origin_serves_def rbind_eq_Inr ends_with_def Let_def) argo
  qed
qed

lemma parse_codec_Inr:
  assumes "parse_protected_state_codec X G active version ring_json = Inr codec"
  shows "cd_keyring_version codec \<noteq> 0" "\<exists>key. cd_keys codec (cd_active_key_id codec) = Some key"
    "\<forall>key\<in>ran (cd_keys codec). length key = 32"
proof -
  obtain enc ring v where ring: "decode_keys G enc Map.empty = Inr ring" "codec_new active v ring = Inr codec"
    using assms by (auto simp: parse_protected_state_codec_def from_base64_keys_def rbind_eq_Inr split: if_splits)
  then show "cd_keyring_version codec \<noteq> 0" "\<exists>key. cd_keys codec (cd_active_key_id codec) = Some key"
    by (auto simp: codec_new_iff)
  from ring(2) have "cd_keys codec = ring" by (simp add: codec_new_iff)
  with decode_keys_ran [OF ring(1)] show "\<forall>key\<in>ran (cd_keys codec). length key = 32" by simp
qed

text \<open>
  C22. The governance service is off unless switched on, and it never starts on weak ground: an accepted
  configuration has a ceremony lifetime of one to fifteen minutes; while it is off it holds no
  secret and no relying party at all; when it is on, the switch was literally \<open>true\<close> or \<open>1\<close>, the
  origin is a bare HTTPS origin (or HTTP on loopback in a debug build) whose host belongs to
  the relying party, at least one tenant is named, both secrets have at least 32 bytes without blanks,
  and the active key is one of the 32-byte keys of the ring.
\<close>
theorem governance_config_checked:
  assumes "governance_config_from_env X G U debug env = Inr c"
  shows "60000 \<le> gc_ttl_ms c \<and> gc_ttl_ms c \<le> 900000
       \<and> (if gc_enabled c
          then (\<exists>v. env ''FIDUCIA_GOVERNANCE_WEBAUTHN_ENABLED'' = Some v \<and> str_trim v \<in> {''true'', ''1''})
             \<and> (\<exists>rp_id origin. gc_rp_id c = Some rp_id \<and> gc_origin c = Some origin \<and> origin_serves U debug rp_id origin)
             \<and> gc_allowed_tenants c \<noteq> {} \<and> (\<forall>t\<in>gc_allowed_tenants c. gov_validate_identifier t = Inr ())
             \<and> (\<exists>secret. gc_ceremony_secret c = Some (as_bytes secret) \<and> 32 \<le> length secret \<and> \<not> has_blank_or_control secret)
             \<and> (\<exists>secret. gc_verifier_secret c = Some secret \<and> 32 \<le> length secret \<and> \<not> has_blank_or_control secret)
             \<and> (\<exists>codec. gc_protected_state_codec c = Some codec \<and> cd_active_key_id codec \<in> dom (cd_keys codec)
                  \<and> (\<forall>key\<in>ran (cd_keys codec). length key = 32))
          else c = \<lparr>gc_enabled = False, gc_rp_id = None, gc_origin = None, gc_allowed_tenants = {},
                    gc_ttl_ms = gc_ttl_ms c, gc_ceremony_secret = None, gc_verifier_secret = None,
                    gc_protected_state_codec = None\<rparr>)"
proof -
  from assms obtain enabled ttl where
    on: "parse_strict_bool (env ''FIDUCIA_GOVERNANCE_WEBAUTHN_ENABLED'') = Inr enabled"
    and ttl: "parse_ttl_secs (env ''FIDUCIA_GOVERNANCE_CEREMONY_TTL_SECS'') = Inr ttl"
    unfolding governance_config_from_env_def by (auto simp: rbind_eq_Inr)
  show ?thesis
  proof (cases enabled)
    case False
    with assms on ttl have "c = \<lparr>gc_enabled = False, gc_rp_id = None, gc_origin = None, gc_allowed_tenants = {},
        gc_ttl_ms = ttl * 1000, gc_ceremony_secret = None, gc_verifier_secret = None,
        gc_protected_state_codec = None\<rparr>"
      by (simp add: governance_config_from_env_def)
    then show ?thesis using ttl_ms_bounds [OF ttl] by simp
  next
    case True
    from assms on ttl True obtain rp_id origin v tenants s cs s' vs active version ring codec where
      "validate_rp_origin U debug rp_id origin = Inr ()" and t: "parse_tenants v = Inr tenants"
      and "validate_secret s cs = Inr cs" "validate_secret s' vs = Inr vs"
      and codec: "parse_protected_state_codec X G active version ring = Inr codec"
      and "c = \<lparr>gc_enabled = True, gc_rp_id = Some rp_id, gc_origin = Some origin,
            gc_allowed_tenants = tenants, gc_ttl_ms = ttl * 1000,
            gc_ceremony_secret = Some (as_bytes cs), gc_verifier_secret = Some vs,
            gc_protected_state_codec = Some codec\<rparr>"
      by (auto simp: governance_config_from_env_def rbind_eq_Inr validate_secret_Inr)
    moreover have "cd_active_key_id codec \<in> dom (cd_keys codec)" using parse_codec_Inr(2) [OF codec] by auto
    ultimately show ?thesis
      using ttl_ms_bounds [OF ttl] on True parse_tenants_Inr [OF t] parse_codec_Inr(3) [OF codec]
      by (simp add: validate_rp_origin_Inr validate_secret_Inr parse_strict_bool_True)
  qed
qed

end
