(* ===== verification/Ceremony.thy ===== *)
theory Ceremony
  imports Governance_Config Protocol
begin

text \<open>
  The governance ceremony itself: the approval binding and the durable record
  (\<open>model.inc.rs\<close>), the integrity checks every record passes when it is read and before it is
  written (\<open>integrity.inc.rs\<close>), and the store operations begin, claim and complete with their
  compare-and-set loops (\<open>persistence.inc.rs\<close>).  The clock reading of a handler is an argument.
\<close>

section \<open>Bindings and records\<close>

record approval_binding =
  ab_tenant_id :: string
  ab_participant_id :: string
  ab_proposal_id :: string
  ab_canonical_proposal_hash :: string
  ab_policy_id :: string
  ab_policy_version :: u64
  ab_policy_hash :: string
  ab_continuity_state :: string
  ab_continuity_generation :: u64
  ab_rp_id :: string
  ab_origin :: string
  ab_credential_generation :: u64
  ab_activation_credential_id :: "string option"
  ab_created_at_ms :: u64
  ab_expires_at_ms :: u64

definition binding_validate :: "approval_binding \<Rightarrow> ceremony_error + unit" where
  "binding_validate b =
     rbind (try_each gov_validate_identifier
              [ab_tenant_id b, ab_participant_id b, ab_proposal_id b, ab_policy_id b,
               ab_continuity_state b, ab_rp_id b, ab_origin b]) (\<lambda>_.
     rbind (validate_sha256_urn (ab_canonical_proposal_hash b)) (\<lambda>_.
     rbind (validate_sha256_urn (ab_policy_hash b)) (\<lambda>_.
     if ab_policy_version b = 0 \<or> ab_credential_generation b = 0
       then Inl (CeInvalidRequest ''policy_version and credential_generation must be positive'')
     else if ab_expires_at_ms b \<le> ab_created_at_ms b
       then Inl (CeInvalidRequest ''ceremony expiry must be after creation'')
     else
       case ab_activation_credential_id b of
         Some credential_id \<Rightarrow> gov_validate_identifier credential_id
       | None \<Rightarrow> Inr ())))"

text \<open>The binding as its serialiser writes it directly: members in declaration order.\<close>

definition binding_json :: "approval_binding \<Rightarrow> json" where
  "binding_json b =
     VObj [(''tenant_id'', VStr (ab_tenant_id b)), (''participant_id'', VStr (ab_participant_id b)),
           (''proposal_id'', VStr (ab_proposal_id b)),
           (''canonical_proposal_hash'', VStr (ab_canonical_proposal_hash b)),
           (''policy_id'', VStr (ab_policy_id b)),
           (''policy_version'', VNum (PosInt (ab_policy_version b))),
           (''policy_hash'', VStr (ab_policy_hash b)),
           (''continuity_state'', VStr (ab_continuity_state b)),
           (''continuity_generation'', VNum (PosInt (ab_continuity_generation b))),
           (''rp_id'', VStr (ab_rp_id b)), (''origin'', VStr (ab_origin b)),
           (''credential_generation'', VNum (PosInt (ab_credential_generation b))),
           (''activation_credential_id'', opt_json VStr (ab_activation_credential_id b)),
           (''created_at_ms'', VNum (PosInt (ab_created_at_ms b))),
           (''expires_at_ms'', VNum (PosInt (ab_expires_at_ms b)))]"

definition binding_hash :: "externals \<Rightarrow> approval_binding \<Rightarrow> ceremony_error + string" where
  "binding_hash X b = rbind (binding_validate b) (\<lambda>_. sha256_json X (binding_json b))"

datatype ceremony_status = Pending | Claimed | Completed | Rejected | Expired

record terminal_verification =
  tv_outcome :: ceremony_status
  tv_reason :: string
  tv_assertion_receipt_hash :: "string option"
  tv_credential_id :: "string option"
  tv_credential_generation :: "u64 option"
  tv_completed_at_ms :: u64
  tv_result_hash :: string

record ceremony_record =
  cr_contract_version :: string
  cr_object_kind :: string
  cr_ceremony_id :: string
  cr_binding :: approval_binding
  cr_binding_hash :: string
  cr_challenge_hash :: string
  cr_status :: ceremony_status
  cr_claim_id :: "string option"
  cr_fencing_token :: u64
  cr_claimed_at_ms :: "u64 option"
  cr_terminal :: "terminal_verification option"

definition validate_identity :: "ceremony_record \<Rightarrow> string \<Rightarrow> string \<Rightarrow> ceremony_error + unit" where
  "validate_identity r tenant_id participant_id =
     (if ab_tenant_id (cr_binding r) \<noteq> tenant_id \<or> ab_participant_id (cr_binding r) \<noteq> participant_id
      then Inl CeUnauthorized else Inr ())"

section \<open>The stored document\<close>

text \<open>A stored document lists its members in map order.\<close>

fun status_str :: "ceremony_status \<Rightarrow> string" where
  "status_str Pending = ''pending''"
| "status_str Claimed = ''claimed''"
| "status_str Completed = ''completed''"
| "status_str Rejected = ''rejected''"
| "status_str Expired = ''expired''"

definition status_of_str :: "string \<Rightarrow> ceremony_status option" where
  "status_of_str s =
     (if s = ''pending'' then Some Pending else if s = ''claimed'' then Some Claimed
      else if s = ''completed'' then Some Completed else if s = ''rejected'' then Some Rejected
      else if s = ''expired'' then Some Expired else None)"

text \<open>A variant without data is read from its name, or from an object that maps it to null.\<close>

fun status_from_json :: "json \<Rightarrow> ceremony_status option" where
  "status_from_json (VStr s) = status_of_str s"
| "status_from_json (VObj [(s, VNull)]) = status_of_str s"
| "status_from_json _ = None"

definition binding_to_json :: "approval_binding \<Rightarrow> json" where
  "binding_to_json b =
     VObj [(''activation_credential_id'', opt_json VStr (ab_activation_credential_id b)),
           (''canonical_proposal_hash'', VStr (ab_canonical_proposal_hash b)),
           (''continuity_generation'', VNum (PosInt (ab_continuity_generation b))),
           (''continuity_state'', VStr (ab_continuity_state b)),
           (''created_at_ms'', VNum (PosInt (ab_created_at_ms b))),
           (''credential_generation'', VNum (PosInt (ab_credential_generation b))),
           (''expires_at_ms'', VNum (PosInt (ab_expires_at_ms b))),
           (''origin'', VStr (ab_origin b)), (''participant_id'', VStr (ab_participant_id b)),
           (''policy_hash'', VStr (ab_policy_hash b)), (''policy_id'', VStr (ab_policy_id b)),
           (''policy_version'', VNum (PosInt (ab_policy_version b))),
           (''proposal_id'', VStr (ab_proposal_id b)), (''rp_id'', VStr (ab_rp_id b)),
           (''tenant_id'', VStr (ab_tenant_id b))]"

definition binding_names :: "string list" where
  "binding_names =
     [''tenant_id'', ''participant_id'', ''proposal_id'', ''canonical_proposal_hash'', ''policy_id'',
      ''policy_version'', ''policy_hash'', ''continuity_state'', ''continuity_generation'', ''rp_id'',
      ''origin'', ''credential_generation'', ''activation_credential_id'', ''created_at_ms'', ''expires_at_ms'']"

definition binding_from_json :: "json \<Rightarrow> approval_binding option" where
  "binding_from_json v =
     Option.bind (struct_fields binding_names v) (\<lambda>f.
     Option.bind (field as_str f ''tenant_id'') (\<lambda>tenant_id.
     Option.bind (field as_str f ''participant_id'') (\<lambda>participant_id.
     Option.bind (field as_str f ''proposal_id'') (\<lambda>proposal_id.
     Option.bind (field as_str f ''canonical_proposal_hash'') (\<lambda>proposal_hash.
     Option.bind (field as_str f ''policy_id'') (\<lambda>policy_id.
     Option.bind (field as_u64 f ''policy_version'') (\<lambda>policy_version.
     Option.bind (field as_str f ''policy_hash'') (\<lambda>policy_hash.
     Option.bind (field as_str f ''continuity_state'') (\<lambda>continuity_state.
     Option.bind (field as_u64 f ''continuity_generation'') (\<lambda>continuity_generation.
     Option.bind (field as_str f ''rp_id'') (\<lambda>rp_id.
     Option.bind (field as_str f ''origin'') (\<lambda>origin.
     Option.bind (field as_u64 f ''credential_generation'') (\<lambda>credential_generation.
     Option.bind (field_or None (de_option as_str) f ''activation_credential_id'') (\<lambda>activation.
     Option.bind (field as_u64 f ''created_at_ms'') (\<lambda>created.
     Option.bind (field as_u64 f ''expires_at_ms'') (\<lambda>expires.
       Some \<lparr>ab_tenant_id = tenant_id, ab_participant_id = participant_id, ab_proposal_id = proposal_id,
             ab_canonical_proposal_hash = proposal_hash, ab_policy_id = policy_id,
             ab_policy_version = policy_version, ab_policy_hash = policy_hash,
             ab_continuity_state = continuity_state, ab_continuity_generation = continuity_generation,
             ab_rp_id = rp_id, ab_origin = origin, ab_credential_generation = credential_generation,
             ab_activation_credential_id = activation, ab_created_at_ms = created,
             ab_expires_at_ms = expires\<rparr>))))))))))))))))"

definition terminal_to_json :: "terminal_verification \<Rightarrow> json" where
  "terminal_to_json t =
     VObj [(''assertion_receipt_hash'', opt_json VStr (tv_assertion_receipt_hash t)),
           (''completed_at_ms'', VNum (PosInt (tv_completed_at_ms t))),
           (''credential_generation'', opt_json (\<lambda>n. VNum (PosInt n)) (tv_credential_generation t)),
           (''credential_id'', opt_json VStr (tv_credential_id t)),
           (''outcome'', VStr (status_str (tv_outcome t))), (''reason'', VStr (tv_reason t)),
           (''result_hash'', VStr (tv_result_hash t))]"

definition terminal_from_json :: "json \<Rightarrow> terminal_verification option" where
  "terminal_from_json v =
     Option.bind (struct_fields [''outcome'', ''reason'', ''assertion_receipt_hash'', ''credential_id'',
                                 ''credential_generation'', ''completed_at_ms'', ''result_hash''] v) (\<lambda>f.
     Option.bind (field status_from_json f ''outcome'') (\<lambda>outcome.
     Option.bind (field as_str f ''reason'') (\<lambda>reason.
     Option.bind (field_or None (de_option as_str) f ''assertion_receipt_hash'') (\<lambda>receipt.
     Option.bind (field_or None (de_option as_str) f ''credential_id'') (\<lambda>credential.
     Option.bind (field_or None (de_option as_u64) f ''credential_generation'') (\<lambda>generation.
     Option.bind (field as_u64 f ''completed_at_ms'') (\<lambda>completed.
     Option.bind (field as_str f ''result_hash'') (\<lambda>result.
       Some \<lparr>tv_outcome = outcome, tv_reason = reason, tv_assertion_receipt_hash = receipt,
             tv_credential_id = credential, tv_credential_generation = generation,
             tv_completed_at_ms = completed, tv_result_hash = result\<rparr>))))))))"

definition ceremony_to_json :: "ceremony_record \<Rightarrow> json" where
  "ceremony_to_json r =
     VObj [(''binding'', binding_to_json (cr_binding r)), (''binding_hash'', VStr (cr_binding_hash r)),
           (''ceremony_id'', VStr (cr_ceremony_id r)), (''challenge_hash'', VStr (cr_challenge_hash r)),
           (''claim_id'', opt_json VStr (cr_claim_id r)),
           (''claimed_at_ms'', opt_json (\<lambda>n. VNum (PosInt n)) (cr_claimed_at_ms r)),
           (''contract_version'', VStr (cr_contract_version r)),
           (''fencing_token'', VNum (PosInt (cr_fencing_token r))),
           (''object_kind'', VStr (cr_object_kind r)), (''status'', VStr (status_str (cr_status r))),
           (''terminal'', opt_json terminal_to_json (cr_terminal r))]"

definition ceremony_names :: "string list" where
  "ceremony_names =
     [''contract_version'', ''object_kind'', ''ceremony_id'', ''binding'', ''binding_hash'', ''challenge_hash'',
      ''status'', ''claim_id'', ''fencing_token'', ''claimed_at_ms'', ''terminal'']"

definition ceremony_from_json :: "json \<Rightarrow> ceremony_record option" where
  "ceremony_from_json v =
     Option.bind (struct_fields ceremony_names v) (\<lambda>f.
     Option.bind (field as_str f ''contract_version'') (\<lambda>version.
     Option.bind (field as_str f ''object_kind'') (\<lambda>kind.
     Option.bind (field as_str f ''ceremony_id'') (\<lambda>cid.
     Option.bind (field binding_from_json f ''binding'') (\<lambda>binding.
     Option.bind (field as_str f ''binding_hash'') (\<lambda>bhash.
     Option.bind (field as_str f ''challenge_hash'') (\<lambda>chash.
     Option.bind (field status_from_json f ''status'') (\<lambda>status.
     Option.bind (field_or None (de_option as_str) f ''claim_id'') (\<lambda>claim_id.
     Option.bind (field as_u64 f ''fencing_token'') (\<lambda>token.
     Option.bind (field_or None (de_option as_u64) f ''claimed_at_ms'') (\<lambda>claimed_at.
     Option.bind (field_or None (de_option terminal_from_json) f ''terminal'') (\<lambda>terminal.
       Some \<lparr>cr_contract_version = version, cr_object_kind = kind, cr_ceremony_id = cid, cr_binding = binding,
             cr_binding_hash = bhash, cr_challenge_hash = chash, cr_status = status, cr_claim_id = claim_id,
             cr_fencing_token = token, cr_claimed_at_ms = claimed_at, cr_terminal = terminal\<rparr>))))))))))))"

section \<open>Integrity\<close>

definition completed_result_hash ::
  "externals \<Rightarrow> ceremony_record \<Rightarrow> string \<Rightarrow> u64 \<Rightarrow> string \<Rightarrow> u64 \<Rightarrow> ceremony_error + string" where
  "completed_result_hash X r credential_id credential_generation receipt_hash completed_at_ms =
     (let b = cr_binding r
      in sha256_json X (VObj
        [(''assertion_receipt_hash'', VStr receipt_hash),
         (''canonical_proposal_hash'', VStr (ab_canonical_proposal_hash b)),
         (''ceremony_id'', VStr (cr_ceremony_id r)),
         (''completed_at_ms'', VNum (PosInt completed_at_ms)),
         (''continuity_generation'', VNum (PosInt (ab_continuity_generation b))),
         (''contract_version'', VStr CONTRACT_VERSION),
         (''credential_generation'', VNum (PosInt credential_generation)),
         (''credential_id'', VStr credential_id),
         (''object_kind'', VStr ''verified_governance_webauthn_assertion''),
         (''participant_id'', VStr (ab_participant_id b)),
         (''policy_hash'', VStr (ab_policy_hash b)), (''policy_id'', VStr (ab_policy_id b)),
         (''policy_version'', VNum (PosInt (ab_policy_version b))),
         (''proposal_id'', VStr (ab_proposal_id b)), (''tenant_id'', VStr (ab_tenant_id b)),
         (''user_verified'', VBool True)]))"

definition validate_claim_metadata :: "ceremony_record \<Rightarrow> ceremony_error + unit" where
  "validate_claim_metadata r =
     rbind (ok_or (cr_claim_id r) (corrupt ''claimed ceremony is missing claim id'')) (\<lambda>claim_id.
     rbind (stored (gov_validate_identifier claim_id) ''stored ceremony claim id is invalid'') (\<lambda>_.
     if cr_fencing_token r = 0 then Inl (corrupt ''claimed ceremony has a zero fencing token'')
     else
       rbind (ok_or (cr_claimed_at_ms r) (corrupt ''claimed ceremony is missing claim time'')) (\<lambda>claimed_at_ms.
       if claimed_at_ms < ab_created_at_ms (cr_binding r) \<or> ab_expires_at_ms (cr_binding r) \<le> claimed_at_ms
       then Inl (corrupt ''claimed ceremony timestamp is outside its lifetime'') else Inr ())))"

definition validate_completed :: "externals \<Rightarrow> ceremony_record \<Rightarrow> ceremony_error + unit" where
  "validate_completed X r =
     rbind (validate_claim_metadata r) (\<lambda>_.
     rbind (ok_or (cr_terminal r) (corrupt ''completed ceremony is missing terminal state'')) (\<lambda>t.
     if tv_outcome t \<noteq> Completed \<or> tv_reason t \<noteq> ''verified''
     then Inl (corrupt ''completed ceremony has an invalid outcome'')
     else
       rbind (ok_or (tv_assertion_receipt_hash t)
                (corrupt ''completed ceremony is missing receipt evidence'')) (\<lambda>receipt_hash.
       rbind (ok_or (tv_credential_id t)
                (corrupt ''completed ceremony is missing credential evidence'')) (\<lambda>credential_id.
       rbind (ok_or (tv_credential_generation t)
                (corrupt ''completed ceremony is missing credential generation'')) (\<lambda>credential_generation.
       rbind (stored (gov_validate_identifier credential_id)
                ''completed ceremony credential id is invalid'') (\<lambda>_.
       rbind (stored (validate_canonical_sha256_urn receipt_hash)
                ''completed ceremony receipt hash is not canonical'') (\<lambda>_.
       rbind (stored (validate_canonical_sha256_urn (tv_result_hash t))
                ''completed ceremony result hash is not canonical'') (\<lambda>_.
       if ab_activation_credential_id (cr_binding r) = Some credential_id
         then Inl (corrupt ''completed ceremony used the credential being activated'')
       else if credential_generation \<noteq> ab_credential_generation (cr_binding r)
         then Inl (corrupt ''completed ceremony credential generation changed'')
       else
         rbind (ok_or (cr_claimed_at_ms r) (corrupt ''completed ceremony is missing claim time'')) (\<lambda>claimed_at_ms.
         if tv_completed_at_ms t < claimed_at_ms \<or> ab_expires_at_ms (cr_binding r) \<le> tv_completed_at_ms t
         then Inl (corrupt ''completed ceremony timestamp is outside its claim lifetime'')
         else
           rbind (completed_result_hash X r credential_id credential_generation receipt_hash
                    (tv_completed_at_ms t)) (\<lambda>expected.
           if tv_result_hash t \<noteq> expected
           then Inl (corrupt ''completed ceremony result hash does not match its evidence'')
           else Inr ()))))))))))"

definition validate_status :: "externals \<Rightarrow> ceremony_record \<Rightarrow> ceremony_error + unit" where
  "validate_status X r =
     (case cr_status r of
        Pending \<Rightarrow>
          if cr_claim_id r \<noteq> None \<or> cr_fencing_token r \<noteq> 0 \<or> cr_claimed_at_ms r \<noteq> None \<or> cr_terminal r \<noteq> None
          then Inl (corrupt ''pending ceremony contains mutable state'') else Inr ()
      | Claimed \<Rightarrow>
          rbind (validate_claim_metadata r) (\<lambda>_.
            if cr_terminal r \<noteq> None then Inl (corrupt ''claimed ceremony contains terminal state'') else Inr ())
      | Completed \<Rightarrow> validate_completed X r
      | _ \<Rightarrow> Inl (corrupt ''stored ceremony uses an unsupported terminal state''))"

definition validate_integrity :: "externals \<Rightarrow> ceremony_record \<Rightarrow> string \<Rightarrow> ceremony_error + unit" where
  "validate_integrity X r expected_id =
     rbind (stored (validate_ceremony_id expected_id) ''stored ceremony key is invalid'') (\<lambda>_.
     rbind (stored (validate_ceremony_id (cr_ceremony_id r)) ''stored ceremony id is invalid'') (\<lambda>_.
     if cr_ceremony_id r \<noteq> expected_id then Inl (corrupt ''stored ceremony id does not match its key'')
     else if cr_contract_version r \<noteq> CONTRACT_VERSION \<or> cr_object_kind r \<noteq> OBJECT_KIND
       then Inl (corrupt ''stored ceremony contract metadata is unsupported'')
     else
       rbind (stored (binding_validate (cr_binding r)) ''stored ceremony binding is invalid'') (\<lambda>_.
       rbind (try_each (\<lambda>(hash, reason). stored (validate_canonical_sha256_urn hash) reason)
                [(ab_canonical_proposal_hash (cr_binding r), ''stored proposal hash is not canonical''),
                 (ab_policy_hash (cr_binding r), ''stored policy hash is not canonical''),
                 (cr_binding_hash r, ''stored binding hash is not canonical''),
                 (cr_challenge_hash r, ''stored challenge hash is not canonical'')]) (\<lambda>_.
       rbind (ok_or (checked_sub (ab_expires_at_ms (cr_binding r)) (ab_created_at_ms (cr_binding r)))
                (corrupt ''stored ceremony expiry is invalid'')) (\<lambda>ttl_ms.
       if ab_created_at_ms (cr_binding r) = 0
          \<or> \<not> (MIN_TTL_SECS * 1000 \<le> ttl_ms \<and> ttl_ms \<le> MAX_TTL_SECS * 1000)
       then Inl (corrupt ''stored ceremony lifetime is outside the configured safety bounds'')
       else
         rbind (stored (binding_hash X (cr_binding r)) ''stored ceremony binding cannot be hashed'') (\<lambda>expected.
         if cr_binding_hash r \<noteq> expected
         then Inl (corrupt ''stored ceremony binding hash does not match the binding'')
         else validate_status X r))))))"

definition validate_record_against_config ::
  "externals \<Rightarrow> gov_lib \<Rightarrow> ceremony_record \<Rightarrow> governance_config \<Rightarrow> string \<Rightarrow> ceremony_error + unit" where
  "validate_record_against_config X G r config expected_id =
     rbind (validate_integrity X r expected_id) (\<lambda>_.
     rbind (stored (config_rp_id config) ''governance RP ID is unavailable'') (\<lambda>rp_id.
     rbind (stored (config_origin config) ''governance origin is unavailable'') (\<lambda>origin.
     if \<not> gc_enabled config \<or> ab_tenant_id (cr_binding r) \<notin> gc_allowed_tenants config
        \<or> ab_rp_id (cr_binding r) \<noteq> rp_id \<or> ab_origin (cr_binding r) \<noteq> origin
     then Inl (corrupt ''stored ceremony is outside the active governance configuration'')
     else
       rbind (stored (config_ceremony_secret config) ''governance ceremony secret is unavailable'') (\<lambda>secret.
       rbind (stored (derive_challenge X G secret expected_id (cr_binding_hash r))
                ''stored ceremony challenge cannot be derived'') (\<lambda>challenge.
       if cr_challenge_hash r \<noteq> sha256_bytes X (as_bytes challenge)
       then Inl (corrupt ''stored ceremony challenge hash does not match its binding'')
       else Inr ())))))"

end
