(* ===== verification/Ceremony_Store.thy ===== *)
theory Ceremony_Store
  imports Ceremony
begin

text \<open>
  \<open>persistence.inc.rs\<close> with the request and response types of \<open>model.inc.rs\<close>: begin creates the record
  of a ceremony or answers a replay, claim gives a worker the ceremony under a fencing token, and
  complete records the verified result of the worker that holds the claim.  Every operation reads
  a record only through the integrity checks and writes only what passes them.
\<close>

section \<open>Requests and responses\<close>

record begin_approval_request =
  bq_org_id :: string
  bq_participant_id :: string
  bq_canonical_proposal_hash :: string
  bq_policy_id :: string
  bq_policy_version :: u64
  bq_policy_hash :: string
  bq_continuity_state :: string
  bq_continuity_generation :: u64
  bq_credential_generation :: u64
  bq_activation_credential_id :: "string option"

record begin_approval_response =
  bp_ceremony_id :: string
  bp_binding_hash :: string
  bp_challenge :: string
  bp_challenge_hash :: string
  bp_rp_id :: string
  bp_origin :: string
  bp_expires_at_ms :: u64
  bp_replayed :: bool

record claim_request =
  cq_tenant_id :: string
  cq_participant_id :: string
  cq_claim_id :: string
  cq_fencing_token :: u64

record claim_response =
  cp_ceremony_id :: string
  cp_status :: ceremony_status
  cp_fencing_token :: u64
  cp_replayed :: bool
  cp_taken_over :: bool

record complete_verified_request =
  vq_tenant_id :: string
  vq_participant_id :: string
  vq_claim_id :: string
  vq_fencing_token :: u64
  vq_binding_hash :: string
  vq_challenge_hash :: string
  vq_credential_id :: string
  vq_credential_generation :: u64
  vq_assertion_receipt_hash :: string
  vq_user_verified :: bool

record complete_verified_response =
  vp_ceremony_id :: string
  vp_status :: ceremony_status
  vp_terminal :: terminal_verification
  vp_replayed :: bool

section \<open>Transitions of a record\<close>

definition claim_record ::
  "ceremony_record \<Rightarrow> string \<Rightarrow> u64 \<Rightarrow> u64 \<Rightarrow> ceremony_error + ceremony_record \<times> bool \<times> bool" where
  "claim_record r claim_id fencing_token now_ms =
     (case cr_status r of
        Pending \<Rightarrow>
          Inr (r\<lparr>cr_status := Claimed, cr_claim_id := Some claim_id, cr_fencing_token := fencing_token,
                 cr_claimed_at_ms := Some now_ms\<rparr>, False, False)
      | Claimed \<Rightarrow>
          if fencing_token < cr_fencing_token r then Inl CeStaleFencing
          else if fencing_token = cr_fencing_token r
            then (if cr_claim_id r = Some claim_id then Inr (r, True, False) else Inl CeAlreadyClaimed)
          else
            Inr (r\<lparr>cr_claim_id := Some claim_id, cr_fencing_token := fencing_token,
                   cr_claimed_at_ms := Some now_ms\<rparr>, False, True)
      | _ \<Rightarrow> Inl CeConflict)"

definition complete_record ::
  "externals \<Rightarrow> ceremony_record \<Rightarrow> complete_verified_request \<Rightarrow> u64 \<Rightarrow> ceremony_error + ceremony_record" where
  "complete_record X r request now_ms =
     (if cr_status r \<noteq> Claimed then Inl CeNotClaimed
      else if vq_fencing_token request < cr_fencing_token r then Inl CeStaleFencing
      else if vq_fencing_token request \<noteq> cr_fencing_token r \<or> cr_claim_id r \<noteq> Some (vq_claim_id request)
        then Inl CeClaimMismatch
      else if cr_binding_hash r \<noteq> vq_binding_hash request \<or> cr_challenge_hash r \<noteq> vq_challenge_hash request
              \<or> ab_credential_generation (cr_binding r) \<noteq> vq_credential_generation request
        then Inl CeConflict
      else if ab_activation_credential_id (cr_binding r) = Some (vq_credential_id request)
        then Inl CeUnauthorized
      else
        rbind (completed_result_hash X r (vq_credential_id request) (vq_credential_generation request)
                 (vq_assertion_receipt_hash request) now_ms) (\<lambda>result_hash.
        Inr (r\<lparr>cr_status := Completed,
               cr_terminal := Some \<lparr>tv_outcome = Completed, tv_reason = ''verified'',
                 tv_assertion_receipt_hash = Some (vq_assertion_receipt_hash request),
                 tv_credential_id = Some (vq_credential_id request),
                 tv_credential_generation = Some (vq_credential_generation request),
                 tv_completed_at_ms = now_ms, tv_result_hash = result_hash\<rparr>\<rparr>)))"

section \<open>The store\<close>

text \<open>The store is a client of the durable storage service and the configuration.\<close>

record ceremony_store =
  ct_kv :: kv_client
  ct_config :: governance_config

definition read_record ::
  "externals \<Rightarrow> gov_lib \<Rightarrow> governance_config \<Rightarrow> string \<Rightarrow> json \<Rightarrow> ceremony_error + ceremony_record" where
  "read_record X G config cid val =
     rbind (ok_or (ceremony_from_json val) CeJson) (\<lambda>r.
     rbind (validate_record_against_config X G r config cid) (\<lambda>_. Inr r))"

definition load_ceremony ::
  "externals \<Rightarrow> gov_lib \<Rightarrow> ceremony_store \<Rightarrow> string \<Rightarrow> ('c, ceremony_error + ceremony_record) eff" where
  "load_ceremony X G S cid =
     eff_try (Done (validate_ceremony_id cid)) (\<lambda>_.
     eff_try (eff_map (map_err CeStore) (kv_get X (ct_kv S) (ceremony_path cid))) (\<lambda>found.
     Done (rbind (ok_or found CeNotFound) (read_record X G (ct_config S) cid))))"

text \<open>The record of a new ceremony together with its challenge.\<close>

definition begin_record ::
  "externals \<Rightarrow> gov_lib \<Rightarrow> governance_config \<Rightarrow> string \<Rightarrow> string \<Rightarrow> string \<Rightarrow> string \<Rightarrow>
   begin_approval_request \<Rightarrow> u64 \<Rightarrow> ceremony_error + ceremony_record \<times> string" where
  "begin_record X G config proposal_id participant_id tenant_id idempotency_key request now_ms =
     rbind (ensure (gc_enabled config) CeDisabled) (\<lambda>_.
     rbind (gov_validate_identifier proposal_id) (\<lambda>_.
     rbind (gov_validate_identifier participant_id) (\<lambda>_.
     rbind (gov_validate_identifier tenant_id) (\<lambda>_.
     rbind (validate_idempotency_key idempotency_key) (\<lambda>_.
     rbind (validate_canonical_sha256_urn (bq_canonical_proposal_hash request)) (\<lambda>_.
     rbind (validate_canonical_sha256_urn (bq_policy_hash request)) (\<lambda>_.
     rbind (ensure (\<not> (bq_org_id request \<noteq> tenant_id \<or> bq_participant_id request \<noteq> participant_id))
              CeUnauthorized) (\<lambda>_.
     rbind (ensure (tenant_id \<in> gc_allowed_tenants config) CeUnauthorized) (\<lambda>_.
     rbind (ok_or (checked_add now_ms (gc_ttl_ms config)) (CeInvalidRequest ''ceremony expiry overflow'')) (\<lambda>expires_at_ms.
     rbind (config_rp_id config) (\<lambda>rp_id.
     rbind (config_origin config) (\<lambda>origin.
     let binding = \<lparr>ab_tenant_id = tenant_id, ab_participant_id = participant_id, ab_proposal_id = proposal_id,
             ab_canonical_proposal_hash = bq_canonical_proposal_hash request,
             ab_policy_id = bq_policy_id request, ab_policy_version = bq_policy_version request,
             ab_policy_hash = bq_policy_hash request, ab_continuity_state = bq_continuity_state request,
             ab_continuity_generation = bq_continuity_generation request, ab_rp_id = rp_id, ab_origin = origin,
             ab_credential_generation = bq_credential_generation request,
             ab_activation_credential_id = bq_activation_credential_id request,
             ab_created_at_ms = now_ms, ab_expires_at_ms = expires_at_ms\<rparr>
     in rbind (binding_hash X binding) (\<lambda>bhash.
        let cid = ceremony_id X tenant_id participant_id proposal_id idempotency_key
        in rbind (config_ceremony_secret config) (\<lambda>secret.
           rbind (derive_challenge X G secret cid bhash) (\<lambda>challenge.
           Inr (\<lparr>cr_contract_version = CONTRACT_VERSION, cr_object_kind = OBJECT_KIND,
                 cr_ceremony_id = cid, cr_binding = binding, cr_binding_hash = bhash,
                 cr_challenge_hash = sha256_bytes X (as_bytes challenge), cr_status = Pending,
                 cr_claim_id = None, cr_fencing_token = 0, cr_claimed_at_ms = None, cr_terminal = None\<rparr>,
                challenge))))))))))))))))"

definition begin_ceremony ::
  "externals \<Rightarrow> gov_lib \<Rightarrow> ceremony_store \<Rightarrow> string \<Rightarrow> string \<Rightarrow> string \<Rightarrow> string \<Rightarrow>
   begin_approval_request \<Rightarrow> u64 \<Rightarrow> ('c, ceremony_error + begin_approval_response) eff" where
  "begin_ceremony X G S proposal_id participant_id tenant_id idempotency_key request now_ms =
     eff_try (Done (begin_record X G (ct_config S) proposal_id participant_id tenant_id idempotency_key
                      request now_ms)) (\<lambda>(r, challenge).
     eff_try (Done (validate_record_against_config X G r (ct_config S) (cr_ceremony_id r))) (\<lambda>_.
     eff_try (eff_map (map_err CeStore)
                (put_if_revision X (ct_kv S) (ceremony_path (cr_ceremony_id r)) (ceremony_to_json r) 0)) (\<lambda>outcome.
     case outcome of
       Applied \<Rightarrow>
         Done (Inr \<lparr>bp_ceremony_id = cr_ceremony_id r, bp_binding_hash = cr_binding_hash r,
                    bp_challenge = challenge, bp_challenge_hash = cr_challenge_hash r,
                    bp_rp_id = ab_rp_id (cr_binding r), bp_origin = ab_origin (cr_binding r),
                    bp_expires_at_ms = ab_expires_at_ms (cr_binding r), bp_replayed = False\<rparr>)
     | Mismatch \<Rightarrow>
         eff_try (load_ceremony X G S (cr_ceremony_id r)) (\<lambda>existing.
         Done
           (if cr_binding_hash existing \<noteq> cr_binding_hash r \<or> cr_challenge_hash existing \<noteq> cr_challenge_hash r
               \<or> ab_tenant_id (cr_binding existing) \<noteq> tenant_id
               \<or> ab_participant_id (cr_binding existing) \<noteq> participant_id
              then Inl CeConflict
            else if ab_expires_at_ms (cr_binding existing) \<le> now_ms then Inl CeExpired
            else if cr_status existing \<in> {Completed, Rejected, Expired} then Inl CeConflict
            else Inr \<lparr>bp_ceremony_id = cr_ceremony_id r, bp_binding_hash = cr_binding_hash r,
                      bp_challenge = challenge, bp_challenge_hash = cr_challenge_hash r,
                      bp_rp_id = ab_rp_id (cr_binding existing), bp_origin = ab_origin (cr_binding existing),
                      bp_expires_at_ms = ab_expires_at_ms (cr_binding existing), bp_replayed = True\<rparr>)))))"

text \<open>
  One iteration of a compare-and-set loop: read the versioned record, check it, decide, write.
  \<open>None\<close> continues with the next iteration.
\<close>

definition with_record ::
  "externals \<Rightarrow> gov_lib \<Rightarrow> ceremony_store \<Rightarrow> string \<Rightarrow> string \<Rightarrow> string \<Rightarrow>
   (ceremony_record \<Rightarrow> u64 \<Rightarrow> ('c, (ceremony_error + 'a) option) eff) \<Rightarrow> ('c, (ceremony_error + 'a) option) eff" where
  "with_record X G S cid tenant_id participant_id act =
     eff_bind (get_versioned X (ct_kv S) (ceremony_path cid)) (\<lambda>found.
       case found of
         Inl e \<Rightarrow> Done (Some (Inl (CeStore e)))
       | Inr None \<Rightarrow> Done (Some (Inl CeNotFound))
       | Inr (Some versioned) \<Rightarrow>
           (case rbind (read_record X G (ct_config S) cid (vv_value versioned)) (\<lambda>r.
                   rbind (validate_identity r tenant_id participant_id) (\<lambda>_. Inr r)) of
              Inl e \<Rightarrow> Done (Some (Inl e))
            | Inr r \<Rightarrow> act r (vv_mod_revision versioned)))"

text \<open>The candidate is checked and written at the revision that was read.\<close>

definition write_checked ::
  "externals \<Rightarrow> gov_lib \<Rightarrow> ceremony_store \<Rightarrow> string \<Rightarrow> ceremony_record \<Rightarrow> u64 \<Rightarrow> ceremony_error + 'a \<Rightarrow>
   ('c, (ceremony_error + 'a) option) eff" where
  "write_checked X G S cid candidate revision result =
     eff_bind (put_if_revision X (ct_kv S) (ceremony_path cid) (ceremony_to_json candidate) revision) (\<lambda>put.
       case put of
         Inl e \<Rightarrow> Done (Some (Inl (CeStore e)))
       | Inr Applied \<Rightarrow> Done (Some result)
       | Inr Mismatch \<Rightarrow> Done None)"

definition claim_attempt ::
  "externals \<Rightarrow> gov_lib \<Rightarrow> ceremony_store \<Rightarrow> string \<Rightarrow> claim_request \<Rightarrow> u64 \<Rightarrow>
   ('c, (ceremony_error + claim_response) option) eff" where
  "claim_attempt X G S cid request now_ms =
     with_record X G S cid (cq_tenant_id request) (cq_participant_id request) (\<lambda>r revision.
       if ab_expires_at_ms (cr_binding r) \<le> now_ms then Done (Some (Inl CeExpired))
       else
         case cr_terminal r of
           Some terminal \<Rightarrow>
             Done (Some (Inr \<lparr>cp_ceremony_id = cid, cp_status = tv_outcome terminal,
               cp_fencing_token = cr_fencing_token r, cp_replayed = True, cp_taken_over = False\<rparr>))
         | None \<Rightarrow>
             (case claim_record r (cq_claim_id request) (cq_fencing_token request) now_ms of
                Inl e \<Rightarrow> Done (Some (Inl e))
              | Inr (candidate, replayed, taken_over) \<Rightarrow>
                  (case validate_record_against_config X G candidate (ct_config S) cid of
                     Inl e \<Rightarrow> Done (Some (Inl e))
                   | Inr _ \<Rightarrow>
                       if replayed
                       then Done (Some (Inr \<lparr>cp_ceremony_id = cid, cp_status = cr_status candidate,
                              cp_fencing_token = cr_fencing_token candidate, cp_replayed = True,
                              cp_taken_over = taken_over\<rparr>))
                       else write_checked X G S cid candidate revision
                              (Inr \<lparr>cp_ceremony_id = cid, cp_status = cr_status candidate,
                                cp_fencing_token = cr_fencing_token candidate, cp_replayed = False,
                                cp_taken_over = taken_over\<rparr>))))"

definition claim_ceremony_store ::
  "externals \<Rightarrow> gov_lib \<Rightarrow> ceremony_store \<Rightarrow> string \<Rightarrow> claim_request \<Rightarrow> u64 \<Rightarrow>
   ('c, ceremony_error + claim_response) eff" where
  "claim_ceremony_store X G S cid request now_ms =
     eff_try (Done (validate_ceremony_id cid)) (\<lambda>_.
     eff_try (Done (gov_validate_identifier (cq_claim_id request))) (\<lambda>_.
     if cq_fencing_token request = 0 then Done (Inl (CeInvalidRequest ''fencing_token must be positive''))
     else cas_retry MAX_CAS_ATTEMPTS (Inl CeCasRetriesExhausted) (claim_attempt X G S cid request now_ms)))"

definition complete_attempt ::
  "externals \<Rightarrow> gov_lib \<Rightarrow> ceremony_store \<Rightarrow> string \<Rightarrow> complete_verified_request \<Rightarrow> u64 \<Rightarrow>
   ('c, (ceremony_error + complete_verified_response) option) eff" where
  "complete_attempt X G S cid request now_ms =
     with_record X G S cid (vq_tenant_id request) (vq_participant_id request) (\<lambda>r revision.
       case cr_terminal r of
         Some terminal \<Rightarrow>
           Done (Some
             (if tv_outcome terminal = Completed
                 \<and> tv_assertion_receipt_hash terminal = Some (vq_assertion_receipt_hash request)
              then Inr \<lparr>vp_ceremony_id = cid, vp_status = Completed, vp_terminal = terminal, vp_replayed = True\<rparr>
              else Inl CeConflict))
       | None \<Rightarrow>
           if ab_expires_at_ms (cr_binding r) \<le> now_ms then Done (Some (Inl CeExpired))
           else
             (case complete_record X r request now_ms of
                Inl e \<Rightarrow> Done (Some (Inl e))
              | Inr candidate \<Rightarrow>
                  (case rbind (validate_record_against_config X G candidate (ct_config S) cid) (\<lambda>_.
                          ok_or (cr_terminal candidate) (CeInvalidRequest ''terminal result missing'')) of
                     Inl e \<Rightarrow> Done (Some (Inl e))
                   | Inr terminal \<Rightarrow>
                       write_checked X G S cid candidate revision
                         (Inr \<lparr>vp_ceremony_id = cid, vp_status = Completed, vp_terminal = terminal,
                               vp_replayed = False\<rparr>))))"

definition complete_verified_store ::
  "externals \<Rightarrow> gov_lib \<Rightarrow> ceremony_store \<Rightarrow> string \<Rightarrow> complete_verified_request \<Rightarrow> u64 \<Rightarrow>
   ('c, ceremony_error + complete_verified_response) eff" where
  "complete_verified_store X G S cid request now_ms =
     eff_try (Done (validate_ceremony_id cid)) (\<lambda>_.
     eff_try (Done (gov_validate_identifier (vq_claim_id request))) (\<lambda>_.
     eff_try (Done (gov_validate_identifier (vq_credential_id request))) (\<lambda>_.
     eff_try (Done (validate_canonical_sha256_urn (vq_binding_hash request))) (\<lambda>_.
     eff_try (Done (validate_canonical_sha256_urn (vq_challenge_hash request))) (\<lambda>_.
     eff_try (Done (validate_canonical_sha256_urn (vq_assertion_receipt_hash request))) (\<lambda>_.
     if \<not> vq_user_verified request then Done (Inl CeUnauthorized)
     else cas_retry MAX_CAS_ATTEMPTS (Inl CeCasRetriesExhausted) (complete_attempt X G S cid request now_ms)))))))"

end
