(* ===== verification/Ceremony_Safety.thy ===== *)
theory Ceremony_Safety
  imports Ceremony_Store
begin

text \<open>
  The ceremony as a state machine under concurrency.  \<open>ceremony_step\<close> is the abstract life cycle of one
  record: it is claimed, taken over under a higher fencing token, completed once.  The store
  operations refine it: in every interleaving of begins, claims and completions by any number of
  replicas, also with different configurations, each stored record moves by steps of the machine only.
\<close>

section \<open>The stored document\<close>

lemma status_roundtrip [simp]: "status_from_json (VStr (status_str s)) = Some s"
  by (cases s) (simp_all add: status_of_str_def)

lemma binding_roundtrip [simp]: "binding_from_json (binding_to_json b) = Some b"
  by (simp add: binding_from_json_def binding_to_json_def field_def field_or_def)

lemma terminal_roundtrip [simp]: "terminal_from_json (terminal_to_json t) = Some t"
  by (simp add: terminal_from_json_def terminal_to_json_def field_def field_or_def del: status_from_json.simps)

lemma terminal_not_null [simp]: "terminal_to_json t \<noteq> VNull"
  by (simp add: terminal_to_json_def)

lemma ceremony_roundtrip [simp]: "ceremony_from_json (ceremony_to_json r) = Some r"
  by (simp add: ceremony_from_json_def ceremony_to_json_def field_def field_or_def del: status_from_json.simps)

lemma binding_canon [simp]: "json_canon (binding_to_json b)"
  by (simp add: binding_to_json_def)

lemma terminal_canon [simp]: "json_canon (terminal_to_json t)"
  by (simp add: terminal_to_json_def)

lemma ceremony_canon [simp]: "json_canon (ceremony_to_json r)"
  by (simp add: ceremony_to_json_def)

definition raw_ceremony :: "externals \<Rightarrow> string \<Rightarrow> ceremony_record option" where
  "raw_ceremony X raw = Option.bind (json_from_str X raw) ceremony_from_json"

lemma raw_ceremony_stored [simp]: "externals_ok X \<Longrightarrow> raw_ceremony X (json_to_string X (ceremony_to_json r)) = Some r"
  by (simp add: raw_ceremony_def externals_okD)

section \<open>Sound records\<close>

abbreviation sound :: "externals \<Rightarrow> ceremony_record \<Rightarrow> bool" where
  "sound X r \<equiv> validate_integrity X r (cr_ceremony_id r) = Inr ()"

lemma validate_integrity_id: "validate_integrity X r cid = Inr () \<longleftrightarrow> cr_ceremony_id r = cid \<and> sound X r"
  by (auto simp: validate_integrity_def rbind_eq_Inr)

lemma sound_status: "sound X r \<Longrightarrow> validate_status X r = Inr ()"
  unfolding validate_integrity_def by (auto simp: rbind_eq_Inr split: if_splits)

lemma sound_Pending:
  "sound X r \<Longrightarrow> cr_status r = Pending \<Longrightarrow>
   cr_claim_id r = None \<and> cr_fencing_token r = 0 \<and> cr_claimed_at_ms r = None \<and> cr_terminal r = None"
  by (drule sound_status) (auto simp: validate_status_def split: if_splits)

lemma validate_claim_metadata_iff [result_simps]:
  "validate_claim_metadata r = Inr () \<longleftrightarrow>
     (\<exists>claim_id at. cr_claim_id r = Some claim_id \<and> gov_validate_identifier claim_id = Inr ()
        \<and> cr_fencing_token r \<noteq> 0 \<and> cr_claimed_at_ms r = Some at
        \<and> ab_created_at_ms (cr_binding r) \<le> at \<and> at < ab_expires_at_ms (cr_binding r))"
  by (auto simp: validate_claim_metadata_def rbind_eq_Inr ok_or_eq_Inr stored_eq_Inr not_less not_le)

lemma sound_Claimed:
  assumes "sound X r" "cr_status r = Claimed"
  shows "validate_claim_metadata r = Inr ()" "cr_terminal r = None" "cr_fencing_token r \<noteq> 0"
    "\<exists>claim_id. cr_claim_id r = Some claim_id"
  using sound_status [OF assms(1)] assms(2)
  by (auto simp: validate_status_def rbind_eq_Inr validate_claim_metadata_iff split: if_splits)

lemma sound_Completed:
  assumes "sound X r" "cr_status r = Completed"
  shows "validate_claim_metadata r = Inr ()" "\<exists>t. cr_terminal r = Some t \<and> tv_outcome t = Completed"
  using sound_status [OF assms(1)] assms(2)
  by (auto simp: validate_status_def validate_completed_def rbind_eq_Inr ok_or_eq_Inr split: if_splits)

lemma sound_status_cases:
  assumes "sound X r"
  obtains "cr_status r = Pending" | "cr_status r = Claimed" | "cr_status r = Completed"
  using sound_status [OF assms] by (cases "cr_status r") (auto simp: validate_status_def)

lemma sound_terminal_iff:
  assumes "sound X r"
  shows "(\<exists>t. cr_terminal r = Some t) \<longleftrightarrow> cr_status r = Completed"
  using sound_Pending [OF assms] sound_Claimed(2) [OF assms] sound_Completed(2) [OF assms]
  by (cases rule: sound_status_cases [OF assms]) auto

lemma checked_is_sound:
  "validate_record_against_config X G r config cid = Inr () \<Longrightarrow> cr_ceremony_id r = cid \<and> sound X r"
  using validate_integrity_id [of X r cid]
  by (simp add: validate_record_against_config_def rbind_eq_Inr) blast

lemma read_record_Inr:
  "read_record X G config cid val = Inr r \<longleftrightarrow>
     ceremony_from_json val = Some r \<and> validate_record_against_config X G r config cid = Inr ()"
  by (auto simp: read_record_def rbind_eq_Inr ok_or_eq_Inr)

section \<open>The life cycle\<close>

inductive ceremony_step :: "ceremony_record \<Rightarrow> ceremony_record \<Rightarrow> bool" where
  claim: "cr_status r = Pending \<Longrightarrow> 0 < token \<Longrightarrow>
     ceremony_step r (r\<lparr>cr_status := Claimed, cr_claim_id := Some claim_id, cr_fencing_token := token,
       cr_claimed_at_ms := Some at\<rparr>)"
| take_over: "cr_status r = Claimed \<Longrightarrow> cr_fencing_token r < token \<Longrightarrow>
     ceremony_step r (r\<lparr>cr_claim_id := Some claim_id, cr_fencing_token := token, cr_claimed_at_ms := Some at\<rparr>)"
| complete: "cr_status r = Claimed \<Longrightarrow>
     ceremony_step r (r\<lparr>cr_status := Completed, cr_terminal := Some t\<rparr>)"

inductive_cases ceremony_stepE: "ceremony_step r r'"

text \<open>The two transition functions of the code are steps of the machine.\<close>

lemma claim_record_refines:
  assumes "claim_record r claim_id token now = Inr (r', replayed, taken_over)" "token \<noteq> 0"
  shows "if replayed then r' = r \<and> cr_status r = Claimed \<and> cr_claim_id r = Some claim_id \<and> cr_fencing_token r = token
         else ceremony_step r r' \<and> cr_status r' = Claimed \<and> cr_claim_id r' = Some claim_id \<and> cr_fencing_token r' = token"
proof -
  have "0 < token" using assms(2) by (simp add: word_gt_0)
  then show ?thesis
    using assms(1)
    by (auto simp: claim_record_def split: ceremony_status.splits if_splits intro: ceremony_step.intros)
qed

lemma complete_record_refines:
  assumes "complete_record X r request now = Inr r'"
  shows "ceremony_step r r'" "cr_status r' = Completed" "cr_fencing_token r = vq_fencing_token request"
    "\<exists>t. cr_terminal r' = Some t \<and> tv_assertion_receipt_hash t = Some (vq_assertion_receipt_hash request)"
  using assms
  by (auto simp: complete_record_def completed_result_hash_def sha256_json_def Let_def split: if_splits
      intro: ceremony_step.intros)

definition sound_step :: "externals \<Rightarrow> ceremony_record \<Rightarrow> ceremony_record \<Rightarrow> bool" where
  "sound_step X r r' \<longleftrightarrow> sound X r \<and> sound X r' \<and> ceremony_step r r'"

definition follows_on :: "ceremony_record \<Rightarrow> ceremony_record \<Rightarrow> bool" where
  "follows_on r r' \<longleftrightarrow>
     cr_ceremony_id r' = cr_ceremony_id r \<and> cr_binding r' = cr_binding r
   \<and> cr_binding_hash r' = cr_binding_hash r \<and> cr_challenge_hash r' = cr_challenge_hash r
   \<and> cr_fencing_token r \<le> cr_fencing_token r'
   \<and> (cr_fencing_token r' = cr_fencing_token r \<longrightarrow> cr_claim_id r' = cr_claim_id r)
   \<and> (cr_status r' = Pending \<longrightarrow> r' = r) \<and> (cr_status r = Completed \<longrightarrow> r' = r)"

lemma sound_step_follows:
  assumes "sound_step X r r'"
  shows "follows_on r r' \<and> cr_status r \<noteq> Completed"
proof -
  have sound: "sound X r" and step: "ceremony_step r r'" using assms by (simp_all add: sound_step_def)
  from step show ?thesis
  proof cases
    case (claim token claim_id at)
    then show ?thesis using sound_Pending [OF sound claim(2)] by (auto simp: follows_on_def)
  qed (auto simp: follows_on_def)
qed

lemma follows_on_trans:
  assumes "follows_on r r'" "follows_on r' r''"
  shows "follows_on r r''"
proof -
  note a = assms(1) [unfolded follows_on_def] and b = assms(2) [unfolded follows_on_def]
  have tok: "cr_fencing_token r \<le> cr_fencing_token r''" using a b by (meson order_trans)
  moreover have "cr_claim_id r'' = cr_claim_id r" if "cr_fencing_token r'' = cr_fencing_token r"
    using a b that by (metis order_antisym)
  moreover have "r'' = r" if "cr_status r'' = Pending" using a b that by metis
  moreover have "r'' = r" if "cr_status r = Completed" using a b that by metis
  ultimately show ?thesis using a b unfolding follows_on_def by argo
qed

lemma sound_steps_follow:
  assumes "(sound_step X)\<^sup>*\<^sup>* r r'" "sound X r"
  shows "sound X r'" "follows_on r r'"
  using assms(1)
proof (induction rule: rtranclp_induct)
  case base
  {
    case 1
    show ?case by (rule assms(2))
  next
    case 2
    show ?case by (simp add: follows_on_def)
  }
next
  case (step y z)
  {
    case 1
    from step show ?case by (simp add: sound_step_def)
  next
    case 2
    from step sound_step_follows [of X y z] show ?case by (blast intro: follows_on_trans)
  }
qed

end
