(* ===== verification/Backed_Results.thy ===== *)
theory Backed_Results
  imports Protocol
begin

text \<open>
  Results that rest on the store.  \<open>bwp\<close> speaks about the result of a handler together with what the
  storage service holds at that moment; the locale \<open>stable_results\<close> turns it into a statement about every
  interleaving, provided that what a result rests on is stable under the steps of all handlers.
\<close>

primrec bwp ::
  "server \<Rightarrow> (kv_view \<Rightarrow> bool) \<Rightarrow> ('a \<Rightarrow> kv_view \<Rightarrow> bool) \<Rightarrow> ('c, 'a) eff \<Rightarrow> kv_view \<Rightarrow> bool" where
  "bwp server I Q (Done x) = (\<lambda>\<sigma>. Q x \<sigma>)"
| "bwp server I Q (Send rq k) =
     (\<lambda>_. \<forall>\<sigma> r \<sigma>'. I \<sigma> \<and> server \<sigma> rq r \<sigma>' \<longrightarrow> bwp server I Q (k r) \<sigma>')"
| "bwp server I Q (Locked g k) = (\<lambda>\<sigma>. \<forall>c. bwp server I Q (k c) \<sigma>)"

lemma bwp_bind:
  "bwp server I Q (eff_bind m f) \<sigma> = bwp server I (\<lambda>x. bwp server I Q (f x)) m \<sigma>"
  by (induction m arbitrary: \<sigma>) auto

lemma bwp_map: "bwp server I Q (eff_map g m) \<sigma> = bwp server I (\<lambda>x. Q (g x)) m \<sigma>"
  by (simp add: eff_map_def bwp_bind)

lemma bwp_mono:
  "bwp server I Q p \<sigma> \<Longrightarrow> (\<And>x \<sigma>. Q x \<sigma> \<Longrightarrow> Q' x \<sigma>) \<Longrightarrow> bwp server I Q' p \<sigma>"
  by (induction p arbitrary: \<sigma>) auto

lemma bwp_always: "(\<And>x \<sigma>. Q x \<sigma>) \<Longrightarrow> bwp server I Q p \<sigma>"
  by (induction p arbitrary: \<sigma>) auto

lemma bwp_try:
  "bwp server I Q (eff_try m f) \<sigma> =
     bwp server I (\<lambda>r \<sigma>. case r of Inl e \<Rightarrow> Q (Inl e) \<sigma> | Inr x \<Rightarrow> bwp server I Q (f x) \<sigma>) m \<sigma>"
proof -
  have "(\<lambda>x. bwp server I Q (case x of Inl e \<Rightarrow> Done (Inl e) | Inr x \<Rightarrow> f x)) =
    (\<lambda>r \<sigma>. case r of Inl e \<Rightarrow> Q (Inl e) \<sigma> | Inr x \<Rightarrow> bwp server I Q (f x) \<sigma>)"
    by (rule ext)+ (simp split: sum.split)
  then show ?thesis by (simp add: eff_try_def bwp_bind)
qed

lemma bwp_cas_retry:
  assumes "\<And>\<sigma>. bwp server I (\<lambda>r \<sigma>. case r of Some x \<Rightarrow> Q x \<sigma> | None \<Rightarrow> True) body \<sigma>" "\<And>\<sigma>. Q exhausted \<sigma>"
  shows "bwp server I Q (cas_retry n exhausted body) \<sigma>"
proof (induction n arbitrary: \<sigma>)
  case (Suc n)
  show ?case
    unfolding cas_retry.simps bwp_bind using assms(1)
    by (rule bwp_mono) (auto split: option.splits simp: Suc)
qed (simp add: assms(2))

lemma bwp_get_versioned:
  assumes "kv_contract X server" and "\<And>e \<sigma>. Q (Inl e) \<sigma>"
    and "\<And>\<sigma> e. I \<sigma> \<Longrightarrow> reads X (\<sigma> key) e \<Longrightarrow> Q (Inr e) \<sigma>"
  shows "bwp server I Q (get_versioned X kv key) \<sigma>0"
proof -
  have "Q (get_reply X r) \<sigma>'" if "I \<sigma>" "server \<sigma> (kv_get_request kv key) r \<sigma>'" for \<sigma> r \<sigma>'
  proof (cases "get_reply X r")
    case (Inr e)
    from kv_contract_GET [OF assms(1) that(2)] Inr have "\<sigma>' = \<sigma>" "reads X (\<sigma> key) e" by simp_all
    with Inr that(1) assms(3) show ?thesis by simp
  qed (simp add: assms(2))
  then show ?thesis by (auto simp: get_versioned_def get_reply_def)
qed

text \<open>A write that the service reports as applied is in the store.\<close>

lemma bwp_put_if_revision:
  assumes "kv_contract X server" and "\<And>e \<sigma>. Q (Inl e) \<sigma>" and "\<And>\<sigma>. Q (Inr Mismatch) \<sigma>"
    and "\<And>\<sigma> rv. \<sigma> key = Some (json_to_string X v, rv) \<Longrightarrow> Q (Inr Applied) \<sigma>"
  shows "bwp server I Q (put_if_revision X kv key v prev) \<sigma>0"
proof -
  have "Q (put_reply r) \<sigma>'" if s: "server \<sigma> (kv_put_request X kv key v (Some prev)) r \<sigma>'" for \<sigma> r \<sigma>'
  proof (rule kv_contract_PUT [OF assms(1) s])
    assume "\<sigma>' = \<sigma>" "put_reply r \<noteq> Inr Applied"
    then show ?thesis using assms(2,3) by (cases "put_reply r") (auto split: cas_outcome.splits, metis cas_outcome.exhaust)
  next
    fix rv assume "put_reply r \<noteq> Inr Mismatch" "\<sigma>' = \<sigma>(key \<mapsto> (json_to_string X v, rv))"
    then show ?thesis using assms(2) assms(4) [of \<sigma>' rv] by (cases "put_reply r") (auto, metis cas_outcome.exhaust)
  qed simp_all
  then show ?thesis by (auto simp: put_if_revision_def put_inner_def put_reply_def)
qed

locale stable_results =
  fixes server :: server
    and Ops :: "('c, 'a) eff set"
    and reach :: "('c, 'a) sys \<Rightarrow> bool"
    and I :: "kv_view \<Rightarrow> bool"
    and Q :: "'a \<Rightarrow> kv_view \<Rightarrow> bool"
  assumes reach_step: "reach s \<Longrightarrow> sys_step server Ops s s' \<Longrightarrow> reach s'"
    and reach_inv: "reach s \<Longrightarrow> I (sys_kv s)"
    and stable: "reach s \<Longrightarrow> sys_step server Ops s s' \<Longrightarrow> Q x (sys_kv s) \<Longrightarrow> Q x (sys_kv s')"
    and ops_backed: "p \<in> Ops \<Longrightarrow> bwp server I Q p \<sigma>"
begin

lemma bwp_stable:
  assumes "reach s" "sys_step server Ops s s'"
  shows "bwp server I Q p (sys_kv s) \<Longrightarrow> bwp server I Q p (sys_kv s')"
  by (induction p) (auto intro: stable [OF assms])

lemma step_backed:
  assumes "reach s" "sys_step server Ops s s'"
    and backed: "\<And>t i p. sys_threads s t = Some (i, p) \<Longrightarrow> bwp server I Q p (sys_kv s)"
    and "sys_threads s' t = Some (i, p)"
  shows "bwp server I Q p (sys_kv s')"
  using assms(2)
proof cases
  case (spawn p' t' j)
  with assms(4) backed ops_backed show ?thesis by (auto split: if_splits)
next
  case (answer t' j rq k r \<sigma>')
  show ?thesis
  proof (cases "t' = t")
    case True
    with answer assms(4) backed [of t' j "Send rq k"] reach_inv [OF assms(1)] show ?thesis by auto
  next
    case False
    with answer assms(4) have "bwp server I Q p (sys_kv s)" by (auto intro: backed)
    then show ?thesis by (rule bwp_stable [OF assms(1,2)])
  qed
next
  case (critical t' j g k)
  then have "bwp server I Q (k c) (sys_kv s)" for c using backed [of t' j "Locked g k"] by simp
  with critical assms(4) backed show ?thesis by (auto split: if_splits)
next
  case (cancel t' th)
  with assms(4) backed show ?thesis by (auto split: if_splits)
next
  case (restart j c)
  with assms(4) backed show ?thesis by auto
qed

lemma finished_backed:
  assumes "(sys_step server Ops)\<^sup>*\<^sup>* s0 s" "reach s0" "sys_threads s0 = (\<lambda>_. None)"
    and "sys_threads s t = Some (i, Done x)"
  shows "Q x (sys_kv s)"
proof -
  have "reach s \<and> (\<forall>t i p. sys_threads s t = Some (i, p) \<longrightarrow> bwp server I Q p (sys_kv s))"
    using assms(1)
  proof (induction rule: rtranclp_induct)
    case base
    then show ?case using assms(2,3) by simp
  next
    case (step u u')
    then show ?case using reach_step step_backed [of u u'] by blast
  qed
  with assms(4) show ?thesis by (metis bwp.simps(1))
qed

lemma result_stays_backed:
  assumes "(sys_step server Ops)\<^sup>*\<^sup>* s s'" "reach s" "Q x (sys_kv s)"
  shows "Q x (sys_kv s')"
proof -
  have "reach s' \<and> Q x (sys_kv s')"
    using assms(1)
  proof (induction rule: rtranclp_induct)
    case base
    then show ?case using assms(2,3) by simp
  next
    case (step u u')
    then show ?case using reach_step stable by blast
  qed
  then show ?thesis ..
qed

end

end
