(* ===== verification/Ceremony_Race.thy ===== *)
theory Ceremony_Race
  imports Ceremony_Safety Backed_Results
begin

text \<open>
  Every interleaving of begins, claims and completions.  The store operations are guarded by the life
  cycle, so \<open>cas_evolution\<close> gives that stored records only move along it; \<open>stable_results\<close> gives that
  every completion that was reported is the one the store holds for good.
\<close>

section \<open>Operations and rules\<close>

datatype ceremony_result =
    Begun "ceremony_error + begin_approval_response"
  | ClaimedResult string claim_request "ceremony_error + claim_response"
  | CompletedResult string complete_verified_request "ceremony_error + complete_verified_response"

inductive_set ceremony_ops :: "externals \<Rightarrow> gov_lib \<Rightarrow> ('c, ceremony_result) eff set"
  for X :: externals and G :: gov_lib where
  op_begin: "eff_map Begun (begin_ceremony X G S proposal participant tenant key request now) \<in> ceremony_ops X G"
| op_claim: "eff_map (ClaimedResult cid claim) (claim_ceremony_store X G S cid claim now) \<in> ceremony_ops X G"
| op_complete: "eff_map (CompletedResult cid verified) (complete_verified_store X G S cid verified now) \<in> ceremony_ops X G"

definition ceremony_ini :: "externals \<Rightarrow> creates" where
  "ceremony_ini X path v \<longleftrightarrow>
     (\<exists>r. v = ceremony_to_json r \<and> path = ceremony_path (cr_ceremony_id r) \<and> sound X r \<and> cr_status r = Pending)"

definition ceremony_upd :: "externals \<Rightarrow> updates" where
  "ceremony_upd X path v0 v \<longleftrightarrow>
     (\<exists>r r'. ceremony_from_json v0 = Some r \<and> v = ceremony_to_json r'
        \<and> path = ceremony_path (cr_ceremony_id r) \<and> sound_step X r r')"

section \<open>The operations are guarded\<close>

lemma gwp_with_record:
  assumes "\<And>e H'. Q (Some (Inl e)) H'"
    and "\<And>v r rn. read_record X G (ct_config S) cid v = Inr r \<Longrightarrow> validate_identity r tenant participant = Inr () \<Longrightarrow>
           gwp X ini upd (act r rn) Q (insert (ceremony_path cid, rn, v) H)"
  shows "gwp X ini upd (with_record X G S cid tenant participant act) Q H"
  unfolding with_record_def gwp_bind
proof (rule gwp_get_versioned)
  fix v and rn :: u64
  show "gwp X ini upd (case Inr (Some \<lparr>vv_value = v, vv_mod_revision = rn\<rparr>) of
      Inl e \<Rightarrow> Done (Some (Inl (CeStore e)))
    | Inr None \<Rightarrow> Done (Some (Inl CeNotFound))
    | Inr (Some versioned) \<Rightarrow>
        (case rbind (read_record X G (ct_config S) cid (vv_value versioned)) (\<lambda>r.
                rbind (validate_identity r tenant participant) (\<lambda>_. Inr r)) of
           Inl e \<Rightarrow> Done (Some (Inl e))
         | Inr r \<Rightarrow> act r (vv_mod_revision versioned))) Q (insert (ceremony_path cid, rn, v) H)"
    using assms(2) [of v _ rn] by (auto simp: assms(1) rbind_eq_Inr split: sum.split)
qed (simp_all add: assms(1))

lemma read_record_sound:
  "read_record X G config cid v = Inr r \<Longrightarrow> ceremony_from_json v = Some r \<and> cr_ceremony_id r = cid \<and> sound X r"
  unfolding read_record_Inr using checked_is_sound by blast

lemma may_write_step:
  assumes "read_record X G config cid v = Inr r" "ceremony_step r r'"
    and "validate_record_against_config X G r' config' cid = Inr ()"
  shows "may_write (ceremony_ini X) (ceremony_upd X) (insert (ceremony_path cid, rn, v) H) (ceremony_path cid)
    (ceremony_to_json r') rn"
proof -
  have "ceremony_from_json v = Some r" "cr_ceremony_id r = cid" "sound_step X r r'"
    using read_record_sound [OF assms(1)] checked_is_sound [OF assms(3)] assms(2)
    unfolding sound_step_def by blast+
  then show ?thesis unfolding may_write_def ceremony_upd_def by blast
qed

lemma guarded_write_checked:
  assumes "may_write ini upd H (ceremony_path cid) (ceremony_to_json r') rn"
  shows "guarded X ini upd (write_checked X G S cid r' rn res) H"
  unfolding write_checked_def gwp_bind
  using assms by (rule gwp_put_if_revision) (simp split: sum.split cas_outcome.split)

lemma guarded_claim_attempt:
  assumes "cq_fencing_token claim \<noteq> 0"
  shows "guarded X (ceremony_ini X) (ceremony_upd X) (claim_attempt X G S cid claim now) H"
  unfolding claim_attempt_def
proof (rule gwp_with_record)
  fix v r and rn :: u64
  assume read: "read_record X G (ct_config S) cid v = Inr r"
  have step: "ceremony_step r r'"
    if "claim_record r (cq_claim_id claim) (cq_fencing_token claim) now = Inr (r', False, taken)" for r' taken
    using claim_record_refines [OF that assms] by simp
  show "guarded X (ceremony_ini X) (ceremony_upd X)
     (if ab_expires_at_ms (cr_binding r) \<le> now then Done (Some (Inl CeExpired))
       else
         case cr_terminal r of
           Some terminal \<Rightarrow>
             Done (Some (Inr \<lparr>cp_ceremony_id = cid, cp_status = tv_outcome terminal,
               cp_fencing_token = cr_fencing_token r, cp_replayed = True, cp_taken_over = False\<rparr>))
         | None \<Rightarrow>
             (case claim_record r (cq_claim_id claim) (cq_fencing_token claim) now of
                Inl e \<Rightarrow> Done (Some (Inl e))
              | Inr (candidate, replayed, taken_over) \<Rightarrow>
                  (case validate_record_against_config X G candidate (ct_config S) cid of
                     Inl e \<Rightarrow> Done (Some (Inl e))
                   | Inr _ \<Rightarrow>
                       if replayed
                       then Done (Some (Inr \<lparr>cp_ceremony_id = cid, cp_status = cr_status candidate,
                              cp_fencing_token = cr_fencing_token candidate, cp_replayed = True,
                              cp_taken_over = taken_over\<rparr>))
                       else write_checked X G S cid candidate rn
                              (Inr \<lparr>cp_ceremony_id = cid, cp_status = cr_status candidate,
                                cp_fencing_token = cr_fencing_token candidate, cp_replayed = False,
                                cp_taken_over = taken_over\<rparr>)))) (insert (ceremony_path cid, rn, v) H)"
    by (auto split: option.split sum.split prod.split
        intro!: guarded_write_checked may_write_step [OF read] step)
qed simp

lemma guarded_complete_attempt:
  "guarded X (ceremony_ini X) (ceremony_upd X) (complete_attempt X G S cid verified now) H"
  unfolding complete_attempt_def
proof (rule gwp_with_record)
  fix v r and rn :: u64
  assume read: "read_record X G (ct_config S) cid v = Inr r"
  show "guarded X (ceremony_ini X) (ceremony_upd X)
     (case cr_terminal r of
         Some terminal \<Rightarrow>
           Done (Some
             (if tv_outcome terminal = Completed
                 \<and> tv_assertion_receipt_hash terminal = Some (vq_assertion_receipt_hash verified)
              then Inr \<lparr>vp_ceremony_id = cid, vp_status = Completed, vp_terminal = terminal, vp_replayed = True\<rparr>
              else Inl CeConflict))
       | None \<Rightarrow>
           if ab_expires_at_ms (cr_binding r) \<le> now then Done (Some (Inl CeExpired))
           else
             (case complete_record X r verified now of
                Inl e \<Rightarrow> Done (Some (Inl e))
              | Inr candidate \<Rightarrow>
                  (case rbind (validate_record_against_config X G candidate (ct_config S) cid) (\<lambda>_.
                          ok_or (cr_terminal candidate) (CeInvalidRequest ''terminal result missing'')) of
                     Inl e \<Rightarrow> Done (Some (Inl e))
                   | Inr terminal \<Rightarrow>
                       write_checked X G S cid candidate rn
                         (Inr \<lparr>vp_ceremony_id = cid, vp_status = Completed, vp_terminal = terminal,
                               vp_replayed = False\<rparr>)))) (insert (ceremony_path cid, rn, v) H)"
    by (auto split: option.split sum.split simp: rbind_eq_Inr
        intro!: guarded_write_checked may_write_step [OF read] complete_record_refines(1))
qed simp

lemma guarded_begin:
  "guarded X (ceremony_ini X) (ceremony_upd X)
     (begin_ceremony X G S proposal participant tenant key request now) H"
proof -
  have pending: "cr_status r = Pending"
    if "begin_record X G config proposal participant tenant key request now = Inr (r, ch)" for config r ch
    using that unfolding begin_record_def by (auto simp: rbind_eq_Inr Let_def)
  have "may_write (ceremony_ini X) (ceremony_upd X) H (ceremony_path (cr_ceremony_id r)) (ceremony_to_json r) 0"
    if "begin_record X G (ct_config S) proposal participant tenant key request now = Inr (r, ch)"
      "validate_record_against_config X G r (ct_config S) (cr_ceremony_id r) = Inr ()" for r ch
    using pending [OF that(1)] checked_is_sound [OF that(2)] unfolding may_write_def ceremony_ini_def by blast
  moreover have "guarded X ini upd (load_ceremony X G S cid) H" for ini upd cid H
    by (auto simp: load_ceremony_def gwp_try gwp_map split: sum.split intro!: gwp_kv_get)
  ultimately show ?thesis
    unfolding begin_ceremony_def
    by (cases "begin_record X G (ct_config S) proposal participant tenant key request now")
       (auto simp: gwp_try gwp_map split: sum.split cas_outcome.split intro!: gwp_put_if_revision
         elim!: gwp_mono split del: if_split)
qed

lemma guarded_ceremony_ops:
  "p \<in> ceremony_ops X G \<Longrightarrow> guarded X (ceremony_ini X) (ceremony_upd X) p {}"
proof (induction rule: ceremony_ops.induct)
  case (op_begin S proposal participant tenant key request now)
  then show ?case by (simp add: gwp_map guarded_begin)
next
  case (op_claim cid claim S now)
  then show ?case
    by (auto simp: gwp_map gwp_try claim_ceremony_store_def intro!: guarded_cas_retry guarded_claim_attempt
        split: sum.split)
next
  case (op_complete cid verified S now)
  then show ?case
    by (auto simp: gwp_map gwp_try complete_verified_store_def intro!: guarded_cas_retry guarded_complete_attempt
        split: sum.split)
qed

interpretation ceremony_protocol: cas_protocol X "ceremony_ini X" "ceremony_upd X" "ceremony_ops X G" for X G
  by unfold_locales (rule guarded_ceremony_ops)

section \<open>Stored records follow the life cycle\<close>

definition ceremony_le :: "externals \<Rightarrow> string \<Rightarrow> string \<Rightarrow> string \<Rightarrow> bool" where
  "ceremony_le X path raw raw' \<longleftrightarrow>
     (externals_ok X \<longrightarrow>
        raw' = raw
      \<or> (\<exists>r r'. raw_ceremony X raw = Some r \<and> raw_ceremony X raw' = Some r' \<and> (sound_step X)\<^sup>*\<^sup>* r r'))"

lemma ceremony_le_trans:
  "ceremony_le X path raw raw' \<Longrightarrow> ceremony_le X path raw' raw'' \<Longrightarrow> ceremony_le X path raw raw''"
  unfolding ceremony_le_def by (auto dest: rtranclp_trans)

lemma ceremony_upd_le:
  assumes "json_from_str X raw = Some v0" "ceremony_upd X path v0 v"
  shows "ceremony_le X path raw (json_to_string X v)"
  unfolding ceremony_le_def
proof
  assume X: "externals_ok X"
  from assms(2) obtain r r' where "ceremony_from_json v0 = Some r" "v = ceremony_to_json r'" "sound_step X r r'"
    unfolding ceremony_upd_def by blast
  then have "raw_ceremony X raw = Some r" "raw_ceremony X (json_to_string X v) = Some r'"
    "(sound_step X)\<^sup>*\<^sup>* r r'"
    using assms(1) X by (simp_all add: raw_ceremony_def externals_okD r_into_rtranclp)
  then show "json_to_string X v = raw \<or> (\<exists>r r'. raw_ceremony X raw = Some r
      \<and> raw_ceremony X (json_to_string X v) = Some r' \<and> (sound_step X)\<^sup>*\<^sup>* r r')"
    by blast
qed

interpretation ceremony_evolution:
  cas_evolution X "ceremony_ini X" "ceremony_upd X" "ceremony_ops X G" "ceremony_le X" for X G
proof unfold_locales
  show "ceremony_le X path raw raw" for path raw by (simp add: ceremony_le_def)
qed (auto intro: ceremony_le_trans ceremony_upd_le)

lemma ceremony_entry_evolves:
  assumes "externals_ok X" "kv_contract X server" "revs_positive \<sigma>"
    and "(sys_step server (ceremony_ops X G))\<^sup>*\<^sup>* (sys_init \<sigma> l0) s" "(sys_step server (ceremony_ops X G))\<^sup>*\<^sup>* s s'"
    and "sys_kv s path = Some (raw, rn)" "raw_ceremony X raw = Some r"
  obtains raw' rn' r' where "sys_kv s' path = Some (raw', rn')" "rn \<le> rn'" "raw_ceremony X raw' = Some r'"
    "(sound_step X)\<^sup>*\<^sup>* r r'"
proof -
  from ceremony_evolution.entry_evolves [OF assms(2-6)] obtain raw' rn' where
    e: "sys_kv s' path = Some (raw', rn')" "rn \<le> rn'" "ceremony_le X path raw raw'"
    by blast
  have "\<exists>r'. raw_ceremony X raw' = Some r' \<and> (sound_step X)\<^sup>*\<^sup>* r r'"
    using e(3) assms(1,7) unfolding ceremony_le_def by auto
  with e that show ?thesis by blast
qed

text \<open>
  C13. Ceremonies are fenced and race-safe: in every interleaving of begins, claims and completions by any
  number of replicas with any configurations, a stored sound record stays stored and sound; its
  binding, binding hash and challenge never change; its fencing token never decreases and a
  token never changes hands; it never returns to pending; and a completed record never changes again.
\<close>
theorem ceremony_race_safe:
  assumes "externals_ok X" and "kv_contract X server" and "revs_positive \<sigma>"
    and "(sys_step server (ceremony_ops X G))\<^sup>*\<^sup>* (sys_init \<sigma> l0) s"
    and "(sys_step server (ceremony_ops X G))\<^sup>*\<^sup>* s s'"
    and "sys_kv s (ceremony_path cid) = Some (raw, rn)" and "raw_ceremony X raw = Some r"
    and "validate_integrity X r cid = Inr ()"
  shows "\<exists>raw' rn' r'. sys_kv s' (ceremony_path cid) = Some (raw', rn') \<and> rn \<le> rn'
    \<and> raw_ceremony X raw' = Some r' \<and> validate_integrity X r' cid = Inr ()
    \<and> cr_binding r' = cr_binding r \<and> cr_binding_hash r' = cr_binding_hash r
    \<and> cr_challenge_hash r' = cr_challenge_hash r \<and> cr_fencing_token r \<le> cr_fencing_token r'
    \<and> (cr_fencing_token r' = cr_fencing_token r \<longrightarrow> cr_claim_id r' = cr_claim_id r)
    \<and> (cr_status r' = Pending \<longrightarrow> r' = r) \<and> (cr_status r = Completed \<longrightarrow> r' = r)"
proof -
  obtain raw' rn' r' where e: "sys_kv s' (ceremony_path cid) = Some (raw', rn')" "rn \<le> rn'"
    "raw_ceremony X raw' = Some r'" "(sound_step X)\<^sup>*\<^sup>* r r'"
    by (rule ceremony_entry_evolves [OF assms(1-7)])
  from validate_integrity_id [of X r cid] assms(8) have r: "cr_ceremony_id r = cid" "sound X r" by blast+
  from sound_steps_follow [OF e(4) r(2)] have r': "sound X r'" and f: "follows_on r r'" by blast+
  with r(1) have "cr_ceremony_id r' = cid" by (simp add: follows_on_def)
  with r' have "validate_integrity X r' cid = Inr ()" by simp
  with e f show ?thesis unfolding follows_on_def by blast
qed

section \<open>Reported completions are in the store\<close>

definition completed_in :: "externals \<Rightarrow> string \<Rightarrow> terminal_verification \<Rightarrow> kv_view \<Rightarrow> bool" where
  "completed_in X cid t \<sigma> \<longleftrightarrow>
     (\<exists>raw rn r. \<sigma> (ceremony_path cid) = Some (raw, rn) \<and> raw_ceremony X raw = Some r
        \<and> validate_integrity X r cid = Inr () \<and> cr_status r = Completed \<and> cr_terminal r = Some t)"

definition completion_backed :: "externals \<Rightarrow> server \<Rightarrow> ceremony_result \<Rightarrow> kv_view \<Rightarrow> bool" where
  "completion_backed X server res \<sigma> \<longleftrightarrow>
     (externals_ok X \<and> kv_contract X server \<longrightarrow>
        (\<forall>cid request resp. res = CompletedResult cid request (Inr resp) \<longrightarrow>
           completed_in X cid (vp_terminal resp) \<sigma>
         \<and> tv_assertion_receipt_hash (vp_terminal resp) = Some (vq_assertion_receipt_hash request)))"

definition ceremony_reach ::
  "externals \<Rightarrow> gov_lib \<Rightarrow> server \<Rightarrow> ('c, ceremony_result) sys \<Rightarrow> bool" where
  "ceremony_reach X G server s \<longleftrightarrow>
     (\<exists>\<sigma> l. revs_positive \<sigma> \<and> (sys_step server (ceremony_ops X G))\<^sup>*\<^sup>* (sys_init \<sigma> l) s)"

lemma completed_in_stable:
  assumes "externals_ok X" "kv_contract X server" "ceremony_reach X G server s"
    and "(sys_step server (ceremony_ops X G))\<^sup>*\<^sup>* s s'" "completed_in X cid t (sys_kv s)"
  shows "completed_in X cid t (sys_kv s')"
proof -
  from assms(3) obtain \<sigma> l where reach: "revs_positive \<sigma>" "(sys_step server (ceremony_ops X G))\<^sup>*\<^sup>* (sys_init \<sigma> l) s"
    by (auto simp: ceremony_reach_def)
  from assms(5) obtain raw rn r where r: "sys_kv s (ceremony_path cid) = Some (raw, rn)" "raw_ceremony X raw = Some r"
    "validate_integrity X r cid = Inr ()" "cr_status r = Completed" "cr_terminal r = Some t"
    by (auto simp: completed_in_def)
  obtain raw' rn' r' where e: "sys_kv s' (ceremony_path cid) = Some (raw', rn')" "raw_ceremony X raw' = Some r'"
    "(sound_step X)\<^sup>*\<^sup>* r r'"
    by (rule ceremony_entry_evolves [OF assms(1,2) reach assms(4) r(1,2)])
  from r(3) validate_integrity_id [of X r cid] have "sound X r" by blast
  from sound_steps_follow(2) [OF e(3) this] r(4) have "r' = r" by (simp add: follows_on_def)
  with e r show ?thesis by (auto simp: completed_in_def)
qed

lemma bwp_with_record:
  assumes "kv_contract X server" and "\<And>e \<sigma>. Q (Some (Inl e)) \<sigma>"
    and "\<And>\<sigma> raw rn r. \<sigma> (ceremony_path cid) = Some (raw, rn) \<Longrightarrow> raw_ceremony X raw = Some r \<Longrightarrow>
           validate_integrity X r cid = Inr () \<Longrightarrow> bwp server I Q (act r rn) \<sigma>"
  shows "bwp server I Q (with_record X G S cid tenant participant act) \<sigma>0"
  unfolding with_record_def bwp_bind
proof (rule bwp_get_versioned [OF assms(1)])
  fix \<sigma> e
  assume "reads X (\<sigma> (ceremony_path cid)) e"
  moreover have "bwp server I Q (act r (vv_mod_revision vv)) \<sigma>"
    if "\<sigma> (ceremony_path cid) = Some (raw, vv_mod_revision vv)" "json_from_str X raw = Some (vv_value vv)"
      "read_record X G (ct_config S) cid (vv_value vv) = Inr r" for raw vv r
  proof (rule assms(3) [where \<sigma> = \<sigma> and raw = raw and rn = "vv_mod_revision vv"])
    show "\<sigma> (ceremony_path cid) = Some (raw, vv_mod_revision vv)" by (rule that(1))
    from read_record_sound [OF that(3)] that(2) show "raw_ceremony X raw = Some r" "validate_integrity X r cid = Inr ()"
      by (auto simp: raw_ceremony_def)
  qed
  ultimately show "bwp server I Q (case Inr e of
      Inl e \<Rightarrow> Done (Some (Inl (CeStore e)))
    | Inr None \<Rightarrow> Done (Some (Inl CeNotFound))
    | Inr (Some versioned) \<Rightarrow>
        (case rbind (read_record X G (ct_config S) cid (vv_value versioned)) (\<lambda>r.
                rbind (validate_identity r tenant participant) (\<lambda>_. Inr r)) of
           Inl e \<Rightarrow> Done (Some (Inl e))
         | Inr r \<Rightarrow> act r (vv_mod_revision versioned))) \<sigma>"
    by (auto simp: reads_def assms(2) rbind_eq_Inr split: sum.split option.splits)
qed (simp add: assms(2))

definition attempt_backed ::
  "externals \<Rightarrow> string \<Rightarrow> string \<Rightarrow> (ceremony_error + complete_verified_response) option \<Rightarrow> kv_view \<Rightarrow> bool" where
  "attempt_backed X cid receipt res \<sigma> \<longleftrightarrow>
     (\<forall>resp. res = Some (Inr resp) \<longrightarrow>
        completed_in X cid (vp_terminal resp) \<sigma> \<and> tv_assertion_receipt_hash (vp_terminal resp) = Some receipt)"

lemma attempt_backed_simps [simp]:
  "attempt_backed X cid receipt None \<sigma>" "attempt_backed X cid receipt (Some (Inl e)) \<sigma>"
  "attempt_backed X cid receipt (Some (Inr resp)) \<sigma> \<longleftrightarrow>
     completed_in X cid (vp_terminal resp) \<sigma> \<and> tv_assertion_receipt_hash (vp_terminal resp) = Some receipt"
  by (simp_all add: attempt_backed_def)

lemma bwp_complete_attempt:
  assumes "externals_ok X" "kv_contract X server"
  shows "bwp server I (attempt_backed X cid (vq_assertion_receipt_hash verified))
    (complete_attempt X G S cid verified now) \<sigma>0"
  (is "bwp server I ?Q _ _")
  unfolding complete_attempt_def
proof (rule bwp_with_record [OF assms(2)])
  fix \<sigma> :: kv_view and raw rn r
  assume entry: "\<sigma> (ceremony_path cid) = Some (raw, rn)" "raw_ceremony X raw = Some r"
    and int: "validate_integrity X r cid = Inr ()"
  have replay: "?Q (Some (Inr \<lparr>vp_ceremony_id = cid, vp_status = Completed, vp_terminal = t, vp_replayed = True\<rparr>)) \<sigma>"
    if "cr_terminal r = Some t" "tv_assertion_receipt_hash t = Some (vq_assertion_receipt_hash verified)" for t
  proof -
    from int validate_integrity_id [of X r cid] have "sound X r" by blast
    with that(1) have "cr_status r = Completed" using sound_terminal_iff by blast
    with that entry int show ?thesis by (auto simp: completed_in_def)
  qed
  have written: "bwp server I ?Q (write_checked X G S cid r' rn
      (Inr \<lparr>vp_ceremony_id = cid, vp_status = Completed, vp_terminal = t, vp_replayed = False\<rparr>)) \<sigma>"
    if "complete_record X r verified now = Inr r'" "cr_terminal r' = Some t"
      "validate_record_against_config X G r' (ct_config S) cid = Inr ()" for r' t
  proof -
    note c = complete_record_refines(2,4) [OF that(1)] and v = checked_is_sound [OF that(3)]
    have "completed_in X cid t \<sigma>'" if "\<sigma>' (ceremony_path cid) = Some (json_to_string X (ceremony_to_json r'), rv)" for \<sigma>' rv
      using that c v \<open>cr_terminal r' = Some t\<close> assms(1) by (auto simp: completed_in_def)
    then show ?thesis
      unfolding write_checked_def bwp_bind
      using c that(2) by (intro bwp_put_if_revision [OF assms(2)]) auto
  qed
  show "bwp server I ?Q
     (case cr_terminal r of
         Some terminal \<Rightarrow>
           Done (Some
             (if tv_outcome terminal = Completed
                 \<and> tv_assertion_receipt_hash terminal = Some (vq_assertion_receipt_hash verified)
              then Inr \<lparr>vp_ceremony_id = cid, vp_status = Completed, vp_terminal = terminal, vp_replayed = True\<rparr>
              else Inl CeConflict))
       | None \<Rightarrow>
           if ab_expires_at_ms (cr_binding r) \<le> now then Done (Some (Inl CeExpired))
           else
             (case complete_record X r verified now of
                Inl e \<Rightarrow> Done (Some (Inl e))
              | Inr candidate \<Rightarrow>
                  (case rbind (validate_record_against_config X G candidate (ct_config S) cid) (\<lambda>_.
                          ok_or (cr_terminal candidate) (CeInvalidRequest ''terminal result missing'')) of
                     Inl e \<Rightarrow> Done (Some (Inl e))
                   | Inr terminal \<Rightarrow>
                       write_checked X G S cid candidate rn
                         (Inr \<lparr>vp_ceremony_id = cid, vp_status = Completed, vp_terminal = terminal,
                               vp_replayed = False\<rparr>)))) \<sigma>"
    using replay written by (auto simp: rbind_eq_Inr ok_or_eq_Inr split: option.split sum.split)
qed simp

lemma completion_ops_backed:
  assumes "p \<in> ceremony_ops X G"
  shows "bwp server (\<lambda>_. True) (completion_backed X server) p \<sigma>"
proof (cases "externals_ok X \<and> kv_contract X server")
  case False
  then show ?thesis by (intro bwp_always) (auto simp: completion_backed_def)
next
  case True
  then have ok: "externals_ok X" "kv_contract X server" by simp_all
  from assms show ?thesis
  proof cases
    case (op_complete cid verified S now)
    let ?Q = "\<lambda>res \<sigma>. completion_backed X server (CompletedResult cid verified res) \<sigma>"
    have err [simp]: "?Q (Inl e) \<sigma>" for e \<sigma> by (simp add: completion_backed_def)
    have "bwp server (\<lambda>_. True) ?Q (cas_retry MAX_CAS_ATTEMPTS (Inl CeCasRetriesExhausted)
        (complete_attempt X G S cid verified now)) \<sigma>"
    proof (rule bwp_cas_retry)
      show "bwp server (\<lambda>_. True) (\<lambda>r \<sigma>. case r of Some x \<Rightarrow> ?Q x \<sigma> | None \<Rightarrow> True)
          (complete_attempt X G S cid verified now) \<sigma>" for \<sigma>
        using bwp_complete_attempt [OF ok]
        by (rule bwp_mono) (auto simp: completion_backed_def attempt_backed_def split: option.splits)
    qed simp
    then show ?thesis
      unfolding op_complete by (auto simp: bwp_map complete_verified_store_def bwp_try split: sum.split)
  qed (simp_all add: bwp_map, auto intro!: bwp_always simp: completion_backed_def)
qed

interpretation ceremony_results:
  stable_results server "ceremony_ops X G" "ceremony_reach X G server" "\<lambda>_. True" "completion_backed X server"
  for X G server
proof unfold_locales
  fix s s' :: "('c, ceremony_result) sys"
  assume r: "ceremony_reach X G server s" and step: "sys_step server (ceremony_ops X G) s s'"
  then show "ceremony_reach X G server s'"
    unfolding ceremony_reach_def by (meson rtranclp.rtrancl_into_rtrancl)
  show "completion_backed X server x (sys_kv s')" if "completion_backed X server x (sys_kv s)" for x
    using that completed_in_stable [OF _ _ r r_into_rtranclp [where r = "sys_step server (ceremony_ops X G)", OF step]] by (auto simp: completion_backed_def)
qed (auto intro: completion_ops_backed)

text \<open>
  C14. A ceremony has one outcome: whenever a completion has been reported as recorded, by any replica and in
  any interleaving, the store holds that very result, for good; every other completion of the
  same ceremony that is ever reported, then or later, carries the same result and was
  submitted with the same receipt.
\<close>
theorem completion_is_unique:
  assumes "externals_ok X" and "kv_contract X server" and "revs_positive \<sigma>"
    and "(sys_step server (ceremony_ops X G))\<^sup>*\<^sup>* (sys_init \<sigma> l0) s"
    and "(sys_step server (ceremony_ops X G))\<^sup>*\<^sup>* s s'"
    and "sys_threads s t = Some (i, Done (CompletedResult cid request (Inr resp)))"
    and "sys_threads s' t' = Some (i', Done (CompletedResult cid request' (Inr resp')))"
  shows "vp_terminal resp' = vp_terminal resp
       \<and> vq_assertion_receipt_hash request' = vq_assertion_receipt_hash request
       \<and> completed_in X cid (vp_terminal resp) (sys_kv s')"
proof -
  have reach: "ceremony_reach X G server (sys_init \<sigma> l0)" "ceremony_reach X G server s"
    using assms(3,4) unfolding ceremony_reach_def by blast+
  have none: "sys_threads (sys_init \<sigma> l0) = (\<lambda>_. None)" by (simp add: sys_init_def)
  from ceremony_results.finished_backed [OF assms(4) reach(1) none assms(6)] assms(1,2)
  have a: "completed_in X cid (vp_terminal resp) (sys_kv s)"
    "tv_assertion_receipt_hash (vp_terminal resp) = Some (vq_assertion_receipt_hash request)"
    by (simp_all add: completion_backed_def)
  from ceremony_results.finished_backed [OF rtranclp_trans [OF assms(4,5)] reach(1) none assms(7)] assms(1,2)
  have b: "completed_in X cid (vp_terminal resp') (sys_kv s')"
    "tv_assertion_receipt_hash (vp_terminal resp') = Some (vq_assertion_receipt_hash request')"
    by (simp_all add: completion_backed_def)
  have c: "completed_in X cid (vp_terminal resp) (sys_kv s')"
    using completed_in_stable [OF assms(1,2) reach(2) assms(5) a(1)] .
  with b(1) have "vp_terminal resp' = vp_terminal resp" by (auto simp: completed_in_def)
  with a b c show ?thesis by simp
qed

section \<open>Fencing\<close>

text \<open>\<open>outranked r claim_id token\<close>: the record is at a higher token, or at this token in other hands.\<close>

definition outranked :: "ceremony_record \<Rightarrow> string \<Rightarrow> u64 \<Rightarrow> bool" where
  "outranked r claim_id token \<longleftrightarrow>
     token < cr_fencing_token r \<or> token = cr_fencing_token r \<and> cr_claim_id r \<noteq> Some claim_id"

lemma outranked_follows: "outranked r claim_id token \<Longrightarrow> follows_on r r' \<Longrightarrow> outranked r' claim_id token"
proof -
  assume o: "outranked r claim_id token" and f: "follows_on r r'"
  show ?thesis
  proof (cases "cr_fencing_token r' = cr_fencing_token r")
    case True
    with o f show ?thesis by (simp add: outranked_def follows_on_def)
  next
    case False
    moreover from f have "cr_fencing_token r \<le> cr_fencing_token r'" by (simp only: follows_on_def)
    ultimately have "cr_fencing_token r < cr_fencing_token r'" by simp
    with o show ?thesis unfolding outranked_def by auto
  qed
qed

lemma outranked_cannot_complete:
  "outranked r (vq_claim_id request) (vq_fencing_token request) \<Longrightarrow> complete_record X r request now \<noteq> Inr r'"
  by (auto simp: outranked_def complete_record_def split: if_splits)

lemma outranked_cannot_claim:
  assumes "sound X r" "outranked r claim_id token" "token \<noteq> 0"
  shows "claim_record r claim_id token now \<noteq> Inr x"
proof (cases rule: sound_status_cases [OF assms(1)])
  case 1
  with sound_Pending [OF assms(1) 1] assms(2,3) show ?thesis by (simp add: outranked_def)
next
  case 2
  with assms(2) show ?thesis by (auto simp: outranked_def claim_record_def)
next
  case 3
  then show ?thesis by (simp add: claim_record_def)
qed

definition held_from :: "externals \<Rightarrow> string \<Rightarrow> ceremony_record \<Rightarrow> kv_view \<Rightarrow> bool" where
  "held_from X cid r \<sigma> \<longleftrightarrow>
     (\<exists>raw rn r'. \<sigma> (ceremony_path cid) = Some (raw, rn) \<and> raw_ceremony X raw = Some r' \<and> follows_on r r')"

lemma rwp_with_record:
  assumes "kv_contract X server" and "\<And>e. Q (Some (Inl e))"
    and "\<And>r' rn. follows_on r r' \<Longrightarrow> sound X r' \<Longrightarrow> rwp server (held_from X cid r) Q (act r' rn)"
  shows "rwp server (held_from X cid r) Q (with_record X G S cid tenant participant act)"
  unfolding with_record_def rwp_bind
proof (rule rwp_get_versioned [OF assms(1)])
  fix \<sigma> e
  assume "held_from X cid r \<sigma>" "reads X (\<sigma> (ceremony_path cid)) e"
  moreover have "rwp server (held_from X cid r) Q (act r' (vv_mod_revision vv))"
    if "held_from X cid r \<sigma>" "\<sigma> (ceremony_path cid) = Some (raw, vv_mod_revision vv)"
      "json_from_str X raw = Some (vv_value vv)" "read_record X G (ct_config S) cid (vv_value vv) = Inr r'" for raw vv r'
  proof (rule assms(3))
    from read_record_sound [OF that(4)] have v: "ceremony_from_json (vv_value vv) = Some r'" "cr_ceremony_id r' = cid" "sound X r'"
      by blast+
    then show "sound X r'" by blast
    from that(1-3) v(1) show "follows_on r r'" by (auto simp: held_from_def raw_ceremony_def)
  qed
  ultimately show "rwp server (held_from X cid r) Q (case Inr e of
      Inl e \<Rightarrow> Done (Some (Inl (CeStore e)))
    | Inr None \<Rightarrow> Done (Some (Inl CeNotFound))
    | Inr (Some versioned) \<Rightarrow>
        (case rbind (read_record X G (ct_config S) cid (vv_value versioned)) (\<lambda>r.
                rbind (validate_identity r tenant participant) (\<lambda>_. Inr r)) of
           Inl e \<Rightarrow> Done (Some (Inl e))
         | Inr r \<Rightarrow> act r (vv_mod_revision versioned)))"
    by (auto simp: reads_def assms(2) rbind_eq_Inr split: sum.split option.splits)
qed (simp add: assms(2))

lemma rwp_cas_retry:
  assumes "rwp server I (\<lambda>r. case r of Some x \<Rightarrow> Q x | None \<Rightarrow> True) body" "Q exhausted"
  shows "rwp server I Q (cas_retry n exhausted body)"
proof (induction n)
  case (Suc n)
  show ?case
    unfolding cas_retry.simps rwp_bind using assms(1)
    by (rule rwp_mono) (auto split: option.splits simp: Suc)
qed (simp add: assms(2))

definition only_replays_completion :: "ceremony_error + complete_verified_response \<Rightarrow> bool" where
  "only_replays_completion res \<longleftrightarrow> (\<forall>resp. res = Inr resp \<longrightarrow> vp_replayed resp)"

definition only_reports_outcome :: "ceremony_error + claim_response \<Rightarrow> bool" where
  "only_reports_outcome res \<longleftrightarrow> (\<forall>resp. res = Inr resp \<longrightarrow> cp_replayed resp \<and> cp_status resp = Completed)"

lemma only_simps [simp]:
  "only_replays_completion (Inl e)" "only_reports_outcome (Inl e)"
  "only_replays_completion (Inr vresp) \<longleftrightarrow> vp_replayed vresp"
  "only_reports_outcome (Inr cresp) \<longleftrightarrow> cp_replayed cresp \<and> cp_status cresp = Completed"
  by (auto simp: only_replays_completion_def only_reports_outcome_def)

lemma rwp_outranked_complete:
  assumes "kv_contract X server" "outranked r (vq_claim_id verified) (vq_fencing_token verified)"
  shows "rwp server (held_from X cid r) only_replays_completion (complete_verified_store X G S cid verified now)"
proof -
  have "rwp server (held_from X cid r) (\<lambda>res. case res of Some x \<Rightarrow> only_replays_completion x | None \<Rightarrow> True)
      (complete_attempt X G S cid verified now)"
    unfolding complete_attempt_def
  proof (rule rwp_with_record [OF assms(1)])
    fix r' rn assume "follows_on r r'"
    then have "complete_record X r' verified now \<noteq> Inr candidate" for candidate
      using outranked_cannot_complete [OF outranked_follows [OF assms(2)]] by blast
    then obtain e where e: "complete_record X r' verified now = Inl e" by (cases "complete_record X r' verified now") auto
    show "rwp server (held_from X cid r) (\<lambda>res. case res of Some x \<Rightarrow> only_replays_completion x | None \<Rightarrow> True)
     (case cr_terminal r' of
         Some terminal \<Rightarrow>
           Done (Some
             (if tv_outcome terminal = Completed
                 \<and> tv_assertion_receipt_hash terminal = Some (vq_assertion_receipt_hash verified)
              then Inr \<lparr>vp_ceremony_id = cid, vp_status = Completed, vp_terminal = terminal, vp_replayed = True\<rparr>
              else Inl CeConflict))
       | None \<Rightarrow>
           if ab_expires_at_ms (cr_binding r') \<le> now then Done (Some (Inl CeExpired))
           else
             (case complete_record X r' verified now of
                Inl e \<Rightarrow> Done (Some (Inl e))
              | Inr candidate \<Rightarrow>
                  (case rbind (validate_record_against_config X G candidate (ct_config S) cid) (\<lambda>_.
                          ok_or (cr_terminal candidate) (CeInvalidRequest ''terminal result missing'')) of
                     Inl e \<Rightarrow> Done (Some (Inl e))
                   | Inr terminal \<Rightarrow>
                       write_checked X G S cid candidate rn
                         (Inr \<lparr>vp_ceremony_id = cid, vp_status = Completed, vp_terminal = terminal,
                               vp_replayed = False\<rparr>))))"
      by (simp add: e split: option.split)
  qed simp
  then show ?thesis
    unfolding complete_verified_store_def by (auto simp: rwp_try split: sum.split intro!: rwp_cas_retry)
qed

lemma rwp_outranked_claim:
  assumes "kv_contract X server" "outranked r (cq_claim_id claim) (cq_fencing_token claim)"
  shows "rwp server (held_from X cid r) only_reports_outcome (claim_ceremony_store X G S cid claim now)"
proof -
  have "rwp server (held_from X cid r) (\<lambda>res. case res of Some x \<Rightarrow> only_reports_outcome x | None \<Rightarrow> True)
      (claim_attempt X G S cid claim now)" if tok: "cq_fencing_token claim \<noteq> 0"
    unfolding claim_attempt_def
  proof (rule rwp_with_record [OF assms(1)])
    fix r' rn assume f: "follows_on r r'" and s: "sound X r'"
    have "claim_record r' (cq_claim_id claim) (cq_fencing_token claim) now \<noteq> Inr x" for x
      using outranked_cannot_claim [OF s outranked_follows [OF assms(2) f] tok] .
    then obtain e where e: "claim_record r' (cq_claim_id claim) (cq_fencing_token claim) now = Inl e"
      by (cases "claim_record r' (cq_claim_id claim) (cq_fencing_token claim) now") auto
    have "tv_outcome t = Completed" if "cr_terminal r' = Some t" for t
      using that sound_terminal_iff [OF s] sound_Completed(2) [OF s] by auto
    then show "rwp server (held_from X cid r) (\<lambda>res. case res of Some x \<Rightarrow> only_reports_outcome x | None \<Rightarrow> True)
     (if ab_expires_at_ms (cr_binding r') \<le> now then Done (Some (Inl CeExpired))
       else
         case cr_terminal r' of
           Some terminal \<Rightarrow>
             Done (Some (Inr \<lparr>cp_ceremony_id = cid, cp_status = tv_outcome terminal,
               cp_fencing_token = cr_fencing_token r', cp_replayed = True, cp_taken_over = False\<rparr>))
         | None \<Rightarrow>
             (case claim_record r' (cq_claim_id claim) (cq_fencing_token claim) now of
                Inl e \<Rightarrow> Done (Some (Inl e))
              | Inr (candidate, replayed, taken_over) \<Rightarrow>
                  (case validate_record_against_config X G candidate (ct_config S) cid of
                     Inl e \<Rightarrow> Done (Some (Inl e))
                   | Inr _ \<Rightarrow>
                       if replayed
                       then Done (Some (Inr \<lparr>cp_ceremony_id = cid, cp_status = cr_status candidate,
                              cp_fencing_token = cr_fencing_token candidate, cp_replayed = True,
                              cp_taken_over = taken_over\<rparr>))
                       else write_checked X G S cid candidate rn
                              (Inr \<lparr>cp_ceremony_id = cid, cp_status = cr_status candidate,
                                cp_fencing_token = cr_fencing_token candidate, cp_replayed = False,
                                cp_taken_over = taken_over\<rparr>))))"
      by (simp add: e split: option.split)
  qed simp
  then show ?thesis
    unfolding claim_ceremony_store_def by (auto simp: rwp_try split: sum.split intro!: rwp_cas_retry)
qed

definition fenced_result :: "string \<Rightarrow> ceremony_record \<Rightarrow> ceremony_result \<Rightarrow> bool" where
  "fenced_result cid r res \<longleftrightarrow>
     (\<forall>request outcome. res = CompletedResult cid request outcome
        \<and> outranked r (vq_claim_id request) (vq_fencing_token request) \<longrightarrow> only_replays_completion outcome)
   \<and> (\<forall>request outcome. res = ClaimedResult cid request outcome
        \<and> outranked r (cq_claim_id request) (cq_fencing_token request) \<longrightarrow> only_reports_outcome outcome)"

lemma rwp_fenced_ops:
  assumes "kv_contract X server" "p \<in> ceremony_ops X G"
  shows "rwp server (held_from X cid r) (fenced_result cid r) p"
  using assms(2)
proof cases
  case op_begin
  then show ?thesis by (simp add: rwp_map) (auto intro!: rwp_always simp: fenced_result_def)
next
  case (op_claim cid' claim S now)
  show ?thesis
  proof (cases "cid' = cid \<and> outranked r (cq_claim_id claim) (cq_fencing_token claim)")
    case True
    then show ?thesis
      using rwp_outranked_claim [OF assms(1)] unfolding op_claim
      by (auto simp: rwp_map fenced_result_def elim!: rwp_mono)
  next
    case False
    then show ?thesis unfolding op_claim rwp_map by (intro rwp_always) (auto simp: fenced_result_def)
  qed
next
  case (op_complete cid' verified S now)
  show ?thesis
  proof (cases "cid' = cid \<and> outranked r (vq_claim_id verified) (vq_fencing_token verified)")
    case True
    then show ?thesis
      using rwp_outranked_complete [OF assms(1)] unfolding op_complete
      by (auto simp: rwp_map fenced_result_def elim!: rwp_mono)
  next
    case False
    then show ?thesis unfolding op_complete rwp_map by (intro rwp_always) (auto simp: fenced_result_def)
  qed
qed

text \<open>
  C15. A worker that lost its claim is fenced off: once the store holds a ceremony under some fencing
  token, a claim or completion that starts later with a lower token, or with that token under another
  claim, never takes effect, in any interleaving; at most it is told the outcome that another
  worker has already recorded.
\<close>
theorem stale_workers_are_fenced:
  fixes s s' :: "('c, ceremony_result) sys"
  assumes "externals_ok X" and "kv_contract X server" and "revs_positive \<sigma>"
    and "(sys_step server (ceremony_ops X G))\<^sup>*\<^sup>* (sys_init \<sigma> l0) s"
    and "sys_kv s (ceremony_path cid) = Some (raw, rn)" and "raw_ceremony X raw = Some r"
    and "validate_integrity X r cid = Inr ()" and "sys_threads s t = None"
    and "(sys_step server (ceremony_ops X G))\<^sup>*\<^sup>* s s'"
  shows "(\<forall>i request resp. sys_threads s' t = Some (i, Done (CompletedResult cid request (Inr resp)))
            \<and> (vq_fencing_token request < cr_fencing_token r
               \<or> vq_fencing_token request = cr_fencing_token r \<and> cr_claim_id r \<noteq> Some (vq_claim_id request))
            \<longrightarrow> vp_replayed resp)
       \<and> (\<forall>i request resp. sys_threads s' t = Some (i, Done (ClaimedResult cid request (Inr resp)))
            \<and> (cq_fencing_token request < cr_fencing_token r
               \<or> cq_fencing_token request = cr_fencing_token r \<and> cr_claim_id r \<noteq> Some (cq_claim_id request))
            \<longrightarrow> cp_replayed resp \<and> cp_status resp = Completed)"
proof -
  have held: "held_from X cid r (sys_kv u)" if steps: "(sys_step server (ceremony_ops X G))\<^sup>*\<^sup>* s u" for u
  proof -
    obtain raw' rn' r' where e: "sys_kv u (ceremony_path cid) = Some (raw', rn')" "raw_ceremony X raw' = Some r'"
      "(sound_step X)\<^sup>*\<^sup>* r r'"
      by (rule ceremony_entry_evolves [OF assms(1-4) steps assms(5,6)])
    from assms(7) validate_integrity_id [of X r cid] have "sound X r" by blast
    from sound_steps_follow(2) [OF e(3) this] e(1,2) show ?thesis unfolding held_from_def by blast
  qed
  have res: "fenced_result cid r res" if "sys_threads s' t = Some (i, Done res)" for i res
  proof -
    have "rwp server (held_from X cid r) (fenced_result cid r) (Done res :: ('c, ceremony_result) eff)"
      by (rule rely_thread [where I = "held_from X cid r" and Q = "fenced_result cid r", OF assms(9) _ _ _ that])
         (use held assms(8) rwp_fenced_ops [OF assms(2)] in auto)
    then show ?thesis by simp
  qed
  show ?thesis
    using res by (force simp: fenced_result_def outranked_def)
qed

end
