(* ===== verification/Ceremony_Flow.thy ===== *)
theory Ceremony_Flow
  imports Ceremony_Race
begin

text \<open>
  What one caller of the ceremony store gets on a service that answers every exchange: exactly when a
  completion is accepted and what it stores, what begin does the first time and when it is repeated,
  and the whole way from begin over claim to the recorded result.
\<close>

section \<open>Sound records, field by field\<close>

definition header_sound :: "externals \<Rightarrow> ceremony_record \<Rightarrow> string \<Rightarrow> bool" where
  "header_sound X r cid \<longleftrightarrow>
     validate_ceremony_id cid = Inr () \<and> cr_ceremony_id r = cid \<and> cr_contract_version r = CONTRACT_VERSION
   \<and> cr_object_kind r = OBJECT_KIND
   \<and> (\<forall>h\<in>{ab_canonical_proposal_hash (cr_binding r), ab_policy_hash (cr_binding r), cr_binding_hash r,
        cr_challenge_hash r}. validate_canonical_sha256_urn h = Inr ())
   \<and> ab_created_at_ms (cr_binding r) \<noteq> 0 \<and> ab_created_at_ms (cr_binding r) \<le> ab_expires_at_ms (cr_binding r)
   \<and> 60000 \<le> ab_expires_at_ms (cr_binding r) - ab_created_at_ms (cr_binding r)
   \<and> ab_expires_at_ms (cr_binding r) - ab_created_at_ms (cr_binding r) \<le> 900000
   \<and> binding_hash X (cr_binding r) = Inr (cr_binding_hash r)"

definition fits_config :: "externals \<Rightarrow> gov_lib \<Rightarrow> ceremony_record \<Rightarrow> governance_config \<Rightarrow> string \<Rightarrow> bool" where
  "fits_config X G r config cid \<longleftrightarrow>
     gc_enabled config \<and> ab_tenant_id (cr_binding r) \<in> gc_allowed_tenants config
   \<and> gc_rp_id config = Some (ab_rp_id (cr_binding r)) \<and> gc_origin config = Some (ab_origin (cr_binding r))
   \<and> (\<exists>secret challenge. gc_ceremony_secret config = Some secret
        \<and> derive_challenge X G secret cid (cr_binding_hash r) = Inr challenge
        \<and> cr_challenge_hash r = sha256_bytes X (as_bytes challenge))"

lemma validate_integrity_iff:
  "validate_integrity X r cid = Inr () \<longleftrightarrow> header_sound X r cid \<and> validate_status X r = Inr ()"
proof -
  have ttl: "MIN_TTL_SECS * 1000 = 60000" "MAX_TTL_SECS * 1000 = 900000"
    by (simp_all add: MIN_TTL_SECS_def MAX_TTL_SECS_def)
  have bv: "binding_validate (cr_binding r) = Inr ()" if "binding_hash X (cr_binding r) = Inr h" for h
    using that by (simp add: binding_hash_def rbind_eq_Inr)
  show ?thesis
    unfolding validate_integrity_def header_sound_def ttl
    by (auto simp: rbind_eq_Inr stored_eq_Inr try_each_eq_Inr ok_or_eq_Inr checked_sub_def
        dest: bv split: if_splits)
qed

lemma validate_record_against_config_iff:
  "validate_record_against_config X G r config cid = Inr () \<longleftrightarrow>
     header_sound X r cid \<and> validate_status X r = Inr () \<and> fits_config X G r config cid"
  unfolding validate_record_against_config_def fits_config_def
  by (auto simp: rbind_eq_Inr stored_eq_Inr ok_or_eq_Inr validate_integrity_iff config_rp_id_def config_origin_def
      config_ceremony_secret_def split: if_splits)

lemma header_sound_moves [simp]:
  "header_sound X (r\<lparr>cr_status := st\<rparr>) cid = header_sound X r cid"
  "header_sound X (r\<lparr>cr_claim_id := c\<rparr>) cid = header_sound X r cid"
  "header_sound X (r\<lparr>cr_fencing_token := k\<rparr>) cid = header_sound X r cid"
  "header_sound X (r\<lparr>cr_claimed_at_ms := a\<rparr>) cid = header_sound X r cid"
  "header_sound X (r\<lparr>cr_terminal := t\<rparr>) cid = header_sound X r cid"
  by (simp_all add: header_sound_def)

lemma fits_config_moves [simp]:
  "fits_config X G (r\<lparr>cr_status := st\<rparr>) config cid = fits_config X G r config cid"
  "fits_config X G (r\<lparr>cr_claim_id := c\<rparr>) config cid = fits_config X G r config cid"
  "fits_config X G (r\<lparr>cr_fencing_token := k\<rparr>) config cid = fits_config X G r config cid"
  "fits_config X G (r\<lparr>cr_claimed_at_ms := a\<rparr>) config cid = fits_config X G r config cid"
  "fits_config X G (r\<lparr>cr_terminal := t\<rparr>) config cid = fits_config X G r config cid"
  by (simp_all add: fits_config_def)

section \<open>One caller\<close>

abbreviation ceremony_text :: "externals \<Rightarrow> ceremony_record \<Rightarrow> string" where
  "ceremony_text X r \<equiv> json_to_string X (ceremony_to_json r)"

lemma run_with_record:
  assumes "kv_reliable X srv" "externals_ok X" "\<sigma> (ceremony_path cid) = Some (ceremony_text X r, rn)"
    and "validate_record_against_config X G r (ct_config S) cid = Inr ()"
  shows "run srv (with_record X G S cid tenant participant act) \<sigma> c =
    (case validate_identity r tenant participant of
       Inl e \<Rightarrow> (Some (Inl e), \<sigma>, c) | Inr _ \<Rightarrow> run srv (act r rn) \<sigma> c)"
  using assms(2-4)
  by (simp add: with_record_def run_bind run_get_versioned [OF assms(1)] read_record_def split: sum.split)

lemma run_write_checked:
  assumes "kv_reliable X srv" "rev_of \<sigma> (ceremony_path cid) = rn"
  obtains rv where "rv \<noteq> 0" "run srv (write_checked X G S cid r rn res) \<sigma> c =
    (Some res, \<sigma>(ceremony_path cid \<mapsto> (ceremony_text X r, rv)), c)"
proof -
  obtain rv where "rv \<noteq> 0" "run srv (put_if_revision X (ct_kv S) (ceremony_path cid) (ceremony_to_json r) rn) \<sigma> c =
    (Inr Applied, \<sigma>(ceremony_path cid \<mapsto> (ceremony_text X r, rv)), c)"
    by (rule run_put_applied [OF assms])
  then show ?thesis by (intro that) (simp_all add: write_checked_def run_bind)
qed

text \<open>What a completion has to bring for a ceremony that is claimed and not yet expired.\<close>

definition completes :: "ceremony_record \<Rightarrow> complete_verified_request \<Rightarrow> u64 \<Rightarrow> bool" where
  "completes r request now \<longleftrightarrow>
     vq_user_verified request
   \<and> vq_tenant_id request = ab_tenant_id (cr_binding r)
   \<and> vq_participant_id request = ab_participant_id (cr_binding r)
   \<and> vq_fencing_token request = cr_fencing_token r \<and> cr_claim_id r = Some (vq_claim_id request)
   \<and> vq_binding_hash request = cr_binding_hash r \<and> vq_challenge_hash request = cr_challenge_hash r
   \<and> vq_credential_generation request = ab_credential_generation (cr_binding r)
   \<and> ab_activation_credential_id (cr_binding r) \<noteq> Some (vq_credential_id request)
   \<and> gov_validate_identifier (vq_credential_id request) = Inr ()
   \<and> validate_canonical_sha256_urn (vq_assertion_receipt_hash request) = Inr ()
   \<and> (\<exists>at. cr_claimed_at_ms r = Some at \<and> at \<le> now)"

definition result_document :: "ceremony_record \<Rightarrow> complete_verified_request \<Rightarrow> u64 \<Rightarrow> terminal_verification \<Rightarrow> bool" where
  "result_document r request now t \<longleftrightarrow>
     tv_outcome t = Completed \<and> tv_reason t = ''verified'' \<and> tv_completed_at_ms t = now
   \<and> tv_assertion_receipt_hash t = Some (vq_assertion_receipt_hash request)
   \<and> tv_credential_id t = Some (vq_credential_id request)
   \<and> tv_credential_generation t = Some (ab_credential_generation (cr_binding r))"

lemma completed_result_hash_moves [simp]:
  "completed_result_hash X (r\<lparr>cr_status := st\<rparr>) = completed_result_hash X r"
  "completed_result_hash X (r\<lparr>cr_terminal := t\<rparr>) = completed_result_hash X r"
  by (simp_all add: completed_result_hash_def fun_eq_iff)

lemma completed_candidate:
  assumes "externals_ok X" "validate_record_against_config X G r config cid = Inr ()" "cr_status r = Claimed"
    and "now < ab_expires_at_ms (cr_binding r)" "completes r request now"
  obtains t where "complete_record X r request now = Inr (r\<lparr>cr_status := Completed, cr_terminal := Some t\<rparr>)"
    "result_document r request now t"
    "validate_record_against_config X G (r\<lparr>cr_status := Completed, cr_terminal := Some t\<rparr>) config cid = Inr ()"
proof -
  obtain h where h: "completed_result_hash X r (vq_credential_id request) (vq_credential_generation request)
      (vq_assertion_receipt_hash request) now = Inr h" and canon: "validate_canonical_sha256_urn h = Inr ()"
    using assms(1) by (simp add: completed_result_hash_def sha256_json_def Let_def)
  let ?t = "\<lparr>tv_outcome = Completed, tv_reason = ''verified'',
       tv_assertion_receipt_hash = Some (vq_assertion_receipt_hash request),
       tv_credential_id = Some (vq_credential_id request),
       tv_credential_generation = Some (vq_credential_generation request),
       tv_completed_at_ms = now, tv_result_hash = h\<rparr>"
  let ?r = "r\<lparr>cr_status := Completed, cr_terminal := Some ?t\<rparr>"
  have r: "header_sound X r cid" "fits_config X G r config cid" "validate_claim_metadata r = Inr ()"
    using assms(2,3) by (auto simp: validate_record_against_config_iff validate_status_def rbind_eq_Inr)
  have meta: "validate_claim_metadata ?r = Inr ()" using r(3) by (simp add: validate_claim_metadata_iff)
  have "validate_completed X ?r = Inr ()"
    using assms(4,5) h canon unfolding validate_completed_def meta completes_def
    by (auto simp: stored_def not_less not_le)
  with r have "validate_record_against_config X G ?r config cid = Inr ()"
    by (simp add: validate_record_against_config_iff validate_status_def)
  moreover have "complete_record X r request now = Inr ?r"
    using assms(3,5) h by (simp add: complete_record_def completes_def)
  moreover have "result_document r request now ?t" using assms(5) by (simp add: result_document_def completes_def)
  ultimately show ?thesis by (rule that [rotated 2])
qed

lemma complete_record_completes:
  assumes "complete_record X r request now = Inr r'" "validate_record_against_config X G r' config cid = Inr ()"
    and "vq_user_verified request" "validate_identity r (vq_tenant_id request) (vq_participant_id request) = Inr ()"
    and "gov_validate_identifier (vq_credential_id request) = Inr ()"
    and "validate_canonical_sha256_urn (vq_assertion_receipt_hash request) = Inr ()"
  shows "completes r request now"
proof -
  from assms(1) have m: "cr_fencing_token r = vq_fencing_token request" "cr_claim_id r = Some (vq_claim_id request)"
    "cr_binding_hash r = vq_binding_hash request" "cr_challenge_hash r = vq_challenge_hash request"
    "ab_credential_generation (cr_binding r) = vq_credential_generation request"
    "ab_activation_credential_id (cr_binding r) \<noteq> Some (vq_credential_id request)"
    by (auto simp: complete_record_def split: if_splits)
  from assms(1) obtain t where r': "cr_status r' = Completed" "cr_terminal r' = Some t" "tv_completed_at_ms t = now"
    "cr_claimed_at_ms r' = cr_claimed_at_ms r"
    by (auto simp: complete_record_def rbind_eq_Inr split: if_splits)
  from assms(2) r'(1) have "validate_completed X r' = Inr ()"
    by (simp add: validate_record_against_config_iff validate_status_def)
  with r' have "\<exists>at. cr_claimed_at_ms r = Some at \<and> at \<le> now"
    by (auto simp: validate_completed_def rbind_eq_Inr ok_or_eq_Inr not_less split: if_splits)
  with m assms(3-6) show ?thesis by (auto simp: completes_def validate_identity_def split: if_splits)
qed

lemma run_complete_claimed:
  assumes "externals_ok X" and "kv_reliable X srv"
    and "\<sigma> (ceremony_path cid) = Some (ceremony_text X r, rn)"
    and "validate_record_against_config X G r (ct_config S) cid = Inr ()"
    and "cr_status r = Claimed" and "now < ab_expires_at_ms (cr_binding r)"
    and "run srv (complete_verified_store X G S cid request now) \<sigma> c = (res, \<sigma>', c')"
  shows "if completes r request now
         then \<exists>t rv. c' = c \<and> res = Inr \<lparr>vp_ceremony_id = cid, vp_status = Completed, vp_terminal = t, vp_replayed = False\<rparr>
                \<and> result_document r request now t
                \<and> validate_record_against_config X G (r\<lparr>cr_status := Completed, cr_terminal := Some t\<rparr>)
                    (ct_config S) cid = Inr ()
                \<and> \<sigma>' = \<sigma>(ceremony_path cid \<mapsto>
                    (ceremony_text X (r\<lparr>cr_status := Completed, cr_terminal := Some t\<rparr>), rv))
         else (\<exists>e. res = Inl e) \<and> \<sigma>' = \<sigma> \<and> c' = c"
proof -
  let ?p = "complete_attempt X G S cid request now"
  have hdr: "validate_ceremony_id cid = Inr ()" "validate_canonical_sha256_urn (cr_binding_hash r) = Inr ()"
    "validate_canonical_sha256_urn (cr_challenge_hash r) = Inr ()"
    using assms(4) by (simp_all add: validate_record_against_config_iff header_sound_def)
  have claim: "\<exists>cl. cr_claim_id r = Some cl \<and> gov_validate_identifier cl = Inr ()"
    and open_yet: "cr_terminal r = None"
    using assms(4,5)
    by (auto simp: validate_record_against_config_iff validate_status_def rbind_eq_Inr validate_claim_metadata_iff split: if_splits)
  have rn: "rev_of \<sigma> (ceremony_path cid) = rn" using assms(3) by (simp add: rev_of_def)
  note attempt = run_with_record [where \<sigma> = \<sigma> and r = r and rn = rn, OF assms(2,1,3,4)]
  show ?thesis
  proof (cases "completes r request now")
    case True
    obtain t where t: "complete_record X r request now = Inr (r\<lparr>cr_status := Completed, cr_terminal := Some t\<rparr>)"
      "result_document r request now t"
      "validate_record_against_config X G (r\<lparr>cr_status := Completed, cr_terminal := Some t\<rparr>) (ct_config S) cid = Inr ()"
      by (rule completed_candidate [OF assms(1,4,5,6) True])
    obtain rv where "run srv (write_checked X G S cid (r\<lparr>cr_status := Completed, cr_terminal := Some t\<rparr>) rn
        (Inr \<lparr>vp_ceremony_id = cid, vp_status = Completed, vp_terminal = t, vp_replayed = False\<rparr>)) \<sigma> c =
      (Some (Inr \<lparr>vp_ceremony_id = cid, vp_status = Completed, vp_terminal = t, vp_replayed = False\<rparr>),
       \<sigma>(ceremony_path cid \<mapsto> (ceremony_text X (r\<lparr>cr_status := Completed, cr_terminal := Some t\<rparr>), rv)), c)"
      by (rule run_write_checked [OF assms(2) rn])
    moreover have "validate_identity r (vq_tenant_id request) (vq_participant_id request) = Inr ()"
      using True by (simp add: validate_identity_def completes_def)
    ultimately have "run srv ?p \<sigma> c =
      (Some (Inr \<lparr>vp_ceremony_id = cid, vp_status = Completed, vp_terminal = t, vp_replayed = False\<rparr>),
       \<sigma>(ceremony_path cid \<mapsto> (ceremony_text X (r\<lparr>cr_status := Completed, cr_terminal := Some t\<rparr>), rv)), c)"
      unfolding complete_attempt_def attempt using t(1,3) assms(6) open_yet by simp
    moreover have "run srv (complete_verified_store X G S cid request now) \<sigma> c =
        run srv (cas_retry MAX_CAS_ATTEMPTS (Inl CeCasRetriesExhausted) ?p) \<sigma> c"
      using True hdr claim by (auto simp: complete_verified_store_def completes_def)
    ultimately show ?thesis
      using True t(2,3) assms(7) by (auto simp: MAX_CAS_ATTEMPTS_def numeral_eq_Suc run_cas_retry_Suc simp del: cas_retry.simps)
  next
    case False
    have fail: "\<exists>e. run srv ?p \<sigma> c = (Some (Inl e), \<sigma>, c)"
      if "vq_user_verified request" "gov_validate_identifier (vq_credential_id request) = Inr ()"
        "validate_canonical_sha256_urn (vq_assertion_receipt_hash request) = Inr ()"
    proof (cases "validate_identity r (vq_tenant_id request) (vq_participant_id request)")
      case (Inr u)
      show ?thesis
      proof (cases "complete_record X r request now")
        case (Inr r')
        with False that \<open>validate_identity _ _ _ = Inr u\<close> complete_record_completes
        have "validate_record_against_config X G r' (ct_config S) cid \<noteq> Inr ()" by auto
        then obtain e where "validate_record_against_config X G r' (ct_config S) cid = Inl e"
          by (cases "validate_record_against_config X G r' (ct_config S) cid") auto
        with Inr \<open>validate_identity _ _ _ = Inr u\<close> show ?thesis
          unfolding complete_attempt_def attempt using assms(6) open_yet by simp
      qed (use \<open>validate_identity _ _ _ = Inr u\<close> assms(6) open_yet in \<open>simp add: complete_attempt_def attempt\<close>)
    qed (simp add: complete_attempt_def attempt)
    have "\<exists>e. run srv (complete_verified_store X G S cid request now) \<sigma> c = (Inl e, \<sigma>, c)"
    proof (cases "vq_user_verified request \<and> gov_validate_identifier (vq_credential_id request) = Inr ()
        \<and> validate_canonical_sha256_urn (vq_assertion_receipt_hash request) = Inr ()")
      case True
      then obtain e where "run srv ?p \<sigma> c = (Some (Inl e), \<sigma>, c)" using fail by blast
      then have "run srv (cas_retry MAX_CAS_ATTEMPTS (Inl CeCasRetriesExhausted) ?p) \<sigma> c = (Inl e, \<sigma>, c)"
        by (simp add: MAX_CAS_ATTEMPTS_def numeral_eq_Suc run_cas_retry_Suc del: cas_retry.simps)
      then show ?thesis by (simp add: complete_verified_store_def run_try split: sum.split)
    next
      case False
      then show ?thesis by (auto simp: complete_verified_store_def run_try split: sum.split)
    qed
    with False assms(7) show ?thesis by auto
  qed
qed

text \<open>
  C18. Exactly the worker that holds the claim records a result: for a claimed ceremony that has not
  expired, on a service that answers, a completion is recorded if and only if the user was
  verified, tenant and participant are those of the binding, fencing token and claim are the current ones,
  both hashes and the credential generation match, the credential is not the one being activated,
  credential and receipt are well formed, and the clock has not run behind the claim.  Then
  the store holds the same record with that result and nothing else changed; otherwise the store is untouched.
\<close>
theorem complete_verified_iff:
  assumes "externals_ok X" and "kv_reliable X srv"
    and "\<sigma> (ceremony_path cid) = Some (ceremony_text X r, rn)"
    and "validate_record_against_config X G r (ct_config S) cid = Inr ()"
    and "cr_status r = Claimed" and "now < ab_expires_at_ms (cr_binding r)"
    and "run srv (complete_verified_store X G S cid request now) \<sigma> c = (res, \<sigma>', c')"
  shows "if completes r request now
         then \<exists>t rv. res = Inr \<lparr>vp_ceremony_id = cid, vp_status = Completed, vp_terminal = t, vp_replayed = False\<rparr>
                \<and> result_document r request now t
                \<and> \<sigma>' = \<sigma>(ceremony_path cid \<mapsto>
                    (ceremony_text X (r\<lparr>cr_status := Completed, cr_terminal := Some t\<rparr>), rv))
         else (\<exists>e. res = Inl e) \<and> \<sigma>' = \<sigma>"
  using run_complete_claimed [OF assms] by (auto split: if_splits)

section \<open>Begin, once and again\<close>

lemma begin_record_Inr:
  assumes "begin_record X G config proposal participant tenant key request now = Inr (r, ch)"
  shows "cr_ceremony_id r = ceremony_id X tenant participant proposal key" "cr_status r = Pending"
    "ab_tenant_id (cr_binding r) = tenant" "ab_participant_id (cr_binding r) = participant"
    "ab_proposal_id (cr_binding r) = proposal" "ab_created_at_ms (cr_binding r) = now"
    "unat (ab_expires_at_ms (cr_binding r)) = unat now + unat (gc_ttl_ms config)"
    "ab_canonical_proposal_hash (cr_binding r) = bq_canonical_proposal_hash request"
    "ab_policy_hash (cr_binding r) = bq_policy_hash request"
    "ab_credential_generation (cr_binding r) = bq_credential_generation request"
    "binding_hash X (cr_binding r) = Inr (cr_binding_hash r)"
    "\<exists>secret. gc_ceremony_secret config = Some secret
       \<and> derive_challenge X G secret (cr_ceremony_id r) (cr_binding_hash r) = Inr ch"
    "cr_challenge_hash r = sha256_bytes X (as_bytes ch)"
  using assms unfolding begin_record_def
  by (auto simp: rbind_eq_Inr ok_or_eq_Inr ensure_eq_Inr Let_def config_ceremony_secret_def checked_add_Some_iff)

definition begun_response :: "ceremony_record \<Rightarrow> string \<Rightarrow> bool \<Rightarrow> begin_approval_response" where
  "begun_response r challenge replayed =
     \<lparr>bp_ceremony_id = cr_ceremony_id r, bp_binding_hash = cr_binding_hash r, bp_challenge = challenge,
      bp_challenge_hash = cr_challenge_hash r, bp_rp_id = ab_rp_id (cr_binding r),
      bp_origin = ab_origin (cr_binding r), bp_expires_at_ms = ab_expires_at_ms (cr_binding r),
      bp_replayed = replayed\<rparr>"

lemma begin_runs_checked:
  assumes "run srv (begin_ceremony X G S proposal participant tenant key request now) \<sigma> c = (Inr resp, \<sigma>', c')"
  obtains r ch where "begin_record X G (ct_config S) proposal participant tenant key request now = Inr (r, ch)"
    "validate_record_against_config X G r (ct_config S) (cr_ceremony_id r) = Inr ()"
proof (cases "begin_record X G (ct_config S) proposal participant tenant key request now")
  case (Inr x)
  obtain r ch where x: "x = (r, ch)" by (cases x)
  show ?thesis
  proof (cases "validate_record_against_config X G r (ct_config S) (cr_ceremony_id r)")
    case Inl
    with assms Inr x show ?thesis by (simp add: begin_ceremony_def)
  next
    case (Inr u)
    with that \<open>begin_record _ _ _ _ _ _ _ _ _ = Inr x\<close> x show ?thesis by simp
  qed
qed (use assms in \<open>simp add: begin_ceremony_def\<close>)

lemma run_begin_fresh:
  assumes "kv_reliable X srv" "begin_record X G (ct_config S) proposal participant tenant key request now = Inr (r, ch)"
    and "validate_record_against_config X G r (ct_config S) (cr_ceremony_id r) = Inr ()"
    and "\<sigma> (ceremony_path (cr_ceremony_id r)) = None"
  obtains rv where "rv \<noteq> 0" "run srv (begin_ceremony X G S proposal participant tenant key request now) \<sigma> c =
    (Inr (begun_response r ch False), \<sigma>(ceremony_path (cr_ceremony_id r) \<mapsto> (ceremony_text X r, rv)), c)"
proof -
  have rn: "rev_of \<sigma> (ceremony_path (cr_ceremony_id r)) = 0" using assms(4) by simp
  obtain rv where rv: "rv \<noteq> 0"
    "run srv (put_if_revision X (ct_kv S) (ceremony_path (cr_ceremony_id r)) (ceremony_to_json r) 0) \<sigma> c =
    (Inr Applied, \<sigma>(ceremony_path (cr_ceremony_id r) \<mapsto> (ceremony_text X r, rv)), c)"
    by (rule run_put_applied [OF assms(1) rn])
  show ?thesis
    by (rule that [OF rv(1)]) (simp add: begin_ceremony_def assms(2,3) run_try run_map rv(2) begun_response_def)
qed

text \<open>A repeated begin meets the stored record and never writes.\<close>

lemma run_begin_again:
  assumes "externals_ok X" "kv_reliable X srv" "\<sigma> (ceremony_path cid) = Some (ceremony_text X r, rv)" "rv \<noteq> 0"
    and "begin_record X G (ct_config S) proposal participant tenant key request now = Inr (r', ch)"
    and "validate_record_against_config X G r' (ct_config S) (cr_ceremony_id r') = Inr ()"
    and "cr_ceremony_id r' = cid"
    and "validate_record_against_config X G r (ct_config S) cid = Inr ()" "cr_status r = Pending"
  shows "run srv (begin_ceremony X G S proposal participant tenant key request now) \<sigma> c =
    (if cr_binding_hash r \<noteq> cr_binding_hash r' \<or> cr_challenge_hash r \<noteq> cr_challenge_hash r'
        \<or> ab_tenant_id (cr_binding r) \<noteq> tenant \<or> ab_participant_id (cr_binding r) \<noteq> participant
       then Inl CeConflict
     else if ab_expires_at_ms (cr_binding r) \<le> now then Inl CeExpired
     else Inr ((begun_response r ch True)\<lparr>bp_ceremony_id := cid\<rparr>), \<sigma>, c)"
proof -
  have rn: "rev_of \<sigma> (ceremony_path cid) \<noteq> 0" using assms(3,4) by (simp add: rev_of_def)
  have cid: "validate_ceremony_id cid = Inr ()"
    using assms(8) by (simp add: validate_record_against_config_iff header_sound_def)
  have "run srv (load_ceremony X G S cid) \<sigma> c = (Inr r, \<sigma>, c)"
    using assms(1,3,8) cid by (simp add: load_ceremony_def run_try run_map run_kv_get [OF assms(2)] read_record_def)
  then show ?thesis
    using assms(5-7,9) by (simp add: begin_ceremony_def run_try run_map run_put_mismatch [OF assms(2) rn] begun_response_def)
qed

lemma begin_stores:
  assumes "kv_reliable X srv" "\<sigma> (ceremony_path (ceremony_id X tenant participant proposal key)) = None"
    and "run srv (begin_ceremony X G S proposal participant tenant key request now) \<sigma> c = (Inr resp, \<sigma>1, c1)"
  obtains r ch rv where "begin_record X G (ct_config S) proposal participant tenant key request now = Inr (r, ch)"
    "validate_record_against_config X G r (ct_config S) (cr_ceremony_id r) = Inr ()" "rv \<noteq> 0"
    "resp = begun_response r ch False" "\<sigma>1 = \<sigma>(ceremony_path (cr_ceremony_id r) \<mapsto> (ceremony_text X r, rv))" "c1 = c"
proof -
  obtain r ch where r: "begin_record X G (ct_config S) proposal participant tenant key request now = Inr (r, ch)"
    "validate_record_against_config X G r (ct_config S) (cr_ceremony_id r) = Inr ()"
    by (rule begin_runs_checked [OF assms(3)])
  have absent: "\<sigma> (ceremony_path (cr_ceremony_id r)) = None" using assms(2) begin_record_Inr(1) [OF r(1)] by simp
  obtain rv where "rv \<noteq> 0" "run srv (begin_ceremony X G S proposal participant tenant key request now) \<sigma> c =
    (Inr (begun_response r ch False), \<sigma>(ceremony_path (cr_ceremony_id r) \<mapsto> (ceremony_text X r, rv)), c)"
    by (rule run_begin_fresh [where \<sigma> = \<sigma> and r = r, OF assms(1) r absent])
  with that r assms(3) show thesis by simp
qed

lemma checked_not_expired:
  assumes "validate_record_against_config X G r config cid = Inr ()"
  shows "ab_created_at_ms (cr_binding r) < ab_expires_at_ms (cr_binding r)"
proof -
  have "header_sound X r cid" using assms by (simp add: validate_record_against_config_iff)
  then have "binding_validate (cr_binding r) = Inr ()" by (auto simp: header_sound_def binding_hash_def rbind_eq_Inr)
  then show ?thesis by (auto simp: binding_validate_def rbind_eq_Inr not_le split: if_splits)
qed

text \<open>A begin under the key of a pending ceremony writes nothing; it is answered only with the stored binding.\<close>

lemma begin_over_pending:
  assumes "externals_ok X" "kv_reliable X srv"
    and "\<sigma> (ceremony_path (ceremony_id X tenant participant proposal key)) = Some (ceremony_text X r, rv)" "rv \<noteq> 0"
    and "validate_record_against_config X G r (ct_config S) (ceremony_id X tenant participant proposal key) = Inr ()"
    and "cr_status r = Pending"
    and "run srv (begin_ceremony X G S proposal participant tenant key request now) \<sigma> c = (res, \<sigma>', c')"
  shows "\<sigma>' = \<sigma> \<and> (\<forall>resp. res = Inr resp \<longrightarrow> bp_replayed resp \<and> bp_challenge_hash resp = cr_challenge_hash r
    \<and> (\<exists>b. ab_created_at_ms b = now \<and> ab_policy_hash b = bq_policy_hash request
         \<and> ab_canonical_proposal_hash b = bq_canonical_proposal_hash request \<and> binding_hash X b = Inr (cr_binding_hash r)))"
proof (cases "begin_record X G (ct_config S) proposal participant tenant key request now")
  case (Inl e)
  with assms(7) show ?thesis by (auto simp: begin_ceremony_def)
next
  case (Inr x)
  obtain r' ch' where r': "begin_record X G (ct_config S) proposal participant tenant key request now = Inr (r', ch')"
    using Inr by (cases x) simp
  note f' = begin_record_Inr [OF r']
  show ?thesis
  proof (cases "validate_record_against_config X G r' (ct_config S) (cr_ceremony_id r')")
    case (Inl e)
    with assms(7) r' show ?thesis by (auto simp: begin_ceremony_def)
  next
    case (Inr u)
    then have "validate_record_against_config X G r' (ct_config S) (cr_ceremony_id r') = Inr ()" by simp
    from run_begin_again [where \<sigma> = \<sigma> and r = r and rv = rv, OF assms(1-4) r' this f'(1) assms(5,6), of c] assms(7) f'(6,8,9,11)
    show ?thesis by (auto simp: begun_response_def split: if_splits)
  qed
qed

text \<open>
  C20. Beginning a ceremony creates it once: on a service that answers, the first begin stores a pending
  record and returns its challenge; the same request at the same clock reading is answered with the
  same challenge as a replay; no repetition under the same idempotency key ever writes, and one
  with other contents or at another clock reading is refused, unless its binding, which
  contains the clock reading, hashes to the same value.
\<close>
theorem begin_creates_once:
  assumes "externals_ok X" and "kv_reliable X srv"
    and "\<sigma> (ceremony_path (ceremony_id X tenant participant proposal key)) = None"
    and "run srv (begin_ceremony X G S proposal participant tenant key request now) \<sigma> c = (Inr resp, \<sigma>1, c1)"
  shows "(\<exists>r rv. \<sigma>1 = \<sigma>(ceremony_path (bp_ceremony_id resp) \<mapsto> (ceremony_text X r, rv))
            \<and> cr_status r = Pending \<and> ab_created_at_ms (cr_binding r) = now
            \<and> cr_binding_hash r = bp_binding_hash resp \<and> cr_challenge_hash r = bp_challenge_hash resp)
       \<and> \<not> bp_replayed resp
       \<and> run srv (begin_ceremony X G S proposal participant tenant key request now) \<sigma>1 c1 =
           (Inr (resp\<lparr>bp_replayed := True\<rparr>), \<sigma>1, c1)
       \<and> (\<forall>request' now' res \<sigma>2 c2.
            run srv (begin_ceremony X G S proposal participant tenant key request' now') \<sigma>1 c1 = (res, \<sigma>2, c2) \<longrightarrow>
              \<sigma>2 = \<sigma>1
            \<and> (\<forall>resp'. res = Inr resp' \<longrightarrow> bp_replayed resp' \<and> bp_challenge_hash resp' = bp_challenge_hash resp
                 \<and> (\<exists>b. ab_created_at_ms b = now' \<and> ab_policy_hash b = bq_policy_hash request'
                      \<and> ab_canonical_proposal_hash b = bq_canonical_proposal_hash request'
                      \<and> binding_hash X b = Inr (bp_binding_hash resp))))"
proof -
  let ?cid = "ceremony_id X tenant participant proposal key"
  obtain r ch rv where r: "begin_record X G (ct_config S) proposal participant tenant key request now = Inr (r, ch)"
    "validate_record_against_config X G r (ct_config S) (cr_ceremony_id r) = Inr ()" and rv: "rv \<noteq> 0"
    and resp: "resp = begun_response r ch False" "c1 = c"
    and \<sigma>1: "\<sigma>1 = \<sigma>(ceremony_path (cr_ceremony_id r) \<mapsto> (ceremony_text X r, rv))"
    by (rule begin_stores [where \<sigma> = \<sigma>, OF assms(2-4)])
  note f = begin_record_Inr [OF r(1)]
  have at: "\<sigma>1 (ceremony_path ?cid) = Some (ceremony_text X r, rv)" using \<sigma>1 f(1) by simp
  have checked: "validate_record_against_config X G r (ct_config S) ?cid = Inr ()" using r(2) f(1) by simp
  have same: "run srv (begin_ceremony X G S proposal participant tenant key request now) \<sigma>1 c1 =
      (Inr (resp\<lparr>bp_replayed := True\<rparr>), \<sigma>1, c1)"
    using run_begin_again [where \<sigma> = \<sigma>1 and r = r and rv = rv, OF assms(1,2) at rv r f(1) checked f(2), of c]
      f(1-4,6) checked_not_expired [OF checked]
    by (simp add: resp begun_response_def not_le [symmetric])
  have first: "\<exists>r rv. \<sigma>1 = \<sigma>(ceremony_path (bp_ceremony_id resp) \<mapsto> (ceremony_text X r, rv))
            \<and> cr_status r = Pending \<and> ab_created_at_ms (cr_binding r) = now
            \<and> cr_binding_hash r = bp_binding_hash resp \<and> cr_challenge_hash r = bp_challenge_hash resp"
    using \<sigma>1 f(2,6) by (auto simp: resp begun_response_def)
  have begun: "bp_challenge_hash resp = cr_challenge_hash r" "bp_binding_hash resp = cr_binding_hash r" "\<not> bp_replayed resp"
    by (simp_all add: resp(1) begun_response_def)
  note later = begin_over_pending [where \<sigma> = \<sigma>1 and r = r and rv = rv, OF assms(1,2) at rv checked f(2), folded begun(1,2)]
  show ?thesis by (intro conjI first same begun(3)) (intro allI impI, erule later)
qed

section \<open>From begin to the recorded result\<close>

lemma run_cas_first:
  "run srv body \<sigma> c = (Some x, \<sigma>', c') \<Longrightarrow>
   run srv (cas_retry MAX_CAS_ATTEMPTS exhausted body) \<sigma> c = (x, \<sigma>', c')"
  by (simp add: MAX_CAS_ATTEMPTS_def numeral_eq_Suc run_cas_retry_Suc del: cas_retry.simps)

lemma run_claim_pending:
  assumes "externals_ok X" "kv_reliable X srv" "\<sigma> (ceremony_path cid) = Some (ceremony_text X r, rn)"
    and "validate_record_against_config X G r (ct_config S) cid = Inr ()" "cr_status r = Pending"
    and "cq_tenant_id claim = ab_tenant_id (cr_binding r)" "cq_participant_id claim = ab_participant_id (cr_binding r)"
    and "gov_validate_identifier (cq_claim_id claim) = Inr ()" "cq_fencing_token claim \<noteq> 0"
    and "ab_created_at_ms (cr_binding r) \<le> now" "now < ab_expires_at_ms (cr_binding r)"
  defines "r' \<equiv> r\<lparr>cr_status := Claimed, cr_claim_id := Some (cq_claim_id claim),
      cr_fencing_token := cq_fencing_token claim, cr_claimed_at_ms := Some now\<rparr>"
  obtains rv where "run srv (claim_ceremony_store X G S cid claim now) \<sigma> c =
      (Inr \<lparr>cp_ceremony_id = cid, cp_status = Claimed, cp_fencing_token = cq_fencing_token claim,
            cp_replayed = False, cp_taken_over = False\<rparr>, \<sigma>(ceremony_path cid \<mapsto> (ceremony_text X r', rv)), c)"
    "validate_record_against_config X G r' (ct_config S) cid = Inr ()"
proof -
  let ?resp = "\<lparr>cp_ceremony_id = cid, cp_status = Claimed, cp_fencing_token = cq_fencing_token claim,
            cp_replayed = False, cp_taken_over = False\<rparr>"
  have r: "header_sound X r cid" "fits_config X G r (ct_config S) cid" "cr_terminal r = None"
    using assms(4,5) by (auto simp: validate_record_against_config_iff validate_status_def split: if_splits)
  then have checked: "validate_record_against_config X G r' (ct_config S) cid = Inr ()"
    using assms(8-11) by (simp add: validate_record_against_config_iff r'_def validate_status_def validate_claim_metadata_iff rbind_eq_Inr)
  have rn: "rev_of \<sigma> (ceremony_path cid) = rn" using assms(3) by (simp add: rev_of_def)
  obtain rv where "run srv (write_checked X G S cid r' rn (Inr ?resp)) \<sigma> c =
      (Some (Inr ?resp), \<sigma>(ceremony_path cid \<mapsto> (ceremony_text X r', rv)), c)"
    by (rule run_write_checked [OF assms(2) rn])
  moreover have "claim_record r (cq_claim_id claim) (cq_fencing_token claim) now = Inr (r', False, False)"
    using assms(5) by (simp add: claim_record_def r'_def)
  moreover have "validate_identity r (cq_tenant_id claim) (cq_participant_id claim) = Inr ()"
    using assms(6,7) by (simp add: validate_identity_def)
  moreover have "cr_status r' = Claimed" "cr_fencing_token r' = cq_fencing_token claim" by (simp_all add: r'_def)
  ultimately have "run srv (claim_attempt X G S cid claim now) \<sigma> c =
      (Some (Inr ?resp), \<sigma>(ceremony_path cid \<mapsto> (ceremony_text X r', rv)), c)"
    unfolding claim_attempt_def run_with_record [where \<sigma> = \<sigma> and r = r and rn = rn, OF assms(2,1,3,4)]
    using r(3) checked assms(11) by simp
  from run_cas_first [OF this] have "run srv (claim_ceremony_store X G S cid claim now) \<sigma> c =
      (Inr ?resp, \<sigma>(ceremony_path cid \<mapsto> (ceremony_text X r', rv)), c)"
    using r(1) assms(8,9) by (simp add: claim_ceremony_store_def header_sound_def)
  then show ?thesis using checked by (rule that)
qed

lemma run_complete_replay:
  assumes "externals_ok X" "kv_reliable X srv" "\<sigma> (ceremony_path cid) = Some (ceremony_text X r, rn)"
    and "validate_record_against_config X G r (ct_config S) cid = Inr ()" "cr_terminal r = Some t"
    and "tv_outcome t = Completed" "tv_assertion_receipt_hash t = Some (vq_assertion_receipt_hash verified)"
    and "validate_identity r (vq_tenant_id verified) (vq_participant_id verified) = Inr ()"
    and "run srv (complete_verified_store X G S cid verified now) \<sigma>0 c0 = (Inr resp, \<sigma>1, c1)"
  shows "run srv (complete_verified_store X G S cid verified now') \<sigma> c =
     (Inr \<lparr>vp_ceremony_id = cid, vp_status = Completed, vp_terminal = t, vp_replayed = True\<rparr>, \<sigma>, c)"
proof -
  have "run srv (complete_attempt X G S cid verified now') \<sigma> c =
     (Some (Inr \<lparr>vp_ceremony_id = cid, vp_status = Completed, vp_terminal = t, vp_replayed = True\<rparr>), \<sigma>, c)"
    unfolding complete_attempt_def run_with_record [where \<sigma> = \<sigma> and r = r and rn = rn, OF assms(2,1,3,4)]
    using assms(5-8) by simp
  from run_cas_first [OF this] show ?thesis
    using assms(9) by (auto simp: complete_verified_store_def run_try split: sum.splits if_splits)
qed

text \<open>A claimed ceremony is completed by a matching request, and the repetition is answered from the record.\<close>

lemma claimed_runs_to_end:
  assumes "externals_ok X" "kv_reliable X srv" "\<sigma> (ceremony_path cid) = Some (ceremony_text X r, rn)"
    and "validate_record_against_config X G r (ct_config S) cid = Inr ()" "cr_status r = Claimed"
    and "now < ab_expires_at_ms (cr_binding r)" "completes r verified now"
  obtains \<sigma>' t where "run srv (complete_verified_store X G S cid verified now) \<sigma> c =
      (Inr \<lparr>vp_ceremony_id = cid, vp_status = Completed, vp_terminal = t, vp_replayed = False\<rparr>, \<sigma>', c)"
    "result_document r verified now t"
    "\<forall>now'. run srv (complete_verified_store X G S cid verified now') \<sigma>' c =
      (Inr \<lparr>vp_ceremony_id = cid, vp_status = Completed, vp_terminal = t, vp_replayed = True\<rparr>, \<sigma>', c)"
proof -
  obtain res \<sigma>' c' where run: "run srv (complete_verified_store X G S cid verified now) \<sigma> c = (res, \<sigma>', c')"
    by (metis prod_cases3)
  from run_complete_claimed [where r = r and rn = rn, OF assms(1-6) run] assms(7)
  obtain t rv where t: "c' = c" "result_document r verified now t"
    "res = Inr \<lparr>vp_ceremony_id = cid, vp_status = Completed, vp_terminal = t, vp_replayed = False\<rparr>"
    and ok: "validate_record_against_config X G (r\<lparr>cr_status := Completed, cr_terminal := Some t\<rparr>) (ct_config S) cid = Inr ()"
    and \<sigma>': "\<sigma>' = \<sigma>(ceremony_path cid \<mapsto> (ceremony_text X (r\<lparr>cr_status := Completed, cr_terminal := Some t\<rparr>), rv))"
    by auto
  let ?r = "r\<lparr>cr_status := Completed, cr_terminal := Some t\<rparr>"
  have at: "\<sigma>' (ceremony_path cid) = Some (ceremony_text X ?r, rv)" "cr_terminal ?r = Some t" using \<sigma>' by simp_all
  have doc: "tv_outcome t = Completed" "tv_assertion_receipt_hash t = Some (vq_assertion_receipt_hash verified)"
    using t(2) by (simp_all add: result_document_def)
  have who: "validate_identity ?r (vq_tenant_id verified) (vq_participant_id verified) = Inr ()"
    using assms(7) by (simp add: completes_def validate_identity_def)
  note replay = run_complete_replay [where \<sigma> = \<sigma>' and r = ?r and rn = rv, OF assms(1,2) at(1) ok at(2) doc who run [unfolded t(3)]]
  show thesis by (rule that [OF run [unfolded t(1,3)] t(2) allI [OF replay]])
qed

text \<open>
  C19. A ceremony runs to its end: on a service that answers, after a successful begin a worker with a
  positive fencing token claims the ceremony at any time before it expires; its completion with
  the hashes returned by begin, a well-formed credential that is not being activated and a
  well-formed receipt is recorded; and an exact repetition is answered with the same result at
  any later time, also after expiry, without writing.
\<close>
theorem approval_ceremony_completes:
  assumes "externals_ok X" and "kv_reliable X srv"
    and "\<sigma> (ceremony_path (ceremony_id X tenant participant proposal key)) = None"
    and "run srv (begin_ceremony X G S proposal participant tenant key request now) \<sigma> c = (Inr resp, \<sigma>1, c1)"
    and "cid = bp_ceremony_id resp" and "cq_tenant_id claim = tenant" and "cq_participant_id claim = participant"
    and "gov_validate_identifier (cq_claim_id claim) = Inr ()" and "cq_fencing_token claim \<noteq> 0"
    and "now \<le> now1" and "now1 \<le> now2" and "now2 < bp_expires_at_ms resp"
    and "vq_user_verified verified" and "vq_tenant_id verified = tenant" and "vq_participant_id verified = participant"
    and "vq_claim_id verified = cq_claim_id claim" and "vq_fencing_token verified = cq_fencing_token claim"
    and "vq_binding_hash verified = bp_binding_hash resp" and "vq_challenge_hash verified = bp_challenge_hash resp"
    and "vq_credential_generation verified = bq_credential_generation request"
    and "gov_validate_identifier (vq_credential_id verified) = Inr ()"
    and "bq_activation_credential_id request \<noteq> Some (vq_credential_id verified)"
    and "validate_canonical_sha256_urn (vq_assertion_receipt_hash verified) = Inr ()"
  shows "\<exists>\<sigma>2 \<sigma>3 t.
      run srv (claim_ceremony_store X G S cid claim now1) \<sigma>1 c1 =
        (Inr \<lparr>cp_ceremony_id = cid, cp_status = Claimed, cp_fencing_token = cq_fencing_token claim,
              cp_replayed = False, cp_taken_over = False\<rparr>, \<sigma>2, c1)
    \<and> run srv (complete_verified_store X G S cid verified now2) \<sigma>2 c1 =
        (Inr \<lparr>vp_ceremony_id = cid, vp_status = Completed, vp_terminal = t, vp_replayed = False\<rparr>, \<sigma>3, c1)
    \<and> tv_outcome t = Completed \<and> tv_completed_at_ms t = now2
    \<and> tv_assertion_receipt_hash t = Some (vq_assertion_receipt_hash verified)
    \<and> (\<forall>now3. run srv (complete_verified_store X G S cid verified now3) \<sigma>3 c1 =
        (Inr \<lparr>vp_ceremony_id = cid, vp_status = Completed, vp_terminal = t, vp_replayed = True\<rparr>, \<sigma>3, c1))"
proof -
  obtain r ch rv where r: "begin_record X G (ct_config S) proposal participant tenant key request now = Inr (r, ch)"
    "validate_record_against_config X G r (ct_config S) (cr_ceremony_id r) = Inr ()"
    and resp: "resp = begun_response r ch False" "cid = cr_ceremony_id r"
    and \<sigma>1: "\<sigma>1 (ceremony_path cid) = Some (ceremony_text X r, rv)"
    by (rule begin_stores [where \<sigma> = \<sigma>, OF assms(2-4)]) (auto simp: assms(5) begun_response_def)
  note f = begin_record_Inr [OF r(1)]
  have act: "ab_activation_credential_id (cr_binding r) = bq_activation_credential_id request"
    using r(1) by (auto simp: begin_record_def rbind_eq_Inr Let_def)
  let ?r = "r\<lparr>cr_status := Claimed, cr_claim_id := Some (cq_claim_id claim),
      cr_fencing_token := cq_fencing_token claim, cr_claimed_at_ms := Some now1\<rparr>"
  have now1: "now1 < ab_expires_at_ms (cr_binding r)"
    using assms(11,12) by (simp add: resp begun_response_def)
  obtain rv2 where claimed: "run srv (claim_ceremony_store X G S cid claim now1) \<sigma>1 c1 =
        (Inr \<lparr>cp_ceremony_id = cid, cp_status = Claimed, cp_fencing_token = cq_fencing_token claim,
              cp_replayed = False, cp_taken_over = False\<rparr>,
         \<sigma>1(ceremony_path cid \<mapsto> (ceremony_text X ?r, rv2)), c1)"
    and ok: "validate_record_against_config X G ?r (ct_config S) cid = Inr ()"
    by (rule run_claim_pending [where \<sigma> = \<sigma>1 and r = r and rn = rv, OF assms(1,2) \<sigma>1 _ f(2) _ _ assms(8,9) _ now1])
       (use r(2) resp(2) f(3,4,6) assms(6,7,10) in auto)
  let ?\<sigma>2 = "\<sigma>1(ceremony_path cid \<mapsto> (ceremony_text X ?r, rv2))"
  have at2: "?\<sigma>2 (ceremony_path cid) = Some (ceremony_text X ?r, rv2)" "cr_status ?r = Claimed" by simp_all
  have now2: "now2 < ab_expires_at_ms (cr_binding ?r)" "completes ?r verified now2"
    using assms(6,7,11-23) f(3,4,10) act by (simp_all add: completes_def resp begun_response_def)
  obtain \<sigma>3 t where "run srv (complete_verified_store X G S cid verified now2) ?\<sigma>2 c1 =
        (Inr \<lparr>vp_ceremony_id = cid, vp_status = Completed, vp_terminal = t, vp_replayed = False\<rparr>, \<sigma>3, c1)"
    "result_document ?r verified now2 t"
    "\<forall>now3. run srv (complete_verified_store X G S cid verified now3) \<sigma>3 c1 =
        (Inr \<lparr>vp_ceremony_id = cid, vp_status = Completed, vp_terminal = t, vp_replayed = True\<rparr>, \<sigma>3, c1)"
    by (rule claimed_runs_to_end [where \<sigma> = ?\<sigma>2 and c = c1, OF assms(1,2) at2(1) ok at2(2) now2])
  with claimed show ?thesis
    by (intro exI [of _ ?\<sigma>2] exI [of _ \<sigma>3] exI [of _ t]) (simp add: result_document_def)
qed

end
