(* ===== verification/Governance_Server.thy ===== *)
theory Governance_Server
  imports Server Ceremony_Flow
begin

text \<open>
  \<open>governance_ceremony/routes.inc.rs\<close> and the governance binary: start-up, the four routes, their
  authentication and the mapping of errors to replies.  Sessions are verified by the same
  component as on the dashboard plane; the process state is that component's.
\<close>

section \<open>State and start-up\<close>

record 'k gov_runtime =
  gr_ext :: externals
  gr_env :: environment
  gr_verifier :: "'k jwt_verifier"
  gr_lib :: gov_lib

record ceremony_app_state =
  ca_config :: governance_config
  ca_store :: "ceremony_store option"

text \<open>The build mode of the binary is the argument \<open>debug_assertions\<close>.\<close>

definition ceremony_app_from_env ::
  "externals \<Rightarrow> gov_lib \<Rightarrow> url_lib \<Rightarrow> ('w, 'r, 'a, 'c, 'p, 'v) webauthn_lib \<Rightarrow> bool \<Rightarrow> environment \<Rightarrow>
   ceremony_error + ceremony_app_state" where
  "ceremony_app_from_env X G U W debug_assertions env =
     rbind (governance_config_from_env X G U debug_assertions env) (\<lambda>config.
     if \<not> gc_enabled config then Inr \<lparr>ca_config = config, ca_store = None\<rparr>
     else
       rbind (map_err (\<lambda>_. CeInvalidConfig ''Supabase verification must be configured when governance is enabled'')
                (supabase_validate_config X env)) (\<lambda>_.
       rbind (config_rp_id config) (\<lambda>rp_id.
       rbind (config_origin config) (\<lambda>origin.
       rbind (config_codec config) (\<lambda>codec.
       rbind (governance_webauthn_new U W rp_id origin codec) (\<lambda>_.
       rbind (map_err CeStore (kv_client_from_env env)) (\<lambda>kv.
       Inr \<lparr>ca_config = config, ca_store = Some \<lparr>ct_kv = kv, ct_config = config\<rparr>\<rparr>)))))))"

definition app_store :: "ceremony_app_state \<Rightarrow> ceremony_error + ceremony_store" where
  "app_store state = ok_or (ca_store state) CeDisabled"

definition governance_port :: "environment \<Rightarrow> u16" where
  "governance_port env =
     (case Option.bind (env ''FIDUCIA_GOVERNANCE_PORT'') parse_u64 of
        Some p \<Rightarrow> if unat p < 2 ^ 16 then ucast p else 8102
      | None \<Rightarrow> 8102)"

text \<open>
  The system clock as milliseconds since the epoch; \<open>None\<close> is a clock before the epoch.
\<close>

definition gov_now_ms :: "nat option \<Rightarrow> u64" where
  "gov_now_ms clock =
     (let ms = (case clock of Some n \<Rightarrow> n | None \<Rightarrow> 0) in if ms < 2 ^ 64 then of_nat ms else - 1)"

section \<open>Replies\<close>

definition error_response :: "nat \<Rightarrow> string \<Rightarrow> http_reply" where
  "error_response status code = json_reply status (VObj [(''error'', VStr code)])"

fun ceremony_error_response :: "ceremony_error \<Rightarrow> http_reply" where
  "ceremony_error_response CeDisabled = error_response 404 ''governance_disabled''"
| "ceremony_error_response CeUnauthorized = error_response 401 ''unauthorized''"
| "ceremony_error_response CeNotFound = error_response 404 ''ceremony_not_found''"
| "ceremony_error_response CeConflict = error_response 409 ''ceremony_conflict''"
| "ceremony_error_response CeAlreadyClaimed = error_response 409 ''ceremony_conflict''"
| "ceremony_error_response CeClaimMismatch = error_response 409 ''ceremony_conflict''"
| "ceremony_error_response CeNotClaimed = error_response 409 ''ceremony_conflict''"
| "ceremony_error_response CeExpired = error_response 410 ''ceremony_expired''"
| "ceremony_error_response CeStaleFencing = error_response 409 ''stale_fencing_token''"
| "ceremony_error_response (CeInvalidRequest m) = error_response 400 ''invalid_request''"
| "ceremony_error_response CeWebauthn = error_response 400 ''webauthn_verification_failed''"
| "ceremony_error_response (CeProtectedState m) = error_response 503 ''protected_ceremony_state_unavailable''"
| "ceremony_error_response (CeStore e) = error_response 503 ''ceremony_store_unavailable''"
| "ceremony_error_response CeCasRetriesExhausted = error_response 503 ''ceremony_store_unavailable''"
| "ceremony_error_response (CeMissingConfig m) = error_response 500 ''governance_configuration_error''"
| "ceremony_error_response (CeWeakSecret m) = error_response 500 ''governance_configuration_error''"
| "ceremony_error_response (CeInvalidConfig m) = error_response 500 ''governance_configuration_error''"
| "ceremony_error_response CeJson = error_response 500 ''governance_configuration_error''"

definition begin_response_json :: "begin_approval_response \<Rightarrow> json" where
  "begin_response_json r =
     VObj [(''ceremony_id'', VStr (bp_ceremony_id r)), (''binding_hash'', VStr (bp_binding_hash r)),
           (''challenge'', VStr (bp_challenge r)), (''challenge_hash'', VStr (bp_challenge_hash r)),
           (''rp_id'', VStr (bp_rp_id r)), (''origin'', VStr (bp_origin r)),
           (''expires_at_ms'', VNum (PosInt (bp_expires_at_ms r))), (''replayed'', VBool (bp_replayed r))]"

definition claim_response_json :: "claim_response \<Rightarrow> json" where
  "claim_response_json r =
     VObj [(''ceremony_id'', VStr (cp_ceremony_id r)), (''status'', VStr (status_str (cp_status r))),
           (''fencing_token'', VNum (PosInt (cp_fencing_token r))), (''replayed'', VBool (cp_replayed r)),
           (''taken_over'', VBool (cp_taken_over r))]"

definition terminal_json :: "terminal_verification \<Rightarrow> json" where
  "terminal_json t =
     VObj [(''outcome'', VStr (status_str (tv_outcome t))), (''reason'', VStr (tv_reason t)),
           (''assertion_receipt_hash'', opt_json VStr (tv_assertion_receipt_hash t)),
           (''credential_id'', opt_json VStr (tv_credential_id t)),
           (''credential_generation'', opt_json (\<lambda>n. VNum (PosInt n)) (tv_credential_generation t)),
           (''completed_at_ms'', VNum (PosInt (tv_completed_at_ms t))), (''result_hash'', VStr (tv_result_hash t))]"

definition complete_response_json :: "complete_verified_response \<Rightarrow> json" where
  "complete_response_json r =
     VObj [(''ceremony_id'', VStr (vp_ceremony_id r)), (''status'', VStr (status_str (vp_status r))),
           (''terminal'', terminal_json (vp_terminal r)), (''replayed'', VBool (vp_replayed r))]"

section \<open>Authentication\<close>

definition gov_require_user :: "'k gov_runtime \<Rightarrow> header_map \<Rightarrow> ('k sb_state, http_reply + user_ctx) eff" where
  "gov_require_user R headers =
     (case Option.bind (header_get headers ''authorization'') (strip_prefix ''Bearer '') of
        Some jwt \<Rightarrow>
          eff_map (\<lambda>u. ok_or u (error_response 401 ''invalid_session''))
            (verify_session (gr_ext R) (gr_env R) (gr_verifier R) jwt)
      | None \<Rightarrow> Done (Inl (error_response 401 ''missing_bearer_token'')))"

definition constant_time_secret_matches :: "externals \<Rightarrow> string \<Rightarrow> string \<Rightarrow> bool" where
  "constant_time_secret_matches X expected supplied \<longleftrightarrow>
     xor_fold (sha256 X (as_bytes expected)) (sha256 X (as_bytes supplied)) = 0"

definition require_verifier :: "externals \<Rightarrow> governance_config \<Rightarrow> header_map \<Rightarrow> ceremony_error + unit" where
  "require_verifier X config headers =
     (if \<not> gc_enabled config then Inl CeDisabled
      else
        rbind (ok_or (header_get headers VERIFIER_HEADER) CeUnauthorized) (\<lambda>supplied.
        rbind (config_verifier_secret config) (\<lambda>expected.
        if \<not> constant_time_secret_matches X expected supplied then Inl CeUnauthorized else Inr ())))"

definition parse_idempotency_key :: "header_map \<Rightarrow> ceremony_error + string" where
  "parse_idempotency_key headers =
     rbind (ok_or (map_option str_trim (header_get headers IDEMPOTENCY_HEADER))
              (CeInvalidRequest ''idempotency_key_required'')) (\<lambda>val.
       if length val < 16 \<or> 128 < length val \<or> has_blank_or_control val
       then Inl (CeInvalidRequest ''invalid_idempotency_key'') else Inr val)"

section \<open>Handlers\<close>

definition gov_health :: "ceremony_app_state \<Rightarrow> http_reply" where
  "gov_health state =
     json_reply 200 (VObj [(''governance_webauthn_enabled'', VBool (gc_enabled (ca_config state))),
       (''service'', VStr ''fiducia-governance-ceremony''), (''status'', VStr ''ok'')])"

text \<open>An error of the ceremony component ends a handler with its reply.\<close>

definition or_error :: "ceremony_error + 'a \<Rightarrow> ('a \<Rightarrow> ('c, http_reply) eff) \<Rightarrow> ('c, http_reply) eff" where
  "or_error r f = or_return (Done (map_err ceremony_error_response r)) f"

definition begin_approval ::
  "'k gov_runtime \<Rightarrow> ceremony_app_state \<Rightarrow> string \<Rightarrow> header_map \<Rightarrow> begin_approval_request \<Rightarrow> nat option \<Rightarrow>
   ('k sb_state, http_reply) eff" where
  "begin_approval R state proposal_id headers body clock =
     or_return (gov_require_user R headers) (\<lambda>user.
     if aal user \<noteq> Aal2 then Done (error_response 403 ''aal2_required'')
     else if bq_org_id body \<notin> set (orgs user) then Done (error_response 403 ''forbidden_tenant'')
     else if bq_participant_id body \<noteq> user_id user then Done (error_response 403 ''participant_binding_required'')
     else
       or_error (parse_idempotency_key headers) (\<lambda>idempotency_key.
       or_error (app_store state) (\<lambda>store.
       or_return (eff_map (map_err ceremony_error_response)
         (begin_ceremony (gr_ext R) (gr_lib R) store proposal_id (bq_participant_id body) (bq_org_id body)
            idempotency_key body (gov_now_ms clock))) (\<lambda>response.
       Done (json_reply 201 (begin_response_json response))))))"

definition claim_ceremony ::
  "'k gov_runtime \<Rightarrow> ceremony_app_state \<Rightarrow> string \<Rightarrow> header_map \<Rightarrow> claim_request \<Rightarrow> nat option \<Rightarrow>
   ('k sb_state, http_reply) eff" where
  "claim_ceremony R state cid headers body clock =
     or_error (require_verifier (gr_ext R) (ca_config state) headers) (\<lambda>_.
     or_error (app_store state) (\<lambda>store.
     or_return (eff_map (map_err ceremony_error_response)
       (claim_ceremony_store (gr_ext R) (gr_lib R) store cid body (gov_now_ms clock))) (\<lambda>response.
     Done (json_reply 200 (claim_response_json response)))))"

definition complete_verified ::
  "'k gov_runtime \<Rightarrow> ceremony_app_state \<Rightarrow> string \<Rightarrow> header_map \<Rightarrow> complete_verified_request \<Rightarrow> nat option \<Rightarrow>
   ('k sb_state, http_reply) eff" where
  "complete_verified R state cid headers body clock =
     or_error (require_verifier (gr_ext R) (ca_config state) headers) (\<lambda>_.
     or_error (app_store state) (\<lambda>store.
     or_return (eff_map (map_err ceremony_error_response)
       (complete_verified_store (gr_ext R) (gr_lib R) store cid body (gov_now_ms clock))) (\<lambda>response.
     Done (json_reply 200 (complete_response_json response)))))"

datatype gov_request =
    GovHealth
  | BeginApproval string header_map begin_approval_request "nat option"
  | ClaimCeremony string header_map claim_request "nat option"
  | CompleteVerified string header_map complete_verified_request "nat option"

fun gov_handle :: "'k gov_runtime \<Rightarrow> ceremony_app_state \<Rightarrow> gov_request \<Rightarrow> ('k sb_state, http_reply) eff" where
  "gov_handle R state GovHealth = Done (gov_health state)"
| "gov_handle R state (BeginApproval proposal_id headers body clock) =
     begin_approval R state proposal_id headers body clock"
| "gov_handle R state (ClaimCeremony cid headers body clock) = claim_ceremony R state cid headers body clock"
| "gov_handle R state (CompleteVerified cid headers body clock) = complete_verified R state cid headers body clock"

end
