(* ===== verification/Governance_Access.thy ===== *)
theory Governance_Access
  imports Governance_Server Server_Tenancy
begin

text \<open>
  Who may do what over HTTP in the governance service: a ceremony is begun by a strongly authenticated
  member for itself only, the internal routes need the verifier secret, and a service that is
  switched off neither reads nor writes ceremonies.
\<close>

section \<open>Beginning a ceremony\<close>

lemma error_response_status [simp]: "re_status (error_response n code) = n"
  by (simp add: error_response_def json_reply_def)

lemma ceremony_error_status: "re_status (ceremony_error_response e) \<in> {400, 401, 404, 409, 410, 500, 503}"
  by (cases e) simp_all

lemma ceremony_error_status_ok [simp]:
  "re_status (ceremony_error_response e) \<noteq> 200" "re_status (ceremony_error_response e) \<noteq> 201"
  using ceremony_error_status [of e] by auto

text \<open>\<open>ceremony_write path rq\<close>: the request is no write, or writes at \<open>path\<close>.\<close>

definition ceremony_write :: "string \<Rightarrow> kv_request \<Rightarrow> bool" where
  "ceremony_write path rq \<longleftrightarrow> rq_method rq = GET \<or> rq_key rq = Some path"

lemma swp_load_ceremony:
  assumes "\<And>r. Q r"
  shows "swp (ceremony_write path) Q (load_ceremony X G S cid)"
  using assms by (intro swp_reads) (auto simp: load_ceremony_def ceremony_write_def intro!: only_reads_try only_reads_map)

lemma begin_ceremony_writes:
  assumes "\<And>e. Q (Inl e)"
    and "\<And>resp. gc_enabled (ct_config S) \<Longrightarrow> tenant \<in> gc_allowed_tenants (ct_config S) \<Longrightarrow>
      bp_ceremony_id resp = ceremony_id X tenant participant proposal key \<Longrightarrow> Q (Inr resp)"
  shows "swp (ceremony_write (ceremony_path (ceremony_id X tenant participant proposal key))) Q
    (begin_ceremony X G S proposal participant tenant key request now)"
proof (cases "begin_record X G (ct_config S) proposal participant tenant key request now")
  case (Inl e)
  then show ?thesis by (simp add: begin_ceremony_def assms(1))
next
  case (Inr x)
  obtain r ch where x: "x = (r, ch)" by (cases x)
  with Inr have id: "cr_ceremony_id r = ceremony_id X tenant participant proposal key"
    by (intro begin_record_Inr(1)) simp
  from Inr have on: "gc_enabled (ct_config S)" "tenant \<in> gc_allowed_tenants (ct_config S)"
    by (auto simp: begin_record_def rbind_eq_Inr ensure_eq_Inr)
  have put: "swp (ceremony_write (ceremony_path (cr_ceremony_id r))) Q
    (eff_try (eff_map (map_err CeStore)
       (put_if_revision X (ct_kv S) (ceremony_path (cr_ceremony_id r)) (ceremony_to_json r) 0)) f)"
    if "\<And>outcome. swp (ceremony_write (ceremony_path (cr_ceremony_id r))) Q (f outcome)" for f
    using that assms(1)
    by (intro swp_try) (auto simp: swp_map put_if_revision_def put_inner_def ceremony_write_def split: sum.split)
  have own: "Q (Inr resp)" if "bp_ceremony_id resp = cr_ceremony_id r" for resp
    using assms(2) [OF on] that by (simp add: id)
  have load: "swp (ceremony_write (ceremony_path (cr_ceremony_id r))) Q
    (eff_try (load_ceremony X G S (cr_ceremony_id r)) (\<lambda>existing. Done (g existing)))"
    if "\<And>existing. Q (g existing)" for g
    by (intro swp_try swp_load_ceremony) (simp add: assms(1) that split: sum.split)
  show ?thesis
    unfolding id [symmetric] begin_ceremony_def Inr x
    by (cases "validate_record_against_config X G r (ct_config S) (cr_ceremony_id r)")
       (auto simp: assms(1) own intro!: put load split: cas_outcome.split)
qed

lemma gov_require_user_accepts:
  assumes "follows (gov_require_user R headers) tr (Done (Inr user))"
  obtains jwt where "header_get headers ''authorization'' = Some (''Bearer '' @ jwt)"
    "follows (verify_session (gr_ext R) (gr_env R) (gr_verifier R) jwt) tr (Done (Some user))"
proof (cases "Option.bind (header_get headers ''authorization'') (strip_prefix ''Bearer '')")
  case None
  with assms show ?thesis by (auto simp: gov_require_user_def elim: follows_DoneE)
next
  case (Some jwt)
  with assms have "follows (verify_session (gr_ext R) (gr_env R) (gr_verifier R) jwt) tr (Done (Some user))"
    by (auto simp: gov_require_user_def ok_or_eq_Inr elim!: follows_mapE)
  moreover from Some have "header_get headers ''authorization'' = Some (''Bearer '' @ jwt)"
    by (auto simp: bind_eq_Some_conv)
  ultimately show ?thesis by (rule that [rotated])
qed

lemma gov_require_user_refuses:
  "follows (gov_require_user R headers) tr (Done (Inl e)) \<Longrightarrow> re_status e = 401"
  by (auto simp: gov_require_user_def ok_or_eq_Inl elim!: follows_mapE follows_DoneE split: option.splits)

lemma only_reads_gov_require_user: "only_reads (gov_require_user R headers)"
  by (auto simp: gov_require_user_def intro!: only_reads_map split: option.split)

definition begins_for :: "'k gov_runtime \<Rightarrow> ceremony_app_state \<Rightarrow> string \<Rightarrow> begin_approval_request \<Rightarrow> user_ctx \<Rightarrow>
   string \<Rightarrow> ('k sb_state, http_reply) eff \<Rightarrow> bool" where
  "begins_for R state proposal body user key q \<longleftrightarrow>
     swp (ceremony_write (ceremony_path (ceremony_id (gr_ext R) (bq_org_id body) (user_id user) proposal key)))
       (\<lambda>reply. re_status reply = 201 \<longrightarrow>
          (\<exists>store response. ca_store state = Some store \<and> bq_org_id body \<in> gc_allowed_tenants (ct_config store)
             \<and> re_body reply = Some (begin_response_json response)
             \<and> bp_ceremony_id response = ceremony_id (gr_ext R) (bq_org_id body) (user_id user) proposal key)) q"

lemma begins_for_approval:
  assumes "bq_participant_id body = user_id user"
  shows "begins_for R state proposal body user key
    (or_error (app_store state) (\<lambda>store.
     or_return (eff_map (map_err ceremony_error_response)
       (begin_ceremony (gr_ext R) (gr_lib R) store proposal (bq_participant_id body) (bq_org_id body)
          key body (gov_now_ms clock))) (\<lambda>response.
     Done (json_reply 201 (begin_response_json response)))))"
proof (cases "ca_store state")
  case None
  then show ?thesis by (simp add: begins_for_def or_error_def app_store_def)
next
  case (Some store)
  then show ?thesis
    unfolding begins_for_def assms
    by (auto simp: or_error_def app_store_def swp_map json_reply_def intro!: swp_or_return begin_ceremony_writes) blast
qed

text \<open>
  C16. A ceremony is begun only by a strongly authenticated member for itself: whatever the services answer,
  before the governance service writes anything or answers 201 to a begin request, the first bearer token
  of the request was verified and accepted as a session at assurance level 2 of a member of the
  named organisation who is the named participant; the first idempotency header of the request, trimmed,
  is a key of 16 to 128 bytes without blanks; the only entry written is the ceremony of exactly that organisation,
  user, proposal and key; and a 201 is answered only for an organisation on the configured list, and names
  that same ceremony.
\<close>
theorem begin_needs_strong_session:
  assumes "follows (begin_approval R state proposal headers body clock) tr q"
    and "(\<exists>rq k. q = Send rq k \<and> rq_method rq = PUT) \<or> (\<exists>reply. q = Done reply \<and> re_status reply = 201)"
  shows "\<exists>jwt user key tr1 tr2. tr = tr1 @ tr2
    \<and> header_get headers ''authorization'' = Some (''Bearer '' @ jwt)
    \<and> follows (verify_session (gr_ext R) (gr_env R) (gr_verifier R) jwt) tr1 (Done (Some user))
    \<and> aal user = Aal2 \<and> bq_org_id body \<in> set (orgs user) \<and> bq_participant_id body = user_id user
    \<and> map_option str_trim (header_get headers IDEMPOTENCY_HEADER) = Some key
    \<and> 16 \<le> length key \<and> length key \<le> 128 \<and> \<not> has_blank_or_control key
    \<and> (\<forall>rq k. q = Send rq k \<and> rq_method rq = PUT \<longrightarrow>
         rq_key rq = Some (ceremony_path (ceremony_id (gr_ext R) (bq_org_id body) (user_id user) proposal key)))
    \<and> (\<forall>reply. q = Done reply \<and> re_status reply = 201 \<longrightarrow>
         (\<exists>store response. ca_store state = Some store \<and> bq_org_id body \<in> gc_allowed_tenants (ct_config store)
            \<and> re_body reply = Some (begin_response_json response)
            \<and> bp_ceremony_id response = ceremony_id (gr_ext R) (bq_org_id body) (user_id user) proposal key))"
  using assms(1) [unfolded begin_approval_def]
proof (cases rule: follows_or_returnE)
  case (first m')
  then have "only_reads m'" using only_reads_follows [OF first(1) only_reads_gov_require_user] by simp
  show ?thesis
  proof (cases m')
    case (Done x)
    with first(2) show ?thesis by blast
  qed (use first(3) assms(2) \<open>only_reads m'\<close> in auto)
next
  case (early e)
  with gov_require_user_refuses [OF early(1)] assms(2) show ?thesis by auto
next
  case (second user tr1 tr2)
  obtain jwt where jwt: "header_get headers ''authorization'' = Some (''Bearer '' @ jwt)"
    "follows (verify_session (gr_ext R) (gr_env R) (gr_verifier R) jwt) tr1 (Done (Some user))"
    by (rule gov_require_user_accepts [OF second(2)])
  have checks: "aal user = Aal2" "bq_org_id body \<in> set (orgs user)" "bq_participant_id body = user_id user"
    using second(3) assms(2) by (auto elim: follows_DoneE split: if_splits)
  show ?thesis
  proof (cases "parse_idempotency_key headers")
    case (Inl e)
    with second(3) checks assms(2) show ?thesis by (auto simp: or_error_def elim: follows_DoneE)
  next
    case (Inr key)
    then have key: "map_option str_trim (header_get headers IDEMPOTENCY_HEADER) = Some key"
      "16 \<le> length key" "length key \<le> 128" "\<not> has_blank_or_control key"
      by (auto simp: parse_idempotency_key_def rbind_eq_Inr ok_or_eq_Inr split: if_splits)
    with begins_for_approval [OF checks(3), of R state proposal key clock] checks second(3) have "begins_for R state proposal body user key q"
      unfolding begins_for_def by (auto simp: Inr or_error_def intro: follows_swp)
    with assms(2) second(1) jwt checks key show ?thesis
      by (intro exI [of _ jwt] exI [of _ user] exI [of _ key] exI [of _ tr1] exI [of _ tr2])
         (auto simp: begins_for_def ceremony_write_def)
  qed
qed

section \<open>The internal routes\<close>

lemma constant_time_secret_matches_iff:
  assumes "externals_ok X"
  shows "constant_time_secret_matches X expected supplied \<longleftrightarrow> sha256 X (as_bytes expected) = sha256 X (as_bytes supplied)"
  using xor_fold_zero_acc [of "sha256 X (as_bytes expected)" "sha256 X (as_bytes supplied)" 0] externals_okD(1) [OF assms]
  by (simp add: constant_time_secret_matches_def xor_fold_def)

lemma require_verifier_cases:
  assumes "externals_ok X" "gc_enabled config" "gc_verifier_secret config = Some secret"
  shows "require_verifier X config headers =
    (if \<exists>supplied. header_get headers VERIFIER_HEADER = Some supplied
          \<and> sha256 X (as_bytes secret) = sha256 X (as_bytes supplied)
     then Inr () else Inl CeUnauthorized)"
  using assms(2,3) constant_time_secret_matches_iff [OF assms(1)]
  by (cases "header_get headers VERIFIER_HEADER") (auto simp: require_verifier_def config_verifier_secret_def)

text \<open>
  C17. The internal routes need the verifier secret: on an enabled service a claim or a completion reaches
  the ceremony store exactly when the first verifier header has the digest of the configured
  secret; the comparison without early exit decides just that; every other request is answered 401
  without any exchange with the storage service.
\<close>
theorem internal_routes_need_verifier:
  assumes "externals_ok (gr_ext R)" and "gc_enabled (ca_config state)"
    and "gc_verifier_secret (ca_config state) = Some secret" and "ca_store state = Some store"
  shows "if \<exists>supplied. header_get headers VERIFIER_HEADER = Some supplied
             \<and> sha256 (gr_ext R) (as_bytes secret) = sha256 (gr_ext R) (as_bytes supplied)
         then claim_ceremony R state cid headers claim clock =
                eff_map (case_sum ceremony_error_response (\<lambda>resp. json_reply 200 (claim_response_json resp)))
                  (claim_ceremony_store (gr_ext R) (gr_lib R) store cid claim (gov_now_ms clock))
            \<and> complete_verified R state cid headers verified clock =
                eff_map (case_sum ceremony_error_response (\<lambda>resp. json_reply 200 (complete_response_json resp)))
                  (complete_verified_store (gr_ext R) (gr_lib R) store cid verified (gov_now_ms clock))
         else claim_ceremony R state cid headers claim clock = Done (error_response 401 ''unauthorized'')
            \<and> complete_verified R state cid headers verified clock = Done (error_response 401 ''unauthorized'')"
proof -
  have map: "or_return (eff_map (map_err ceremony_error_response) p) (\<lambda>x. Done (g x)) = eff_map (case_sum ceremony_error_response g) p"
    for p :: "('c, ceremony_error + 'd) eff" and g
    unfolding or_return_def eff_map_def eff_bind_assoc
    by (rule arg_cong [of _ _ "eff_bind p"]) (auto simp: fun_eq_iff split: sum.split)
  show ?thesis
  proof (cases "\<exists>supplied. header_get headers VERIFIER_HEADER = Some supplied
      \<and> sha256 (gr_ext R) (as_bytes secret) = sha256 (gr_ext R) (as_bytes supplied)")
    case True
    with require_verifier_cases [OF assms(1-3), of headers]
    have "require_verifier (gr_ext R) (ca_config state) headers = Inr ()" by (simp only: if_True)
    then show ?thesis
      unfolding if_P [OF True] using assms(4)
      by (simp add: claim_ceremony_def complete_verified_def or_error_def app_store_def map)
  next
    case False
    with require_verifier_cases [OF assms(1-3), of headers]
    have "require_verifier (gr_ext R) (ca_config state) headers = Inl CeUnauthorized" by (simp only: if_False)
    then show ?thesis
      unfolding if_not_P [OF False] by (simp add: claim_ceremony_def complete_verified_def or_error_def)
  qed
qed

section \<open>Switched off\<close>

text \<open>
  A service that is not switched on is inert: it starts without looking at any other
  configuration of the ceremonies but their lifetime, and then no request of any route ever writes, the
  internal routes answer 404 without any exchange, and no begin request is answered with success.
\<close>
lemma disabled_governance_is_inert:
  assumes "ceremony_app_from_env X G U W debug env = Inr state"
    and "\<forall>v. env ''FIDUCIA_GOVERNANCE_WEBAUTHN_ENABLED'' = Some v \<longrightarrow> str_trim v \<notin> {''true'', ''1''}"
  shows "swp (\<lambda>rq. rq_method rq = GET) (\<lambda>reply. re_status reply \<notin> {200, 201})
           (begin_approval R state proposal headers body clock)
       \<and> claim_ceremony R state cid headers claim clock = Done (error_response 404 ''governance_disabled'')
       \<and> complete_verified R state cid headers verified clock = Done (error_response 404 ''governance_disabled'')"
proof -
  obtain config where config: "governance_config_from_env X G U debug env = Inr config"
    using assms(1) by (auto simp: ceremony_app_from_env_def rbind_eq_Inr)
  have "\<not> gc_enabled config"
  proof
    assume on: "gc_enabled config"
    from config obtain enabled where e: "parse_strict_bool (env ''FIDUCIA_GOVERNANCE_WEBAUTHN_ENABLED'') = Inr enabled"
      by (auto simp: governance_config_from_env_def rbind_eq_Inr)
    with on config have enabled by (cases enabled) (auto simp: governance_config_from_env_def rbind_eq_Inr)
    with e assms(2) show False by (auto simp: parse_strict_bool_True)
  qed
  with assms(1) config have state: "ca_store state = None" "\<not> gc_enabled (ca_config state)"
    by (auto simp: ceremony_app_from_env_def)
  have "swp (\<lambda>rq. rq_method rq = GET) (\<lambda>reply. re_status reply \<notin> {200, 201})
      (begin_approval R state proposal headers body clock)"
    unfolding begin_approval_def
    by (rule swp_or_return, cases "Option.bind (header_get headers ''authorization'') (strip_prefix ''Bearer '')")
       (auto simp: gov_require_user_def swp_map ok_or_eq_Inl map_err_eq_Inl or_error_def app_store_def state or_return_def
         intro!: swp_reads split: sum.split)
  with state show ?thesis by (simp add: claim_ceremony_def complete_verified_def or_error_def require_verifier_def)
qed

end
