(* ===== verification/Revocation_Admin.thy ===== *)
theory Revocation_Admin
  imports Server_Demo Revocation_Service
begin

text \<open>
  \<open>bin/fiducia-revocation-admin.rs\<close>: the administrative HTTP service over the revocation ledgers.
  Mutations and checks are authorised by different secrets; every mutation names an actor and an
  idempotency key.  The process state is the one of the revocation store.  Request bodies are
  given decoded; every environment variable that is set is text.
\<close>

section \<open>Start-up\<close>

definition ADMIN_SERVICE :: string where
  "ADMIN_SERVICE = ''fiducia-revocation-admin''"

definition DEFAULT_PORT :: u16 where
  "DEFAULT_PORT = 8098"

definition MIN_SECRET_BYTES :: nat where
  "MIN_SECRET_BYTES = 32"

definition ADMIN_AUTH_HEADER :: string where
  "ADMIN_AUTH_HEADER = ''x-revocation-admin-auth''"

definition READER_AUTH_HEADER :: string where
  "READER_AUTH_HEADER = ''x-revocation-reader-auth''"

definition ACTOR_HEADER :: string where
  "ACTOR_HEADER = ''x-fiducia-actor''"

record admin_state =
  ad_revocations :: "kv_client option"
  ad_admin_secret :: string
  ad_reader_secret :: string

datatype admin_start_error =
    AdminNotConfigured string
  | AdminWeakSecret string
  | AdminSecretsNotDistinct
  | AdminStoreError store_error
  | AdminPortError

definition admin_validate_secret :: "string \<Rightarrow> string \<Rightarrow> admin_start_error + string" where
  "admin_validate_secret name val =
     (if length val < MIN_SECRET_BYTES \<or> (\<exists>c\<in>set (chars val). is_control c \<or> is_whitespace c)
      then Inl (AdminWeakSecret name) else Inr val)"

definition admin_required_secret :: "environment \<Rightarrow> string \<Rightarrow> admin_start_error + string" where
  "admin_required_secret env name =
     rbind (ok_or (env name) (AdminNotConfigured name)) (admin_validate_secret name)"

definition admin_port_from_env :: "environment \<Rightarrow> admin_start_error + u16" where
  "admin_port_from_env env =
     (case env ''FIDUCIA_REVOCATION_PORT'' of
        None \<Rightarrow> Inr DEFAULT_PORT
      | Some val \<Rightarrow>
          (case parse_u64 (str_trim val) of
             Some p \<Rightarrow> if unat p < 2 ^ 16 \<and> p \<noteq> 0 then Inr (ucast p) else Inl AdminPortError
           | None \<Rightarrow> Inl AdminPortError))"

definition admin_start :: "environment \<Rightarrow> admin_start_error + admin_state \<times> u16" where
  "admin_start env =
     rbind (admin_required_secret env ''FIDUCIA_REVOCATION_ADMIN_SECRET'') (\<lambda>admin_secret.
     rbind (admin_required_secret env ''FIDUCIA_REVOCATION_READER_SECRET'') (\<lambda>reader_secret.
     if constant_time_eq (as_bytes admin_secret) (as_bytes reader_secret) then Inl AdminSecretsNotDistinct
     else
       rbind (map_err AdminStoreError (revocation_store_from_env env)) (\<lambda>revocations.
       rbind (admin_port_from_env env) (\<lambda>port.
       Inr (\<lparr>ad_revocations = revocations, ad_admin_secret = admin_secret, ad_reader_secret = reader_secret\<rparr>, port)))))"

text \<open>The clock in seconds since the epoch; \<open>None\<close> is a clock before it.\<close>

definition admin_now_secs :: "u64 option \<Rightarrow> u64" where
  "admin_now_secs clock = (case clock of Some secs \<Rightarrow> secs | None \<Rightarrow> 0)"

section \<open>Authorisation and input\<close>

definition authorized :: "header_map \<Rightarrow> string \<Rightarrow> string \<Rightarrow> bool" where
  "authorized headers name expected =
     (case header_get headers name of
        Some provided \<Rightarrow> constant_time_eq (as_bytes provided) (as_bytes expected)
      | None \<Rightarrow> False)"

definition required_actor :: "header_map \<Rightarrow> string + string" where
  "required_actor headers =
     (case map_option str_trim (header_get headers ACTOR_HEADER) of
        None \<Rightarrow> Inl ''actor_required''
      | Some actor \<Rightarrow>
          if actor = [] \<or> 128 < length actor \<or> (\<exists>c\<in>set (chars actor). is_control c)
          then Inl ''invalid_actor'' else Inr actor)"

definition required_idempotency_key :: "header_map \<Rightarrow> string + string" where
  "required_idempotency_key headers =
     (case map_option str_trim (header_get headers ''idempotency-key'') of
        None \<Rightarrow> Inl ''idempotency_key_required''
      | Some key \<Rightarrow>
          if key = [] \<or> 128 < length key \<or> (\<exists>c\<in>set (chars key). is_control c \<or> is_whitespace c)
          then Inl ''invalid_idempotency_key'' else Inr key)"

section \<open>Replies\<close>

definition no_store :: "json \<Rightarrow> http_reply" where
  "no_store val = \<lparr>re_status = 200, re_headers = [(''cache-control'', ''no-store'')], re_body = Some val\<rparr>"

definition admin_unauthorized :: http_reply where
  "admin_unauthorized = json_reply 401 (VObj [(''error'', VStr ''unauthorized'')])"

definition bad_request :: "string \<Rightarrow> http_reply" where
  "bad_request code = json_reply 400 (VObj [(''error'', VStr code)])"

fun revocation_error_code :: "revocation_error \<Rightarrow> nat \<times> string" where
  "revocation_error_code (InvalidMutation m) = (400, ''invalid_revocation_request'')"
| "revocation_error_code InvalidClaims = (400, ''invalid_revocation_request'')"
| "revocation_error_code (RevContract e) = (400, ''invalid_revocation_request'')"
| "revocation_error_code RevIdempotencyConflict = (409, ''idempotency_conflict'')"
| "revocation_error_code NotFound = (404, ''revocation_not_found'')"
| "revocation_error_code NotActive = (409, ''revocation_not_active'')"
| "revocation_error_code TransitionLimit = (409, ''revocation_transition_limit'')"
| "revocation_error_code (RevStore e) = (503, ''storage_unavailable'')"
| "revocation_error_code InvalidLedger = (503, ''storage_unavailable'')"
| "revocation_error_code RevCasRetriesExhausted = (503, ''storage_unavailable'')"

definition revocation_error_reply :: "revocation_error \<Rightarrow> http_reply" where
  "revocation_error_reply e =
     json_reply (fst (revocation_error_code e)) (VObj [(''error'', VStr (snd (revocation_error_code e)))])"

fun revocation_status_str :: "revocation_status \<Rightarrow> string" where
  "revocation_status_str Pending = ''pending''"
| "revocation_status_str Active = ''active''"
| "revocation_status_str Lifted = ''lifted''"
| "revocation_status_str Expired = ''expired''"

fun matched_target_str :: "matched_target \<Rightarrow> string" where
  "matched_target_str MatchedTokenId = ''token_id''"
| "matched_target_str MatchedSubject = ''subject''"

text \<open>A value inside a document lists its members in map order.\<close>

definition snapshot_json :: "revocation_snapshot \<Rightarrow> json" where
  "snapshot_json s =
     VObj [(''expires_at'', opt_json (\<lambda>n. VNum (PosInt n)) (sn_expires_at s)),
           (''generation'', VNum (PosInt (sn_generation s))),
           (''status'', VStr (revocation_status_str (sn_status s))),
           (''storage_key'', VStr (sn_storage_key s))]"

definition decision_json :: "revocation_decision \<Rightarrow> json" where
  "decision_json d =
     VObj [(''expires_at'', opt_json (\<lambda>n. VNum (PosInt n)) (dc_expires_at d)),
           (''generation'', opt_json (\<lambda>n. VNum (PosInt n)) (dc_generation d)),
           (''matched_target'', opt_json (\<lambda>t. VStr (matched_target_str t)) (dc_matched_target d)),
           (''revoked'', VBool (dc_revoked d))]"

section \<open>Handlers\<close>

definition admin_health :: http_reply where
  "admin_health = json_reply 200 (VObj [(''service'', VStr ADMIN_SERVICE), (''status'', VStr ''ok'')])"

text \<open>What both mutations ask of a request before they touch the ledgers.\<close>

definition mutation_of_headers :: "admin_state \<Rightarrow> header_map \<Rightarrow> http_reply + rev_mutation_identity" where
  "mutation_of_headers S headers =
     (if \<not> authorized headers ADMIN_AUTH_HEADER (ad_admin_secret S) then Inl admin_unauthorized
      else
        rbind (map_err bad_request (required_actor headers)) (\<lambda>actor.
        rbind (map_err bad_request (required_idempotency_key headers)) (\<lambda>key.
        Inr \<lparr>rm_actor = actor, rm_idempotency_key = key\<rparr>)))"

definition revocation_reply :: "revocation_error + revocation_snapshot \<Rightarrow> http_reply" where
  "revocation_reply res =
     (case res of
        Inr snap \<Rightarrow> no_store (VObj [(''revocation'', snapshot_json snap)])
      | Inl e \<Rightarrow> revocation_error_reply e)"

definition admin_revoke ::
  "externals \<Rightarrow> admin_state \<Rightarrow> header_map \<Rightarrow> revoke_request \<Rightarrow> u64 option \<Rightarrow> (ledger_memory, http_reply) eff" where
  "admin_revoke X S headers request clock =
     or_return (Done (mutation_of_headers S headers)) (\<lambda>mutation.
       eff_map revocation_reply (rev_revoke X (ad_revocations S) request mutation (admin_now_secs clock)))"

definition admin_lift ::
  "externals \<Rightarrow> admin_state \<Rightarrow> header_map \<Rightarrow> lift_request \<Rightarrow> u64 option \<Rightarrow> (ledger_memory, http_reply) eff" where
  "admin_lift X S headers request clock =
     or_return (Done (mutation_of_headers S headers)) (\<lambda>mutation.
       eff_map revocation_reply (rev_lift X (ad_revocations S) request mutation (admin_now_secs clock)))"

definition admin_check ::
  "externals \<Rightarrow> admin_state \<Rightarrow> header_map \<Rightarrow> claims \<Rightarrow> u64 option \<Rightarrow> (ledger_memory, http_reply) eff" where
  "admin_check X S headers c clock =
     (if \<not> authorized headers READER_AUTH_HEADER (ad_reader_secret S) then Done admin_unauthorized
      else
        eff_map (\<lambda>res. case res of
                   Inr decision \<Rightarrow> no_store (VObj [(''decision'', decision_json decision)])
                 | Inl e \<Rightarrow> revocation_error_reply e)
          (rev_check X (ad_revocations S) c (admin_now_secs clock)))"

datatype admin_request =
    AdminHealth
  | AdminRevoke header_map revoke_request "u64 option"
  | AdminLift header_map lift_request "u64 option"
  | AdminCheck header_map claims "u64 option"

fun admin_handle :: "externals \<Rightarrow> admin_state \<Rightarrow> admin_request \<Rightarrow> (ledger_memory, http_reply) eff" where
  "admin_handle X S AdminHealth = Done admin_health"
| "admin_handle X S (AdminRevoke headers request clock) = admin_revoke X S headers request clock"
| "admin_handle X S (AdminLift headers request clock) = admin_lift X S headers request clock"
| "admin_handle X S (AdminCheck headers c clock) = admin_check X S headers c clock"

section \<open>Facts\<close>

lemma authorized_iff: "authorized headers name expected \<longleftrightarrow> header_get headers name = Some expected"
  by (simp add: authorized_def split: option.split)

lemma ucast_port_nonzero:
  assumes "unat p < 65536" "p \<noteq> (0 :: u64)"
  shows "(ucast p :: u16) \<noteq> 0"
proof -
  have "unat (ucast p :: u16) = unat p" using assms(1) by (simp add: unsigned_ucast_eq take_bit_nat_eq_self)
  with assms(2) show ?thesis by (metis unsigned_0 unat_eq_zero)
qed

lemma admin_start_Inr:
  assumes "admin_start env = Inr (S, port)"
  shows "ad_admin_secret S \<noteq> ad_reader_secret S" "32 \<le> length (ad_admin_secret S)" "32 \<le> length (ad_reader_secret S)"
    "port \<noteq> 0" "\<exists>kv. ad_revocations S = Some kv"
  using assms
  by (auto simp: admin_start_def rbind_eq_Inr map_err_eq_Inr admin_required_secret_def admin_validate_secret_def
      MIN_SECRET_BYTES_def revocation_store_from_env_def ok_or_eq_Inr admin_port_from_env_def DEFAULT_PORT_def
      ucast_port_nonzero split: if_splits option.splits)

text \<open>Every exchange of a mutation is about the ledger of its target; a check only reads.\<close>

lemma swp_ledger_exchange:
  "swp (\<lambda>rq. rq_key rq = Some key) (\<lambda>_. True) (load_ledger X kv key)"
  "swp (\<lambda>rq. rq_key rq = Some key) (\<lambda>_. True) (put_if_revision X kv key v revision)"
  by (auto simp: load_ledger_def swp_bind get_versioned_def put_if_revision_def put_inner_def
      split: sum.split option.split)

lemma swp_ledger_bind:
  assumes "swp P (\<lambda>_. True) m" "\<And>x. swp P Q (f x)"
  shows "swp P Q (eff_bind m f)"
  unfolding swp_bind using assms(1) by (rule swp_mono) (simp_all add: assms(2))

definition about_target :: "externals \<Rightarrow> revocation_selector \<Rightarrow> kv_request \<Rightarrow> bool" where
  "about_target X sel rq \<longleftrightarrow> (\<exists>key. sel_storage_key X sel = Inr key \<and> rq_key rq = Some key)"

lemma swp_about_target:
  assumes "sel_storage_key X sel = Inr key"
  shows "swp (about_target X sel) (\<lambda>_. True) (load_ledger X kv key)"
    "swp (about_target X sel) (\<lambda>_. True) (put_if_revision X kv key v revision)"
  using assms by (auto intro: swp_mono [OF swp_ledger_exchange(1)] swp_mono [OF swp_ledger_exchange(2)] simp: about_target_def)

lemma swp_rev_revoke:
  "swp (about_target X (request_selector request)) (\<lambda>_. True) (rev_revoke X (Some kv) request mutation now)"
  by (auto simp: rev_revoke_def rev_revoke_attempt_def Let_def rbind_eq_Inr intro!: swp_cas_retry swp_ledger_bind swp_about_target
      split: sum.split option.split cas_outcome.split if_splits)

lemma swp_rev_lift:
  "swp (about_target X (lf_selector request)) (\<lambda>_. True) (rev_lift X (Some kv) request mutation now)"
  by (auto simp: rev_lift_def rev_lift_attempt_def Let_def rbind_eq_Inr intro!: swp_cas_retry swp_ledger_bind swp_about_target
      split: sum.split option.split cas_outcome.split)

lemma swp_check_loop:
  assumes "\<forall>s\<in>set ss. \<forall>key. sel_storage_key X (fst s) = Inr key \<longrightarrow> key \<in> K"
  shows "swp (\<lambda>rq. rq_method rq = GET \<and> rq_key rq \<in> Some ` K) (\<lambda>_. True) (check_loop X (Some kv) c now ss)"
  using assms
proof (induction ss)
  case (Cons s ss)
  show ?case
  proof (cases "sel_storage_key X (fst s)")
    case (Inr key)
    have read: "swp (\<lambda>rq. rq_method rq = GET \<and> rq_key rq \<in> Some ` K) (\<lambda>_. True) (read_ledger X (Some kv) key)"
      using Inr Cons.prems
      by (auto simp: read_ledger_def load_ledger_def eff_try_def swp_bind get_versioned_def split: sum.split option.split)
    have "swp (\<lambda>rq. rq_method rq = GET \<and> rq_key rq \<in> Some ` K) (\<lambda>_. True) (check_loop X (Some kv) c now ss)"
      using Cons by simp
    with Inr read show ?thesis
      by (auto simp: eff_try_def intro!: swp_ledger_bind split: sum.split option.split)
  qed simp
qed simp

definition token_ledgers :: "externals \<Rightarrow> claims \<Rightarrow> string set" where
  "token_ledgers X c =
     {key. sel_storage_key X (SelTokenId (cl_org_id c) (cl_jti c)) = Inr key
         \<or> sel_storage_key X (SelSubject (cl_org_id c) (cl_sub c)) = Inr key}"

lemma swp_rev_check:
  "swp (\<lambda>rq. rq_method rq = GET \<and> rq_key rq \<in> Some ` token_ledgers X c) (\<lambda>_. True) (rev_check X (Some kv) c now)"
  unfolding rev_check_def
  by (cases "validate_internal_claims c") (simp, simp only: sum.case, rule swp_check_loop, simp add: token_ledgers_def)

text \<open>A mutation is presented with the writer's secret, an actor and an idempotency key.\<close>

definition presents_mutation :: "admin_state \<Rightarrow> header_map \<Rightarrow> bool" where
  "presents_mutation S headers \<longleftrightarrow>
     header_get headers ADMIN_AUTH_HEADER = Some (ad_admin_secret S)
   \<and> (\<exists>actor. header_get headers ACTOR_HEADER = Some actor \<and> audit_text_ok actor 128)
   \<and> (\<exists>key. header_get headers ''idempotency-key'' = Some key \<and> str_trim key \<noteq> [] \<and> length (str_trim key) \<le> 128)"

lemma mutation_of_headers_Inr:
  "mutation_of_headers S headers = Inr m \<Longrightarrow> presents_mutation S headers"
  by (auto simp: mutation_of_headers_def presents_mutation_def authorized_iff rbind_eq_Inr map_err_eq_Inr required_actor_def
      required_idempotency_key_def audit_text_ok_def not_less split: if_splits option.splits)

lemma swp_after_mutation:
  assumes "\<And>m. swp P (\<lambda>_. True) (f m)" "\<And>rq. P rq \<Longrightarrow> presents_mutation S headers \<Longrightarrow> P' rq"
  shows "swp P' (\<lambda>_. True) (or_return (Done (mutation_of_headers S headers)) (\<lambda>m. eff_map g (f m)))"
proof (cases "mutation_of_headers S headers")
  case (Inr m)
  have "swp P' (\<lambda>_. True) (f m)"
    using assms(1) by (rule swp_mono) (simp_all add: assms(2) mutation_of_headers_Inr [OF Inr])
  then show ?thesis by (simp add: Inr or_return_def swp_map)
qed (simp add: or_return_def)

text \<open>
  C23. The two planes of the revocation service are separate: a service that starts has two different secrets
  of at least 32 bytes; whatever the services answer, an exchange of a mutation needs the
  writer's secret - never the reader's - together with an actor and an idempotency key and is about
  the ledger of the requested target only, and an exchange of a check needs the reader's
  secret, only reads, and only the two ledgers of the token.
\<close>
theorem admin_planes_are_separate:
  assumes "admin_start env = Inr (S, port)" and "follows (admin_handle X S req) tr (Send rq k)"
  shows "ad_admin_secret S \<noteq> ad_reader_secret S \<and> 32 \<le> length (ad_admin_secret S) \<and> 32 \<le> length (ad_reader_secret S)
    \<and> (case req of
         AdminHealth \<Rightarrow> False
       | AdminRevoke headers request clock \<Rightarrow>
           presents_mutation S headers \<and> about_target X (request_selector request) rq
       | AdminLift headers request clock \<Rightarrow>
           presents_mutation S headers \<and> about_target X (lf_selector request) rq
       | AdminCheck headers c clock \<Rightarrow>
           header_get headers READER_AUTH_HEADER = Some (ad_reader_secret S) \<and> rq_method rq = GET
         \<and> (\<exists>key\<in>token_ledgers X c. rq_key rq = Some key))"
proof -
  obtain kv where kv: "ad_revocations S = Some kv" using admin_start_Inr(5) [OF assms(1)] by blast
  have P: "P rq" if "swp P (\<lambda>_. True) (admin_handle X S req)" for P
    using follows_swp [OF assms(2) that] by simp
  show ?thesis
  proof (cases req)
    case AdminHealth
    with assms(2) show ?thesis by (auto elim: follows_DoneE)
  next
    case (AdminRevoke headers request clock)
    have "presents_mutation S headers \<and> about_target X (request_selector request) rq"
      by (rule P, unfold AdminRevoke admin_handle.simps admin_revoke_def kv, rule swp_after_mutation [OF swp_rev_revoke]) simp
    with AdminRevoke admin_start_Inr [OF assms(1)] show ?thesis by simp
  next
    case (AdminLift headers request clock)
    have "presents_mutation S headers \<and> about_target X (lf_selector request) rq"
      by (rule P, unfold AdminLift admin_handle.simps admin_lift_def kv, rule swp_after_mutation [OF swp_rev_lift]) simp
    with AdminLift admin_start_Inr [OF assms(1)] show ?thesis by simp
  next
    case (AdminCheck headers c clock)
    let ?P = "\<lambda>rq. header_get headers READER_AUTH_HEADER = Some (ad_reader_secret S) \<and> rq_method rq = GET
         \<and> (\<exists>key\<in>token_ledgers X c. rq_key rq = Some key)"
    have "?P rq"
    proof (rule P)
      show "swp ?P (\<lambda>_. True) (admin_handle X S req)"
        unfolding AdminCheck admin_handle.simps admin_check_def kv
        by (auto simp: authorized_iff swp_map intro!: swp_mono [OF swp_rev_check [of X c kv]])
    qed
    with AdminCheck admin_start_Inr [OF assms(1)] show ?thesis by simp
  qed
qed

text \<open>
  C24. Revocation over HTTP takes hold.  On an answering service, a writer's request that revokes a live internal token
  which has no ledger yet is answered with generation 1 and stores its ledger.  From then on, until the
  token expires or that one ledger is written again (by a lift or another revocation), every reader's check of
  it over HTTP is answered with a decision that says revoked: on any replica, on any answering service, and whatever
  else has changed in the store in the meantime.
\<close>
theorem admin_revocation_takes_hold:
  assumes "externals_ok X" and "kv_reliable X srv" and "ad_revocations S = Some kv"
    and "mutation_of_headers S headers = Inr m" and "revocable c reason m (admin_now_secs clock)"
    and "sel_storage_key X (SelTokenId (cl_org_id c) (cl_jti c)) = Inr key" and "\<sigma> key = None"
  shows "\<exists>\<sigma>'. run srv (admin_revoke X S headers (RevokeTokenId c reason) clock) \<sigma> mem =
        (no_store (VObj [(''revocation'', snapshot_json \<lparr>sn_storage_key = key, sn_generation = 1, sn_status = Active,
            sn_expires_at = Some (cl_exp c)\<rparr>)]), \<sigma>', mem)
    \<and> \<sigma>' key \<noteq> None \<and> (\<forall>k. k \<noteq> key \<longrightarrow> \<sigma>' k = \<sigma> k)
    \<and> (\<forall>srv' S' kv' reader \<sigma>2 mem' t.
         kv_reliable X srv' \<and> ad_revocations S' = Some kv' \<and> header_get reader READER_AUTH_HEADER = Some (ad_reader_secret S')
         \<and> \<sigma>2 key = \<sigma>' key \<and> admin_now_secs clock \<le> t \<and> t < cl_exp c \<longrightarrow>
         run srv' (admin_check X S' reader c (Some t)) \<sigma>2 mem' =
           (no_store (VObj [(''decision'', decision_json \<lparr>dc_revoked = True, dc_matched_target = Some MatchedTokenId,
              dc_generation = Some 1, dc_expires_at = Some (cl_exp c)\<rparr>)]), \<sigma>2, mem'))"
proof -
  obtain \<sigma>' where revoked: "run srv (rev_revoke X (Some kv) (RevokeTokenId c reason) m (admin_now_secs clock)) \<sigma> mem =
      (Inr \<lparr>sn_storage_key = key, sn_generation = 1, sn_status = Active, sn_expires_at = Some (cl_exp c)\<rparr>, \<sigma>', mem)"
    and frame: "\<sigma>' key \<noteq> None" "\<forall>k. k \<noteq> key \<longrightarrow> \<sigma>' k = \<sigma> k"
    and later: "\<forall>srv' kv' \<sigma>2 mem' t. kv_reliable X srv' \<and> \<sigma>2 key = \<sigma>' key \<and> admin_now_secs clock \<le> t \<and> t < cl_exp c \<longrightarrow>
      run srv' (rev_check X (Some kv') c t) \<sigma>2 mem' =
        (Inr \<lparr>dc_revoked = True, dc_matched_target = Some MatchedTokenId, dc_generation = Some 1,
              dc_expires_at = Some (cl_exp c)\<rparr>, \<sigma>2, mem')"
    using revoke_token_takes_hold [where \<sigma> = \<sigma> and key = key, OF assms(1,2,5-7), of kv mem] by (elim exE conjE) simp
  have "run srv' (admin_check X S' reader c (Some t)) \<sigma>2 mem' =
      (no_store (VObj [(''decision'', decision_json \<lparr>dc_revoked = True, dc_matched_target = Some MatchedTokenId,
         dc_generation = Some 1, dc_expires_at = Some (cl_exp c)\<rparr>)]), \<sigma>2, mem')"
    if "kv_reliable X srv'" "ad_revocations S' = Some kv'" "header_get reader READER_AUTH_HEADER = Some (ad_reader_secret S')"
      "\<sigma>2 key = \<sigma>' key" "admin_now_secs clock \<le> t" "t < cl_exp c" for srv' S' kv' reader \<sigma>2 mem' t
    using later that by (simp add: admin_check_def authorized_iff run_or_return run_map admin_now_secs_def)
  moreover have "run srv (admin_revoke X S headers (RevokeTokenId c reason) clock) \<sigma> mem =
      (no_store (VObj [(''revocation'', snapshot_json \<lparr>sn_storage_key = key, sn_generation = 1, sn_status = Active,
          sn_expires_at = Some (cl_exp c)\<rparr>)]), \<sigma>', mem)"
    using revoked assms(3,4) by (simp add: admin_revoke_def run_or_return run_map revocation_reply_def)
  ultimately show ?thesis using frame by (intro exI [of _ \<sigma>'] conjI) blast+
qed

section \<open>Examples\<close>

definition demo_reader_secret :: string where
  "demo_reader_secret = replicate 32 (CHR ''r'')"

definition demo_admin_env :: environment where
  "demo_admin_env = [''FIDUCIA_REVOCATION_ADMIN_SECRET'' \<mapsto> demo_secret,
     ''FIDUCIA_REVOCATION_READER_SECRET'' \<mapsto> demo_reader_secret, ''FIDUCIA_KV_URL'' \<mapsto> ''u'',
     ''FIDUCIA_INTERNAL_SECRET'' \<mapsto> ''k'']"

definition demo_admin :: admin_state where
  "demo_admin = \<lparr>ad_revocations = Some \<lparr>kv_base = ''u'', kv_internal_secret = ''k'', kv_storage_org = ''fiducia-auth''\<rparr>,
     ad_admin_secret = demo_secret, ad_reader_secret = demo_reader_secret\<rparr>"

definition demo_writer_headers :: header_map where
  "demo_writer_headers = [(ADMIN_AUTH_HEADER, Some demo_secret), (ACTOR_HEADER, Some ''r''), (''idempotency-key'', Some ''k'')]"

definition demo_reader_headers :: header_map where
  "demo_reader_headers = [(READER_AUTH_HEADER, Some demo_reader_secret)]"

lemma demo_admin_starts: "admin_start demo_admin_env = Inr (demo_admin, 8098)"
proof -
  have "admin_validate_secret name demo_secret = Inr demo_secret"
    "admin_validate_secret name demo_reader_secret = Inr demo_reader_secret" for name
    by (simp_all add: admin_validate_secret_def demo_secret_def demo_reader_secret_def MIN_SECRET_BYTES_def numeral_eq_Suc
        chars_def utf8_width_def is_control_def is_whitespace_def)
  moreover have "demo_secret \<noteq> demo_reader_secret" by (simp add: demo_secret_def demo_reader_secret_def)
  moreover have "revocation_store_from_env demo_admin_env = Inr (ad_revocations demo_admin)"
    by (simp add: revocation_store_from_env_def kv_client_from_env_def demo_admin_env_def non_blank_def chars_def utf8_width_def
        is_whitespace_def is_control_def trim_end_matches_def demo_admin_def)
  moreover have "admin_port_from_env demo_admin_env = Inr 8098"
    by (simp add: admin_port_from_env_def demo_admin_env_def DEFAULT_PORT_def)
  ultimately show ?thesis
    by (simp add: admin_start_def admin_required_secret_def) (simp add: demo_admin_env_def demo_admin_def)
qed

lemma demo_writer: "mutation_of_headers demo_admin demo_writer_headers = Inr demo_actor"
  by (simp add: mutation_of_headers_def authorized_iff required_actor_def required_idempotency_key_def header_get_def
      demo_writer_headers_def ADMIN_AUTH_HEADER_def ACTOR_HEADER_def demo_admin_def demo_actor_def chars_def utf8_width_def
      is_control_def is_whitespace_def)

lemma demo_reader: "header_get demo_reader_headers READER_AUTH_HEADER = Some (ad_reader_secret demo_admin)"
  by (simp add: header_get_def demo_reader_headers_def demo_admin_def)

theorem admin_planes_are_separate_witness:
  "\<exists>rq k. admin_handle demo demo_admin (AdminCheck demo_reader_headers demo_claims (Some 30)) = Send rq k
     \<and> rq_method rq = GET \<and> (\<exists>key\<in>token_ledgers demo demo_claims. rq_key rq = Some key)"
proof -
  obtain rq k where p: "admin_handle demo demo_admin (AdminCheck demo_reader_headers demo_claims (Some 30)) = Send rq k"
    by (simp add: admin_check_def authorized_iff demo_reader demo_admin_def rev_check_def read_ledger_def load_ledger_def
        get_versioned_def eff_try_def eff_map_def)
  then have "follows (admin_handle demo demo_admin (AdminCheck demo_reader_headers demo_claims (Some 30))) [] (Send rq k)"
    by (simp only:) (rule follows.here)
  from admin_planes_are_separate [OF demo_admin_starts this] p show ?thesis by simp
qed

theorem admin_revocation_takes_hold_witness:
  "\<exists>\<sigma>' reply. run ref_server (admin_revoke demo demo_admin demo_writer_headers (RevokeTokenId demo_claims ''r'') (Some 20))
       (\<lambda>_. None) [] = (reply, \<sigma>', []) \<and> re_status reply = 200
     \<and> fst (run ref_server (admin_check demo demo_admin demo_reader_headers demo_claims (Some 69)) \<sigma>' []) =
         no_store (VObj [(''decision'', decision_json \<lparr>dc_revoked = True, dc_matched_target = Some MatchedTokenId,
           dc_generation = Some 1, dc_expires_at = Some 70\<rparr>)])"
proof -
  have key: "sel_storage_key demo (SelTokenId (cl_org_id demo_claims) (cl_jti demo_claims)) =
      Inr (demo_ledger_key (SelTokenId ''o'' ''j''))"
    by simp
  have kv: "ad_revocations demo_admin = Some \<lparr>kv_base = ''u'', kv_internal_secret = ''k'', kv_storage_org = ''fiducia-auth''\<rparr>"
    by (simp add: demo_admin_def)
  have now: "revocable demo_claims ''r'' demo_actor (admin_now_secs (Some 20))"
    by (simp add: admin_now_secs_def demo_revocable)
  from admin_revocation_takes_hold [where \<sigma> = "\<lambda>_. None" and mem = "[]", OF demo_ok ref_server_reliable kv demo_writer now key refl]
  obtain \<sigma>' where s: "run ref_server (admin_revoke demo demo_admin demo_writer_headers (RevokeTokenId demo_claims ''r'') (Some 20))
       (\<lambda>_. None) [] = (no_store (VObj [(''revocation'', snapshot_json
          \<lparr>sn_storage_key = demo_ledger_key (SelTokenId ''o'' ''j''), sn_generation = 1, sn_status = Active,
            sn_expires_at = Some (cl_exp demo_claims)\<rparr>)]), \<sigma>', [])"
    and later: "\<forall>srv' S' kv' reader \<sigma>2 mem' t.
         kv_reliable demo srv' \<and> ad_revocations S' = Some kv' \<and> header_get reader READER_AUTH_HEADER = Some (ad_reader_secret S')
         \<and> \<sigma>2 (demo_ledger_key (SelTokenId ''o'' ''j'')) = \<sigma>' (demo_ledger_key (SelTokenId ''o'' ''j''))
         \<and> admin_now_secs (Some 20) \<le> t \<and> t < cl_exp demo_claims \<longrightarrow>
         run srv' (admin_check demo S' reader demo_claims (Some t)) \<sigma>2 mem' =
           (no_store (VObj [(''decision'', decision_json \<lparr>dc_revoked = True, dc_matched_target = Some MatchedTokenId,
              dc_generation = Some 1, dc_expires_at = Some (cl_exp demo_claims)\<rparr>)]), \<sigma>2, mem')"
    by (elim exE conjE) (rule that, assumption+)
  have "run ref_server (admin_check demo demo_admin demo_reader_headers demo_claims (Some 69)) \<sigma>' [] =
      (no_store (VObj [(''decision'', decision_json \<lparr>dc_revoked = True, dc_matched_target = Some MatchedTokenId,
         dc_generation = Some 1, dc_expires_at = Some (cl_exp demo_claims)\<rparr>)]), \<sigma>', [])"
    by (rule later [THEN spec [of _ ref_server], THEN spec [of _ demo_admin], THEN spec, THEN spec [of _ demo_reader_headers],
          THEN spec [of _ \<sigma>'], THEN spec [of _ "[]"], THEN spec [of _ 69], THEN mp])
       (simp add: ref_server_reliable kv demo_reader admin_now_secs_def)
  with s show ?thesis by (auto simp: no_store_def)
qed

end
