(* ===== verification/Platform.thy ===== *)
theory Platform
  imports Server_Access Governance_Access Revocation_Admin
begin

text \<open>
  The three services of the repository on one store: the authentication API, the governance service and the
  revocation service, any number of replicas of each, all handlers interleaved.  Their rules for
  entries are put together to one discipline, which every handler of every service keeps.  From it follow the
  types of the stored entries, a refinement of one abstract registry, and the results of single
  handlers in the presence of all the others.
\<close>

section \<open>The handlers of all services\<close>

text \<open>Every process has a local state of its own; a replica of the model has room for each of them.\<close>

record 'k platform_local =
  pl_api :: "'k app_local"
  pl_gov :: "'k sb_state"
  pl_admin :: ledger_memory

datatype platform_reply =
    ApiReply api_request http_reply
  | GovReply gov_request http_reply
  | AdminReply admin_request http_reply

definition on_api :: "('k app_local, 'a) eff \<Rightarrow> ('k platform_local, 'a) eff" where
  "on_api = focus pl_api (\<lambda>c s. s\<lparr>pl_api := c\<rparr>)"

definition on_gov :: "('k sb_state, 'a) eff \<Rightarrow> ('k platform_local, 'a) eff" where
  "on_gov = focus pl_gov (\<lambda>c s. s\<lparr>pl_gov := c\<rparr>)"

definition on_admin :: "(ledger_memory, 'a) eff \<Rightarrow> ('k platform_local, 'a) eff" where
  "on_admin = focus pl_admin (\<lambda>c s. s\<lparr>pl_admin := c\<rparr>)"

text \<open>
  Replicas may be configured differently; they share the store and the libraries.  A service that
  started has durable storage.
\<close>

inductive_set platform_ops :: "externals \<Rightarrow> gov_lib \<Rightarrow> ('k platform_local, platform_reply) eff set"
  for X :: externals and G :: gov_lib where
  op_api: "rt_ext R = X \<Longrightarrow> ks_kv (as_keys S) = Some kv \<Longrightarrow> eff_map (ApiReply req) (on_api (handle R S req)) \<in> platform_ops X G"
| op_gov: "gr_ext R = X \<Longrightarrow> gr_lib R = G \<Longrightarrow> eff_map (GovReply req) (on_gov (gov_handle R S req)) \<in> platform_ops X G"
| op_admin: "ad_revocations S = Some kv \<Longrightarrow> eff_map (AdminReply req) (on_admin (admin_handle X S req)) \<in> platform_ops X G"

interpretation api_part: state_part pl_api "\<lambda>c s. s\<lparr>pl_api := c\<rparr>"
  by unfold_locales simp_all

interpretation gov_part: state_part pl_gov "\<lambda>c s. s\<lparr>pl_gov := c\<rparr>"
  by unfold_locales simp_all

interpretation admin_part: state_part pl_admin "\<lambda>c s. s\<lparr>pl_admin := c\<rparr>"
  by unfold_locales simp_all

section \<open>One discipline for the store\<close>

definition platform_ini :: "externals \<Rightarrow> creates" where
  "platform_ini X path v \<longleftrightarrow> key_ini path v \<or> ledger_ini X path v \<or> ceremony_ini X path v"

definition platform_upd :: "externals \<Rightarrow> updates" where
  "platform_upd X path v0 v \<longleftrightarrow> key_upd path v0 v \<or> ledger_upd X path v0 v \<or> ceremony_upd X path v0 v"

lemma guarded_or_error:
  "(\<And>x. guarded X ini upd (f x) H) \<Longrightarrow> guarded X ini upd (or_error r f) H"
  by (cases r) (simp_all add: or_error_def or_return_def)

lemma guarded_claim_store:
  "guarded X (ceremony_ini X) (ceremony_upd X) (claim_ceremony_store X G S cid claim now) H"
  by (auto simp: gwp_try claim_ceremony_store_def intro!: guarded_cas_retry guarded_claim_attempt split: sum.split)

lemma guarded_complete_store:
  "guarded X (ceremony_ini X) (ceremony_upd X) (complete_verified_store X G S cid verified now) H"
  by (auto simp: gwp_try complete_verified_store_def intro!: guarded_cas_retry guarded_complete_attempt split: sum.split)

lemma guarded_gov_handle: "guarded (gr_ext R) (ceremony_ini (gr_ext R)) (ceremony_upd (gr_ext R)) (gov_handle R S req) H"
proof (cases req)
  case (BeginApproval proposal headers body clock)
  have user: "guarded (gr_ext R) ini upd (gov_require_user R headers) H" for ini upd H
    by (rule gwp_only_reads) (simp_all add: only_reads_gov_require_user)
  show ?thesis
    unfolding BeginApproval gov_handle.simps begin_approval_def
    by (auto intro!: guarded_or_return user guarded_or_error simp: gwp_map guarded_begin)
qed (auto simp: claim_ceremony_def complete_verified_def gwp_map guarded_claim_store guarded_complete_store
    intro!: guarded_or_error guarded_or_return)

lemma guarded_admin_handle:
  assumes "ad_revocations S = Some kv"
  shows "guarded X (ledger_ini X) (ledger_upd X) (admin_handle X S req) H"
proof -
  have "guarded X (ledger_ini X) (ledger_upd X) (rev_revoke X (Some kv) request m now) H" for request m now H
    by (auto simp: rev_revoke_def Let_def intro!: guarded_cas_retry guarded_rev_revoke_attempt split: sum.split)
  moreover have "guarded X (ledger_ini X) (ledger_upd X) (rev_lift X (Some kv) request m now) H" for request m now H
    by (auto simp: rev_lift_def Let_def intro!: guarded_cas_retry guarded_rev_lift_attempt split: sum.split)
  moreover have "guarded X (ledger_ini X) (ledger_upd X) (rev_check X (Some kv) c now) H" for c now H
    by (auto simp: rev_check_def guarded_check_loop simp del: check_loop.simps split: sum.split)
  ultimately show ?thesis
    by (cases req)
       (auto simp: admin_revoke_def admin_lift_def admin_check_def assms gwp_map intro!: guarded_or_return)
qed

lemma guarded_platform_ops:
  assumes "p \<in> platform_ops X G"
  shows "guarded X (platform_ini X) (platform_upd X) p {}"
  using assms
proof cases
  case (op_api R S kv req)
  show ?thesis
    unfolding op_api(1) gwp_map on_api_def
    by (intro gwp_focus gwp_rules_mono [OF guarded_handle [of R S req, unfolded op_api(2)]])
       (simp_all add: platform_ini_def platform_upd_def)
next
  case (op_gov R req S)
  show ?thesis
    unfolding op_gov(1) gwp_map on_gov_def
    by (intro gwp_focus gwp_rules_mono [OF guarded_gov_handle [of R S req, unfolded op_gov(2)]])
       (simp_all add: platform_ini_def platform_upd_def)
next
  case (op_admin S kv req)
  show ?thesis
    unfolding op_admin(1) gwp_map on_admin_def
    by (intro gwp_focus gwp_rules_mono [OF guarded_admin_handle [OF op_admin(2)]])
       (simp_all add: platform_ini_def platform_upd_def)
qed

interpretation platform_protocol: cas_protocol X "platform_ini X" "platform_upd X" "platform_ops X G" for X G
  by unfold_locales (rule guarded_platform_ops)

section \<open>Namespaces\<close>

definition ledger_space :: "string \<Rightarrow> bool" where
  "ledger_space path \<longleftrightarrow> prefix ''auth/revocations/v'' path"

lemma ledger_valid_space:
  assumes "ledger_valid X l"
  shows "ledger_space (lg_storage_key l)"
proof -
  obtain e es where es: "lg_events l = e # es" using assms by (cases "lg_events l") (auto simp: ledger_validate_iff)
  with assms have "event_fits X (lg_storage_key l) 0 [] 0 None [] e"
    by (simp add: ledger_validate_iff validate_loop_Cons)
  then obtain r where "storage_key X r = Inr (lg_storage_key l)"
    by (auto simp: event_fits_def split: revocation_action.splits)
  moreover have "storage_key X r = Inr k \<Longrightarrow> ledger_space k" for k
    by (auto simp: storage_key_def rbind_eq_Inr ledger_space_def)
  ultimately show ?thesis by blast
qed

lemma paths_disjoint [simp]:
  "key_path a \<noteq> ceremony_path b" "ceremony_path b \<noteq> key_path a"
  "org_index_path a \<noteq> ceremony_path b" "ceremony_path b \<noteq> org_index_path a"
  "\<not> ledger_space (key_path a)" "\<not> ledger_space (org_index_path a)" "\<not> ledger_space (ceremony_path a)"
  by (simp_all add: key_path_def org_index_path_def ceremony_path_def ledger_space_def)

lemma ledger_key_disjoint [simp]:
  assumes "ledger_valid X l"
  shows "key_path a \<noteq> lg_storage_key l" "org_index_path a \<noteq> lg_storage_key l" "ceremony_path a \<noteq> lg_storage_key l"
    "lg_storage_key l \<noteq> key_path a" "lg_storage_key l \<noteq> org_index_path a" "lg_storage_key l \<noteq> ceremony_path a"
  using ledger_valid_space [OF assms] paths_disjoint by metis+

section \<open>Types of stored entries\<close>

text \<open>
  The path of an entry fixes its type: a key under the path of its id, a list of distinct key ids
  under the path of an organisation, a valid ledger under its storage key, a ceremony that passes the
  integrity check under the path of its id.
\<close>

inductive entry_typed :: "externals \<Rightarrow> string \<Rightarrow> string \<Rightarrow> bool" for X :: externals where
  key_entry: "raw_key X raw = Some s \<Longrightarrow> entry_typed X (key_path (sk_key_id s)) raw"
| index_entry: "raw_ids X raw = Some ids \<Longrightarrow> distinct ids \<Longrightarrow> entry_typed X (org_index_path org) raw"
| ledger_entry: "raw_ledger X raw = Some l \<Longrightarrow> ledger_validate X l = Inr () \<Longrightarrow> entry_typed X (lg_storage_key l) raw"
| ceremony_entry: "raw_ceremony X raw = Some r \<Longrightarrow> validate_integrity X r cid = Inr () \<Longrightarrow>
    entry_typed X (ceremony_path cid) raw"

definition store_typed :: "externals \<Rightarrow> kv_view \<Rightarrow> bool" where
  "store_typed X \<sigma> \<longleftrightarrow> (\<forall>path raw r. \<sigma> path = Some (raw, r) \<longrightarrow> entry_typed X path raw)"

lemma entry_typed_key:
  "entry_typed X (key_path key_id) raw \<Longrightarrow> \<exists>s. raw_key X raw = Some s \<and> sk_key_id s = key_id"
  by (cases X "key_path key_id" raw rule: entry_typed.cases) auto

lemma entry_typed_index:
  "entry_typed X (org_index_path org) raw \<Longrightarrow> \<exists>ids. raw_ids X raw = Some ids \<and> distinct ids"
  by (cases X "org_index_path org" raw rule: entry_typed.cases) auto

lemma entry_typed_ledger:
  "entry_typed X path raw \<Longrightarrow> ledger_space path \<Longrightarrow>
   \<exists>l. raw_ledger X raw = Some l \<and> ledger_valid X l \<and> lg_storage_key l = path"
  by (cases X path raw rule: entry_typed.cases) auto

lemma entry_typed_ceremony:
  "entry_typed X (ceremony_path cid) raw \<Longrightarrow> \<exists>r. raw_ceremony X raw = Some r \<and> validate_integrity X r cid = Inr ()"
  by (cases X "ceremony_path cid" raw rule: entry_typed.cases) auto

text \<open>The texts that the services write decode to what was written.\<close>

lemma raw_written:
  assumes "externals_ok X"
  shows "raw_key X (json_to_string X (stored_key_to_json s)) = Some s"
    "raw_ids X (json_to_string X (str_vec_json ids)) = Some ids"
    "raw_ledger X (json_to_string X (ledger_to_json l)) = Some l"
    "raw_ceremony X (json_to_string X (ceremony_to_json r)) = Some r"
  using assms by (simp_all add: raw_key_def raw_ids_def raw_ledger_def raw_ceremony_def externals_okD)

lemma created_entry_typed:
  assumes "externals_ok X" "platform_ini X path v"
  shows "entry_typed X path (json_to_string X v)"
  using assms(2) raw_written [OF assms(1)] unfolding platform_ini_def key_ini_def ledger_ini_def ceremony_ini_def
  by (auto intro!: entry_typed.key_entry entry_typed.ceremony_entry intro: entry_typed.index_entry entry_typed.ledger_entry)

lemma updated_entry_typed:
  assumes "externals_ok X" "platform_upd X path v0 v" "json_from_str X raw = Some v0" "entry_typed X path raw"
  shows "entry_typed X path (json_to_string X v)"
proof -
  note w = raw_written [OF assms(1)]
  from assms(2) consider (key) s t where "v = stored_key_to_json t" "path = key_path (sk_key_id s)" "key_updated s t"
    | (index) org ids key_id where "path = org_index_path org" "de_string_vec v0 = Some ids" "key_id \<notin> set ids"
        "v = str_vec_json (ids @ [key_id])"
    | (ledger) l e l' where "v = ledger_to_json l'" "lg_storage_key l = path" "ledger_valid X l'"
        "l' = l\<lparr>lg_events := lg_events l @ [e]\<rparr>"
    | (ceremony) r r' where "v = ceremony_to_json r'" "path = ceremony_path (cr_ceremony_id r)" "sound_step X r r'"
    unfolding platform_upd_def key_upd_def ledger_upd_def ceremony_upd_def by blast
  then show ?thesis
  proof cases
    case key
    then have "sk_key_id t = sk_key_id s" by (simp add: key_updated_def same_identity_def)
    with entry_typed.key_entry [OF w(1) [of t]] key show ?thesis by simp
  next
    case index
    with entry_typed_index [of X org raw] assms(3,4) have "distinct ids" by (simp add: raw_ids_def)
    with index entry_typed.index_entry [OF w(2) [of "ids @ [key_id]"]] show ?thesis by simp
  next
    case ledger
    with entry_typed.ledger_entry [OF w(3) ledger(3)] show ?thesis by simp
  next
    case ceremony
    with sound_step_follows [OF ceremony(3)] have "cr_ceremony_id r' = cr_ceremony_id r" "sound X r'"
      by (simp_all add: follows_on_def sound_step_def)
    with ceremony entry_typed.ceremony_entry [OF w(4)] show ?thesis by simp
  qed
qed

lemma step_keeps_typed:
  assumes "externals_ok X" "store_typed X \<sigma>"
    and "\<And>path. entry_step X (platform_ini X) (platform_upd X) path (\<sigma> path) (\<sigma>' path)"
  shows "store_typed X \<sigma>'"
  unfolding store_typed_def
proof (intro allI impI)
  fix path raw r assume "\<sigma>' path = Some (raw, r)"
  with assms(3) [of path] consider "\<sigma> path = Some (raw, r)"
    | v where "raw = json_to_string X v" "platform_ini X path v"
    | raw0 r0 v0 v where "\<sigma> path = Some (raw0, r0)" "json_from_str X raw0 = Some v0" "raw = json_to_string X v"
        "platform_upd X path v0 v"
    unfolding entry_step_def by auto
  then show "entry_typed X path raw"
    using assms(2) created_entry_typed [OF assms(1)] updated_entry_typed [OF assms(1)]
    by cases (auto simp: store_typed_def)
qed

lemma platform_stays_typed:
  assumes "externals_ok X" "kv_contract X server" "revs_positive \<sigma>" "store_typed X \<sigma>"
    and "(sys_step server (platform_ops X G))\<^sup>*\<^sup>* (sys_init \<sigma> l0) s"
  shows "store_typed X (sys_kv s)"
  using assms(5)
proof (induction rule: rtranclp_induct)
  case base
  show ?case using assms(4) by (simp add: sys_init_def)
next
  case (step s s')
  show ?case
    using step_keeps_typed [OF assms(1) step.IH] platform_protocol.reachable_step [OF assms(2,3) step(1,2)] by blast
qed

text \<open>Progress: on a well-typed store that answers, no read of a component meets an entry it cannot use.\<close>

lemma typed_load:
  assumes "kv_reliable X srv" "store_typed X \<sigma>"
  obtains found where "run srv (load X kv key_id) \<sigma> c = (Inr found, \<sigma>, c)"
proof (cases "\<sigma> (key_path key_id)")
  case None
  then show thesis using that [of None] by (simp add: run_load [OF assms(1)] load_result_def)
next
  case (Some e)
  obtain raw r where e: "\<sigma> (key_path key_id) = Some (raw, r)" using Some by (cases e) simp
  with assms(2) obtain s where "stored_at X \<sigma> key_id s"
    using entry_typed_key unfolding store_typed_def stored_at_def by blast
  from run_load_stored [OF assms(1) this] show thesis by (rule that)
qed

lemma typed_index_get:
  assumes "kv_reliable X srv" "store_typed X \<sigma>"
  obtains ids where "run srv (index_get X kv org) \<sigma> c = (Inr ids, \<sigma>, c)"
proof (cases "\<sigma> (org_index_path org)")
  case None
  then have "indexed X \<sigma> org []" by (simp add: indexed_def)
  from run_index_get_indexed [OF assms(1) this] show thesis by (rule that)
next
  case (Some e)
  obtain raw r where e: "\<sigma> (org_index_path org) = Some (raw, r)" using Some by (cases e) simp
  with assms(2) entry_typed_index obtain ids where "raw_ids X raw = Some ids" unfolding store_typed_def by blast
  with e have "indexed X \<sigma> org ids" by (simp add: indexed_def)
  from run_index_get_indexed [OF assms(1) this] show thesis by (rule that)
qed

lemma typed_introspect:
  assumes "kv_reliable X srv" "store_typed X \<sigma>"
  shows "\<exists>i c'. run srv (introspect X ks raw) \<sigma> c = (Inr i, \<sigma>, c')"
proof (cases "parse_raw_key raw")
  case (Some p)
  obtain env key_id secret where p: "p = (env, key_id, secret)" by (cases p)
  show ?thesis
  proof (cases "ks_kv ks")
    case None
    with Some p show ?thesis by (simp add: introspect_def split: option.split)
  next
    case kv: (Some kv)
    obtain found where found: "run srv (load X kv key_id) \<sigma> c = (Inr found, \<sigma>, c)" by (rule typed_load [OF assms])
    show ?thesis
    proof (cases found)
      case None
      with Some p kv found show ?thesis by (simp add: introspect_def run_try)
    next
      case rec: (Some rec)
      obtain ids where "run srv (index_get X kv (ak_org_id rec)) \<sigma> c = (Inr ids, \<sigma>, c)"
        by (rule typed_index_get [OF assms])
      with Some p kv found rec show ?thesis by (simp add: introspect_def run_try Let_def)
    qed
  qed
qed (simp add: introspect_def)

lemma typed_list_loop:
  assumes "kv_reliable X srv" "store_typed X \<sigma>"
  shows "\<exists>ms. run srv (list_loop X kv org ids out) \<sigma> c = (Inr ms, \<sigma>, c)"
proof (induction ids arbitrary: out)
  case (Cons i ids)
  obtain found where "run srv (load X kv i) \<sigma> c = (Inr found, \<sigma>, c)" by (rule typed_load [OF assms])
  with Cons show ?case by (cases found) (simp_all add: run_try)
qed simp

lemma typed_list_keys:
  assumes "kv_reliable X srv" "store_typed X \<sigma>" "ks_kv ks = Some kv"
  shows "\<exists>ms. run srv (list_keys_of X ks org) \<sigma> c = (Inr ms, \<sigma>, c)"
proof -
  obtain ids where "run srv (index_get X kv org) \<sigma> c = (Inr ids, \<sigma>, c)" by (rule typed_index_get [OF assms(1,2)])
  with assms(3) typed_list_loop [OF assms(1,2)] show ?thesis by (simp add: list_keys_of_def run_try)
qed

lemma typed_ledger:
  assumes "store_typed X \<sigma>" "sel_storage_key X sel = Inr key"
  obtains lo where "found_ledger X \<sigma> key lo"
proof (cases "\<sigma> key")
  case None
  then show thesis using that [of None] by (simp add: found_ledger_def)
next
  case (Some e)
  obtain raw r where e: "\<sigma> key = Some (raw, r)" using Some by (cases e) simp
  have "sel_storage_key X sel = Inr k \<Longrightarrow> ledger_space k" for k
    by (auto simp: sel_storage_key_def rbind_eq_Inr ledger_space_def)
  with assms(2) have "ledger_space key" by blast
  with assms(1) e obtain l where "ledger_at X \<sigma> key l"
    using entry_typed_ledger unfolding store_typed_def ledger_at_def by blast
  then show thesis using that [of "Some l"] by (simp add: found_ledger_def)
qed

lemma typed_check_loop:
  assumes "kv_reliable X srv" "store_typed X \<sigma>" "\<forall>s\<in>set ss. \<exists>key. sel_storage_key X (fst s) = Inr key"
  shows "\<exists>d. run srv (check_loop X (Some kv) c now ss) \<sigma> mem = (Inr d, \<sigma>, mem)"
  using assms(3)
proof (induction ss)
  case (Cons s ss)
  then obtain key where key: "sel_storage_key X (fst s) = Inr key" by auto
  obtain lo where lo: "found_ledger X \<sigma> key lo" by (rule typed_ledger [OF assms(2) key])
  show ?case
    using Cons
    by (auto simp: key read_ledger_def run_try run_load_found [OF assms(1) lo] split: option.split)
qed simp

lemma typed_rev_check:
  assumes "kv_reliable X srv" "store_typed X \<sigma>" "validate_internal_claims c = Inr ()"
  shows "\<exists>d. run srv (rev_check X (Some kv) c now) \<sigma> mem = (Inr d, \<sigma>, mem)"
proof -
  have "identifier_ok (cl_org_id c)" "identifier_ok (cl_jti c)" "identifier_ok (cl_sub c)"
    using assms(3) by (auto simp: validate_internal_claims_iff)
  then show ?thesis
    unfolding rev_check_def assms(3) sum.case
    by (intro typed_check_loop [OF assms(1,2)])
       (auto simp: sel_storage_key_def rbind_eq_Inr rev_validate_identifier_iff [THEN iffD2])
qed

text \<open>
  C5. Stored entries keep their types.  On a store whose entries have the type of their path (a key record
  under its own id, an index without duplicates, a valid ledger under its own key, an intact ceremony), all three services
  run together, in any interleaving and with any failures the store's contract allows.  Every state
  they reach is well-typed again.  And on such a store nothing that is stored can make an operation fail: while
  the store answers, introspection of any text, the list of keys of any organisation, and the revocation check of
  well-formed claims all return a result and no error.
\<close>
theorem store_stays_well_typed:
  assumes "externals_ok X" and "kv_contract X server" and "revs_positive \<sigma>" and "store_typed X \<sigma>"
    and "(sys_step server (platform_ops X G))\<^sup>*\<^sup>* (sys_init \<sigma> l0) s"
  shows "store_typed X (sys_kv s)
    \<and> (\<forall>srv. kv_reliable X srv \<longrightarrow>
         (\<forall>ks raw c. is_ok (fst (run srv (introspect X ks raw) (sys_kv s) c)))
       \<and> (\<forall>ks kv org c. ks_kv ks = Some kv \<longrightarrow> is_ok (fst (run srv (list_keys_of X ks org) (sys_kv s) c)))
       \<and> (\<forall>kv c now mem. validate_internal_claims c = Inr () \<longrightarrow>
            is_ok (fst (run srv (rev_check X (Some kv) c now) (sys_kv s) mem))))"
proof (intro conjI allI impI)
  show typed: "store_typed X (sys_kv s)" using assms by (rule platform_stays_typed)
  fix srv assume srv: "kv_reliable X srv"
  show "is_ok (fst (run srv (introspect X ks raw) (sys_kv s) c))" for ks raw c
    using typed_introspect [OF srv typed, of ks raw c] by auto
  show "is_ok (fst (run srv (list_keys_of X ks org) (sys_kv s) c))" if "ks_kv ks = Some kv" for ks kv org c
    using typed_list_keys [OF srv typed that, of org c] by auto
  show "is_ok (fst (run srv (rev_check X (Some kv) c now) (sys_kv s) mem))"
    if "validate_internal_claims c = Inr ()" for kv c now mem
    using typed_rev_check [OF srv typed that, of kv now mem] by auto
qed

end
