(* ===== verification/Registry.thy ===== *)
theory Registry
  imports Platform
begin

text \<open>
  What the three services implement together.  \<open>registry\<close> is the abstract state of the platform: keys, key
  indexes, revocation ledgers and ceremonies as plain maps; \<open>registry_step\<close> changes one of them by
  one rule of its life cycle.  Every step of every handler of every service is such a step or leaves the
  registry alone.
\<close>

section \<open>The abstract registry\<close>

record registry =
  rg_keys :: "string \<rightharpoonup> stored_key"
  rg_indexes :: "string \<rightharpoonup> string list"
  rg_ledgers :: "string \<rightharpoonup> revocation_ledger"
  rg_ceremonies :: "string \<rightharpoonup> ceremony_record"

inductive registry_step :: "externals \<Rightarrow> registry \<Rightarrow> registry \<Rightarrow> bool" for X :: externals where
  create_key: "rg_keys g (sk_key_id s) = None \<Longrightarrow> key_created s \<Longrightarrow>
    registry_step X g (g\<lparr>rg_keys := (rg_keys g)(sk_key_id s \<mapsto> s)\<rparr>)"
| change_key: "rg_keys g (sk_key_id s) = Some s \<Longrightarrow> key_updated s t \<Longrightarrow>
    registry_step X g (g\<lparr>rg_keys := (rg_keys g)(sk_key_id s \<mapsto> t)\<rparr>)"
| open_index: "rg_indexes g org = None \<Longrightarrow>
    registry_step X g (g\<lparr>rg_indexes := (rg_indexes g)(org \<mapsto> [key_id])\<rparr>)"
| extend_index: "rg_indexes g org = Some ids \<Longrightarrow> key_id \<notin> set ids \<Longrightarrow>
    registry_step X g (g\<lparr>rg_indexes := (rg_indexes g)(org \<mapsto> ids @ [key_id])\<rparr>)"
| open_ledger: "rg_ledgers g (lg_storage_key l) = None \<Longrightarrow> ledger_validate X l = Inr () \<Longrightarrow> length (lg_events l) = 1 \<Longrightarrow>
    registry_step X g (g\<lparr>rg_ledgers := (rg_ledgers g)(lg_storage_key l \<mapsto> l)\<rparr>)"
| append_event: "rg_ledgers g (lg_storage_key l) = Some l \<Longrightarrow> ledger_validate X l' = Inr () \<Longrightarrow>
    l' = l\<lparr>lg_events := lg_events l @ [e]\<rparr> \<Longrightarrow>
    registry_step X g (g\<lparr>rg_ledgers := (rg_ledgers g)(lg_storage_key l \<mapsto> l')\<rparr>)"
| begin_ceremony: "rg_ceremonies g (cr_ceremony_id r) = None \<Longrightarrow> sound X r \<Longrightarrow> cr_status r = Ceremony.Pending \<Longrightarrow>
    registry_step X g (g\<lparr>rg_ceremonies := (rg_ceremonies g)(cr_ceremony_id r \<mapsto> r)\<rparr>)"
| move_ceremony: "rg_ceremonies g (cr_ceremony_id r) = Some r \<Longrightarrow> sound X r' \<Longrightarrow> ceremony_step r r' \<Longrightarrow>
    registry_step X g (g\<lparr>rg_ceremonies := (rg_ceremonies g)(cr_ceremony_id r \<mapsto> r')\<rparr>)"

text \<open>The registry that a store represents.\<close>

definition entry_at :: "kv_view \<Rightarrow> (string \<Rightarrow> 'a option) \<Rightarrow> string \<Rightarrow> 'a option" where
  "entry_at \<sigma> decode path = (case \<sigma> path of None \<Rightarrow> None | Some (raw, r) \<Rightarrow> decode raw)"

definition registry_of :: "externals \<Rightarrow> kv_view \<Rightarrow> registry" where
  "registry_of X \<sigma> =
     \<lparr>rg_keys = (\<lambda>key_id. entry_at \<sigma> (raw_key X) (key_path key_id)),
      rg_indexes = (\<lambda>org. entry_at \<sigma> (raw_ids X) (org_index_path org)),
      rg_ledgers = (\<lambda>path. if ledger_space path then entry_at \<sigma> (raw_ledger X) path else None),
      rg_ceremonies = (\<lambda>cid. entry_at \<sigma> (raw_ceremony X) (ceremony_path cid))\<rparr>"

section \<open>Refinement\<close>

lemma entry_at_upd:
  "entry_at (\<sigma>(path \<mapsto> (raw, rv))) decode p = (if p = path then decode raw else entry_at \<sigma> decode p)"
  by (simp add: entry_at_def)

lemma registry_of_upd:
  "raw_key X raw = Some s \<Longrightarrow>
     registry_of X (\<sigma>(key_path key_id \<mapsto> (raw, rv))) =
       registry_of X \<sigma>\<lparr>rg_keys := (rg_keys (registry_of X \<sigma>))(key_id \<mapsto> s)\<rparr>"
  "raw_ids X raw = Some ids \<Longrightarrow>
     registry_of X (\<sigma>(org_index_path org \<mapsto> (raw, rv))) =
       registry_of X \<sigma>\<lparr>rg_indexes := (rg_indexes (registry_of X \<sigma>))(org \<mapsto> ids)\<rparr>"
  "raw_ledger X raw = Some l \<Longrightarrow> ledger_space path \<Longrightarrow>
     registry_of X (\<sigma>(path \<mapsto> (raw, rv))) =
       registry_of X \<sigma>\<lparr>rg_ledgers := (rg_ledgers (registry_of X \<sigma>))(path \<mapsto> l)\<rparr>"
  "raw_ceremony X raw = Some r \<Longrightarrow>
     registry_of X (\<sigma>(ceremony_path cid \<mapsto> (raw, rv))) =
       registry_of X \<sigma>\<lparr>rg_ceremonies := (rg_ceremonies (registry_of X \<sigma>))(cid \<mapsto> r)\<rparr>"
  by (auto simp: registry_of_def entry_at_upd fun_eq_iff)

lemma created_refines:
  assumes "externals_ok X" "platform_ini X path v" "\<sigma> path = None"
  shows "registry_step X (registry_of X \<sigma>) (registry_of X (\<sigma>(path \<mapsto> (json_to_string X v, rv))))"
proof -
  note w = raw_written [OF assms(1)]
  from assms(2) consider (key) s where "path = key_path (sk_key_id s)" "v = stored_key_to_json s" "key_created s"
    | (index) org key_id where "path = org_index_path org" "v = str_vec_json [key_id]"
    | (ledger) l where "v = ledger_to_json l" "lg_storage_key l = path" "ledger_valid X l" "length (lg_events l) = 1"
    | (ceremony) r where "v = ceremony_to_json r" "path = ceremony_path (cr_ceremony_id r)" "sound X r"
        "cr_status r = Ceremony.Pending"
    unfolding platform_ini_def key_ini_def ledger_ini_def ceremony_ini_def by blast
  then show ?thesis
  proof cases
    case key
    show ?thesis
      unfolding key(1,2) registry_of_upd(1) [OF w(1)]
      using assms(3) key by (intro registry_step.create_key) (simp_all add: registry_of_def entry_at_def)
  next
    case index
    show ?thesis
      unfolding index registry_of_upd(2) [OF w(2)]
      using assms(3) index by (intro registry_step.open_index) (simp add: registry_of_def entry_at_def)
  next
    case ledger
    with ledger_valid_space [OF ledger(3)] have space: "ledger_space path" by simp
    show ?thesis
      unfolding ledger(1) registry_of_upd(3) [OF w(3) space] unfolding ledger(2) [symmetric]
      using assms(3) ledger by (intro registry_step.open_ledger) (simp_all add: registry_of_def entry_at_def)
  next
    case ceremony
    show ?thesis
      unfolding ceremony(1,2) registry_of_upd(4) [OF w(4)]
      using assms(3) ceremony by (intro registry_step.begin_ceremony) (simp_all add: registry_of_def entry_at_def)
  qed
qed

lemma updated_refines:
  assumes "externals_ok X" "platform_upd X path v0 v" "\<sigma> path = Some (raw, r)" "json_from_str X raw = Some v0"
  shows "registry_step X (registry_of X \<sigma>) (registry_of X (\<sigma>(path \<mapsto> (json_to_string X v, rv))))"
proof -
  note w = raw_written [OF assms(1)]
  from assms(2) consider (key) s t where "stored_key_from_json v0 = Some s" "v = stored_key_to_json t"
        "path = key_path (sk_key_id s)" "key_updated s t"
    | (index) org ids key_id where "path = org_index_path org" "de_string_vec v0 = Some ids" "key_id \<notin> set ids"
        "v = str_vec_json (ids @ [key_id])"
    | (ledger) l e l' where "ledger_from_json v0 = Some l" "v = ledger_to_json l'" "lg_storage_key l = path"
        "ledger_valid X l" "ledger_valid X l'" "l' = l\<lparr>lg_events := lg_events l @ [e]\<rparr>"
    | (ceremony) r r' where "ceremony_from_json v0 = Some r" "v = ceremony_to_json r'"
        "path = ceremony_path (cr_ceremony_id r)" "sound_step X r r'"
    unfolding platform_upd_def key_upd_def ledger_upd_def ceremony_upd_def by blast
  then show ?thesis
  proof cases
    case key
    show ?thesis
      unfolding key(2,3) registry_of_upd(1) [OF w(1)]
      using assms(3,4) key by (intro registry_step.change_key) (simp_all add: registry_of_def entry_at_def raw_key_def)
  next
    case index
    show ?thesis
      unfolding index(1,4) registry_of_upd(2) [OF w(2)]
      using assms(3,4) index by (intro registry_step.extend_index) (simp_all add: registry_of_def entry_at_def raw_ids_def)
  next
    case ledger
    with ledger_valid_space [OF ledger(4)] have space: "ledger_space path" by simp
    show ?thesis
      unfolding ledger(2) registry_of_upd(3) [OF w(3) space] unfolding ledger(3) [symmetric]
      using assms(3,4) ledger space
      by (intro registry_step.append_event) (simp_all add: registry_of_def entry_at_def raw_ledger_def)
  next
    case ceremony
    show ?thesis
      unfolding ceremony(2,3) registry_of_upd(4) [OF w(4)]
      using assms(3,4) ceremony
      by (intro registry_step.move_ceremony) (simp_all add: registry_of_def entry_at_def raw_ceremony_def sound_step_def)
  qed
qed

lemma platform_step_refines:
  assumes "externals_ok X" "kv_contract X server" "revs_positive \<sigma>"
    and "(sys_step server (platform_ops X G))\<^sup>*\<^sup>* (sys_init \<sigma> l0) s" "sys_step server (platform_ops X G) s s'"
  shows "registry_of X (sys_kv s') = registry_of X (sys_kv s)
    \<or> registry_step X (registry_of X (sys_kv s)) (registry_of X (sys_kv s'))"
proof -
  obtain path where only: "\<And>p. p \<noteq> path \<Longrightarrow> sys_kv s' p = sys_kv s p"
    using platform_protocol.reachable_one_write [OF assms(2-5)] by blast
  then have upd: "sys_kv s' = (sys_kv s)(path := sys_kv s' path)" by (auto simp: fun_eq_iff)
  from platform_protocol.reachable_step [OF assms(2-5), of path] consider "sys_kv s' path = sys_kv s path"
    | v rv where "sys_kv s path = None" "sys_kv s' path = Some (json_to_string X v, rv)" "platform_ini X path v"
    | raw r v0 v rv where "sys_kv s path = Some (raw, r)" "json_from_str X raw = Some v0"
        "sys_kv s' path = Some (json_to_string X v, rv)" "platform_upd X path v0 v"
    unfolding entry_step_def by blast
  then show ?thesis
  proof cases
    case 1
    with only have "sys_kv s' = sys_kv s" by (metis ext)
    then show ?thesis by simp
  next
    case 2
    with upd created_refines [where \<sigma> = "sys_kv s", OF assms(1) 2(3,1), of rv] show ?thesis by simp
  next
    case 3
    with upd updated_refines [where \<sigma> = "sys_kv s", OF assms(1) 3(4,1,2), of rv] show ?thesis by simp
  qed
qed

text \<open>
  C3. The platform implements the registry.  Let all handlers of the three services run interleaved on one
  store.  The abstract registry of the store moves only by the rules of \<open>registry_step\<close>: a new key, an
  update of a key that keeps its identity and moves it forward, an index opened or extended by one new id, a ledger
  opened with one event or extended by one event, a ceremony begun or moved by its life cycle.  Every single step of
  the services is one such rule or leaves the registry unchanged, so the reached registry is reachable in the
  abstract system.
\<close>
theorem platform_refines_registry:
  assumes "externals_ok X" and "kv_contract X server" and "revs_positive \<sigma>"
    and "(sys_step server (platform_ops X G))\<^sup>*\<^sup>* (sys_init \<sigma> l0) s"
  shows "(registry_step X)\<^sup>*\<^sup>* (registry_of X \<sigma>) (registry_of X (sys_kv s))
    \<and> (\<forall>s'. sys_step server (platform_ops X G) s s' \<longrightarrow>
         registry_of X (sys_kv s') = registry_of X (sys_kv s)
       \<or> registry_step X (registry_of X (sys_kv s)) (registry_of X (sys_kv s')))"
proof
  show "(registry_step X)\<^sup>*\<^sup>* (registry_of X \<sigma>) (registry_of X (sys_kv s))"
    using assms(4)
  proof (induction rule: rtranclp_induct)
    case base
    show ?case by (simp add: sys_init_def)
  next
    case (step u u')
    with platform_step_refines [OF assms(1-3) step(1,2)] show ?case by auto
  qed
  show "\<forall>s'. sys_step server (platform_ops X G) s s' \<longrightarrow>
         registry_of X (sys_kv s') = registry_of X (sys_kv s)
       \<or> registry_step X (registry_of X (sys_kv s)) (registry_of X (sys_kv s'))"
    using platform_step_refines [OF assms] by blast
qed

end
