(* ===== verification/Platform_Revocation.thy ===== *)
theory Platform_Revocation
  imports Platform
begin

text \<open>
  Revocations across the platform.  A revocation that the service acknowledged is in the store, whatever all
  services do at the same time; and a check over HTTP that starts later and answers \<open>not revoked\<close>
  rests on a version of the ledger, stored while the check ran, that contains the acknowledged event.
\<close>

section \<open>Entries only move forward\<close>

definition platform_le :: "externals \<Rightarrow> string \<Rightarrow> string \<Rightarrow> string \<Rightarrow> bool" where
  "platform_le X path raw raw' \<longleftrightarrow>
     (ledger_space path \<longrightarrow> ledger_le X path raw raw')
   \<and> (\<forall>cid. path = ceremony_path cid \<longrightarrow> ceremony_le X path raw raw')
   \<and> (\<forall>x. path = key_path x \<or> path = org_index_path x \<longrightarrow> key_le X path raw raw')"

lemma platform_upd_le:
  assumes "json_from_str X raw = Some v0" "platform_upd X path v0 v"
  shows "platform_le X path raw (json_to_string X v)"
proof -
  have "ledger_upd X path v0 v" if "ledger_space path"
    using assms(2) that unfolding platform_upd_def by (auto simp: key_upd_def ceremony_upd_def)
  moreover have "ceremony_upd X path v0 v" if "path = ceremony_path cid" for cid
    using assms(2) that unfolding platform_upd_def by (auto simp: key_upd_def ledger_upd_def)
  moreover have "key_upd path v0 v" if "path = key_path x \<or> path = org_index_path x" for x
    using assms(2) that unfolding platform_upd_def by (auto simp: ceremony_upd_def ledger_upd_def)
  ultimately show ?thesis
    unfolding platform_le_def using ledger_upd_le ceremony_upd_le key_upd_le assms(1) by blast
qed

interpretation platform_evolution:
  cas_evolution X "platform_ini X" "platform_upd X" "platform_ops X G" "platform_le X" for X G
proof unfold_locales
  show "platform_le X path raw raw" for path raw
    by (simp add: platform_le_def ledger_le_def ceremony_le_def key_le_def)
  show "platform_le X path raw raw''" if "platform_le X path raw raw'" "platform_le X path raw' raw''"
    for path raw raw' raw''
    using that unfolding platform_le_def by (blast intro: ledger_le_trans ceremony_le_trans key_le_trans)
qed (rule platform_upd_le)

lemma platform_ledger_evolves:
  assumes "externals_ok X" "kv_contract X server" "revs_positive \<sigma>"
    and "(sys_step server (platform_ops X G))\<^sup>*\<^sup>* (sys_init \<sigma> l0) s" "(sys_step server (platform_ops X G))\<^sup>*\<^sup>* s s'"
    and "sys_kv s key = Some (raw, r)" "raw_ledger X raw = Some l" "ledger_valid X l" "ledger_space key"
  shows "held_at X key l (sys_kv s')"
proof -
  from platform_evolution.entry_evolves [OF assms(2-6)] obtain raw' r' where
    e: "sys_kv s' key = Some (raw', r')" "platform_le X key raw raw'"
    by blast
  from e(2) assms(9) have "ledger_le X key raw raw'" by (simp add: platform_le_def)
  with e(1) assms(1,7,8) show ?thesis unfolding ledger_le_def held_at_def by (auto simp: ledger_extends_def)
qed

lemma sel_key_space: "sel_storage_key X sel = Inr key \<Longrightarrow> ledger_space key"
  by (auto simp: sel_storage_key_def rbind_eq_Inr ledger_space_def)

section \<open>Acknowledged revocations are stored\<close>

definition acknowledged_in :: "externals \<Rightarrow> string \<Rightarrow> string \<Rightarrow> kv_view \<Rightarrow> bool" where
  "acknowledged_in X key request_hash \<sigma> \<longleftrightarrow>
     (\<exists>raw r l. \<sigma> key = Some (raw, r) \<and> raw_ledger X raw = Some l \<and> ledger_valid X l
        \<and> (\<exists>e\<in>set (lg_events l). ev_request_hash e = request_hash))"

lemma bwp_focus: "bwp server I Q p \<sigma> \<Longrightarrow> bwp server I Q (focus view put p) \<sigma>"
  by (induction p arbitrary: \<sigma>) auto

lemma bwp_load_ledger:
  assumes "kv_contract X server" and "\<And>e \<sigma>. Q (Inl e) \<sigma>" and "\<And>\<sigma>. Q (Inr None) \<sigma>"
    and "\<And>\<sigma> raw r l. \<sigma> key = Some (raw, r) \<Longrightarrow> raw_ledger X raw = Some l \<Longrightarrow> ledger_valid X l \<Longrightarrow>
           lg_storage_key l = key \<Longrightarrow> Q (Inr (Some (l, r))) \<sigma>"
  shows "bwp server I Q (load_ledger X kv key) \<sigma>0"
  unfolding load_ledger_def bwp_bind
proof (rule bwp_get_versioned [OF assms(1)])
  fix \<sigma> e
  assume rd: "reads X (\<sigma> key) e"
  have found: "Q (Inr (Some (l, vv_mod_revision vv))) \<sigma>"
    if "e = Some vv" "ledger_from_json (vv_value vv) = Some l" "ledger_valid X l" "lg_storage_key l = key" for vv l
  proof -
    from rd that(1) obtain raw where raw: "\<sigma> key = Some (raw, vv_mod_revision vv)" "json_from_str X raw = Some (vv_value vv)"
      by (auto simp: reads_def)
    with that(2) have "raw_ledger X raw = Some l" by (simp add: raw_ledger_def)
    with raw(1) that(3,4) show ?thesis by (intro assms(4))
  qed
  let ?res = "\<lambda>vv. rbind (ok_or (ledger_from_json (vv_value vv)) InvalidLedger) (\<lambda>l.
              rbind (ledger_validate X l) (\<lambda>_.
                if lg_storage_key l \<noteq> key then Inl InvalidLedger
                else Inr (Some (l, vv_mod_revision vv))))"
  have "Q (?res vv) \<sigma>" if "e = Some vv" for vv
    using found [OF that] assms(2) by (cases "?res vv") (auto simp: result_simps split: if_splits)
  then show "bwp server I Q (case Inr e of
      Inl e \<Rightarrow> Done (Inl (RevStore e))
    | Inr None \<Rightarrow> Done (Inr None)
    | Inr (Some vv) \<Rightarrow> Done (?res vv)) \<sigma>"
    using assms(3) by (cases e) auto
qed (simp add: assms(2))

lemma replay_loop_found:
  "replay_loop key ih rh expiry es = Inr (Some snap) \<Longrightarrow> \<exists>e\<in>set es. ev_request_hash e = rh"
  by (induction es arbitrary: expiry) (auto simp: Let_def split: if_splits)

lemma revoke_next_records:
  assumes "revoke_next X key r ih rh lo = Inr l"
  shows "\<exists>e\<in>set (lg_events l). ev_request_hash e = rh"
  using assms
  by (auto simp: revoke_next_def append_revoke_def ledger_new_def push_event_def event_new_def Let_def rbind_eq_Inr
      split: option.splits)

definition revoke_backed ::
  "externals \<Rightarrow> string \<Rightarrow> string \<Rightarrow> (revocation_error + revocation_snapshot) option \<Rightarrow> kv_view \<Rightarrow> bool" where
  "revoke_backed X key request_hash res \<sigma> \<longleftrightarrow> (\<forall>snap. res = Some (Inr snap) \<longrightarrow> acknowledged_in X key request_hash \<sigma>)"

lemma revoke_backed_simps [simp]:
  "revoke_backed X key rh None \<sigma>" "revoke_backed X key rh (Some (Inl e)) \<sigma>"
  "revoke_backed X key rh (Some (Inr snap)) \<sigma> \<longleftrightarrow> acknowledged_in X key rh \<sigma>"
  by (simp_all add: revoke_backed_def)

lemma acknowledged_inI:
  "\<sigma> key = Some (raw, r) \<Longrightarrow> raw_ledger X raw = Some l \<Longrightarrow> ledger_valid X l \<Longrightarrow>
   \<exists>e\<in>set (lg_events l). ev_request_hash e = rh \<Longrightarrow> acknowledged_in X key rh \<sigma>"
  unfolding acknowledged_in_def by blast

lemma bwp_rev_revoke_attempt:
  assumes "externals_ok X" "kv_contract X server"
  shows "bwp server I (revoke_backed X key rh)
    (rev_revoke_attempt X kv key r ih rh now :: ('c, (revocation_error + revocation_snapshot) option) eff) \<sigma>0"
proof -
  let ?put = "\<lambda>l prev. put_if_revision X kv key (ledger_to_json l) prev :: ('c, store_error + cas_outcome) eff"
  have put: "bwp server I (revoke_backed X key rh) (eff_bind (?put l prev) (\<lambda>put.
      case put of Inl e \<Rightarrow> Done (Some (Inl (RevStore e))) | Inr Applied \<Rightarrow> Done (Some (Inr (snapshot l now)))
        | Inr Mismatch \<Rightarrow> Done None)) \<sigma>"
    if "revoke_next X key r ih rh lo = Inr l" "\<And>l0. lo = Some l0 \<Longrightarrow> lg_storage_key l0 = key" for lo l prev \<sigma>
    unfolding bwp_bind
    using revoke_next_InrD [OF that] revoke_next_records [OF that(1)] raw_written(3) [OF assms(1)]
    by (intro bwp_put_if_revision [OF assms(2)]) (auto intro: acknowledged_inI)
  have replay: "acknowledged_in X key rh \<sigma>"
    if "replay_of (Some l) ih rh = Inr (Some snap)" "\<sigma> key = Some (raw, rv)" "raw_ledger X raw = Some l" "ledger_valid X l"
    for l snap \<sigma> raw rv
    using that by (auto simp: replay_of_def replay_snapshot_def dest: replay_loop_found intro!: acknowledged_inI)
  have absent: "replay_of None ih rh = Inr None" by (simp add: replay_of_def)
  show ?thesis
    unfolding rev_revoke_attempt_def bwp_bind
  proof (rule bwp_load_ledger [OF assms(2)], goal_cases)
    case (2 \<sigma>)
    show ?case using put [of None] by (auto simp: absent split: sum.split)
  next
    case (3 \<sigma> raw rv l)
    then show ?case using put [of "Some l"] replay [of l] by (auto split: sum.split option.split)
  qed simp
qed

text \<open>Every other reply of a mutation is an error.\<close>

lemma error_reply_status:
  "re_status (revocation_error_reply e) \<noteq> 200" "mutation_of_headers S headers = Inl reply \<Longrightarrow> re_status reply \<noteq> 200"
proof -
  show "re_status (revocation_error_reply e) \<noteq> 200"
    by (cases e) (simp_all add: revocation_error_reply_def json_reply_def)
  show "re_status reply \<noteq> 200" if "mutation_of_headers S headers = Inl reply"
    using that by (auto simp: mutation_of_headers_def rbind_eq_Inl map_err_eq_Inl admin_unauthorized_def bad_request_def
        json_reply_def split: if_splits)
qed

definition revocation_backed :: "externals \<Rightarrow> server \<Rightarrow> platform_reply \<Rightarrow> kv_view \<Rightarrow> bool" where
  "revocation_backed X server x \<sigma> \<longleftrightarrow>
     (externals_ok X \<and> kv_contract X server \<longrightarrow>
        (\<forall>headers request clock reply key.
           x = AdminReply (AdminRevoke headers request clock) reply \<and> re_status reply = 200
         \<and> sel_storage_key X (request_selector request) = Inr key \<longrightarrow>
           acknowledged_in X key (revoke_request_hash X request) \<sigma>))"

lemma bwp_rev_revoke:
  assumes "externals_ok X" "kv_contract X server" "sel_storage_key X (request_selector request) = Inr key"
  shows "bwp server I (\<lambda>res \<sigma>. \<forall>snap. res = Inr snap \<longrightarrow> acknowledged_in X key (revoke_request_hash X request) \<sigma>)
    (rev_revoke X (Some kv) request m now) \<sigma>0"
  (is "bwp server I ?Q _ _")
proof -
  have loop: "bwp server I ?Q (cas_retry n (Inl RevCasRetriesExhausted)
      (rev_revoke_attempt X kv key r ih (revoke_request_hash X request) now)) \<sigma>" for n r ih \<sigma>
  proof (rule bwp_cas_retry)
    show "bwp server I (\<lambda>r \<sigma>. case r of Some x \<Rightarrow> ?Q x \<sigma> | None \<Rightarrow> True)
        (rev_revoke_attempt X kv key r ih (revoke_request_hash X request) now) \<sigma>" for \<sigma>
      using bwp_rev_revoke_attempt [OF assms(1,2)]
      by (rule bwp_mono) (auto simp: revoke_backed_def split: option.splits)
  qed simp
  show ?thesis
    unfolding rev_revoke_def Let_def using assms(3) loop by (auto simp: rbind_eq_Inr split: sum.split)
qed

lemma platform_ops_backed:
  assumes "p \<in> platform_ops X G"
  shows "bwp server (\<lambda>_. True) (revocation_backed X server) p \<sigma>"
proof (cases "externals_ok X \<and> kv_contract X server")
  case False
  then show ?thesis by (intro bwp_always) (auto simp: revocation_backed_def)
next
  case True
  then have ok: "externals_ok X" "kv_contract X server" by simp_all
  from assms show ?thesis
  proof cases
    case (op_admin S kv req)
    show ?thesis
    proof (cases "\<exists>headers request clock key. req = AdminRevoke headers request clock
        \<and> sel_storage_key X (request_selector request) = Inr key")
      case False
      then show ?thesis unfolding op_admin(1) bwp_map by (intro bwp_always) (auto simp: revocation_backed_def)
    next
      case True
      then obtain headers request clock key where req: "req = AdminRevoke headers request clock"
        and key: "sel_storage_key X (request_selector request) = Inr key"
        by blast
      have "bwp server (\<lambda>_. True) (\<lambda>reply \<sigma>. re_status reply = 200 \<longrightarrow>
          acknowledged_in X key (revoke_request_hash X request) \<sigma>) (admin_handle X S req) \<sigma>"
      proof (cases "mutation_of_headers S headers")
        case (Inl reply)
        with error_reply_status(2) [OF Inl] show ?thesis
          by (simp add: req admin_revoke_def or_return_def)
      next
        case (Inr m)
        show ?thesis
          unfolding req admin_handle.simps admin_revoke_def Inr or_return_Done op_admin(2) bwp_map
          using bwp_rev_revoke [OF ok key]
          by (rule bwp_mono) (auto simp: revocation_reply_def error_reply_status(1) split: sum.splits)
      qed
      then show ?thesis
        unfolding op_admin(1) bwp_map on_admin_def
        by (intro bwp_focus, elim bwp_mono) (auto simp: revocation_backed_def req key)
    qed
  qed (simp_all add: bwp_map, auto intro!: bwp_always simp: revocation_backed_def)
qed

definition platform_reach ::
  "externals \<Rightarrow> gov_lib \<Rightarrow> server \<Rightarrow> ('k platform_local, platform_reply) sys \<Rightarrow> bool" where
  "platform_reach X G server s \<longleftrightarrow>
     (\<exists>\<sigma> l. revs_positive \<sigma> \<and> (sys_step server (platform_ops X G))\<^sup>*\<^sup>* (sys_init \<sigma> l) s)"

lemma acknowledged_stable:
  assumes "externals_ok X" "kv_contract X server" "platform_reach X G server s"
    and "(sys_step server (platform_ops X G))\<^sup>*\<^sup>* s s'" "ledger_space key" "acknowledged_in X key rh (sys_kv s)"
  shows "acknowledged_in X key rh (sys_kv s')"
proof -
  from assms(3) obtain \<sigma> l0 where reach: "revs_positive \<sigma>" "(sys_step server (platform_ops X G))\<^sup>*\<^sup>* (sys_init \<sigma> l0) s"
    by (auto simp: platform_reach_def)
  from assms(6) obtain raw r l where l: "sys_kv s key = Some (raw, r)" "raw_ledger X raw = Some l" "ledger_valid X l"
    "\<exists>e\<in>set (lg_events l). ev_request_hash e = rh"
    by (auto simp: acknowledged_in_def)
  from platform_ledger_evolves [OF assms(1,2) reach assms(4) l(1-3) assms(5)] l(4) show ?thesis
    unfolding held_at_def ledger_extends_def acknowledged_in_def by (blast dest: set_mono_prefix)
qed

interpretation platform_results:
  stable_results server "platform_ops X G" "platform_reach X G server" "\<lambda>_. True" "revocation_backed X server"
  for X G server
proof unfold_locales
  fix s s' :: "('k platform_local, platform_reply) sys"
  assume r: "platform_reach X G server s" and step: "sys_step server (platform_ops X G) s s'"
  then show "platform_reach X G server s'"
    unfolding platform_reach_def by (meson rtranclp.rtrancl_into_rtrancl)
  show "revocation_backed X server x (sys_kv s')" if "revocation_backed X server x (sys_kv s)" for x
    using that acknowledged_stable [OF _ _ r r_into_rtranclp [where r = "sys_step server (platform_ops X G)", OF step]]
      sel_key_space
    unfolding revocation_backed_def by blast
qed (auto intro: platform_ops_backed)

section \<open>Checks over HTTP\<close>

text \<open>The answer of a check that lets a token pass.\<close>

definition says_not_revoked :: "http_reply \<Rightarrow> bool" where
  "says_not_revoked reply \<longleftrightarrow>
     (\<exists>b d. re_body reply = Some b \<and> value_get b ''decision'' = Some d \<and> get_as as_bool d ''revoked'' = Some False)"

lemma says_not_revoked_simps [simp]:
  "says_not_revoked (no_store (VObj [(''decision'', decision_json d)])) \<longleftrightarrow> \<not> dc_revoked d"
  "\<not> says_not_revoked (revocation_error_reply e)" "\<not> says_not_revoked admin_unauthorized"
  by (simp_all add: says_not_revoked_def no_store_def decision_json_def revocation_error_reply_def json_reply_def
      admin_unauthorized_def)

definition check_rests_on ::
  "externals \<Rightarrow> (kv_view \<Rightarrow> bool) \<Rightarrow> string \<Rightarrow> revocation_ledger \<Rightarrow> claims \<Rightarrow> platform_reply \<Rightarrow> bool" where
  "check_rests_on X I key l c x \<longleftrightarrow>
     (\<forall>headers clock reply. x = AdminReply (AdminCheck headers c clock) reply \<and> says_not_revoked reply \<longrightarrow>
        (\<exists>\<sigma> raw r l'. I \<sigma> \<and> \<sigma> key = Some (raw, r) \<and> raw_ledger X raw = Some l' \<and> ledger_extends X l l'
           \<and> lets_pass l' c (admin_now_secs clock)))"

lemma rwp_platform_check:
  assumes "kv_contract X server" "sel = SelTokenId (cl_org_id c) (cl_jti c) \<or> sel = SelSubject (cl_org_id c) (cl_sub c)"
    and "sel_storage_key X sel = Inr key" "\<And>\<sigma>. I \<sigma> \<Longrightarrow> held_at X key l \<sigma>" "p \<in> platform_ops X G"
  shows "rwp server I (check_rests_on X I key l c) p"
  using assms(5)
proof cases
  case (op_admin S kv req)
  show ?thesis
  proof (cases "\<exists>headers clock. req = AdminCheck headers c clock")
    case False
    then show ?thesis unfolding op_admin(1) rwp_map by (intro rwp_always) (auto simp: check_rests_on_def)
  next
    case True
    then obtain headers clock where req: "req = AdminCheck headers c clock" by blast
    show ?thesis
      unfolding op_admin(1) rwp_map on_admin_def req admin_handle.simps admin_check_def op_admin(2)
      using rwp_rev_check [where I = I and now = "admin_now_secs clock" and kv = kv, OF assms(1-4)]
      by (intro rwp_focus)
         (auto simp: rwp_map check_rests_on_def justified_def split: sum.splits elim!: rwp_mono)
  qed
qed (auto simp: rwp_map check_rests_on_def intro!: rwp_always)

text \<open>
  C4. A revocation that was acknowledged over HTTP is taken into account by every later check.  In any run of
  the three services let a revocation of the id or the subject of a token have been answered with 200, and let a
  check of that token start afterwards, on any replica, and answer \<open>not revoked\<close>.  Then between the start of the
  check and its answer the store held a valid ledger of that id or subject, which contains the event of
  the acknowledged request, and whose current record does not strike the token: it was lifted or had run
  out.  A stale answer, or one from a ledger that lost the event, is impossible.
\<close>
theorem acknowledged_revocation_is_seen:
  assumes "externals_ok X" and "kv_contract X server" and "revs_positive \<sigma>"
    and "(sys_step server (platform_ops X G))\<^sup>*\<^sup>* (sys_init \<sigma> l0) s"
    and "sys_threads s t0 = Some (i0, Done (AdminReply (AdminRevoke writer request clock0) reply0))" and "re_status reply0 = 200"
    and "request_selector request = SelTokenId (cl_org_id c) (cl_jti c)
       \<or> request_selector request = SelSubject (cl_org_id c) (cl_sub c)"
    and "sel_storage_key X (request_selector request) = Inr key"
    and "sys_threads s t = None" and "(sys_step server (platform_ops X G))\<^sup>*\<^sup>* s s'"
    and "sys_threads s' t = Some (i, Done (AdminReply (AdminCheck reader c clock) reply))" and "says_not_revoked reply"
  shows "\<exists>u raw r l. (sys_step server (platform_ops X G))\<^sup>*\<^sup>* s u \<and> (sys_step server (platform_ops X G))\<^sup>*\<^sup>* u s'
    \<and> sys_kv u key = Some (raw, r) \<and> raw_ledger X raw = Some l \<and> ledger_validate X l = Inr ()
    \<and> (\<exists>e\<in>set (lg_events l). ev_request_hash e = revoke_request_hash X request)
    \<and> (\<forall>rec. current_record l = Some rec \<longrightarrow> \<not> record_matches rec c (admin_now_secs clock))"
proof -
  let ?step = "sys_step server (platform_ops X G)"
  let ?I = "\<lambda>\<sigma>. \<exists>u. ?step\<^sup>*\<^sup>* s u \<and> ?step\<^sup>*\<^sup>* u s' \<and> \<sigma> = sys_kv u"
  have reach: "platform_reach X G server (sys_init \<sigma> l0)" using assms(3) unfolding platform_reach_def by blast
  have none: "sys_threads (sys_init \<sigma> l0) = (\<lambda>_. None)" by (simp add: sys_init_def)
  from platform_results.finished_backed [OF assms(4) reach none assms(5)] assms(1,2,6,8)
  have "acknowledged_in X key (revoke_request_hash X request) (sys_kv s)" by (simp add: revocation_backed_def)
  then obtain raw r l where l: "sys_kv s key = Some (raw, r)" "raw_ledger X raw = Some l" "ledger_valid X l"
    "\<exists>e\<in>set (lg_events l). ev_request_hash e = revoke_request_hash X request"
    by (auto simp: acknowledged_in_def)
  have held: "held_at X key l \<sigma>'" if "?I \<sigma>'" for \<sigma>'
    using that platform_ledger_evolves [OF assms(1-4) _ l(1-3) sel_key_space [OF assms(8)]] by blast
  have "rwp server ?I (check_rests_on X ?I key l c)
      (Done (AdminReply (AdminCheck reader c clock) reply) :: ('a platform_local, platform_reply) eff)"
    by (rule rely_thread [where I = ?I and Q = "check_rests_on X ?I key l c", OF assms(10) _ _ _ assms(11)])
       (auto intro: rwp_platform_check [OF assms(2,7,8) held] simp: assms(9))
  then obtain u raw' r' l' where u: "?step\<^sup>*\<^sup>* s u" "?step\<^sup>*\<^sup>* u s'" "sys_kv u key = Some (raw', r')"
    "raw_ledger X raw' = Some l'" "ledger_extends X l l'" "lets_pass l' c (admin_now_secs clock)"
    using assms(12) by (auto simp: check_rests_on_def)
  moreover have "\<exists>e\<in>set (lg_events l'). ev_request_hash e = revoke_request_hash X request"
    using l(4) u(5) unfolding ledger_extends_def by (blast dest: set_mono_prefix)
  ultimately show ?thesis unfolding ledger_extends_def lets_pass_def by blast
qed

end
