(* ===== verification/Platform_Keys.thy ===== *)
theory Platform_Keys
  imports Platform_Revocation
begin

text \<open>
  Revoked API keys across the platform.  A revocation that the API acknowledged is in the store; from then on no
  introspection and no token exchange that starts anywhere vouches for the key.
\<close>

section \<open>Acknowledged revocations are stored\<close>

lemma swp_bwp: "swp P (\<lambda>x. \<forall>\<sigma>. Q x \<sigma>) p \<Longrightarrow> bwp server I Q p \<sigma>"
  by (induction p arbitrary: \<sigma>) auto

lemma bwp_or_return:
  assumes "bwp server I (\<lambda>r \<sigma>. case r of Inl e \<Rightarrow> Q e \<sigma> | Inr x \<Rightarrow> bwp server I Q (f x) \<sigma>) m \<sigma>"
  shows "bwp server I Q (or_return m f) \<sigma>"
  unfolding or_return_def bwp_bind using assms by (rule bwp_mono) (auto split: sum.splits)

lemma bwp_load_versioned:
  assumes "kv_contract X server" and "\<And>e \<sigma>. Q (Inl e) \<sigma>" and "\<And>\<sigma>. Q (Inr None) \<sigma>"
    and "\<And>\<sigma> raw r s. \<sigma> (key_path key_id) = Some (raw, r) \<Longrightarrow> raw_key X raw = Some s \<Longrightarrow> sk_key_id s = key_id \<Longrightarrow>
           Q (Inr (Some (record_of_stored s, r))) \<sigma>"
  shows "bwp server I Q (load_versioned X kv key_id) \<sigma>0"
  unfolding load_versioned_def bwp_try
proof (rule bwp_get_versioned [OF assms(1)])
  fix \<sigma> e
  assume rd: "reads X (\<sigma> (key_path key_id)) e"
  have "Q (rbind (decode_key key_id (vv_value vv)) (\<lambda>r. Inr (Some (r, vv_mod_revision vv)))) \<sigma>" if e: "e = Some vv" for vv
  proof (cases "decode_key key_id (vv_value vv)")
    case (Inr rec)
    then obtain s where s: "stored_key_from_json (vv_value vv) = Some s" "sk_key_id s = key_id" "rec = record_of_stored s"
      by (auto simp: decode_key_Inr_iff)
    from rd e obtain raw where raw: "\<sigma> (key_path key_id) = Some (raw, vv_mod_revision vv)" "json_from_str X raw = Some (vv_value vv)"
      by (auto simp: reads_def)
    with s(1) have "raw_key X raw = Some s" by (simp add: raw_key_def)
    from assms(4) [where \<sigma> = \<sigma>, OF raw(1) this s(2)] show ?thesis by (simp add: Inr s(3))
  qed (simp add: assms(2))
  then show "case Inr e of Inl e \<Rightarrow> Q (Inl e) \<sigma>
    | Inr x \<Rightarrow> bwp server I Q (case x of None \<Rightarrow> Done (Inr None)
         | Some vv \<Rightarrow> Done (rbind (decode_key key_id (vv_value vv)) (\<lambda>r. Inr (Some (r, vv_mod_revision vv))))) \<sigma>"
    by (cases e) (simp_all add: assms(3))
qed (simp add: assms(2))

definition revoked_backed :: "externals \<Rightarrow> string \<Rightarrow> store_error + bool \<Rightarrow> kv_view \<Rightarrow> bool" where
  "revoked_backed X key_id res \<sigma> \<longleftrightarrow> (res = Inr True \<longrightarrow> revoked_in X key_id \<sigma>)"

lemma revoked_backed_simps [simp]:
  "revoked_backed X key_id (Inl e) \<sigma>" "revoked_backed X key_id (Inr b) \<sigma> \<longleftrightarrow> (b \<longrightarrow> revoked_in X key_id \<sigma>)"
  by (auto simp: revoked_backed_def)

lemma bwp_revoke_attempt:
  assumes "externals_ok X" "kv_contract X server"
  shows "bwp server I (\<lambda>r \<sigma>. case r of Some x \<Rightarrow> revoked_backed X key_id x \<sigma> | None \<Rightarrow> True)
    (revoke_attempt X kv org_id key_id) \<sigma>0"
  (is "bwp server I ?Q _ _")
proof -
  have put: "bwp server I ?Q (eff_bind (put_if_revision X kv (key_path key_id)
        (stored_key_to_json (stored_of_record (rec\<lparr>ak_revoked := True, ak_version := version\<rparr>))) rn) (\<lambda>put.
      case put of Inl e \<Rightarrow> Done (Some (Inl e))
        | Inr Applied \<Rightarrow> Locked (AList.update key_id (rec\<lparr>ak_revoked := True, ak_version := version\<rparr>)) (\<lambda>_. Done (Some (Inr True)))
        | Inr Mismatch \<Rightarrow> Done None)) \<sigma>" for rec version rn \<sigma>
    unfolding bwp_bind
  proof (rule bwp_put_if_revision [OF assms(2)], goal_cases)
    case (3 \<sigma> rv)
    moreover have "sk_revoked (stored_of_record (rec\<lparr>ak_revoked := True, ak_version := version\<rparr>))"
      by (simp add: stored_of_record_def)
    ultimately have "revoked_in X key_id \<sigma>" using raw_written(1) [OF assms(1)] unfolding revoked_in_def by blast
    then show ?case by simp
  qed simp_all
  show ?thesis
    unfolding revoke_attempt_def bwp_bind
  proof (rule bwp_load_versioned [OF assms(2)], goal_cases)
    case (3 \<sigma> raw r s)
    have "revoked_in X key_id \<sigma>" if "sk_revoked s" using 3 that unfolding revoked_in_def by blast
    then show ?case using put by (auto simp: Let_def split: sum.split)
  qed simp_all
qed

lemma bwp_revoke_key_of:
  assumes "externals_ok X" "kv_contract X server" "ks_kv ks = Some kv"
  shows "bwp server I (revoked_backed X key_id) (revoke_key_of X ks org_id key_id) \<sigma>"
  unfolding revoke_key_of_def assms(3) option.case
  by (rule bwp_cas_retry [OF bwp_revoke_attempt [OF assms(1,2)]]) simp

text \<open>The reply that acknowledges a revocation.\<close>

definition says_revoked :: "http_reply \<Rightarrow> bool" where
  "says_revoked reply \<longleftrightarrow> (\<exists>b. re_body reply = Some b \<and> get_as as_bool b ''revoked'' = Some True)"

fun acks_key_revocation :: "string \<Rightarrow> platform_reply \<Rightarrow> bool" where
  "acks_key_revocation key_id (ApiReply (RevokeKey headers key_id' query) reply) \<longleftrightarrow>
     key_id' = key_id \<and> says_revoked reply"
| "acks_key_revocation key_id _ \<longleftrightarrow> False"

definition key_revocation_backed :: "externals \<Rightarrow> server \<Rightarrow> platform_reply \<Rightarrow> kv_view \<Rightarrow> bool" where
  "key_revocation_backed X server x \<sigma> \<longleftrightarrow>
     (externals_ok X \<and> kv_contract X server \<longrightarrow> (\<forall>key_id. acks_key_revocation key_id x \<longrightarrow> revoked_in X key_id \<sigma>))"

lemma says_revoked_simps [simp]:
  "says_revoked (json_reply n (VObj [(''revoked'', VBool revoked)])) \<longleftrightarrow> revoked"
  "\<not> says_revoked (unauthorized m)" "\<not> says_revoked storage_unavailable"
  by (simp_all add: says_revoked_def unauthorized_def storage_unavailable_def json_reply_def)

lemma refused_org_not_revoked [simp]: "select_user_org user query = Inl e \<Longrightarrow> \<not> says_revoked e"
  by (auto simp: says_revoked_def select_user_org_def json_reply_def Let_def split: option.splits if_splits list.splits)

lemma swp_always: "(\<And>x. Q x) \<Longrightarrow> swp (\<lambda>_. True) Q p"
  by (induction p) auto

lemma bwp_require_user:
  assumes "\<And>m \<sigma>. Q (Inl (unauthorized m)) \<sigma>" "\<And>user \<sigma>. Q (Inr user) \<sigma>"
  shows "bwp server I Q (require_user R headers) \<sigma>"
proof (rule swp_bwp)
  show "swp (\<lambda>_. True) (\<lambda>r. \<forall>\<sigma>. Q r \<sigma>) (require_user R headers)"
  proof (cases "bearer_token headers")
    case (Some jwt)
    have "\<forall>\<sigma>. Q (ok_or u (unauthorized m)) \<sigma>" for u m using assms by (cases u) simp_all
    then show ?thesis unfolding require_user_def Some option.case swp_map by (intro swp_always)
  qed (auto simp: require_user_def intro: assms(1))
qed

lemma bwp_revoke_key:
  assumes "externals_ok (rt_ext R)" "kv_contract (rt_ext R) server" "ks_kv (as_keys S) = Some kv"
  shows "bwp server I (\<lambda>reply \<sigma>. says_revoked reply \<longrightarrow> revoked_in (rt_ext R) key_id \<sigma>) (revoke_key R S headers key_id query) \<sigma>"
  (is "bwp server I ?Q _ _")
proof -
  have store: "bwp server I ?Q (or_return (eff_map (map_err (\<lambda>_. storage_unavailable))
      (on_keys (revoke_key_of (rt_ext R) (as_keys S) org key_id))) (\<lambda>revoked. Done (json_reply 200 (VObj [(''revoked'', VBool revoked)])))) \<sigma>"
    for org \<sigma>
    by (intro bwp_or_return, unfold bwp_map on_keys_def, rule bwp_focus, rule bwp_mono [OF bwp_revoke_key_of [OF assms]])
       (auto simp: map_err_eq_Inl map_err_eq_Inr revoked_backed_def split: sum.split)
  have select: "bwp server I ?Q (or_return (Done (select_user_org user query)) f) \<sigma>"
    if "\<And>org \<sigma>. bwp server I ?Q (f org) \<sigma>" for user f \<sigma>
    using that by (cases "select_user_org user query") auto
  show ?thesis
    unfolding revoke_key_def
    by (rule bwp_or_return, rule bwp_require_user) (auto intro!: select store)
qed

lemma platform_ops_key_backed:
  assumes "p \<in> platform_ops X G"
  shows "bwp server (\<lambda>_. True) (key_revocation_backed X server) p \<sigma>"
proof (cases "externals_ok X \<and> kv_contract X server")
  case False
  then show ?thesis by (intro bwp_always) (auto simp: key_revocation_backed_def)
next
  case True
  from assms show ?thesis
  proof cases
    case (op_api R S kv req)
    show ?thesis
    proof (cases "\<exists>headers key_id query. req = RevokeKey headers key_id query")
      case False
      then have "\<not> acks_key_revocation key_id (ApiReply req reply)" for key_id reply by (cases req) auto
      then show ?thesis
        unfolding op_api(1) bwp_map by (intro bwp_always) (simp add: key_revocation_backed_def)
    next
      case revoke: True
      then obtain headers key_id query where req: "req = RevokeKey headers key_id query" by blast
      show ?thesis
        unfolding op_api(1) bwp_map on_api_def req handle.simps
        using bwp_revoke_key [where R = R and S = S and kv = kv and headers = headers and key_id = key_id and query = query
            and I = "\<lambda>_. True" and \<sigma> = \<sigma> and server = server] True op_api(2,3)
        by (intro bwp_focus) (auto simp: key_revocation_backed_def elim!: bwp_mono)
    qed
  qed (simp_all add: bwp_map, auto intro!: bwp_always simp: key_revocation_backed_def)
qed

lemma platform_revoked_stays:
  assumes "externals_ok X" "kv_contract X server" "platform_reach X G server s"
    and "(sys_step server (platform_ops X G))\<^sup>*\<^sup>* s s'" "revoked_in X key_id (sys_kv s)"
  shows "revoked_in X key_id (sys_kv s')"
proof -
  from assms(3) obtain \<sigma> l0 where reach: "revs_positive \<sigma>" "(sys_step server (platform_ops X G))\<^sup>*\<^sup>* (sys_init \<sigma> l0) s"
    by (auto simp: platform_reach_def)
  from assms(5) obtain raw r k where k: "sys_kv s (key_path key_id) = Some (raw, r)" "raw_key X raw = Some k" "sk_revoked k"
    by (auto simp: revoked_in_def)
  from platform_evolution.entry_evolves [OF assms(2) reach assms(4) k(1)] obtain raw' r' where
    e: "sys_kv s' (key_path key_id) = Some (raw', r')" "platform_le X (key_path key_id) raw raw'"
    by blast
  from e(2) have "key_le X (key_path key_id) raw raw'" unfolding platform_le_def by blast
  with e(1) k assms(1) show ?thesis by (auto simp: key_le_def key_evolves_def revoked_in_def)
qed

interpretation key_results:
  stable_results server "platform_ops X G" "platform_reach X G server" "\<lambda>_. True" "key_revocation_backed X server"
  for X G server
proof unfold_locales
  fix s s' :: "('k platform_local, platform_reply) sys"
  assume r: "platform_reach X G server s" and step: "sys_step server (platform_ops X G) s s'"
  then show "platform_reach X G server s'" by (rule platform_results.reach_step)
  show "key_revocation_backed X server x (sys_kv s')" if "key_revocation_backed X server x (sys_kv s)" for x
    using that platform_revoked_stays [OF _ _ r r_into_rtranclp [where r = "sys_step server (platform_ops X G)", OF step]]
    unfolding key_revocation_backed_def by blast
qed (auto intro: platform_ops_key_backed)

section \<open>Nothing vouches for a revoked key\<close>

lemma rwp_platform_dead:
  assumes "kv_contract X server" "p \<in> platform_ops X G"
  shows "rwp server (revoked_in X key_id) (\<lambda>x. \<forall>req reply. x = ApiReply req reply \<longrightarrow> \<not> vouches_for key_id (req, reply)) p"
  using assms(2)
proof cases
  case (op_api R S kv req)
  have "eff_map (\<lambda>reply. (req, reply)) (handle R S req) \<in> http_ops R S" by (auto simp: http_ops_def)
  from rwp_http_ops_dead [OF _ op_api(3) this, of server key_id] assms(1)
  have "rwp server (revoked_in X key_id) (\<lambda>reply. \<not> vouches_for key_id (req, reply)) (handle R S req)"
    by (simp add: op_api(2) rwp_map)
  then show ?thesis
    unfolding op_api(1) rwp_map on_api_def by (intro rwp_focus) (auto elim!: rwp_mono)
qed (auto simp: rwp_map intro!: rwp_always)

text \<open>
  C2. The revocation of an API key is final once acknowledged.  In any run of the three services let a request to
  revoke a key have been answered with \<open>revoked: true\<close>.  Then no request that starts afterwards, on any
  replica and with any secret, is answered with a valid introspection of that key or with an access token for it,
  whatever rotations, revocations or creations run at the same time.
\<close>
theorem acknowledged_key_revocation_is_final:
  assumes "externals_ok X" and "kv_contract X server" and "revs_positive \<sigma>"
    and "(sys_step server (platform_ops X G))\<^sup>*\<^sup>* (sys_init \<sigma> l0) s"
    and "sys_threads s t0 = Some (i0, Done (ApiReply (RevokeKey headers key_id query) reply0))"
    and "says_revoked reply0"
    and "sys_threads s t = None" and "(sys_step server (platform_ops X G))\<^sup>*\<^sup>* s s'"
    and "sys_threads s' t = Some (i, Done (ApiReply req reply))"
  shows "\<not> vouches_for key_id (req, reply)"
proof -
  let ?Q = "\<lambda>x. \<forall>req reply. x = ApiReply req reply \<longrightarrow> \<not> vouches_for key_id (req, reply)"
  have reach: "platform_reach X G server (sys_init \<sigma> l0)" "platform_reach X G server s"
    using assms(3,4) unfolding platform_reach_def by blast+
  have none: "sys_threads (sys_init \<sigma> l0) = (\<lambda>_. None)" by (simp add: sys_init_def)
  from key_results.finished_backed [OF assms(4) reach(1) none assms(5)] assms(1,2,6)
  have "revoked_in X key_id (sys_kv s)" by (simp add: key_revocation_backed_def)
  then have dead: "revoked_in X key_id (sys_kv u)" if "(sys_step server (platform_ops X G))\<^sup>*\<^sup>* s u" for u
    by (rule platform_revoked_stays [OF assms(1,2) reach(2) that])
  have "rwp server (revoked_in X key_id) ?Q (Done (ApiReply req reply) :: ('a platform_local, platform_reply) eff)"
    by (rule rely_thread [where I = "revoked_in X key_id" and Q = ?Q, OF assms(8) _ _ _ assms(9)])
       (simp_all add: dead rwp_platform_dead [OF assms(2)] assms(7))
  then show ?thesis by simp
qed

end
