(* ===== verification/Governance_Demo.thy ===== *)
theory Governance_Demo
  imports Governance_Access Server_Demo
begin

text \<open>
  A small governance deployment on which the statements about ceremonies are instantiated: a
  configuration with one tenant, the record of one ceremony in its three states, a member with a
  second factor, and concrete functions for base64 and the cipher.
\<close>

section \<open>Libraries and configuration\<close>

definition demo_gov :: gov_lib where
  "demo_gov = \<lparr>gl_b64u = bytes_to_string, gl_b64u_decode = (\<lambda>s. Some (as_bytes s)),
     gl_encrypt = (\<lambda>key nonce aad msg. Some msg), gl_decrypt = (\<lambda>key nonce aad ct. Some ct)\<rparr>"

lemma as_bytes_to_string [simp]: "as_bytes (bytes_to_string bs) = bs"
proof -
  have "of_nat (of_char (char_of (unat b))) = b" for b :: byte
  proof -
    have "unat b < 256" using unsigned_less [of b, where ?'a = nat] by simp
    then show ?thesis by simp
  qed
  then show ?thesis by (simp add: bytes_to_string_def as_bytes_def comp_def)
qed

lemma demo_gov_ok [simp]: "gov_lib_ok demo_gov"
  by (simp add: gov_lib_ok_def demo_gov_def)

lemma demo_text_exact [simp]: "json_text_exact demo"
proof -
  have "v = w" if "enc_json v = enc_json w" for v w
    using that by (metis parse_enc_json option.inject)
  then show ?thesis by (simp add: json_text_exact_def)
qed

definition demo_ring :: "string \<rightharpoonup> byte list" where
  "demo_ring = [''k1'' \<mapsto> replicate 32 7]"

definition demo_codec :: protected_state_codec where
  "demo_codec = \<lparr>cd_active_key_id = ''k1'', cd_keyring_version = 1, cd_keys = demo_ring\<rparr>"

definition demo_gov_config :: governance_config where
  "demo_gov_config =
     \<lparr>gc_enabled = True, gc_rp_id = Some ''r.co'', gc_origin = Some ''https://r.co'', gc_allowed_tenants = {''o''},
      gc_ttl_ms = 60000, gc_ceremony_secret = Some (as_bytes demo_secret), gc_verifier_secret = Some demo_secret,
      gc_protected_state_codec = Some demo_codec\<rparr>"

definition demo_ceremony_store :: ceremony_store where
  "demo_ceremony_store = \<lparr>ct_kv = demo_kv, ct_config = demo_gov_config\<rparr>"

lemma demo_gov_config_sel [simp]:
  "gc_enabled demo_gov_config" "gc_rp_id demo_gov_config = Some ''r.co''" "gc_origin demo_gov_config = Some ''https://r.co''"
  "gc_allowed_tenants demo_gov_config = {''o''}" "gc_ttl_ms demo_gov_config = 60000"
  "gc_ceremony_secret demo_gov_config = Some (as_bytes demo_secret)"
  "gc_verifier_secret demo_gov_config = Some demo_secret" "ct_config demo_ceremony_store = demo_gov_config"
  by (simp_all add: demo_gov_config_def demo_ceremony_store_def)

lemma demo_identifiers [simp]:
  "gov_validate_identifier ''o'' = Inr ()" "gov_validate_identifier ''u'' = Inr ()" "gov_validate_identifier ''p'' = Inr ()"
  "gov_validate_identifier ''w1'' = Inr ()" "gov_validate_identifier ''c1'' = Inr ()" "gov_validate_identifier ''open'' = Inr ()"
  "gov_validate_identifier ''r.co'' = Inr ()" "gov_validate_identifier ''https://r.co'' = Inr ()"
  "gov_validate_identifier ''k1'' = Inr ()"
  by (simp_all add: gov_validate_identifier_iff has_blank_or_control_def chars_def utf8_width_def is_control_def is_whitespace_def)

lemma demo_codec_new: "codec_new ''k1'' 1 demo_ring = Inr demo_codec"
  using demo_identifiers(9) unfolding gov_validate_identifier_iff
  by (simp add: codec_new_iff demo_codec_def demo_ring_def)

section \<open>A ceremony\<close>

definition demo_urn :: string where
  "demo_urn = ''sha256:'' @ replicate 64 (CHR ''a'')"

definition demo_idem :: string where
  "demo_idem = replicate 16 (CHR ''i'')"

definition demo_begin :: begin_approval_request where
  "demo_begin = \<lparr>bq_org_id = ''o'', bq_participant_id = ''u'', bq_canonical_proposal_hash = demo_urn,
     bq_policy_id = ''p'', bq_policy_version = 1, bq_policy_hash = demo_urn, bq_continuity_state = ''open'',
     bq_continuity_generation = 0, bq_credential_generation = 1, bq_activation_credential_id = None\<rparr>"

definition demo_binding :: approval_binding where
  "demo_binding = \<lparr>ab_tenant_id = ''o'', ab_participant_id = ''u'', ab_proposal_id = ''p'',
     ab_canonical_proposal_hash = demo_urn, ab_policy_id = ''p'', ab_policy_version = 1, ab_policy_hash = demo_urn,
     ab_continuity_state = ''open'', ab_continuity_generation = 0, ab_rp_id = ''r.co'', ab_origin = ''https://r.co'',
     ab_credential_generation = 1, ab_activation_credential_id = None, ab_created_at_ms = 1000,
     ab_expires_at_ms = 61000\<rparr>"

definition demo_cid :: string where
  "demo_cid = ceremony_id demo ''o'' ''u'' ''p'' demo_idem"

definition demo_binding_hash :: string where
  "demo_binding_hash = sha256_bytes demo (as_bytes (enc_json (binding_json demo_binding)))"

definition demo_challenge :: string where
  "demo_challenge = projr (derive_challenge demo demo_gov (as_bytes demo_secret) demo_cid demo_binding_hash)"

definition demo_pending :: ceremony_record where
  "demo_pending = \<lparr>cr_contract_version = CONTRACT_VERSION, cr_object_kind = OBJECT_KIND, cr_ceremony_id = demo_cid,
     cr_binding = demo_binding, cr_binding_hash = demo_binding_hash,
     cr_challenge_hash = sha256_bytes demo (as_bytes demo_challenge), cr_status = Pending, cr_claim_id = None,
     cr_fencing_token = 0, cr_claimed_at_ms = None, cr_terminal = None\<rparr>"

definition demo_claimed :: ceremony_record where
  "demo_claimed = demo_pending\<lparr>cr_status := Claimed, cr_claim_id := Some ''w1'', cr_fencing_token := 7,
     cr_claimed_at_ms := Some 2000\<rparr>"

definition demo_terminal :: terminal_verification where
  "demo_terminal = \<lparr>tv_outcome = Completed, tv_reason = ''verified'', tv_assertion_receipt_hash = Some demo_urn,
     tv_credential_id = Some ''c1'', tv_credential_generation = Some 1, tv_completed_at_ms = 3000,
     tv_result_hash = projr (completed_result_hash demo demo_claimed ''c1'' 1 demo_urn 3000)\<rparr>"

definition demo_completed :: ceremony_record where
  "demo_completed = demo_claimed\<lparr>cr_status := Completed, cr_terminal := Some demo_terminal\<rparr>"

definition demo_claim :: claim_request where
  "demo_claim = \<lparr>cq_tenant_id = ''o'', cq_participant_id = ''u'', cq_claim_id = ''w1'', cq_fencing_token = 7\<rparr>"

definition demo_verified :: complete_verified_request where
  "demo_verified = \<lparr>vq_tenant_id = ''o'', vq_participant_id = ''u'', vq_claim_id = ''w1'', vq_fencing_token = 7,
     vq_binding_hash = demo_binding_hash, vq_challenge_hash = cr_challenge_hash demo_pending,
     vq_credential_id = ''c1'', vq_credential_generation = 1, vq_assertion_receipt_hash = demo_urn,
     vq_user_verified = True\<rparr>"

lemma demo_urn_canonical [simp]: "validate_canonical_sha256_urn demo_urn = Inr ()"
  by (simp add: validate_canonical_iff demo_urn_def list_all_iff is_lower_hex_def)

lemma demo_idem_valid [simp]: "validate_idempotency_key demo_idem = Inr ()"
  by (simp add: validate_idempotency_key_def demo_idem_def has_blank_or_control_def numeral_eq_Suc chars_def utf8_width_def
      is_control_def is_whitespace_def)

lemma demo_binding_hash_eq [simp]: "binding_hash demo demo_binding = Inr demo_binding_hash"
  unfolding binding_hash_def demo_binding_hash_def
  by (simp add: binding_validate_def sha256_json_def canonical_is_urn)
     (simp add: demo_binding_def canonical_is_urn)

lemma demo_begin_record:
  "begin_record demo demo_gov demo_gov_config ''p'' ''u'' ''o'' demo_idem demo_begin 1000 = Inr (demo_pending, demo_challenge)"
proof -
  have "checked_add (1000 :: u64) 60000 = Some 61000" by (simp add: checked_add_def)
  moreover have "derive_challenge demo demo_gov (as_bytes demo_secret) demo_cid demo_binding_hash = Inr demo_challenge"
    by (simp add: demo_challenge_def derive_challenge_def)
  ultimately show ?thesis
    using demo_binding_hash_eq
    by (simp add: begin_record_def demo_begin_def ensure_def config_rp_id_def config_origin_def config_ceremony_secret_def
        demo_cid_def [symmetric] demo_pending_def demo_binding_def Let_def)
qed

lemma demo_record_sel [simp]:
  "cr_ceremony_id demo_pending = demo_cid" "cr_binding demo_pending = demo_binding"
  "cr_binding demo_claimed = demo_binding" "cr_status demo_claimed = Claimed" "cr_claim_id demo_claimed = Some ''w1''"
  "cr_fencing_token demo_claimed = 7" "cr_claimed_at_ms demo_claimed = Some 2000"
  "cr_terminal demo_claimed = None"
  "cr_status demo_completed = Completed" "cr_fencing_token demo_completed = 7" "cr_terminal demo_completed = Some demo_terminal"
  by (simp_all add: demo_pending_def demo_claimed_def demo_completed_def)

lemma demo_binding_sel [simp]:
  "ab_expires_at_ms demo_binding = 61000" "ab_created_at_ms demo_binding = 1000" "ab_credential_generation demo_binding = 1"
  "ab_activation_credential_id demo_binding = None" "ab_tenant_id demo_binding = ''o''" "ab_participant_id demo_binding = ''u''"
  by (simp_all add: demo_binding_def)

lemma demo_terminal_sel [simp]:
  "tv_outcome demo_terminal = Completed" "tv_reason demo_terminal = ''verified''"
  "tv_assertion_receipt_hash demo_terminal = Some demo_urn" "tv_credential_id demo_terminal = Some ''c1''"
  "tv_credential_generation demo_terminal = Some 1" "tv_completed_at_ms demo_terminal = 3000"
  by (simp_all add: demo_terminal_def)

lemma demo_fits:
  "validate_record_against_config demo demo_gov demo_pending demo_gov_config demo_cid = Inr ()"
  "validate_record_against_config demo demo_gov demo_claimed demo_gov_config demo_cid = Inr ()"
  "validate_record_against_config demo demo_gov demo_completed demo_gov_config demo_cid = Inr ()"
proof -
  have head: "header_sound demo demo_pending demo_cid"
    by (simp add: header_sound_def demo_pending_def demo_cid_def demo_binding_hash_def)
       (simp add: demo_binding_def)
  have fits: "fits_config demo demo_gov demo_pending demo_gov_config demo_cid"
    by (simp add: fits_config_def demo_pending_def demo_challenge_def derive_challenge_def)
       (simp add: demo_binding_def)
  have claimed: "validate_claim_metadata demo_claimed = Inr ()"
    by (simp add: validate_claim_metadata_def stored_def)
  have hash: "completed_result_hash demo demo_claimed ''c1'' 1 demo_urn 3000 = Inr (tv_result_hash demo_terminal)"
    and canon: "validate_canonical_sha256_urn (tv_result_hash demo_terminal) = Inr ()"
    by (simp_all add: demo_terminal_def completed_result_hash_def sha256_json_def Let_def)
  have completed: "validate_status demo demo_completed = Inr ()"
    using claimed hash canon
    by (simp add: validate_status_def validate_completed_def demo_completed_def validate_claim_metadata_def stored_def)
  show "validate_record_against_config demo demo_gov demo_pending demo_gov_config demo_cid = Inr ()"
    using head fits by (simp add: validate_record_against_config_iff validate_status_def) (simp add: demo_pending_def)
  show "validate_record_against_config demo demo_gov demo_claimed demo_gov_config demo_cid = Inr ()"
    using head fits claimed
    by (simp add: validate_record_against_config_iff validate_status_def)
       (simp add: demo_claimed_def)
  show "validate_record_against_config demo demo_gov demo_completed demo_gov_config demo_cid = Inr ()"
    using head fits completed
    by (simp add: validate_record_against_config_iff) (simp add: demo_completed_def demo_claimed_def)
qed

section \<open>One caller\<close>

abbreviation demo_path :: string where
  "demo_path \<equiv> ceremony_path demo_cid"

theorem complete_verified_iff_witness:
  "\<exists>t rv. fst (run ref_server (complete_verified_store demo demo_gov demo_ceremony_store demo_cid demo_verified 3000)
       [demo_path \<mapsto> (enc_json (ceremony_to_json demo_claimed), 4)] ()) =
      Inr \<lparr>vp_ceremony_id = demo_cid, vp_status = Completed, vp_terminal = t, vp_replayed = False\<rparr>
    \<and> tv_completed_at_ms t = 3000
    \<and> fst (snd (run ref_server (complete_verified_store demo demo_gov demo_ceremony_store demo_cid demo_verified 3000)
       [demo_path \<mapsto> (enc_json (ceremony_to_json demo_claimed), 4)] ())) =
      [demo_path \<mapsto> (enc_json (ceremony_to_json (demo_claimed\<lparr>cr_status := Completed, cr_terminal := Some t\<rparr>)), rv)]"
proof -
  let ?\<sigma> = "[demo_path \<mapsto> (enc_json (ceremony_to_json demo_claimed), 4 :: u64)]"
  obtain res \<sigma>' c' where r: "run ref_server
      (complete_verified_store demo demo_gov demo_ceremony_store demo_cid demo_verified 3000) ?\<sigma> () = (res, \<sigma>', c')"
    by (metis prod_cases3)
  have "completes demo_claimed demo_verified 3000"
    by (simp add: completes_def demo_verified_def) (simp add: demo_claimed_def demo_pending_def demo_binding_def)
  moreover have "validate_record_against_config demo demo_gov demo_claimed (ct_config demo_ceremony_store) demo_cid = Inr ()"
    by (simp add: demo_fits)
  ultimately show ?thesis
    using complete_verified_iff [OF demo_ok ref_server_reliable _ _ _ _ r, of demo_claimed 4] r
    by (auto simp: result_document_def)
qed

lemma demo_begins:
  obtains rv where "run ref_server (begin_ceremony demo demo_gov demo_ceremony_store ''p'' ''u'' ''o'' demo_idem demo_begin 1000)
      Map.empty () = (Inr (begun_response demo_pending demo_challenge False),
        [demo_path \<mapsto> (enc_json (ceremony_to_json demo_pending), rv)], ())"
proof -
  have b: "begin_record demo demo_gov (ct_config demo_ceremony_store) ''p'' ''u'' ''o'' demo_idem demo_begin 1000
      = Inr (demo_pending, demo_challenge)"
    by (simp add: demo_begin_record)
  show ?thesis
    by (rule run_begin_fresh [OF ref_server_reliable b, of Map.empty "()"]) (use demo_fits(1) that in auto)
qed

theorem begin_creates_once_witness:
  "\<exists>resp \<sigma>1. run ref_server (begin_ceremony demo demo_gov demo_ceremony_store ''p'' ''u'' ''o'' demo_idem demo_begin 1000)
      Map.empty () = (Inr resp, \<sigma>1, ()) \<and> \<not> bp_replayed resp
    \<and> run ref_server (begin_ceremony demo demo_gov demo_ceremony_store ''p'' ''u'' ''o'' demo_idem demo_begin 1000) \<sigma>1 () =
        (Inr (resp\<lparr>bp_replayed := True\<rparr>), \<sigma>1, ())"
proof -
  obtain rv where r: "run ref_server (begin_ceremony demo demo_gov demo_ceremony_store ''p'' ''u'' ''o'' demo_idem demo_begin 1000)
      Map.empty () = (Inr (begun_response demo_pending demo_challenge False),
        [demo_path \<mapsto> (enc_json (ceremony_to_json demo_pending), rv)], ())"
    by (rule demo_begins)
  with begin_creates_once [OF demo_ok ref_server_reliable _ r] show ?thesis by auto
qed

theorem approval_ceremony_completes_witness:
  "\<exists>resp \<sigma>1 \<sigma>2 \<sigma>3 t. run ref_server
      (begin_ceremony demo demo_gov demo_ceremony_store ''p'' ''u'' ''o'' demo_idem demo_begin 1000) Map.empty () = (Inr resp, \<sigma>1, ())
    \<and> run ref_server (claim_ceremony_store demo demo_gov demo_ceremony_store demo_cid demo_claim 2000) \<sigma>1 () =
        (Inr \<lparr>cp_ceremony_id = demo_cid, cp_status = Claimed, cp_fencing_token = 7, cp_replayed = False,
              cp_taken_over = False\<rparr>, \<sigma>2, ())
    \<and> run ref_server (complete_verified_store demo demo_gov demo_ceremony_store demo_cid demo_verified 3000) \<sigma>2 () =
        (Inr \<lparr>vp_ceremony_id = demo_cid, vp_status = Completed, vp_terminal = t, vp_replayed = False\<rparr>, \<sigma>3, ())"
proof -
  obtain rv where r: "run ref_server (begin_ceremony demo demo_gov demo_ceremony_store ''p'' ''u'' ''o'' demo_idem demo_begin 1000)
      Map.empty () = (Inr (begun_response demo_pending demo_challenge False),
        [demo_path \<mapsto> (enc_json (ceremony_to_json demo_pending), rv)], ())"
    by (rule demo_begins)
  have resp: "bp_ceremony_id (begun_response demo_pending demo_challenge False) = demo_cid"
    "bp_binding_hash (begun_response demo_pending demo_challenge False) = cr_binding_hash demo_pending"
    "bp_challenge_hash (begun_response demo_pending demo_challenge False) = cr_challenge_hash demo_pending"
    "bp_expires_at_ms (begun_response demo_pending demo_challenge False) = 61000"
    by (simp_all add: begun_response_def)
  have claim: "cq_tenant_id demo_claim = ''o''" "cq_participant_id demo_claim = ''u''" "cq_claim_id demo_claim = ''w1''"
    "cq_fencing_token demo_claim = 7"
    by (simp_all add: demo_claim_def)
  have verified: "vq_user_verified demo_verified" "vq_tenant_id demo_verified = ''o''" "vq_participant_id demo_verified = ''u''"
    "vq_claim_id demo_verified = ''w1''" "vq_fencing_token demo_verified = 7"
    "vq_binding_hash demo_verified = cr_binding_hash demo_pending" "vq_challenge_hash demo_verified = cr_challenge_hash demo_pending"
    "vq_credential_generation demo_verified = bq_credential_generation demo_begin" "vq_credential_id demo_verified = ''c1''"
    "vq_assertion_receipt_hash demo_verified = demo_urn" "bq_activation_credential_id demo_begin = None"
    by (simp_all add: demo_verified_def demo_begin_def) (simp add: demo_pending_def)
  note run = approval_ceremony_completes [OF demo_ok ref_server_reliable _ r, of demo_cid demo_claim 2000 3000 demo_verified]
  have "\<exists>\<sigma>2 \<sigma>3 t. run ref_server (claim_ceremony_store demo demo_gov demo_ceremony_store demo_cid demo_claim 2000)
      [demo_path \<mapsto> (enc_json (ceremony_to_json demo_pending), rv)] () =
        (Inr \<lparr>cp_ceremony_id = demo_cid, cp_status = Claimed, cp_fencing_token = 7, cp_replayed = False,
              cp_taken_over = False\<rparr>, \<sigma>2, ())
    \<and> run ref_server (complete_verified_store demo demo_gov demo_ceremony_store demo_cid demo_verified 3000) \<sigma>2 () =
        (Inr \<lparr>vp_ceremony_id = demo_cid, vp_status = Completed, vp_terminal = t, vp_replayed = False\<rparr>, \<sigma>3, ())"
    using run by (auto simp: resp claim verified)
  with r show ?thesis by blast
qed

section \<open>Protected state\<close>

definition demo_ctx :: protected_state_context where
  "demo_ctx = \<lparr>pc_tenant_id = ''o'', pc_ceremony_id = ''c'', pc_binding_hash = demo_urn,
     pc_state_kind = AuthenticationKind, pc_expires_at_ms = 61000\<rparr>"

definition demo_rotated :: protected_state_codec where
  "demo_rotated = \<lparr>cd_active_key_id = ''k2'', cd_keyring_version = 2, cd_keys = demo_ring(''k2'' \<mapsto> replicate 32 9)\<rparr>"

lemma demo_seals:
  obtains envelope where "seal demo demo_gov demo_codec demo_ctx val (Some nonce) = Inr envelope"
  by (simp add: seal_def context_validate_def canonical_is_urn demo_codec_def demo_ring_def demo_ctx_def demo_gov_def Let_def)

theorem protected_state_roundtrip_witness:
  "\<exists>envelope. seal demo demo_gov demo_codec demo_ctx VNull (Some (replicate 24 5)) = Inr envelope
     \<and> open_state demo demo_gov Some demo_rotated demo_ctx envelope = Inr VNull"
proof -
  obtain envelope where e: "seal demo demo_gov demo_codec demo_ctx VNull (Some (replicate 24 5)) = Inr envelope"
    by (rule demo_seals)
  have "cd_keys demo_rotated ''k1'' = demo_ring ''k1''" by (simp add: demo_rotated_def)
  with protected_state_roundtrip [OF demo_ok demo_gov_ok demo_text_exact demo_codec_new _ _ _ e, of Some VNull] e
  show ?thesis by auto
qed

definition demo_webauthn :: "(unit, unit, string, string, string, unit) webauthn_lib" where
  "demo_webauthn = \<lparr>wl_build = (\<lambda>rp_id origin. Some ()), wl_start_registration = (\<lambda>w uid user display excluded random. None),
     wl_finish_registration = (\<lambda>w cred state. None), wl_start_authentication = (\<lambda>w passkeys random. Some (VNull, hd passkeys)),
     wl_finish_authentication = (\<lambda>w cred state. if cred = state then Some () else None),
     wl_reg_to_json = (\<lambda>_. VNull), wl_reg_from_json = (\<lambda>_. None), wl_auth_to_json = VStr, wl_auth_from_json = as_str\<rparr>"

definition demo_adapter :: "unit governance_webauthn" where
  "demo_adapter = \<lparr>gw_webauthn = (), gw_protected_state = demo_codec\<rparr>"

theorem authentication_state_recovered_witness:
  "\<exists>envelope. start_authentication demo demo_gov demo_webauthn demo_adapter demo_ctx [''pk''] [] (Some (replicate 24 5)) =
       Inr (VNull, envelope)
     \<and> finish_authentication demo demo_gov demo_webauthn demo_adapter demo_ctx envelope ''pk'' = Inr ()
     \<and> finish_authentication demo demo_gov demo_webauthn demo_adapter demo_ctx envelope ''other'' = Inl CeWebauthn"
proof -
  have start: "wl_start_authentication demo_webauthn () [''pk''] [] = Some (VNull, ''pk'')"
    and json: "wl_auth_to_json demo_webauthn = VStr" "wl_auth_from_json demo_webauthn = as_str"
    and finish: "wl_finish_authentication demo_webauthn () cred st = (if cred = st then Some () else None)" for cred st
    by (simp_all add: demo_webauthn_def)
  obtain envelope where "seal demo demo_gov demo_codec demo_ctx (bundle_to_json VStr (VNull, ''pk'')) (Some (replicate 24 5))
      = Inr envelope"
    by (rule demo_seals)
  then have e: "start_authentication demo demo_gov demo_webauthn demo_adapter demo_ctx [''pk''] [] (Some (replicate 24 5)) =
       Inr (VNull, envelope)"
    by (simp add: start_authentication_def require_kind_def demo_adapter_def start json)
       (simp add: demo_ctx_def)
  have codec: "codec_new ''k1'' 1 demo_ring = Inr (gw_protected_state demo_adapter)"
    by (simp add: demo_codec_new demo_adapter_def)
  have "\<forall>st. wl_auth_from_json demo_webauthn (wl_auth_to_json demo_webauthn st) = Some st
      \<and> json_canon (wl_auth_to_json demo_webauthn st)"
    by (simp add: json)
  moreover have "\<forall>passkeys random opts st. wl_start_authentication demo_webauthn (gw_webauthn demo_adapter) passkeys random =
      Some (opts, st) \<longrightarrow> json_canon opts"
    by (simp add: demo_webauthn_def)
  ultimately show ?thesis
    using authentication_state_recovered [OF demo_ok demo_gov_ok _ codec _ _ e] e
    by (auto simp: start finish demo_adapter_def)
qed

section \<open>Configuration from the environment\<close>

definition demo_urls :: url_lib where
  "demo_urls = \<lparr>ul_parse = (\<lambda>s. Some \<lparr>pu_scheme = ''https'', pu_host = Some ''r.co'', pu_username = [],
     pu_password = None, pu_path = ''/'', pu_query = None, pu_fragment = None, pu_origin = s\<rparr>),
     ul_header_value = (\<lambda>s. True)\<rparr>"

definition demo_keys_json :: string where
  "demo_keys_json = enc_json (VObj [(''k1'', VStr demo_secret)])"

definition demo_gov_env :: environment where
  "demo_gov_env = [''FIDUCIA_GOVERNANCE_WEBAUTHN_ENABLED'' \<mapsto> ''true'', ''FIDUCIA_GOVERNANCE_RP_ID'' \<mapsto> ''r.co'',
     ''FIDUCIA_GOVERNANCE_ORIGIN'' \<mapsto> ''https://r.co'', ''FIDUCIA_GOVERNANCE_TENANTS'' \<mapsto> ''o'',
     ''FIDUCIA_GOVERNANCE_CEREMONY_SECRET'' \<mapsto> demo_secret, ''FIDUCIA_GOVERNANCE_VERIFIER_SECRET'' \<mapsto> demo_secret,
     ''FIDUCIA_GOVERNANCE_STATE_ACTIVE_KEY_ID'' \<mapsto> ''k1'', ''FIDUCIA_GOVERNANCE_STATE_KEYRING_VERSION'' \<mapsto> ''1'',
     ''FIDUCIA_GOVERNANCE_STATE_KEYS_JSON'' \<mapsto> demo_keys_json]"

lemma trim_gov [simp]:
  "str_trim ''true'' = ''true''" "str_trim ''r.co'' = ''r.co''" "str_trim ''https://r.co'' = ''https://r.co''"
  "str_trim ''k1'' = ''k1''" "str_trim ''1'' = ''1''"
  by (simp_all add: str_trim_printable printable_def)

lemma trim_keys_json [simp]: "str_trim demo_keys_json = demo_keys_json"
  by (simp add: str_trim_printable printable_def demo_keys_json_def demo_secret_def numeral_eq_Suc)

lemma demo_codec_parses:
  "\<exists>codec. parse_protected_state_codec demo demo_gov ''k1'' ''1'' demo_keys_json = Inr codec"
proof -
  have "validate_config_identifier ''k1'' = Inr ()"
    using demo_identifiers(9) unfolding gov_validate_identifier_iff by (simp add: validate_config_identifier_def)
  moreover have "parse_keyring_version ''1'' = Inr 1" by (simp add: parse_keyring_version_def parse_u64_def)
  moreover have "json_from_str demo demo_keys_json = Some (VObj [(''k1'', VStr demo_secret)])"
    unfolding demo_keys_json_def demo_sel by (rule parse_enc_json)
  moreover have "length (as_bytes demo_secret) = 32" by (simp add: demo_secret_def)
  moreover have "\<exists>codec. codec_new ''k1'' 1 [''k1'' \<mapsto> as_bytes demo_secret] = Inr codec"
    using demo_identifiers(9) unfolding gov_validate_identifier_iff by (simp add: codec_new_iff)
  ultimately show ?thesis
    by (simp add: parse_protected_state_codec_def from_base64_keys_def) (simp add: demo_gov_def)
qed

lemma demo_gov_from_env:
  obtains codec where "governance_config_from_env demo demo_gov demo_urls False demo_gov_env =
    Inr (demo_gov_config\<lparr>gc_ttl_ms := 300000, gc_protected_state_codec := Some codec\<rparr>)"
proof -
  obtain codec where codec: "parse_protected_state_codec demo demo_gov ''k1'' ''1'' demo_keys_json = Inr codec"
    using demo_codec_parses by blast
  have ttl: "parse_ttl_secs None = Inr 300"
    by (simp add: parse_ttl_secs_def DEFAULT_TTL_SECS_def MIN_TTL_SECS_def MAX_TTL_SECS_def)
  have origin: "validate_rp_origin demo_urls False ''r.co'' ''https://r.co'' = Inr ()"
    by (simp add: validate_rp_origin_Inr origin_serves_def demo_urls_def)
  have tenants: "parse_tenants ''o'' = Inr {''o''}" by (simp add: parse_tenants_def)
  have "\<not> has_blank_or_control demo_secret" "32 \<le> length demo_secret"
    by (simp_all add: demo_secret_def has_blank_or_control_def numeral_eq_Suc chars_def utf8_width_def is_control_def is_whitespace_def)
  then have secret: "validate_secret name demo_secret = Inr demo_secret" for name by (simp add: validate_secret_def)
  have "demo_secret \<noteq> []" "demo_keys_json \<noteq> []" by (simp_all add: demo_secret_def demo_keys_json_def)
  then have env: "required_env demo_gov_env ''FIDUCIA_GOVERNANCE_RP_ID'' = Inr ''r.co''"
    "required_env demo_gov_env ''FIDUCIA_GOVERNANCE_ORIGIN'' = Inr ''https://r.co''"
    "required_env demo_gov_env ''FIDUCIA_GOVERNANCE_TENANTS'' = Inr ''o''"
    "required_env demo_gov_env ''FIDUCIA_GOVERNANCE_CEREMONY_SECRET'' = Inr demo_secret"
    "required_env demo_gov_env ''FIDUCIA_GOVERNANCE_VERIFIER_SECRET'' = Inr demo_secret"
    "required_env demo_gov_env ''FIDUCIA_GOVERNANCE_STATE_ACTIVE_KEY_ID'' = Inr ''k1''"
    "required_env demo_gov_env ''FIDUCIA_GOVERNANCE_STATE_KEYRING_VERSION'' = Inr ''1''"
    "required_env demo_gov_env ''FIDUCIA_GOVERNANCE_STATE_KEYS_JSON'' = Inr demo_keys_json"
    by (simp_all add: required_env_def demo_gov_env_def)
  have on: "parse_strict_bool (demo_gov_env ''FIDUCIA_GOVERNANCE_WEBAUTHN_ENABLED'') = Inr True"
    and unset: "demo_gov_env ''FIDUCIA_GOVERNANCE_CEREMONY_TTL_SECS'' = None"
    by (simp_all add: demo_gov_env_def parse_strict_bool_def)
  show ?thesis
    by (rule that [of codec])
       (simp add: governance_config_from_env_def on unset ttl env origin tenants secret codec demo_gov_config_def)
qed

theorem governance_config_checked_witness:
  "\<exists>c. governance_config_from_env demo demo_gov demo_urls False demo_gov_env = Inr c
     \<and> gc_ttl_ms c = 300000 \<and> gc_ttl_ms c \<le> 900000
     \<and> (\<exists>codec. gc_protected_state_codec c = Some codec \<and> cd_active_key_id codec \<in> dom (cd_keys codec))"
proof -
  obtain codec where c: "governance_config_from_env demo demo_gov demo_urls False demo_gov_env =
      Inr (demo_gov_config\<lparr>gc_ttl_ms := 300000, gc_protected_state_codec := Some codec\<rparr>)"
    by (rule demo_gov_from_env)
  with governance_config_checked [OF c] show ?thesis by simp
qed

section \<open>Several replicas\<close>

definition demo_done_view :: kv_view where
  "demo_done_view = [demo_path \<mapsto> (enc_json (ceremony_to_json demo_completed), 9)]"

lemma demo_done_positive: "revs_positive demo_done_view"
  by (simp add: revs_positive_def demo_done_view_def)

lemma demo_done_entry:
  "demo_done_view demo_path = Some (enc_json (ceremony_to_json demo_completed), 9)"
  "raw_ceremony demo (enc_json (ceremony_to_json demo_completed)) = Some demo_completed"
  "validate_integrity demo demo_completed demo_cid = Inr ()"
  using demo_fits(3) by (simp_all add: demo_done_view_def raw_ceremony_def validate_record_against_config_iff validate_integrity_iff)

text \<open>A worker with an old token repeats the completion and gets the stored result.\<close>

definition demo_stale :: complete_verified_request where
  "demo_stale = demo_verified\<lparr>vq_fencing_token := 3\<rparr>"

lemma demo_replays:
  obtains s' :: "(unit, ceremony_result) sys" where
    "(sys_step ref_relation (ceremony_ops demo demo_gov))\<^sup>*\<^sup>* (sys_init demo_done_view (\<lambda>_. ())) s'"
    "sys_threads s' 0 = Some (0, Done (CompletedResult demo_cid demo_stale
       (Inr \<lparr>vp_ceremony_id = demo_cid, vp_status = Completed, vp_terminal = demo_terminal, vp_replayed = True\<rparr>)))"
proof -
  let ?s0 = "sys_init demo_done_view (\<lambda>_. ()) :: (unit, ceremony_result) sys"
  let ?p = "eff_map (CompletedResult demo_cid demo_stale)
      (complete_verified_store demo demo_gov demo_ceremony_store demo_cid demo_stale 4000) :: (unit, ceremony_result) eff"
  let ?rq = "kv_get_request demo_kv demo_path"
  let ?res = "CompletedResult demo_cid demo_stale
       (Inr \<lparr>vp_ceremony_id = demo_cid, vp_status = Completed, vp_terminal = demo_terminal, vp_replayed = True\<rparr>)"
  have valid: "validate_ceremony_id demo_cid = Inr ()" "validate_canonical_sha256_urn demo_binding_hash = Inr ()"
    "validate_canonical_sha256_urn (cr_challenge_hash demo_pending) = Inr ()"
    by (simp_all add: demo_cid_def demo_binding_hash_def demo_pending_def)
  have "read_record demo demo_gov demo_gov_config demo_cid (ceremony_to_json demo_completed) = Inr demo_completed"
    by (simp add: read_record_def demo_fits(3))
  moreover have "validate_identity demo_completed ''o'' ''u'' = Inr ()"
    by (simp add: validate_identity_def demo_completed_def)
  moreover have "get_reply demo (fst (ref_server demo_done_view ?rq)) =
      Inr (Some \<lparr>vv_value = ceremony_to_json demo_completed, vv_mod_revision = 9\<rparr>)"
    by (simp add: ref_server_def demo_done_entry(1)) (simp add: decoded_def)
  moreover have "vq_tenant_id demo_stale = ''o''" "vq_participant_id demo_stale = ''u''" "vq_claim_id demo_stale = ''w1''"
    "vq_credential_id demo_stale = ''c1''" "vq_binding_hash demo_stale = demo_binding_hash" "vq_user_verified demo_stale"
    "vq_challenge_hash demo_stale = cr_challenge_hash demo_pending" "vq_assertion_receipt_hash demo_stale = demo_urn"
    by (simp_all add: demo_stale_def demo_verified_def)
  moreover have "ct_kv demo_ceremony_store = demo_kv" by (simp add: demo_ceremony_store_def)
  ultimately obtain k where p: "?p = Send ?rq k" and k: "k (fst (ref_server demo_done_view ?rq)) = Done ?res"
    using valid
    by (simp add: complete_verified_store_def complete_attempt_def with_record_def get_versioned_def MAX_CAS_ATTEMPTS_def
        numeral_eq_Suc eff_map_def get_reply_def)
  let ?s1 = "?s0\<lparr>sys_threads := (sys_threads ?s0)(0 \<mapsto> (0, ?p))\<rparr>"
  let ?s2 = "?s1\<lparr>sys_kv := demo_done_view, sys_threads := (sys_threads ?s1)(0 \<mapsto> (0, Done ?res))\<rparr>"
  have "sys_step ref_relation (ceremony_ops demo demo_gov) ?s0 ?s1"
    by (rule sys_step.spawn) (auto simp: sys_init_def intro: ceremony_ops.op_complete)
  moreover have "ref_relation (sys_kv ?s1) ?rq (fst (ref_server demo_done_view ?rq)) demo_done_view"
    using ref_relation_get [of ?rq demo_done_view] by (simp add: sys_init_def) (simp add: ref_server_def)
  then have "sys_step ref_relation (ceremony_ops demo demo_gov) ?s1 ?s2"
    unfolding k [symmetric] by (intro sys_step.answer) (simp_all add: p)
  ultimately have "(sys_step ref_relation (ceremony_ops demo demo_gov))\<^sup>*\<^sup>* ?s0 ?s2"
    by (meson converse_rtranclp_into_rtranclp rtranclp.rtrancl_refl)
  then show ?thesis by (rule that) simp
qed

theorem ceremony_race_safe_witness:
  "\<exists>s' raw' rn'. (sys_step ref_relation (ceremony_ops demo demo_gov))\<^sup>*\<^sup>* (sys_init demo_done_view (\<lambda>_. ())) s'
     \<and> sys_threads s' 0 \<noteq> None \<and> sys_kv s' demo_path = Some (raw', rn')
     \<and> raw_ceremony demo raw' = Some demo_completed"
proof -
  obtain s' :: "(unit, ceremony_result) sys" where
    s': "(sys_step ref_relation (ceremony_ops demo demo_gov))\<^sup>*\<^sup>* (sys_init demo_done_view (\<lambda>_. ())) s'"
      "sys_threads s' 0 = Some (0, Done (CompletedResult demo_cid demo_stale
       (Inr \<lparr>vp_ceremony_id = demo_cid, vp_status = Completed, vp_terminal = demo_terminal, vp_replayed = True\<rparr>)))"
    by (rule demo_replays)
  from ceremony_race_safe [OF demo_ok ref_relation_contract demo_done_positive rtranclp.rtrancl_refl s'(1), of demo_cid _ 9 demo_completed]
    demo_done_entry s'
  show ?thesis by (auto simp: sys_init_def)
qed

theorem completion_is_unique_witness:
  "\<exists>s'. (sys_step ref_relation (ceremony_ops demo demo_gov))\<^sup>*\<^sup>* (sys_init demo_done_view (\<lambda>_. ())) s'
     \<and> completed_in demo demo_cid demo_terminal (sys_kv s')"
proof -
  obtain s' :: "(unit, ceremony_result) sys" where
    s': "(sys_step ref_relation (ceremony_ops demo demo_gov))\<^sup>*\<^sup>* (sys_init demo_done_view (\<lambda>_. ())) s'"
      "sys_threads s' 0 = Some (0, Done (CompletedResult demo_cid demo_stale
       (Inr \<lparr>vp_ceremony_id = demo_cid, vp_status = Completed, vp_terminal = demo_terminal, vp_replayed = True\<rparr>)))"
    by (rule demo_replays)
  with completion_is_unique [OF demo_ok ref_relation_contract demo_done_positive s'(1) rtranclp.rtrancl_refl s'(2) s'(2)]
  show ?thesis by auto
qed

theorem stale_workers_are_fenced_witness:
  "\<exists>s' resp. (sys_step ref_relation (ceremony_ops demo demo_gov))\<^sup>*\<^sup>* (sys_init demo_done_view (\<lambda>_. ())) s'
     \<and> sys_threads s' 0 = Some (0, Done (CompletedResult demo_cid demo_stale (Inr resp)))
     \<and> vq_fencing_token demo_stale < cr_fencing_token demo_completed \<and> vp_replayed resp"
proof -
  obtain s' :: "(unit, ceremony_result) sys" where
    s': "(sys_step ref_relation (ceremony_ops demo demo_gov))\<^sup>*\<^sup>* (sys_init demo_done_view (\<lambda>_. ())) s'"
      "sys_threads s' 0 = Some (0, Done (CompletedResult demo_cid demo_stale
       (Inr \<lparr>vp_ceremony_id = demo_cid, vp_status = Completed, vp_terminal = demo_terminal, vp_replayed = True\<rparr>)))"
    by (rule demo_replays)
  have entry: "sys_kv (sys_init demo_done_view (\<lambda>_. ()) :: (unit, ceremony_result) sys) demo_path =
      Some (enc_json (ceremony_to_json demo_completed), 9)"
    by (simp add: sys_init_def demo_done_entry(1))
  have fresh: "sys_threads (sys_init demo_done_view (\<lambda>_. ()) :: (unit, ceremony_result) sys) 0 = None"
    by (simp add: sys_init_def)
  have "vq_fencing_token demo_stale < cr_fencing_token demo_completed" by (simp add: demo_stale_def)
  with stale_workers_are_fenced [OF demo_ok ref_relation_contract demo_done_positive rtranclp.rtrancl_refl entry
      demo_done_entry(2,3) fresh s'(1)] s'
  show ?thesis by blast
qed

section \<open>Requests\<close>

definition demo_strong_verifier :: "unit jwt_verifier" where
  "demo_strong_verifier = demo_verifier\<lparr>jv_decode := (\<lambda>_ _ _ _ _. Some (VObj [(''aal'', VStr ''aal2''),
     (''app_metadata'', VObj [(''org_id'', VStr ''o''), (''role'', VStr ''admin'')]),
     (''role'', VStr ''authenticated''), (''sub'', VStr ''u'')]))\<rparr>"

definition demo_gov_runtime :: "unit gov_runtime" where
  "demo_gov_runtime = \<lparr>gr_ext = demo, gr_env = demo_server_env, gr_verifier = demo_strong_verifier, gr_lib = demo_gov\<rparr>"

definition demo_gov_state :: ceremony_app_state where
  "demo_gov_state = \<lparr>ca_config = demo_gov_config, ca_store = Some demo_ceremony_store\<rparr>"

definition demo_gov_headers :: header_map where
  "demo_gov_headers = [(''authorization'', Some ''Bearer a.b''), (''idempotency-key'', Some demo_idem),
     (VERIFIER_HEADER, Some demo_secret)]"

lemma demo_gov_runtime_sel [simp]:
  "gr_ext demo_gov_runtime = demo" "gr_env demo_gov_runtime = demo_server_env" "gr_lib demo_gov_runtime = demo_gov"
  "gr_verifier demo_gov_runtime = demo_strong_verifier" "ca_config demo_gov_state = demo_gov_config"
  "ca_store demo_gov_state = Some demo_ceremony_store"
  by (simp_all add: demo_gov_runtime_def demo_gov_state_def)

lemma demo_gov_headers_sel [simp]:
  "header_get demo_gov_headers ''authorization'' = Some ''Bearer a.b''"
  "header_get demo_gov_headers IDEMPOTENCY_HEADER = Some demo_idem"
  "header_get demo_gov_headers VERIFIER_HEADER = Some demo_secret"
  by (simp_all add: header_get_def demo_gov_headers_def VERIFIER_HEADER_def IDEMPOTENCY_HEADER_def)

definition demo_approver :: user_ctx where
  "demo_approver = demo_member\<lparr>aal := Aal2\<rparr>"

lemma demo_strong_token: "verify_token demo_strong_verifier ''a.b'' demo_config ES256 () = Inr demo_approver"
  by (simp add: verify_token_def reject_symmetric_jwk_def demo_strong_verifier_def demo_verifier_def
      supabase_claims_from_json_def field_def opt_str_def opt_value_def field_or_def user_ctx_from_claims_def
      DEFAULT_AUDIENCE_def assurance_level_from_claim_def orgs_from_metadata_def roles_from_metadata_def org_keys_def
      role_keys_def push_org_def push_role_def to_ascii_lowercase_def demo_member_def demo_approver_def
      config_project_surfaces_def demo_config_def Let_def)

lemma demo_strong_session:
  "run demo_services (verify_session demo demo_server_env demo_strong_verifier ''a.b'') \<sigma> (sb_start 0) =
     (Some demo_approver, \<sigma>, demo_sessions)"
  by (rule demo_session_with [OF demo_strong_token]) (simp_all add: demo_strong_verifier_def)

lemma demo_idem_parses: "parse_idempotency_key demo_gov_headers = Inr demo_idem"
proof -
  have "str_trim demo_idem = demo_idem"
    by (simp add: str_trim_printable printable_def demo_idem_def list_all_iff)
  then show ?thesis
    using demo_idem_valid by (simp add: parse_idempotency_key_def validate_idempotency_key_def split: if_splits)
qed

theorem begin_needs_strong_session_witness:
  "\<exists>tr reply jwt. \<exists>user :: user_ctx. follows (begin_approval demo_gov_runtime demo_gov_state ''p'' demo_gov_headers demo_begin (Some 1000))
       tr (Done reply) \<and> re_status reply = 201 \<and> jwt = ''a.b'' \<and> aal user = Aal2 \<and> user_id user = ''u''"
proof -
  let ?p = "begin_approval demo_gov_runtime demo_gov_state ''p'' demo_gov_headers demo_begin (Some 1000)"
  have b: "begin_record demo demo_gov (ct_config demo_ceremony_store) ''p'' ''u'' ''o'' demo_idem demo_begin 1000
      = Inr (demo_pending, demo_challenge)"
    by (simp add: demo_begin_record)
  obtain rv where begun: "run demo_services (begin_ceremony demo demo_gov demo_ceremony_store ''p'' ''u'' ''o'' demo_idem demo_begin 1000)
      Map.empty demo_sessions = (Inr (begun_response demo_pending demo_challenge False),
        [demo_path \<mapsto> (enc_json (ceremony_to_json demo_pending), rv)], demo_sessions)"
    by (rule run_begin_fresh [OF demo_services_reliable b, of Map.empty demo_sessions]) (use demo_fits(1) in auto)
  have user: "run demo_services (gov_require_user demo_gov_runtime demo_gov_headers) Map.empty (sb_start 0) =
      (Inr demo_approver, Map.empty, demo_sessions)"
    by (simp add: gov_require_user_def run_map demo_strong_session)
  have body: "bq_org_id demo_begin = ''o''" "bq_participant_id demo_begin = ''u''" "gov_now_ms (Some 1000) = 1000"
    "aal demo_approver = Aal2" "''o'' \<in> set (orgs demo_approver)" "user_id demo_approver = ''u''"
    by (simp_all add: demo_begin_def gov_now_ms_def demo_approver_def demo_member_def)
  have "re_status (fst (run demo_services ?p Map.empty (sb_start 0))) = 201"
    by (simp add: begin_approval_def run_or_return user body or_error_def demo_idem_parses app_store_def run_map begun
        json_reply_def)
  moreover obtain tr where tr: "follows ?p tr (Done (fst (run demo_services ?p Map.empty (sb_start 0))))"
    using run_follows [of ?p demo_services Map.empty "sb_start 0"] by (rule exE)
  ultimately have made: "\<exists>reply. Done (fst (run demo_services ?p Map.empty (sb_start 0))) = (Done reply :: (unit sb_state, http_reply) eff)
      \<and> re_status reply = 201"
    by blast
  from begin_needs_strong_session [OF tr disjI2 [OF made]] obtain jwt and user :: user_ctx where
    "header_get demo_gov_headers ''authorization'' = Some (''Bearer '' @ jwt)" "aal user = Aal2"
    "bq_participant_id demo_begin = user_id user"
    by (elim exE conjE) (rule that)
  with tr \<open>re_status _ = 201\<close> body(2) show ?thesis by fastforce
qed

theorem internal_routes_need_verifier_witness:
  "claim_ceremony demo_gov_runtime demo_gov_state demo_cid [] demo_claim None = Done (error_response 401 ''unauthorized'')
   \<and> claim_ceremony demo_gov_runtime demo_gov_state demo_cid demo_gov_headers demo_claim (Some 2000) =
       eff_map (case_sum ceremony_error_response (\<lambda>resp. json_reply 200 (claim_response_json resp)))
         (claim_ceremony_store demo demo_gov demo_ceremony_store demo_cid demo_claim 2000)"
proof -
  have "gov_now_ms (Some 2000) = 2000" by (simp add: gov_now_ms_def)
  moreover have "header_get [] VERIFIER_HEADER = None" by (simp add: header_get_def)
  ultimately show ?thesis
    using internal_routes_need_verifier [of demo_gov_runtime demo_gov_state demo_secret demo_ceremony_store "[]" demo_cid
        demo_claim None demo_verified]
      internal_routes_need_verifier [of demo_gov_runtime demo_gov_state demo_secret demo_ceremony_store demo_gov_headers demo_cid
        demo_claim "Some 2000" demo_verified]
    by simp
qed

theorem disabled_governance_is_inert_witness:
  "\<exists>state. ceremony_app_from_env demo demo_gov demo_urls demo_webauthn False Map.empty = Inr state
     \<and> claim_ceremony demo_gov_runtime state demo_cid demo_gov_headers demo_claim None =
         Done (error_response 404 ''governance_disabled'')"
proof -
  have "\<exists>state. ceremony_app_from_env demo demo_gov demo_urls demo_webauthn False Map.empty = Inr state"
    by (simp add: ceremony_app_from_env_def governance_config_from_env_def parse_strict_bool_def parse_ttl_secs_def
        DEFAULT_TTL_SECS_def MIN_TTL_SECS_def MAX_TTL_SECS_def)
  then obtain state where state: "ceremony_app_from_env demo demo_gov demo_urls demo_webauthn False Map.empty = Inr state" ..
  with disabled_governance_is_inert [OF state, of demo_gov_runtime "[]" demo_gov_headers demo_begin None demo_cid demo_claim
      demo_verified]
  show ?thesis by simp
qed

end
