(* ===== verification/Platform_Demo.thy ===== *)
theory Platform_Demo
  imports Registry Platform_Keys Governance_Demo
begin

text \<open>
  Concrete schedules on a small store: a writer revokes a token over HTTP, then a reader checks it; a key is
  revoked over HTTP, then introspected; a replica revokes an active key.  They show that the statements
  about all interleavings speak about real runs.
\<close>

section \<open>A run as a schedule\<close>

text \<open>\<open>allowed server srv p \<sigma> c\<close>: every answer that \<open>srv\<close> gives along the run of \<open>p\<close> is one of \<open>server\<close>.\<close>

primrec allowed :: "server \<Rightarrow> kv_view server_fun \<Rightarrow> ('c, 'a) eff \<Rightarrow> kv_view \<Rightarrow> 'c \<Rightarrow> bool" where
  "allowed server srv (Done x) = (\<lambda>\<sigma> c. True)"
| "allowed server srv (Send rq k) = (\<lambda>\<sigma> c.
     server \<sigma> rq (fst (srv \<sigma> rq)) (snd (srv \<sigma> rq)) \<and> allowed server srv (k (fst (srv \<sigma> rq))) (snd (srv \<sigma> rq)) c)"
| "allowed server srv (Locked g k) = (\<lambda>\<sigma> c. allowed server srv (k c) \<sigma> (g c))"

lemma allowed_bind:
  "allowed server srv (eff_bind m f) \<sigma> c \<longleftrightarrow>
     allowed server srv m \<sigma> c \<and> (case run srv m \<sigma> c of (x, \<sigma>', c') \<Rightarrow> allowed server srv (f x) \<sigma>' c')"
  by (induction m arbitrary: \<sigma> c) auto

lemma allowed_map: "allowed server srv (eff_map g m) \<sigma> c \<longleftrightarrow> allowed server srv m \<sigma> c"
  by (auto simp: eff_map_def allowed_bind split: prod.split)

context state_part
begin

lemma allowed_focus: "allowed server srv (focus view put p) \<sigma> d \<longleftrightarrow> allowed server srv p \<sigma> (view d)"
  by (induction p arbitrary: \<sigma> d) (auto simp: view_put)

end

lemma allowed_reads: "only_reads p \<Longrightarrow> allowed demo_network demo_services p \<sigma> c"
  by (induction p arbitrary: \<sigma> c) (auto simp: demo_network_get)

lemma allowed_put:
  "rev_of \<sigma> key \<noteq> - 1 \<Longrightarrow> allowed demo_network demo_services (put_if_revision X kv key v prev) \<sigma> c"
  by (simp add: put_if_revision_def put_inner_def demo_network_def demo_services_def ref_relation_def)

lemma allowed_or_return:
  "allowed server srv (or_return m f) \<sigma> c \<longleftrightarrow>
     allowed server srv m \<sigma> c
   \<and> (case run srv m \<sigma> c of (r, \<sigma>', c') \<Rightarrow> (case r of Inl e \<Rightarrow> True | Inr x \<Rightarrow> allowed server srv (f x) \<sigma>' c'))"
  by (auto simp: or_return_def allowed_bind split: prod.split sum.split)

lemma allowed_schedule:
  assumes "allowed server srv p (sys_kv s) (sys_local s i)" "sys_threads s t = Some (i, p)"
    and "run srv p (sys_kv s) (sys_local s i) = (x, \<sigma>', c')"
  shows "\<exists>s'. (sys_step server Ops)\<^sup>*\<^sup>* s s' \<and> sys_threads s' = (sys_threads s)(t \<mapsto> (i, Done x)) \<and> sys_kv s' = \<sigma>'
    \<and> sys_local s' = (sys_local s)(i := c')"
  using assms
proof (induction p arbitrary: s)
  case (Done y)
  then show ?case by (intro exI [of _ s]) (auto simp: fun_eq_iff)
next
  case (Send rq k)
  let ?r = "fst (srv (sys_kv s) rq)" and ?\<sigma> = "snd (srv (sys_kv s) rq)"
  let ?s = "s\<lparr>sys_kv := ?\<sigma>, sys_threads := (sys_threads s)(t \<mapsto> (i, k ?r))\<rparr>"
  have "sys_step server Ops s ?s" using Send.prems by (intro sys_step.answer) auto
  moreover have "\<exists>s'. (sys_step server Ops)\<^sup>*\<^sup>* ?s s' \<and> sys_threads s' = (sys_threads ?s)(t \<mapsto> (i, Done x))
      \<and> sys_kv s' = \<sigma>' \<and> sys_local s' = (sys_local ?s)(i := c')"
    using Send.prems by (intro Send.IH [of "k ?r"]) auto
  ultimately show ?case by (auto intro: converse_rtranclp_into_rtranclp)
next
  case (Locked g k)
  let ?c = "sys_local s i"
  let ?s = "s\<lparr>sys_local := (sys_local s)(i := g ?c), sys_threads := (sys_threads s)(t \<mapsto> (i, k ?c))\<rparr>"
  have "sys_step server Ops s ?s" using Locked.prems by (intro sys_step.critical) auto
  moreover have "\<exists>s'. (sys_step server Ops)\<^sup>*\<^sup>* ?s s' \<and> sys_threads s' = (sys_threads ?s)(t \<mapsto> (i, Done x))
      \<and> sys_kv s' = \<sigma>' \<and> sys_local s' = (sys_local ?s)(i := c')"
    using Locked.prems by (intro Locked.IH [of "k ?c"]) auto
  ultimately show ?case by (auto intro: converse_rtranclp_into_rtranclp)
qed

lemma spawn_schedule:
  assumes "p \<in> Ops" "sys_threads s t = None" "allowed server srv p (sys_kv s) (sys_local s i)"
    and "run srv p (sys_kv s) (sys_local s i) = (x, \<sigma>', c')"
  shows "\<exists>s'. (sys_step server Ops)\<^sup>*\<^sup>* s s' \<and> sys_threads s' = (sys_threads s)(t \<mapsto> (i, Done x)) \<and> sys_kv s' = \<sigma>'
    \<and> sys_local s' = (sys_local s)(i := c')"
proof -
  let ?s = "s\<lparr>sys_threads := (sys_threads s)(t \<mapsto> (i, p))\<rparr>"
  have "sys_step server Ops s ?s" using assms(1,2) by (rule sys_step.spawn)
  moreover have "\<exists>s'. (sys_step server Ops)\<^sup>*\<^sup>* ?s s' \<and> sys_threads s' = (sys_threads ?s)(t \<mapsto> (i, Done x))
      \<and> sys_kv s' = \<sigma>' \<and> sys_local s' = (sys_local ?s)(i := c')"
    using assms(3,4) by (intro allowed_schedule) simp_all
  ultimately show ?thesis by (auto intro: converse_rtranclp_into_rtranclp)
qed

section \<open>The store\<close>

lemma demo_view_typed: "store_typed demo demo_view"
  unfolding store_typed_def
proof (intro allI impI)
  fix path raw r assume "demo_view path = Some (raw, r)"
  then consider b i where "path = key_path i" "raw = json_to_string demo (stored_key_to_json (demo_key i b))"
    | "path = org_index_path ''o''" "raw = json_to_string demo (str_vec_json [id_a, id_b])"
    by (auto simp: demo_view_def demo_entry_def split: if_splits)
  then show "entry_typed demo path raw"
  proof cases
    case (1 b i)
    with entry_typed.key_entry [OF raw_written(1) [OF demo_ok, of "demo_key i b"]] show ?thesis by simp
  next
    case 2
    with entry_typed.index_entry [OF raw_written(2) [OF demo_ok, of "[id_a, id_b]"]] show ?thesis by simp
  qed
qed

definition demo_target :: string where
  "demo_target = demo_ledger_key (SelTokenId ''o'' ''j'')"

definition demo_platform :: "(unit platform_local, platform_reply) sys" where
  "demo_platform = sys_init demo_view (\<lambda>_. \<lparr>pl_api = demo_local, pl_gov = sb_start 0, pl_admin = []\<rparr>)"

lemma demo_target_key: "sel_storage_key demo (SelTokenId ''o'' ''j'') = Inr demo_target"
  by (simp add: demo_target_def)

lemma demo_target_space: "ledger_space demo_target"
  using demo_target_key by (rule sel_key_space)

lemma demo_target_free: "demo_view demo_target = None"
proof -
  have "demo_target \<noteq> key_path i" "demo_target \<noteq> org_index_path i" for i
    using demo_target_space paths_disjoint by metis+
  then show ?thesis by (simp add: demo_view_def)
qed

section \<open>The schedule\<close>

lemma allowed_revoke_attempt:
  assumes "\<sigma> key = None"
  shows "allowed demo_network demo_services (rev_revoke_attempt X kv key r ih rh now) \<sigma> c"
proof -
  have load: "allowed demo_network demo_services (load_ledger X kv key) \<sigma> c"
    by (rule allowed_reads) (auto simp: load_ledger_def intro!: only_reads_bind split: sum.split option.split)
  have "rev_of \<sigma> key \<noteq> - 1" using assms by simp
  then have "allowed demo_network demo_services (eff_bind (put_if_revision X kv key v prev) (\<lambda>put.
      case put of Inl e \<Rightarrow> Done (f e) | Inr Applied \<Rightarrow> Done a | Inr Mismatch \<Rightarrow> Done b)) \<sigma> c" for v prev and f :: "_ \<Rightarrow> 'x" and a b
    by (auto simp: allowed_bind allowed_put split: prod.split sum.split cas_outcome.split)
  with load show ?thesis
    by (auto simp: rev_revoke_attempt_def allowed_bind [of _ _ "load_ledger X kv key"] run_load_ledger_None [where \<sigma> = \<sigma>, OF demo_services_reliable assms]
        replay_of_def split: sum.split)
qed

lemma allowed_cas_retry:
  assumes "allowed server srv body \<sigma> c" "run srv body \<sigma> c = (Some x, \<sigma>', c')"
  shows "allowed server srv (cas_retry (Suc n) e body) \<sigma> c"
  using assms by (simp add: allowed_bind)

lemma demo_revoke_run:
  assumes "\<sigma> demo_target = None"
  obtains l rv where
    "allowed demo_network demo_services (rev_revoke demo (Some kv) (RevokeTokenId demo_claims ''r'') demo_actor 20) \<sigma> mem"
    "run demo_services (rev_revoke demo (Some kv) (RevokeTokenId demo_claims ''r'') demo_actor 20) \<sigma> mem =
      (Inr (snapshot l 20), \<sigma>(demo_target \<mapsto> (json_to_string demo (ledger_to_json l), rv)), mem)"
    "ledger_valid demo l" "lg_storage_key l = demo_target" "current_record l = Some (token_record demo_claims ''r'' ''r'' 20)"
proof -
  let ?key = demo_target
  have key: "sel_storage_key demo (SelTokenId (cl_org_id demo_claims) (cl_jti demo_claims)) = Inr ?key"
    by (simp add: demo_target_def)
  let ?r = "token_record demo_claims ''r'' (rm_actor demo_actor) 20"
  let ?ih = "mutation_hash demo ''revoke'' ?key (rm_actor demo_actor) (rm_idempotency_key demo_actor)"
  let ?rh = "revoke_request_hash demo (RevokeTokenId demo_claims ''r'')"
  let ?body = "rev_revoke_attempt demo kv ?key ?r ?ih ?rh 20
      :: (ledger_memory, (revocation_error + revocation_snapshot) option) eff"
  have "storage_key demo ?r = Inr ?key" by (rule revocable_key [OF demo_revocable, of demo]) (use key in simp)
  from ledger_new_ok [OF demo_ok revocable_record(1) [OF demo_revocable] this digest_hex(3,4) [OF demo_ok]]
  obtain l where fresh: "revoke_next demo ?key ?r ?ih ?rh None = Inr l" unfolding revoke_next_def option.case by blast
  have found: "found_ledger demo \<sigma> ?key None" using assms by (simp add: found_ledger_def)
  have replay: "replay_of None ?ih ?rh = Inr None" by (simp add: replay_of_def)
  obtain rv where body: "run demo_services ?body \<sigma> mem =
      (Some (Inr (snapshot l 20)), \<sigma>(?key \<mapsto> (json_to_string demo (ledger_to_json l), rv)), mem)"
    by (rule run_rev_revoke_attempt [OF demo_services_reliable found replay fresh])
  have "allowed demo_network demo_services ?body \<sigma> mem" using assms by (rule allowed_revoke_attempt)
  note first = allowed_cas_retry [OF this body, of 7]
  have n: "REV_MAX_CAS_RETRIES = Suc 7" by (simp add: REV_MAX_CAS_RETRIES_def)
  have "allowed demo_network demo_services (rev_revoke demo (Some kv) (RevokeTokenId demo_claims ''r'') demo_actor 20) \<sigma> mem"
    unfolding rev_revoke_prepared [OF demo_revocable key] n by (rule first)
  moreover from run_rev_retry_first [OF body]
  have "run demo_services (rev_revoke demo (Some kv) (RevokeTokenId demo_claims ''r'') demo_actor 20) \<sigma> mem =
      (Inr (snapshot l 20), \<sigma>(demo_target \<mapsto> (json_to_string demo (ledger_to_json l), rv)), mem)"
    unfolding rev_revoke_prepared [OF demo_revocable key] .
  moreover have "rm_actor demo_actor = ''r''" by (simp add: demo_actor_def)
  ultimately show thesis using that [of l rv] revoke_next_InrD [OF fresh] by simp
qed

text \<open>A check before the revocation takes effect lets the token pass.\<close>

lemma demo_check_run:
  assumes "ledger_valid demo l" "lg_storage_key l = demo_target"
    and "current_record l = Some (token_record demo_claims ''r'' ''r'' 20)"
    and "\<sigma> = demo_view(demo_target \<mapsto> (json_to_string demo (ledger_to_json l), rv))"
  shows "run demo_services (rev_check demo (Some kv) demo_claims 15) \<sigma> mem = (Inr not_revoked, \<sigma>, mem)"
proof -
  have pass: "lets_pass l demo_claims 15"
    by (simp add: lets_pass_def assms(3) token_record_def record_matches_def is_active_at_def)
  have at: "ledger_at demo \<sigma> demo_target l"
    using assms(1,2) raw_written(3) [OF demo_ok] by (simp add: ledger_at_def assms(4))
  then have found: "found_ledger demo \<sigma> demo_target (Some l)" by (simp add: found_ledger_def)
  let ?subject = "demo_ledger_key (SelSubject ''o'' ''o'')"
  have space: "ledger_space ?subject" using demo_key_eq(2) by (rule sel_key_space)
  then have "demo_view ?subject = None" using paths_disjoint by (auto simp: demo_view_def)
  then have "\<exists>lo. found_ledger demo \<sigma> ?subject lo \<and> (\<forall>l'. lo = Some l' \<longrightarrow> lets_pass l' demo_claims 15)"
  proof (cases "?subject = demo_target")
    case True
    with found pass show ?thesis by (intro exI [of _ "Some l"]) simp
  next
    case False
    with \<open>demo_view ?subject = None\<close> show ?thesis by (intro exI [of _ None]) (simp add: found_ledger_def assms(4))
  qed
  then obtain lo where lo: "found_ledger demo \<sigma> ?subject lo" "\<And>l'. lo = Some l' \<Longrightarrow> lets_pass l' demo_claims 15" by blast
  have "run demo_services (check_loop demo (Some kv) demo_claims 15
        [(SelTokenId ''o'' ''j'', MatchedTokenId), (SelSubject ''o'' ''o'', MatchedSubject)]) \<sigma> mem =
      run demo_services (check_loop demo (Some kv) demo_claims 15 [(SelSubject ''o'' ''o'', MatchedSubject)]) \<sigma> mem"
    by (rule run_check_skip [OF demo_services_reliable _ found]) (use pass in \<open>simp_all add: demo_target_def\<close>)
  also have "\<dots> = run demo_services (check_loop demo (Some kv) demo_claims 15 []) \<sigma> mem"
    by (rule run_check_skip [OF demo_services_reliable _ lo(1)]) (simp_all add: lo(2))
  finally have "run demo_services (check_loop demo (Some kv) demo_claims 15
      [(SelTokenId ''o'' ''j'', MatchedTokenId), (SelSubject ''o'' ''o'', MatchedSubject)]) \<sigma> mem = (Inr not_revoked, \<sigma>, mem)"
    by simp
  then show ?thesis by (simp add: rev_check_def del: check_loop.simps)
qed

abbreviation demo_revoke_request :: admin_request where
  "demo_revoke_request \<equiv> AdminRevoke demo_writer_headers (RevokeTokenId demo_claims ''r'') (Some 20)"

abbreviation demo_check_request :: admin_request where
  "demo_check_request \<equiv> AdminCheck demo_reader_headers demo_claims (Some 15)"

abbreviation demo_steps ::
  "(unit platform_local, platform_reply) sys \<Rightarrow> (unit platform_local, platform_reply) sys \<Rightarrow> bool" where
  "demo_steps \<equiv> (sys_step demo_network (platform_ops demo demo_gov))\<^sup>*\<^sup>*"

lemma demo_schedule:
  obtains s l rv reply where "demo_steps demo_platform s"
    "sys_threads s = [0 \<mapsto> (0, Done (AdminReply demo_revoke_request reply))]" "re_status reply = 200"
    "sys_kv s = demo_view(demo_target \<mapsto> (json_to_string demo (ledger_to_json l), rv))" "sys_local s = sys_local demo_platform"
    "ledger_valid demo l" "lg_storage_key l = demo_target" "current_record l = Some (token_record demo_claims ''r'' ''r'' 20)"
proof -
  obtain kv where kv: "ad_revocations demo_admin = Some kv" by (simp add: demo_admin_def)
  obtain l rv where l: "allowed demo_network demo_services (rev_revoke demo (Some kv) (RevokeTokenId demo_claims ''r'') demo_actor 20) demo_view []"
    "run demo_services (rev_revoke demo (Some kv) (RevokeTokenId demo_claims ''r'') demo_actor 20) demo_view [] =
      (Inr (snapshot l 20), demo_view(demo_target \<mapsto> (json_to_string demo (ledger_to_json l), rv)), [])"
    "ledger_valid demo l" "lg_storage_key l = demo_target" "current_record l = Some (token_record demo_claims ''r'' ''r'' 20)"
    by (rule demo_revoke_run [where \<sigma> = demo_view, OF demo_target_free])
  let ?p = "eff_map (AdminReply demo_revoke_request) (on_admin (admin_handle demo demo_admin demo_revoke_request))
      :: (unit platform_local, platform_reply) eff"
  let ?reply = "revocation_reply (Inr (snapshot l 20))"
  let ?\<sigma> = "demo_view(demo_target \<mapsto> (json_to_string demo (ledger_to_json l), rv))"
  have start: "sys_kv demo_platform = demo_view" "pl_admin (sys_local demo_platform 0) = []" "sys_threads demo_platform = (\<lambda>_. None)"
    by (simp_all add: demo_platform_def sys_init_def)
  have h: "admin_handle demo demo_admin demo_revoke_request =
      eff_map revocation_reply (rev_revoke demo (Some kv) (RevokeTokenId demo_claims ''r'') demo_actor 20)"
    by (simp add: admin_revoke_def demo_writer kv admin_now_secs_def)
  have "\<exists>s. demo_steps demo_platform s \<and> sys_threads s = (sys_threads demo_platform)(0 \<mapsto> (0, Done (AdminReply demo_revoke_request ?reply)))
      \<and> sys_kv s = ?\<sigma> \<and> sys_local s = (sys_local demo_platform)(0 := sys_local demo_platform 0)"
  proof (rule spawn_schedule [where p = ?p and srv = demo_services])
    show "?p \<in> platform_ops demo demo_gov" using kv by (rule platform_ops.op_admin)
    show "allowed demo_network demo_services ?p (sys_kv demo_platform) (sys_local demo_platform 0)"
      unfolding allowed_map on_admin_def admin_part.allowed_focus start h by (rule l(1))
    show "run demo_services ?p (sys_kv demo_platform) (sys_local demo_platform 0) =
        (AdminReply demo_revoke_request ?reply, ?\<sigma>, sys_local demo_platform 0)"
      unfolding run_map on_admin_def admin_part.run_focus start h
      by (simp add: l(2)) (simp add: start(2) [symmetric])
  qed (simp add: start)
  moreover have "re_status ?reply = 200" by (simp add: revocation_reply_def no_store_def)
  ultimately show thesis using that l(3-5) by (auto simp: start)
qed

lemma demo_check_follows:
  assumes "sys_threads s = [0 \<mapsto> (0, Done (AdminReply demo_revoke_request reply))]"
    and "sys_kv s = demo_view(demo_target \<mapsto> (json_to_string demo (ledger_to_json l), rv))"
    and "sys_local s = sys_local demo_platform"
    and "ledger_valid demo l" "lg_storage_key l = demo_target" "current_record l = Some (token_record demo_claims ''r'' ''r'' 20)"
  obtains s' reply' where "demo_steps s s'" "sys_threads s' 1 = Some (0, Done (AdminReply demo_check_request reply'))"
    "says_not_revoked reply'"
proof -
  obtain kv where kv: "ad_revocations demo_admin = Some kv" by (simp add: demo_admin_def)
  let ?p = "eff_map (AdminReply demo_check_request) (on_admin (admin_handle demo demo_admin demo_check_request))
      :: (unit platform_local, platform_reply) eff"
  let ?reply = "no_store (VObj [(''decision'', decision_json not_revoked)])"
  have h: "admin_handle demo demo_admin demo_check_request =
      eff_map (\<lambda>res. case res of Inr decision \<Rightarrow> no_store (VObj [(''decision'', decision_json decision)])
                 | Inl e \<Rightarrow> revocation_error_reply e) (rev_check demo (Some kv) demo_claims 15)"
    by (simp add: admin_check_def authorized_iff demo_reader kv admin_now_secs_def)
  have "\<exists>s'. demo_steps s s' \<and> sys_threads s' = (sys_threads s)(1 \<mapsto> (0, Done (AdminReply demo_check_request ?reply)))
      \<and> sys_kv s' = sys_kv s \<and> sys_local s' = (sys_local s)(0 := sys_local s 0)"
  proof (rule spawn_schedule [where p = ?p and srv = demo_services])
    show "?p \<in> platform_ops demo demo_gov" using kv by (rule platform_ops.op_admin)
    show "allowed demo_network demo_services ?p (sys_kv s) (sys_local s 0)"
      unfolding allowed_map on_admin_def admin_part.allowed_focus h by (intro allowed_reads) (simp add: only_reads_check)
    show "run demo_services ?p (sys_kv s) (sys_local s 0) = (AdminReply demo_check_request ?reply, sys_kv s, sys_local s 0)"
      unfolding run_map on_admin_def admin_part.run_focus h demo_check_run [OF assms(4-6,2)] by simp
  qed (simp add: assms(1))
  moreover have "says_not_revoked ?reply" by (simp add: not_revoked_def)
  ultimately show thesis using that by auto
qed

section \<open>The statements on this schedule\<close>

lemma demo_platform_init:
  "demo_platform = sys_init demo_view (\<lambda>_. \<lparr>pl_api = demo_local, pl_gov = sb_start 0, pl_admin = []\<rparr>)"
  by (rule demo_platform_def)

theorem store_stays_well_typed_witness:
  "\<exists>s. demo_steps demo_platform s \<and> sys_kv s demo_target \<noteq> None \<and> store_typed demo (sys_kv s)
    \<and> is_ok (fst (run demo_services (list_keys_of demo demo_ks ''o'') (sys_kv s) []))"
proof -
  obtain s l rv where s: "demo_steps demo_platform s"
    "sys_kv s = demo_view(demo_target \<mapsto> (json_to_string demo (ledger_to_json l), rv))"
    by (rule demo_schedule)
  note typed = store_stays_well_typed [OF demo_ok demo_network_contract demo_view_positive demo_view_typed
      s(1) [unfolded demo_platform_init]]
  have "is_ok (fst (run demo_services (list_keys_of demo demo_ks ''o'') (sys_kv s) []))"
    using typed demo_kv_ks demo_services_reliable by blast
  moreover have "sys_kv s demo_target \<noteq> None" by (simp add: s(2))
  ultimately show ?thesis using s(1) typed by blast
qed

theorem platform_refines_registry_witness:
  "\<exists>s l. demo_steps demo_platform s \<and> (registry_step demo)\<^sup>*\<^sup>* (registry_of demo demo_view) (registry_of demo (sys_kv s))
    \<and> rg_ledgers (registry_of demo demo_view) demo_target = None
    \<and> rg_ledgers (registry_of demo (sys_kv s)) demo_target = Some l"
proof -
  obtain s l rv where s: "demo_steps demo_platform s"
    "sys_kv s = demo_view(demo_target \<mapsto> (json_to_string demo (ledger_to_json l), rv))"
    by (rule demo_schedule)
  have "(registry_step demo)\<^sup>*\<^sup>* (registry_of demo demo_view) (registry_of demo (sys_kv s))"
    using platform_refines_registry [OF demo_ok demo_network_contract demo_view_positive s(1) [unfolded demo_platform_init]]
    by blast
  moreover have "rg_ledgers (registry_of demo demo_view) demo_target = None"
    using demo_target_free by (simp add: registry_of_def entry_at_def)
  moreover have "rg_ledgers (registry_of demo (sys_kv s)) demo_target = Some l"
    using demo_target_space raw_written(3) [OF demo_ok] by (simp add: registry_of_def entry_at_def s(2))
  ultimately show ?thesis using s(1) by blast
qed

theorem acknowledged_revocation_is_seen_witness:
  "\<exists>s s' raw r l. \<exists>u :: (unit platform_local, platform_reply) sys. demo_steps demo_platform s \<and> demo_steps s u \<and> demo_steps u s'
    \<and> sys_kv u demo_target = Some (raw, r) \<and> raw_ledger demo raw = Some l \<and> ledger_validate demo l = Inr ()
    \<and> (\<exists>e\<in>set (lg_events l). ev_request_hash e = revoke_request_hash demo (RevokeTokenId demo_claims ''r''))"
proof -
  obtain s l rv reply where s: "demo_steps demo_platform s"
    "sys_threads s = [0 \<mapsto> (0, Done (AdminReply demo_revoke_request reply))]" "re_status reply = 200"
    "sys_kv s = demo_view(demo_target \<mapsto> (json_to_string demo (ledger_to_json l), rv))" "sys_local s = sys_local demo_platform"
    "ledger_valid demo l" "lg_storage_key l = demo_target" "current_record l = Some (token_record demo_claims ''r'' ''r'' 20)"
    by (rule demo_schedule)
  obtain s' reply' where s': "demo_steps s s'" "sys_threads s' 1 = Some (0, Done (AdminReply demo_check_request reply'))"
    "says_not_revoked reply'"
    by (rule demo_check_follows [OF s(2,4-8)])
  have t: "sys_threads s 0 = Some (0, Done (AdminReply demo_revoke_request reply))" "sys_threads s 1 = None"
    by (simp_all add: s(2))
  have sel: "request_selector (RevokeTokenId demo_claims ''r'') = SelTokenId (cl_org_id demo_claims) (cl_jti demo_claims)
      \<or> request_selector (RevokeTokenId demo_claims ''r'') = SelSubject (cl_org_id demo_claims) (cl_sub demo_claims)"
    by simp
  have key: "sel_storage_key demo (request_selector (RevokeTokenId demo_claims ''r'')) = Inr demo_target"
    by (simp add: demo_target_def)
  from acknowledged_revocation_is_seen [OF demo_ok demo_network_contract demo_view_positive s(1) [unfolded demo_platform_init]
      t(1) s(3) sel key t(2) s']
  obtain u raw r l' where "demo_steps s u" "demo_steps u s'" "sys_kv u demo_target = Some (raw, r)"
    "raw_ledger demo raw = Some l'" "ledger_valid demo l'"
    "\<exists>e\<in>set (lg_events l'). ev_request_hash e = revoke_request_hash demo (RevokeTokenId demo_claims ''r'')"
    by blast
  with s(1) show ?thesis by blast
qed

section \<open>A revoked key\<close>

abbreviation demo_revoke_key :: api_request where
  "demo_revoke_key \<equiv> RevokeKey demo_headers id_b None"

abbreviation demo_introspect :: api_request where
  "demo_introspect \<equiv> Introspect demo_headers \<lparr>ib_api_key = format_raw_key ''live'' id_b (replicate 64 (CHR ''a''))\<rparr>"

lemma demo_revoke_attempt:
  "allowed demo_network demo_services (revoke_attempt demo demo_kv ''o'' id_b) demo_view c"
  "run demo_services (revoke_attempt demo demo_kv ''o'' id_b) demo_view c =
     (Some (Inr True), demo_view, AList.update id_b (record_of_stored (demo_key id_b True)) c)"
proof -
  note load = run_load_versioned_stored [OF demo_services_reliable demo_view_stored(2), of demo_kv c]
  have reads: "allowed demo_network demo_services (load_versioned demo demo_kv id_b) demo_view c"
    by (rule allowed_reads) (auto simp: load_versioned_def intro!: only_reads_try split: option.split)
  show "allowed demo_network demo_services (revoke_attempt demo demo_kv ''o'' id_b) demo_view c"
    unfolding revoke_attempt_def allowed_bind load using reads by simp
  show "run demo_services (revoke_attempt demo demo_kv ''o'' id_b) demo_view c =
     (Some (Inr True), demo_view, AList.update id_b (record_of_stored (demo_key id_b True)) c)"
    unfolding revoke_attempt_def run_bind load by simp
qed

lemma demo_revoke_key_of:
  "allowed demo_network demo_services (revoke_key_of demo demo_ks ''o'' id_b) demo_view c"
  "run demo_services (revoke_key_of demo demo_ks ''o'' id_b) demo_view c =
     (Inr True, demo_view, AList.update id_b (record_of_stored (demo_key id_b True)) c)"
proof -
  have n: "MAX_CAS_RETRIES = Suc (MAX_CAS_RETRIES - 1)" by (simp add: MAX_CAS_RETRIES_def)
  show "allowed demo_network demo_services (revoke_key_of demo demo_ks ''o'' id_b) demo_view c"
    unfolding revoke_key_of_def demo_kv_ks option.case by (subst n, rule allowed_cas_retry) (rule demo_revoke_attempt)+
  show "run demo_services (revoke_key_of demo demo_ks ''o'' id_b) demo_view c =
     (Inr True, demo_view, AList.update id_b (record_of_stored (demo_key id_b True)) c)"
    unfolding revoke_key_of_def demo_kv_ks option.case by (rule run_retry_first) (rule demo_revoke_attempt(2))
qed

lemma demo_key_schedule:
  obtains s reply where "demo_steps demo_platform s"
    "sys_threads s = [0 \<mapsto> (0, Done (ApiReply demo_revoke_key reply))]" "says_revoked reply" "sys_kv s = demo_view"
proof -
  let ?p = "eff_map (ApiReply demo_revoke_key) (on_api (handle demo_runtime demo_state demo_revoke_key))
      :: (unit platform_local, platform_reply) eff"
  let ?reply = "json_reply 200 (VObj [(''revoked'', VBool True)])"
  have start: "sys_kv demo_platform = demo_view" "pl_api (sys_local demo_platform 0) = demo_local"
    "sys_threads demo_platform = (\<lambda>_. None)"
    by (simp_all add: demo_platform_def sys_init_def)
  have user: "allowed demo_network demo_services (require_user demo_runtime demo_headers) demo_view demo_local"
    by (rule allowed_reads) simp
  have ok: "allowed demo_network demo_services (handle demo_runtime demo_state demo_revoke_key) demo_view demo_local"
    by (simp add: revoke_key_def allowed_or_return user demo_require_user allowed_map on_keys_def keys_part.allowed_focus
        run_map keys_part.run_focus demo_revoke_key_of)
  have run: "fst (run demo_services (handle demo_runtime demo_state demo_revoke_key) demo_view demo_local) = ?reply"
    "fst (snd (run demo_services (handle demo_runtime demo_state demo_revoke_key) demo_view demo_local)) = demo_view"
    by (simp_all add: revoke_key_def run_or_return demo_require_user run_map on_keys_def keys_part.run_focus demo_revoke_key_of)
  obtain loc where full: "run demo_services (handle demo_runtime demo_state demo_revoke_key) demo_view demo_local =
      (?reply, demo_view, loc)"
    using run by (metis prod.collapse)
  let ?c = "(sys_local demo_platform 0)\<lparr>pl_api := loc\<rparr>"
  have "\<exists>s. demo_steps demo_platform s \<and> sys_threads s = (sys_threads demo_platform)(0 \<mapsto> (0, Done (ApiReply demo_revoke_key ?reply)))
      \<and> sys_kv s = demo_view \<and> sys_local s = (sys_local demo_platform)(0 := ?c)"
  proof (rule spawn_schedule [where p = ?p and srv = demo_services])
    show "?p \<in> platform_ops demo demo_gov" by (rule platform_ops.op_api [where kv = demo_kv]) simp_all
    show "allowed demo_network demo_services ?p (sys_kv demo_platform) (sys_local demo_platform 0)"
      unfolding allowed_map on_api_def api_part.allowed_focus start by (rule ok)
    show "run demo_services ?p (sys_kv demo_platform) (sys_local demo_platform 0) = (ApiReply demo_revoke_key ?reply, demo_view, ?c)"
      unfolding run_map on_api_def api_part.run_focus start full by simp
  qed (simp add: start)
  then show thesis using that by (auto simp: start)
qed

theorem acknowledged_key_revocation_is_final_witness:
  "\<exists>s s' reply reply'. demo_steps demo_platform s \<and> sys_threads s 0 = Some (0, Done (ApiReply demo_revoke_key reply))
    \<and> says_revoked reply \<and> demo_steps s s' \<and> sys_threads s' 1 = Some (0, Done (ApiReply demo_introspect reply'))
    \<and> \<not> vouches_for id_b (demo_introspect, reply')"
proof -
  obtain s reply where s: "demo_steps demo_platform s"
    "sys_threads s = [0 \<mapsto> (0, Done (ApiReply demo_revoke_key reply))]" "says_revoked reply" "sys_kv s = demo_view"
    by (rule demo_key_schedule)
  let ?p = "eff_map (ApiReply demo_introspect) (on_api (handle demo_runtime demo_state demo_introspect))
      :: (unit platform_local, platform_reply) eff"
  have reads: "only_reads ?p"
    by (auto simp: on_api_def introspect_handler_def on_keys_def only_reads_introspect
        intro!: only_reads_map only_reads_focus only_reads_or_return)
  obtain x \<sigma>' c' where run: "run demo_services ?p (sys_kv s) (sys_local s 0) = (ApiReply demo_introspect x, \<sigma>', c')"
    unfolding run_map
    by (cases "run demo_services (on_api (handle demo_runtime demo_state demo_introspect)) (sys_kv s) (sys_local s 0)") auto
  have "\<exists>s'. demo_steps s s' \<and> sys_threads s' = (sys_threads s)(1 \<mapsto> (0, Done (ApiReply demo_introspect x)))
      \<and> sys_kv s' = \<sigma>' \<and> sys_local s' = (sys_local s)(0 := c')"
  proof (rule spawn_schedule [where p = ?p and srv = demo_services])
    show "?p \<in> platform_ops demo demo_gov" by (rule platform_ops.op_api [where kv = demo_kv]) simp_all
    show "allowed demo_network demo_services ?p (sys_kv s) (sys_local s 0)" using reads by (rule allowed_reads)
    show "run demo_services ?p (sys_kv s) (sys_local s 0) = (ApiReply demo_introspect x, \<sigma>', c')" by (rule run)
  qed (simp add: s(2))
  then obtain s' where s': "demo_steps s s'" "sys_threads s' 1 = Some (0, Done (ApiReply demo_introspect x))" by auto
  have t: "sys_threads s 0 = Some (0, Done (ApiReply demo_revoke_key reply))" "sys_threads s 1 = None"
    by (simp_all add: s(2))
  have "\<not> vouches_for id_b (demo_introspect, x)"
    by (rule acknowledged_key_revocation_is_final [OF demo_ok demo_network_contract demo_view_positive
          s(1) [unfolded demo_platform_init] t(1) s(3) t(2) s'])
  with s(1,3) t(1) s' show ?thesis by blast
qed

section \<open>A key is revoked\<close>

lemma demo_revoke_active:
  obtains rv c' where
    "allowed demo_network demo_services (revoke_key_of demo demo_ks ''o'' id_a) demo_view c"
    "run demo_services (revoke_key_of demo demo_ks ''o'' id_a) demo_view c =
       (Inr True, demo_view(key_path id_a \<mapsto> (enc_json (stored_key_to_json
          ((demo_key id_a False)\<lparr>sk_revoked := True, sk_version := sk_version (demo_key id_a False) + 1\<rparr>)), rv)), c')"
proof -
  have n: "MAX_CAS_RETRIES = Suc (MAX_CAS_RETRIES - 1)" by (simp add: MAX_CAS_RETRIES_def)
  obtain rv c' where attempt: "run demo_services (revoke_attempt demo demo_kv ''o'' id_a) demo_view c =
      (Some (Inr True), demo_view(key_path id_a \<mapsto> (json_to_string demo (stored_key_to_json
         ((demo_key id_a False)\<lparr>sk_revoked := True, sk_version := sk_version (demo_key id_a False) + 1\<rparr>)), rv)), c')"
    by (rule run_revoke_attempt_active [where kv = demo_kv and c = c and org_id = "''o''",
          OF demo_ok demo_services_reliable demo_view_stored(1)]) (simp_all add: demo_key_def)
  have reads: "allowed demo_network demo_services (load_versioned demo demo_kv id_a) demo_view c"
    by (rule allowed_reads) (auto simp: load_versioned_def intro!: only_reads_try split: option.split)
  have "rev_of demo_view (key_path id_a) \<noteq> - 1" by (simp add: rev_of_def)
  then have "allowed demo_network demo_services (revoke_attempt demo demo_kv ''o'' id_a) demo_view c"
    using reads unfolding revoke_attempt_def allowed_bind run_load_versioned_stored [OF demo_services_reliable demo_view_stored(1)]
    by (auto simp: Let_def allowed_bind allowed_put split: prod.split sum.split cas_outcome.split)
  then have "allowed demo_network demo_services (revoke_key_of demo demo_ks ''o'' id_a) demo_view c"
    unfolding revoke_key_of_def demo_kv_ks option.case by (subst n) (rule allowed_cas_retry [OF _ attempt])
  moreover from attempt have "run demo_services (revoke_key_of demo demo_ks ''o'' id_a) demo_view c =
       (Inr True, demo_view(key_path id_a \<mapsto> (enc_json (stored_key_to_json
          ((demo_key id_a False)\<lparr>sk_revoked := True, sk_version := sk_version (demo_key id_a False) + 1\<rparr>)), rv)), c')"
    unfolding revoke_key_of_def demo_kv_ks option.case by (intro run_retry_first) simp
  ultimately show ?thesis by (rule that)
qed

theorem api_key_lifecycle_race_safe_witness:
  "\<exists>(s' :: (key_cache, key_response) sys) raw' r' k'.
     (sys_step demo_network (key_ops demo))\<^sup>*\<^sup>* (sys_init demo_view (\<lambda>_. [])) s'
   \<and> sys_threads s' 0 = Some (0, Done (Revoked (Inr True)))
   \<and> sys_kv s' (key_path id_a) = Some (raw', r') \<and> 1 \<le> r'
   \<and> raw_key demo raw' = Some k' \<and> k' \<noteq> demo_key id_a False \<and> key_evolves (demo_key id_a False) k'"
proof -
  let ?s0 = "sys_init demo_view (\<lambda>_. []) :: (key_cache, key_response) sys"
  let ?k = "(demo_key id_a False)\<lparr>sk_revoked := True, sk_version := sk_version (demo_key id_a False) + 1\<rparr>"
  obtain rv c' where r: "allowed demo_network demo_services (revoke_key_of demo demo_ks ''o'' id_a) demo_view []"
    "run demo_services (revoke_key_of demo demo_ks ''o'' id_a) demo_view [] =
       (Inr True, demo_view(key_path id_a \<mapsto> (enc_json (stored_key_to_json ?k), rv)), c')"
    by (rule demo_revoke_active)
  have op: "eff_map Revoked (revoke_key_of demo demo_ks ''o'' id_a) \<in> key_ops demo"
    by (rule key_ops.op_revoke) simp
  have "\<exists>s'. (sys_step demo_network (key_ops demo))\<^sup>*\<^sup>* ?s0 s'
      \<and> sys_threads s' = (sys_threads ?s0)(0 \<mapsto> (0, Done (Revoked (Inr True))))
      \<and> sys_kv s' = demo_view(key_path id_a \<mapsto> (enc_json (stored_key_to_json ?k), rv)) \<and> sys_local s' = (sys_local ?s0)(0 := c')"
    by (rule spawn_schedule [OF op, where srv = demo_services]) (simp_all add: sys_init_def allowed_map run_map r)
  then obtain s' :: "(key_cache, key_response) sys" where s': "(sys_step demo_network (key_ops demo))\<^sup>*\<^sup>* ?s0 s'"
    "sys_threads s' 0 = Some (0, Done (Revoked (Inr True)))"
    "sys_kv s' (key_path id_a) = Some (enc_json (stored_key_to_json ?k), rv)"
    by auto
  have "\<exists>raw' r' k'. sys_kv s' (key_path id_a) = Some (raw', r') \<and> 1 \<le> r' \<and> raw_key demo raw' = Some k'
      \<and> key_evolves (demo_key id_a False) k'"
    by (rule api_key_lifecycle_race_safe [OF demo_ok demo_network_contract demo_view_positive rtranclp.rtrancl_refl s'(1),
          of id_a "enc_json (stored_key_to_json (demo_key id_a False))" 1 "demo_key id_a False"])
       (simp_all add: sys_init_def raw_key_def)
  moreover have "raw_key demo (enc_json (stored_key_to_json ?k)) = Some ?k" by (simp add: raw_key_def)
  moreover have "sk_revoked ?k \<noteq> sk_revoked (demo_key id_a False)" by simp
  then have "?k \<noteq> demo_key id_a False" by (rule contrapos_nn) (rule arg_cong [where f = sk_revoked])
  ultimately show ?thesis using s' by auto
qed

end
