(* ===== verification/Exchange_Bounds.thy ===== *)
theory Exchange_Bounds
  imports Governance_Server Revocation_Admin
begin

text \<open>
  How many exchanges a request costs.  The retry loops of the stores are bounded, so a handler ends after
  a fixed number of exchanges with the services, however they answer.  Listing the keys of an
  organisation reads every key of the index it finds, and no more.
\<close>

section \<open>Counting exchanges\<close>

primrec sends_le :: "('c, 'a) eff \<Rightarrow> nat \<Rightarrow> bool" where
  "sends_le (Done x) = (\<lambda>n. True)"
| "sends_le (Send rq k) = (\<lambda>n. case n of 0 \<Rightarrow> False | Suc m \<Rightarrow> \<forall>r. sends_le (k r) m)"
| "sends_le (Locked g k) = (\<lambda>n. \<forall>c. sends_le (k c) n)"

named_theorems sends_intro

lemma sends_le_Suc: "sends_le p n \<Longrightarrow> sends_le p (Suc n)"
proof (induction p arbitrary: n)
  case (Send rq k)
  then show ?case by (cases n) auto
qed auto

lemma sends_le_mono: "sends_le p m \<Longrightarrow> m \<le> n \<Longrightarrow> sends_le p n"
  by (rotate_tac, induction rule: dec_induct) (simp_all add: sends_le_Suc)

lemma sends_le_Done [sends_intro]: "sends_le (Done x) n"
  by simp

lemma sends_le_Send: "(\<And>r. sends_le (k r) n) \<Longrightarrow> sends_le (Send rq k) (Suc n)"
  by simp

lemma sends_le_Locked [sends_intro]: "(\<And>c. sends_le (k c) n) \<Longrightarrow> sends_le (Locked g k) n"
  by simp

lemma sends_le_bind: "sends_le p m \<Longrightarrow> (\<And>x. sends_le (f x) n) \<Longrightarrow> sends_le (eff_bind p f) (m + n)"
proof (induction p arbitrary: m)
  case (Done x)
  then show ?case using sends_le_mono [of "f x" n "m + n"] by simp
next
  case (Send rq k)
  then show ?case by (cases m) auto
qed auto

lemma sends_le_map [sends_intro]: "sends_le p n \<Longrightarrow> sends_le (eff_map g p) n"
  unfolding eff_map_def using sends_le_bind [of p n "\<lambda>x. Done (g x)" 0] by simp

lemma sends_le_try: "sends_le p m \<Longrightarrow> (\<And>x. sends_le (f x) n) \<Longrightarrow> sends_le (eff_try p f) (m + n)"
  unfolding eff_try_def by (rule sends_le_bind) (auto split: sum.split)

lemma sends_le_or_return: "sends_le p m \<Longrightarrow> (\<And>x. sends_le (f x) n) \<Longrightarrow> sends_le (or_return p f) (m + n)"
  unfolding or_return_def by (rule sends_le_bind) (auto split: sum.split)

text \<open>The first part of a sequence that sends nothing leaves the whole budget to the rest.\<close>

lemma sends_le_pure_try [sends_intro]: "(\<And>x. sends_le (f x) n) \<Longrightarrow> sends_le (eff_try (Done r) f) n"
  using sends_le_try [of "Done r" 0 f n] by simp

lemma sends_le_pure_return [sends_intro]: "(\<And>x. sends_le (f x) n) \<Longrightarrow> sends_le (or_return (Done r) f) n"
  using sends_le_or_return [of "Done r" 0 f n] by simp

lemma sends_le_focus [sends_intro]: "sends_le p n \<Longrightarrow> sends_le (focus view put p) n"
  by (induction p arbitrary: n) (auto split: nat.splits)

lemma sends_le_cas_retry:
  assumes "sends_le body b"
  shows "sends_le (cas_retry n exhausted body) (n * b)"
proof (induction n)
  case (Suc n)
  show ?case
    using sends_le_bind [OF assms, of "case_option (cas_retry n exhausted body) Done" "n * b"] Suc
    by (simp split: option.split)
qed simp

lemma follows_sends: "follows p tr q \<Longrightarrow> sends_le p n \<Longrightarrow> length tr \<le> n"
proof (induction arbitrary: n rule: follows.induct)
  case (exchange k r tr q rq)
  then show ?case by (cases n) auto
qed auto

section \<open>Store operations\<close>

lemma sends_get [sends_intro]: "sends_le (get_versioned X kv key) (Suc n)"
  by (simp add: get_versioned_def)

lemma sends_put [sends_intro]: "sends_le (put_if_revision X kv key v revision) (Suc n)"
  by (simp add: put_if_revision_def put_inner_def)

lemma sends_kv_get [sends_intro]: "sends_le (kv_get X kv key) (Suc n)"
  unfolding kv_get_def eff_try_def by (simp add: get_versioned_def split: sum.split)

text \<open>One read, then at most one write.\<close>

lemma sends_read_write:
  assumes "sends_le p (Suc 0)" "\<And>x. sends_le (f x) (Suc 0)"
  shows "sends_le (eff_bind p f) 2"
  using sends_le_bind [OF assms] by (simp add: numeral_2_eq_2)

lemma sends_two_try: "sends_le p (Suc 0) \<Longrightarrow> (\<And>x. sends_le (f x) (Suc 0)) \<Longrightarrow> sends_le (eff_try p f) 2"
  using sends_le_try [of p "Suc 0" f "Suc 0"] by (simp add: numeral_2_eq_2)

lemma sends_last: "sends_le p (Suc 0) \<Longrightarrow> (\<And>x. sends_le (f x) 0) \<Longrightarrow> sends_le (eff_bind p f) (Suc 0)"
  using sends_le_bind [of p "Suc 0" f 0] by simp

lemma sends_last_try: "sends_le p (Suc 0) \<Longrightarrow> (\<And>x. sends_le (f x) 0) \<Longrightarrow> sends_le (eff_try p f) (Suc 0)"
  using sends_le_try [of p "Suc 0" f 0] by simp

lemma sends_load_ledger [sends_intro]: "sends_le (load_ledger X kv key) (Suc 0)"
  unfolding load_ledger_def
  by (rule sends_last) (auto intro: sends_get [where n = 0] split: sum.split option.split)

lemma sends_key_reads [sends_intro]:
  "sends_le (load X kv key_id) (Suc 0)" "sends_le (load_versioned X kv key_id) (Suc 0)" "sends_le (index_get X kv org_id) (Suc 0)"
  unfolding load_def load_versioned_def index_get_def
  by (rule sends_last_try; auto intro: sends_get [where n = 0] sends_kv_get [where n = 0]
      split: option.split)+

lemma sends_then_put:
  "(\<And>x. sends_le (f x) 0) \<Longrightarrow> sends_le (eff_bind (put_if_revision X kv key v revision) f) (Suc 0)"
  by (rule sends_last) (simp_all add: sends_put [where n = 0])

lemmas sends_attempts = sends_read_write sends_then_put sends_load_ledger sends_key_reads

lemma sends_ledger_attempts:
  "sends_le (rev_revoke_attempt X kv key r ih rh now) 2" "sends_le (rev_lift_attempt X kv key actor reason ih rh now) 2"
  unfolding rev_revoke_attempt_def rev_lift_attempt_def
  by (auto intro!: sends_attempts split: sum.split option.split cas_outcome.split)

lemma sends_key_attempts:
  "sends_le (index_add_attempt X kv org_id key_id) 2" "sends_le (revoke_attempt X kv org_id key_id) 2"
  "sends_le (rotate_attempt X kv org_id key_id marker secret hash) 2"
  unfolding index_add_attempt_def revoke_attempt_def rotate_attempt_def
  by (auto simp: Let_def intro!: sends_attempts sends_get [where n = 0]
      split: sum.split option.split cas_outcome.split)

lemma sends_ceremony_attempts:
  "sends_le (claim_attempt X G S cid claim now) 2" "sends_le (complete_attempt X G S cid verified now) 2"
  unfolding claim_attempt_def complete_attempt_def with_record_def write_checked_def
  by (auto intro!: sends_attempts sends_get [where n = 0] split: sum.split option.split cas_outcome.split)

text \<open>Eight attempts of at most two exchanges each.\<close>

lemma sends_retries:
  assumes "sends_le body 2"
  shows "sends_le (cas_retry MAX_CAS_RETRIES e body) 16" "sends_le (cas_retry MAX_CAS_ATTEMPTS e body) 16"
    "sends_le (cas_retry REV_MAX_CAS_RETRIES e body) 16"
  using sends_le_cas_retry [OF assms, of 8] by (simp_all add: MAX_CAS_RETRIES_def MAX_CAS_ATTEMPTS_def REV_MAX_CAS_RETRIES_def)

lemmas sends_operations = sends_retries sends_ledger_attempts sends_key_attempts sends_ceremony_attempts

lemma sends_ledger_operations:
  "sends_le (rev_revoke X store request mutation now) 16" "sends_le (rev_lift X store lift mutation now) 16"
  unfolding rev_revoke_def rev_lift_def Let_def
  by (auto intro!: sends_operations split: sum.split option.split)

lemma sends_rev_check: "sends_le (rev_check X store c now) 2"
proof -
  have read: "sends_le (read_ledger X store key) (Suc 0)" for key
    unfolding read_ledger_def by (auto intro!: sends_last_try sends_load_ledger split: option.split)
  have "sends_le (check_loop X store c now ss) (length ss)" for ss
  proof (induction ss)
    case (Cons s ss)
    have "sends_le (eff_try (read_ledger X store key) f) (Suc (length ss))"
      if "\<And>x. sends_le (f x) (length ss)" for f :: "_ \<Rightarrow> (ledger_memory, revocation_error + revocation_decision) eff" and key
      using sends_le_try [OF read that] by simp
    with Cons show ?case by (auto simp del: One_nat_def split: sum.split option.split)
  qed simp
  from this [of "[a, b]" for a b] show ?thesis
    by (auto simp: rev_check_def numeral_2_eq_2 simp del: check_loop.simps split: sum.split)
qed

lemma sends_ceremony_operations:
  "sends_le (claim_ceremony_store X G S cid claim now) 16" "sends_le (complete_verified_store X G S cid verified now) 16"
  unfolding claim_ceremony_store_def complete_verified_store_def
  by (auto intro!: sends_intro sends_operations)

lemma sends_begin: "sends_le (begin_ceremony X G S proposal participant tenant key request now) 2"
proof -
  have load: "sends_le (load_ceremony X G S cid) (Suc 0)" for cid
    unfolding load_ceremony_def
    by (intro sends_le_pure_try sends_last_try sends_le_map sends_kv_get) simp
  show ?thesis
    unfolding begin_ceremony_def
    by (auto intro!: sends_le_pure_try sends_two_try sends_last_try sends_le_map sends_put load split: cas_outcome.split)
qed

section \<open>Sessions and key operations\<close>

lemma sends_session: "sends_le (verify_session X env V jwt) 3"
proof -
  have refresh: "sends_le (refresh_jwks V config) (Suc 0)" for config
    by (simp add: refresh_jwks_def split: sum.split)
  have event: "sends_le (eff_bind (record_event e) f) n" if "\<And>x. sends_le (f x) n" for e f n
    using sends_le_bind [of "record_event e" 0 f n] that by (simp add: record_event_def)
  have cached: "sends_le (cached_jwks V config) (Suc 0)" for config
    by (auto simp: cached_jwks_def intro: refresh split: option.split)
  have forced: "sends_le (forced_lookup V config kid) (Suc 0)" for config kid
    unfolding forced_lookup_def
    by (auto simp: forced_refresh_allowed_def intro!: event sends_last refresh split: sum.split option.split)
  have jwks: "sends_le (verify_with_jwks V jwt config alg kid) 2" for config alg kid
  proof -
    have "sends_le (eff_try (case jv_find V keys kid of Some jwk \<Rightarrow> Done (Inr jwk) | None \<Rightarrow> forced_lookup V config kid)
        (\<lambda>jwk. Done (verify_token V jwt config alg jwk))) (Suc 0)" for keys
      by (auto intro!: sends_last_try forced split: option.split)
    with cached show ?thesis unfolding verify_with_jwks_def by (rule sends_two_try)
  qed
  have user: "sends_le (verify_with_user_endpoint jwt config) (Suc 0)" for config
    by (auto simp: verify_with_user_endpoint_def intro!: event split: option.split prod.split)
  have remote: "sends_le (eff_bind (record_event e) (\<lambda>_. verify_with_user_endpoint jwt config)) (Suc 0)" for e config
    by (intro event user)
  have first: "sends_le (eff_bind (verify_with_jwks V jwt config alg kid) f) 3" if "\<And>r. sends_le (f r) (Suc 0)"
    for config alg kid and f :: "_ \<Rightarrow> ('a sb_state, verify_error + user_ctx) eff"
    using sends_le_bind [OF jwks that] by simp
  have "sends_le (verify_session_with V jwt config) 3" for config
    unfolding verify_session_with_def Let_def using sends_le_mono [OF remote, of 3]
    by (auto intro!: first remote split: option.split prod.split sum.split)
  then show ?thesis
    by (auto simp: verify_session_def verify_session_inner_def intro!: sends_le_map split: sum.split)
qed

lemma sends_index_add: "sends_le (index_add X kv org_id key_id) 16"
  unfolding index_add_def by (intro sends_retries sends_key_attempts)

lemma sends_create: "sends_le (create X ks mutation org_id name scopes env require now) 18"
proof -
  have add: "sends_le (eff_try (index_add X kv org_id key_id) (\<lambda>_. Locked g (\<lambda>_. Done r))) 16" for kv key_id g and r :: "_ + _"
    using sends_le_try [OF sends_index_add, of "\<lambda>_. Locked g (\<lambda>_. Done r)" 0] by simp
  have load: "sends_le (eff_try (load X kv key_id) f) 17" if "\<And>x. sends_le (f x) 16"
    for kv key_id and f :: "_ \<Rightarrow> (key_cache, store_error + string \<times> api_key_meta) eff"
    using sends_le_try [OF sends_key_reads(1) that] by simp
  have put: "sends_le (eff_try (put_if_revision X kv key v rev) f) 18" if "\<And>x. sends_le (f x) 17"
    for kv key v rev and f :: "_ \<Rightarrow> (key_cache, store_error + string \<times> api_key_meta) eff"
    using sends_le_try [OF sends_put [where n = 0] that] by simp
  have "sends_le (eff_try (index_add X kv org_id key_id) (\<lambda>_. Locked g (\<lambda>_. Done r))) 17" for kv key_id g and r :: "_ + _"
    using sends_le_mono [OF add, of 17] by simp
  then show ?thesis
    unfolding create_def Let_def by (auto intro!: put load add split: option.split)
qed

lemma sends_key_operations:
  "sends_le (revoke_key_of X ks org_id key_id) 16" "sends_le (rotate_key_of X ks actor key org_id key_id) 16"
  "sends_le (introspect X ks raw) 2"
  unfolding revoke_key_of_def rotate_key_of_def introspect_def Let_def
  by (auto intro!: sends_operations sends_two_try sends_last_try sends_key_reads split: option.split)

section \<open>Requests\<close>

text \<open>The limits of the three services; listing keys has no fixed one.\<close>

fun exchange_limit :: "api_request \<Rightarrow> nat option" where
  "exchange_limit Health = Some 0"
| "exchange_limit Jwks = Some 0"
| "exchange_limit (Me headers) = Some 3"
| "exchange_limit (CreateKey headers body now) = Some 21"
| "exchange_limit (ListKeys headers org_query) = None"
| "exchange_limit (RevokeKey headers key_id org_query) = Some 19"
| "exchange_limit (RotateKey headers key_id org_query) = Some 19"
| "exchange_limit (GetOrg headers org_id) = Some 3"
| "exchange_limit (Introspect headers body) = Some 2"
| "exchange_limit (ExchangeToken body now entropy) = Some 2"

fun gov_exchange_limit :: "gov_request \<Rightarrow> nat" where
  "gov_exchange_limit GovHealth = 0"
| "gov_exchange_limit (BeginApproval proposal_id headers body clock) = 5"
| "gov_exchange_limit (ClaimCeremony cid headers body clock) = 16"
| "gov_exchange_limit (CompleteVerified cid headers body clock) = 16"

fun admin_exchange_limit :: "admin_request \<Rightarrow> nat" where
  "admin_exchange_limit AdminHealth = 0"
| "admin_exchange_limit (AdminRevoke headers request clock) = 16"
| "admin_exchange_limit (AdminLift headers request clock) = 16"
| "admin_exchange_limit (AdminCheck headers c clock) = 2"

lemma sends_then_reply:
  assumes "sends_le p n" "\<And>x. sends_le (f x) 0"
  shows "sends_le (or_return (eff_map g p) f) n"
  using sends_le_or_return [OF sends_le_map [OF assms(1)], of f 0] assms(2) by simp

lemma sends_after_user:
  assumes "\<And>x. sends_le (f x) n" "m = n + 3"
  shows "sends_le (or_return (require_user R headers) f) m"
proof -
  have "sends_le (require_user R headers) 3"
    unfolding require_user_def on_sessions_def by (auto intro!: sends_le_map sends_le_focus sends_session split: option.split)
  from sends_le_or_return [OF this assms(1)] assms(2) show ?thesis by (simp add: add.commute)
qed

lemma sends_on_keys: "sends_le p n \<Longrightarrow> sends_le (on_keys p) n"
  unfolding on_keys_def by (rule sends_le_focus)

lemma sends_handle: "exchange_limit req = Some n \<Longrightarrow> sends_le (handle R S req) n"
proof (cases req)
  case (CreateKey headers body now)
  then show "exchange_limit req = Some n \<Longrightarrow> ?thesis"
    by (auto simp: create_key_def intro!: sends_after_user [where n = 18] sends_le_pure_return sends_then_reply sends_on_keys sends_create)
next
  case (RevokeKey headers key_id org_query)
  then show "exchange_limit req = Some n \<Longrightarrow> ?thesis"
    by (auto simp: revoke_key_def intro!: sends_after_user [where n = 16] sends_le_pure_return sends_then_reply sends_on_keys sends_key_operations)
next
  case (RotateKey headers key_id org_query)
  then show "exchange_limit req = Some n \<Longrightarrow> ?thesis"
    by (auto simp: rotate_key_def intro!: sends_after_user [where n = 16] sends_le_pure_return sends_then_reply sends_on_keys sends_key_operations
        split: option.split)
next
  case (GetOrg headers org_id)
  have "sends_le (eff_bind (on_orgs (org_get org_id)) f) 0" if "\<And>x. sends_le (f x) 0" for f :: "_ \<Rightarrow> ('a app_local, http_reply) eff"
    using that by (simp add: on_orgs_def org_get_def)
  with GetOrg show "exchange_limit req = Some n \<Longrightarrow> ?thesis"
    by (auto simp: get_org_def intro!: sends_after_user [where n = 0] split: option.split)
next
  case (Introspect headers body)
  then show "exchange_limit req = Some n \<Longrightarrow> ?thesis"
    by (auto simp: introspect_handler_def intro!: sends_then_reply sends_on_keys sends_key_operations)
next
  case (ExchangeToken body now entropy)
  then show "exchange_limit req = Some n \<Longrightarrow> ?thesis"
    by (auto simp: exchange_token_def Let_def intro!: sends_then_reply sends_on_keys sends_key_operations split: option.split)
next
  case (Me headers)
  then show "exchange_limit req = Some n \<Longrightarrow> ?thesis"
    by (auto simp: me_def intro!: sends_after_user [where n = 0])
qed auto

lemma sends_gov_handle: "sends_le (gov_handle R state req) (gov_exchange_limit req)"
proof (cases req)
  case (BeginApproval proposal_id headers body clock)
  have user: "sends_le (gov_require_user R headers) 3"
    unfolding gov_require_user_def by (auto intro!: sends_le_map sends_session split: option.split)
  have first: "sends_le (or_return (gov_require_user R headers) f) 5" if "\<And>x. sends_le (f x) 2"
    for f :: "_ \<Rightarrow> ('a sb_state, http_reply) eff"
    using sends_le_or_return [OF user that] by simp
  from BeginApproval show ?thesis
    by (auto simp: begin_approval_def or_error_def intro!: first sends_le_pure_return sends_then_reply sends_begin)
next
  case (ClaimCeremony cid headers body clock)
  then show ?thesis
    by (auto simp: claim_ceremony_def or_error_def intro!: sends_le_pure_return sends_then_reply sends_ceremony_operations)
next
  case (CompleteVerified cid headers body clock)
  then show ?thesis
    by (auto simp: complete_verified_def or_error_def intro!: sends_le_pure_return sends_then_reply sends_ceremony_operations)
qed simp

lemma sends_admin_handle: "sends_le (admin_handle X S req) (admin_exchange_limit req)"
  by (cases req)
     (auto simp: admin_revoke_def admin_lift_def admin_check_def
       intro!: sends_le_pure_return sends_le_map sends_ledger_operations sends_rev_check)

section \<open>The list of keys\<close>

text \<open>
  Listing reads the index of the organisation and then every key in it.  An exchange is paid from a
  credit, and an answer adds \<open>w\<close> to it: here the number of ids that it names.
\<close>

primrec sends_paid :: "(kv_response \<Rightarrow> nat) \<Rightarrow> ('c, 'a) eff \<Rightarrow> nat \<Rightarrow> bool" where
  "sends_paid w (Done x) = (\<lambda>n. True)"
| "sends_paid w (Send rq k) = (\<lambda>n. case n of 0 \<Rightarrow> False | Suc m \<Rightarrow> \<forall>r. sends_paid w (k r) (m + w r))"
| "sends_paid w (Locked g k) = (\<lambda>n. \<forall>c. sends_paid w (k c) n)"

lemma sends_paid_more: "sends_paid w p m \<Longrightarrow> sends_paid w p (m + n)"
proof (induction p arbitrary: m n)
  case (Send rq k)
  show ?case
  proof (cases m)
    case (Suc j)
    with Send.prems have "sends_paid w (k r) ((j + w r) + n)" for r by (simp add: Send.IH)
    then show ?thesis by (simp add: Suc ac_simps)
  qed (use Send.prems in simp)
qed auto

lemma sends_le_paid: "sends_le p n \<Longrightarrow> sends_paid w p n"
  by (induction p arbitrary: n) (auto intro: sends_paid_more split: nat.splits)

lemma sends_paid_bind:
  "sends_paid w p m \<Longrightarrow> (\<And>x. sends_paid w (f x) n) \<Longrightarrow> sends_paid w (eff_bind p f) (m + n)"
proof (induction p arbitrary: m)
  case (Done x)
  then show ?case using sends_paid_more [of w "f x" n m] by (simp add: add.commute)
next
  case (Send rq k)
  show ?case
  proof (cases m)
    case (Suc j)
    with Send.prems have "sends_paid w (eff_bind (k r) f) ((j + w r) + n)" for r by (simp add: Send.IH)
    then show ?thesis by (simp add: Suc ac_simps)
  qed (use Send.prems in simp)
qed auto

lemma sends_paid_or_return:
  "sends_paid w p m \<Longrightarrow> (\<And>x. sends_paid w (f x) n) \<Longrightarrow> sends_paid w (or_return p f) (m + n)"
  unfolding or_return_def by (rule sends_paid_bind) (auto split: sum.split)

lemma sends_paid_map: "sends_paid w p n \<Longrightarrow> sends_paid w (eff_map g p) n"
  unfolding eff_map_def using sends_paid_bind [of w p n "\<lambda>x. Done (g x)" 0] by simp

lemma sends_paid_focus: "sends_paid w p n \<Longrightarrow> sends_paid w (focus view put p) n"
  by (induction p arbitrary: n) (auto split: nat.splits)

lemma follows_paid:
  "follows p tr q \<Longrightarrow> sends_paid w p n \<Longrightarrow> length tr \<le> n + (\<Sum>(rq, r)\<leftarrow>tr. w r)"
proof (induction arbitrary: n rule: follows.induct)
  case (exchange k r tr q rq)
  from exchange.prems obtain m where m: "n = Suc m" "sends_paid w (k r) (m + w r)" by (auto split: nat.splits)
  from exchange.IH [OF m(2)] show ?case by (simp add: m(1))
qed auto

text \<open>The number of ids in the index that an answer carries.\<close>

definition ids_answered :: "externals \<Rightarrow> kv_response \<Rightarrow> nat" where
  "ids_answered X r =
     (case rbind (json_body r) (parse_get_body X) of
        Inr (Some vv) \<Rightarrow> (case de_string_vec (vv_value vv) of Some ids \<Rightarrow> length ids | None \<Rightarrow> 0)
      | _ \<Rightarrow> 0)"

lemma sends_list_loop:
  "sends_le (list_loop X kv org_id ids out :: ('b, store_error + api_key_meta list) eff) (length ids)"
proof (induction ids arbitrary: out)
  case (Cons i ids)
  have "sends_le (eff_try (load X kv i) f) (Suc (length ids))" if "\<And>x. sends_le (f x) (length ids)"
    for f :: "_ \<Rightarrow> ('b, store_error + api_key_meta list) eff"
    using sends_le_try [OF sends_key_reads(1) that] by simp
  with Cons show ?case by (auto split: option.split)
qed simp

lemma sends_paid_list_keys: "sends_paid (ids_answered X) (list_keys_of X ks org_id) 1"
proof (cases "ks_kv ks")
  case (Some kv)
  have "sends_paid (ids_answered X) (eff_bind (index_get X kv org_id) f) 1"
    if f: "\<And>e. sends_paid (ids_answered X) (f (Inl e)) 0" "\<And>ids. sends_paid (ids_answered X) (f (Inr ids)) (length ids)"
    for f :: "_ \<Rightarrow> (key_cache, store_error + api_key_meta list) eff"
    using f(1) f(2) [of "[]"]
    by (auto simp: index_get_def kv_get_def get_versioned_def eff_try_def ids_answered_def f
        split: sum.split option.split)
  then show ?thesis
    using Some by (simp add: list_keys_of_def eff_try_def sends_le_paid [OF sends_list_loop])
qed (simp add: list_keys_of_def)

lemma sends_paid_list: "sends_paid (ids_answered (rt_ext R)) (handle R S (ListKeys headers org_query)) 4"
proof -
  have user: "sends_paid w (require_user R headers) 3" for w
    unfolding require_user_def on_sessions_def
    by (auto intro!: sends_le_paid sends_le_map sends_le_focus sends_session split: option.split)
  have keys: "sends_paid (ids_answered (rt_ext R)) (or_return (eff_map g (on_keys (list_keys_of (rt_ext R) (as_keys S) org))) f) 1"
    if "\<And>x. sends_paid (ids_answered (rt_ext R)) (f x) 0" for g org and f :: "_ \<Rightarrow> ('a app_local, http_reply) eff"
    using sends_paid_or_return [OF sends_paid_map [OF sends_paid_focus [OF sends_paid_list_keys]] that]
    by (simp add: on_keys_def)
  have org: "sends_paid (ids_answered (rt_ext R)) (or_return (Done (select_user_org user org_query)) f) 1"
    if "\<And>x. sends_paid (ids_answered (rt_ext R)) (f x) 1" for user and f :: "_ \<Rightarrow> ('a app_local, http_reply) eff"
    using sends_paid_or_return [of _ "Done (select_user_org user org_query)" 0 f 1] that by simp
  have first: "sends_paid w (or_return (require_user R headers) f) 4" if "\<And>x. sends_paid w (f x) 1"
    for w and f :: "_ \<Rightarrow> ('a app_local, http_reply) eff"
    using sends_paid_or_return [OF user that] by simp
  show ?thesis unfolding handle.simps list_keys_def by (intro first org keys) simp
qed

text \<open>
  C25. Every request ends, however the services behave.  A request to the dashboard server makes at most 21
  exchanges, the list of keys four and one for every id that the answers name; a request to the
  governance service or to the revocation service at most 16 (a begin at most 5, a check at most 2).  This holds for all
  answers, including replies that make every conditional write fail.
\<close>
theorem request_exchanges_bounded:
  fixes R :: "'k runtime" and R' :: "'k gov_runtime"
  shows "(\<forall>n tr q. exchange_limit req = Some n \<and> follows (handle R S req) tr q \<longrightarrow> length tr \<le> n \<and> n \<le> 21)
       \<and> (\<forall>tr q. exchange_limit req = None \<and> follows (handle R S req) tr q \<longrightarrow>
            length tr \<le> 4 + (\<Sum>(rq, r)\<leftarrow>tr. ids_answered (rt_ext R) r))
       \<and> (\<forall>tr q. follows (gov_handle R' state gov) tr q \<longrightarrow> length tr \<le> gov_exchange_limit gov \<and> gov_exchange_limit gov \<le> 16)
       \<and> (\<forall>tr q. follows (admin_handle X A adm) tr q \<longrightarrow> length tr \<le> admin_exchange_limit adm \<and> admin_exchange_limit adm \<le> 16)"
proof -
  have "n \<le> 21" if "exchange_limit req = Some n" for n using that by (cases req) auto
  moreover have "gov_exchange_limit gov \<le> 16" "admin_exchange_limit adm \<le> 16" by (cases gov; simp) (cases adm; simp)
  moreover have "length tr \<le> 4 + (\<Sum>(rq, r)\<leftarrow>tr. ids_answered (rt_ext R) r)"
    if "exchange_limit req = None" "follows (handle R S req) tr q" for tr q
  proof -
    from that(1) obtain headers query where "req = ListKeys headers query" by (cases req) auto
    with follows_paid [OF _ sends_paid_list] that(2) show ?thesis by blast
  qed
  ultimately show ?thesis
    using follows_sends [OF _ sends_handle] follows_sends [OF _ sends_gov_handle] follows_sends [OF _ sends_admin_handle]
    by blast
qed

text \<open>A check that reads both ledgers meets its limit.\<close>

theorem request_exchanges_bounded_witness:
  "\<exists>tr q. follows (admin_handle demo demo_admin (AdminCheck demo_reader_headers demo_claims (Some 30))) tr q \<and> length tr \<le> 2"
proof -
  obtain tr where "follows (admin_handle demo demo_admin (AdminCheck demo_reader_headers demo_claims (Some 30))) tr
      (Done (fst (run ref_server (admin_handle demo demo_admin (AdminCheck demo_reader_headers demo_claims (Some 30))) (\<lambda>_. None) [])))"
    using run_follows [of "admin_handle demo demo_admin (AdminCheck demo_reader_headers demo_claims (Some 30))" ref_server "\<lambda>_. None" "[]"]
    by (rule exE)
  with request_exchanges_bounded [where adm = "AdminCheck demo_reader_headers demo_claims (Some 30)" and X = demo and A = demo_admin]
  show ?thesis by fastforce
qed

end
