(* ===== verification/Proof_Model.thy ===== *)
theory Proof_Model
  imports Prelude
begin

text \<open>
  \<open>conformance/independent_proof_model.rs\<close>: the stand-alone model checker of the privilege rule.
  It explores, breadth first, every state that the two independent proofs, the tenant binding
  and the privilege step can reach, and stops at the first state that violates the rule.  The
  hash set of seen states is a set, the queue a list, and a failed assertion a value.
\<close>

section \<open>The transition system\<close>

record proof_state =
  identity_proof :: bool
  session_proof :: bool
  tenant_bound :: bool
  privileged :: bool

definition initial :: proof_state where
  "initial = \<lparr>identity_proof = False, session_proof = False, tenant_bound = False, privileged = False\<rparr>"

definition next_states :: "proof_state \<Rightarrow> proof_state list" where
  "next_states s =
     (if \<not> identity_proof s
      then [\<lparr>identity_proof = True, session_proof = session_proof s, tenant_bound = tenant_bound s, privileged = False\<rparr>]
      else [])
   @ (if \<not> session_proof s
      then [\<lparr>identity_proof = identity_proof s, session_proof = True, tenant_bound = tenant_bound s, privileged = False\<rparr>]
      else [])
   @ (if (identity_proof s \<or> session_proof s) \<and> \<not> tenant_bound s
      then [\<lparr>identity_proof = identity_proof s, session_proof = session_proof s, tenant_bound = True, privileged = False\<rparr>]
      else [])
   @ (if identity_proof s \<and> session_proof s \<and> tenant_bound s \<and> \<not> privileged s
      then [\<lparr>identity_proof = True, session_proof = True, tenant_bound = True, privileged = True\<rparr>]
      else [])"

datatype proof_failure =
    WithoutIdentityProof
  | WithoutSessionProof
  | WithoutTenantBinding
  | PrivilegedUnreachable
  | IdentityOnlyUnreachable
  | SessionOnlyUnreachable

definition assert_safe :: "proof_state \<Rightarrow> proof_failure + unit" where
  "assert_safe s =
     (if privileged s
      then
        rbind (ensure (identity_proof s) WithoutIdentityProof) (\<lambda>_.
        rbind (ensure (session_proof s) WithoutSessionProof) (\<lambda>_.
        ensure (tenant_bound s) WithoutTenantBinding))
      else Inr ())"

section \<open>The search\<close>

text \<open>The inner loop over the successors of one state, with the count of transitions.\<close>

fun visit ::
  "proof_state list \<Rightarrow> proof_state list \<times> proof_state set \<times> u64 \<Rightarrow>
   proof_failure + proof_state list \<times> proof_state set \<times> u64" where
  "visit [] acc = Inr acc"
| "visit (s # ss) (queue, seen, edges) =
     rbind (assert_safe s) (\<lambda>_.
       visit ss (if s \<in> seen then (queue, seen, edges + 1) else (queue @ [s], insert s seen, edges + 1)))"

text \<open>
  Every round of the outer loop takes one state off the queue and puts only unseen states on
  it, so the unseen states and the queued ones together become fewer.
\<close>

definition proof_work :: "proof_state list \<times> proof_state set \<times> u64 \<Rightarrow> nat" where
  "proof_work acc = card (- fst (snd acc)) + length (fst acc)"

lemma finite_proof_state: "finite (UNIV :: proof_state set)"
proof -
  let ?f = "\<lambda>s :: proof_state. (identity_proof s, session_proof s, tenant_bound s, privileged s)"
  have "inj ?f" by (rule injI) simp
  moreover have "finite (range ?f)" by simp
  ultimately show ?thesis by (rule finite_imageD [rotated])
qed

lemma visit_work: "visit ss acc = Inr acc' \<Longrightarrow> proof_work acc' \<le> proof_work acc"
proof (induction ss arbitrary: acc)
  case (Cons s ss)
  obtain queue seen edges where acc: "acc = (queue, seen, edges)" by (cases acc)
  let ?next = "if s \<in> seen then (queue, seen, edges + 1) else (queue @ [s], insert s seen, edges + 1)"
  have "visit ss ?next = Inr acc'" using Cons.prems acc by (auto simp: rbind_eq_Inr)
  then have "proof_work acc' \<le> proof_work ?next" by (rule Cons.IH)
  also have "proof_work ?next \<le> proof_work acc"
  proof (cases "s \<in> seen")
    case False
    have "card (- seen) = Suc (card (- insert s seen))"
      using False finite_subset [OF subset_UNIV finite_proof_state, of "- seen"] card_Suc_Diff1 [of "- seen" s]
      by (simp add: Compl_insert)
    with False show ?thesis by (simp add: proof_work_def acc)
  qed (simp add: proof_work_def acc)
  finally show ?case .
qed simp

function explore ::
  "proof_state list \<times> proof_state set \<times> u64 \<Rightarrow> proof_failure + proof_state set \<times> u64" where
  "explore ([], seen, edges) = Inr (seen, edges)"
| "explore (s # queue, seen, edges) =
     (case assert_safe s of
        Inl e \<Rightarrow> Inl e
      | Inr _ \<Rightarrow>
          (case visit (next_states s) (queue, seen, edges) of
             Inl e \<Rightarrow> Inl e
           | Inr acc \<Rightarrow> explore acc))"
  by pat_completeness auto
termination
proof (relation "measure proof_work")
  fix s queue seen edges u acc
  assume "visit (next_states s) (queue, seen, edges) = Inr acc"
  from visit_work [OF this] show "(acc, s # queue, seen, edges) \<in> measure proof_work"
    by (simp add: proof_work_def)
qed simp

text \<open>The whole program: what it prints, or the assertion that stops it.\<close>

definition proof_model_main :: "proof_failure + nat \<times> u64" where
  "proof_model_main =
     rbind (explore ([initial], {initial}, 0)) (\<lambda>(seen, edges).
     rbind (ensure (\<exists>s\<in>seen. privileged s) PrivilegedUnreachable) (\<lambda>_.
     rbind (ensure (\<lparr>identity_proof = True, session_proof = False, tenant_bound = True, privileged = False\<rparr> \<in> seen)
              IdentityOnlyUnreachable) (\<lambda>_.
     rbind (ensure (\<lparr>identity_proof = False, session_proof = True, tenant_bound = True, privileged = False\<rparr> \<in> seen)
              SessionOnlyUnreachable) (\<lambda>_.
     Inr (card seen, edges)))))"

section \<open>The rule it checks\<close>

text \<open>
  The transitions written as a relation: either proof, then the binding of a tenant under at least
  one of them, then the privilege under all three.
\<close>

inductive proof_step :: "proof_state \<Rightarrow> proof_state \<Rightarrow> bool" where
  prove_identity: "\<not> identity_proof s \<Longrightarrow> proof_step s (s\<lparr>identity_proof := True, privileged := False\<rparr>)"
| prove_session: "\<not> session_proof s \<Longrightarrow> proof_step s (s\<lparr>session_proof := True, privileged := False\<rparr>)"
| bind_tenant: "identity_proof s \<or> session_proof s \<Longrightarrow> \<not> tenant_bound s \<Longrightarrow>
    proof_step s (s\<lparr>tenant_bound := True, privileged := False\<rparr>)"
| elevate: "identity_proof s \<Longrightarrow> session_proof s \<Longrightarrow> tenant_bound s \<Longrightarrow> \<not> privileged s \<Longrightarrow>
    proof_step s (s\<lparr>privileged := True\<rparr>)"

lemma proof_step_iff: "proof_step s s' \<longleftrightarrow> s' \<in> set (next_states s)"
  by (cases s; cases s') (auto simp: next_states_def proof_step.simps)

definition all_proofs :: "proof_state \<Rightarrow> bool" where
  "all_proofs s \<longleftrightarrow> (privileged s \<longrightarrow> identity_proof s \<and> session_proof s \<and> tenant_bound s)"

lemma assert_safe_iff: "assert_safe s = Inr () \<longleftrightarrow> all_proofs s"
  by (auto simp: assert_safe_def all_proofs_def rbind_eq_Inr ensure_eq_Inr)

lemma next_states_safe: "s' \<in> set (next_states s) \<Longrightarrow> all_proofs s'"
  by (auto simp: next_states_def all_proofs_def split: if_splits)

lemma next_states_distinct: "distinct (next_states s)"
  by (auto simp: next_states_def)

section \<open>The search is exact\<close>

lemma visit_safe:
  assumes "\<forall>s\<in>set ss. all_proofs s"
  shows "\<exists>queue'. visit ss (queue, seen, edges) =
      Inr (queue @ queue', seen \<union> set ss, edges + of_nat (length ss))
    \<and> set queue' = set ss - seen \<and> distinct queue'"
  using assms
proof (induction ss arbitrary: queue seen edges)
  case (Cons s ss)
  have ok: "assert_safe s = Inr ()" using Cons.prems by (simp add: assert_safe_iff)
  show ?case
  proof (cases "s \<in> seen")
    case True
    with Cons.IH [of queue seen "edges + 1"] Cons.prems ok show ?thesis
      by (auto simp: insert_absorb ac_simps)
  next
    case False
    from Cons.IH [of "queue @ [s]" "insert s seen" "edges + 1"] Cons.prems obtain q where
      q: "visit ss (queue @ [s], insert s seen, edges + 1) =
        Inr ((queue @ [s]) @ q, insert s seen \<union> set ss, edges + 1 + of_nat (length ss))"
        "set q = set ss - insert s seen" "distinct q"
      by auto
    with False ok show ?thesis by (intro exI [of _ "s # q"]) (auto simp: ac_simps)
  qed
qed simp

text \<open>
  Invariant of the outer loop: the queue holds distinct seen states, and every seen state that is
  no longer queued has been expanded, with its transitions counted.
\<close>

definition search_inv :: "proof_state list \<times> proof_state set \<times> u64 \<Rightarrow> bool" where
  "search_inv acc \<longleftrightarrow>
     (case acc of (queue, seen, edges) \<Rightarrow>
        distinct queue \<and> set queue \<subseteq> seen \<and> initial \<in> seen
      \<and> (\<forall>s\<in>seen. proof_step\<^sup>*\<^sup>* initial s \<and> all_proofs s)
      \<and> (\<forall>s\<in>seen - set queue. set (next_states s) \<subseteq> seen)
      \<and> edges = of_nat (\<Sum>s\<in>seen - set queue. length (next_states s)))"

lemma search_inv_round:
  assumes inv: "search_inv (s # queue, seen, edges)"
    and acc: "acc = (queue @ q, seen \<union> set (next_states s), edges + of_nat (length (next_states s)))"
    and q: "set q = set (next_states s) - seen" "distinct q"
  shows "search_inv acc"
proof -
  let ?old = "seen - set (s # queue)" and ?new = "(seen \<union> set (next_states s)) - set (queue @ q)"
  have "s \<in> seen" "s \<notin> set queue" using inv by (auto simp: search_inv_def)
  then have new: "?new = insert s ?old" using inv q(1) by (auto simp: search_inv_def)
  have "finite ?old" by (rule finite_subset [OF subset_UNIV finite_proof_state])
  then have "(\<Sum>s\<in>?new. length (next_states s)) = length (next_states s) + (\<Sum>s\<in>?old. length (next_states s))"
    unfolding new by (subst sum.insert) auto
  moreover have "proof_step\<^sup>*\<^sup>* initial s'" if "s' \<in> set (next_states s)" for s'
    using inv that \<open>s \<in> seen\<close> by (auto simp: search_inv_def proof_step_iff intro: rtranclp.rtrancl_into_rtrancl)
  ultimately show ?thesis
    using inv q new \<open>s \<in> seen\<close> unfolding acc search_inv_def
    by (auto simp: ac_simps simp del: of_nat_sum dest: next_states_safe)
qed

lemma explore_exact:
  assumes "search_inv acc"
  shows "\<exists>seen edges. explore acc = Inr (seen, edges) \<and> search_inv ([], seen, edges)"
  using assms
proof (induction acc rule: explore.induct)
  case (2 s queue seen edges)
  have "\<forall>s'\<in>set (next_states s). all_proofs s'" by (simp add: next_states_safe)
  from visit_safe [OF this, of queue seen edges] obtain q where
    v: "visit (next_states s) (queue, seen, edges) =
      Inr (queue @ q, seen \<union> set (next_states s), edges + of_nat (length (next_states s)))"
    and q: "set q = set (next_states s) - seen" "distinct q"
    by blast
  have ok: "assert_safe s = Inr ()" using 2(2) by (simp add: assert_safe_iff search_inv_def)
  from 2(1) [OF ok v search_inv_round [OF 2(2) refl q]] ok v show ?case by simp
qed simp

lemma search_inv_done:
  assumes "search_inv ([], seen, edges)"
  shows "seen = {s. proof_step\<^sup>*\<^sup>* initial s}"
proof
  show "{s. proof_step\<^sup>*\<^sup>* initial s} \<subseteq> seen"
  proof
    fix s assume "s \<in> {s. proof_step\<^sup>*\<^sup>* initial s}"
    then have "proof_step\<^sup>*\<^sup>* initial s" by simp
    then show "s \<in> seen"
      by (induction rule: rtranclp_induct) (use assms in \<open>auto simp: search_inv_def proof_step_iff\<close>)
  qed
qed (use assms in \<open>auto simp: search_inv_def\<close>)

text \<open>
  C26. The model checker is exact: its search ends without a failed assertion, the states it has seen are
  exactly those the transition relation reaches from the initial one, each of them was
  expanded once (the count of transitions is the number of their successors), no reachable
  state is privileged without both proofs and a tenant, and the program prints 8 states
  and 10 transitions.
\<close>
theorem proof_model_exact:
  "\<exists>seen edges. explore ([initial], {initial}, 0) = Inr (seen, edges)
     \<and> seen = {s. proof_step\<^sup>*\<^sup>* initial s}
     \<and> edges = of_nat (\<Sum>s\<in>seen. length (next_states s))
     \<and> seen \<inter> Collect privileged \<subseteq> {s. identity_proof s \<and> session_proof s \<and> tenant_bound s}
     \<and> proof_model_main = Inr (8, 10)"
proof -
  have "search_inv ([initial], {initial}, 0)" by (simp add: search_inv_def all_proofs_def initial_def)
  then obtain seen edges where e: "explore ([initial], {initial}, 0) = Inr (seen, edges)"
    and inv: "search_inv ([], seen, edges)"
    using explore_exact by blast
  have main: "proof_model_main = Inr (8, 10)"
    by (simp add: proof_model_main_def initial_def next_states_def assert_safe_def ensure_def)
  show ?thesis
    using e inv main search_inv_done [OF inv] by (auto simp: search_inv_def all_proofs_def)
qed

end
