(* ===== verification/Spec2Isabelle.thy ===== *)
theory Spec2Isabelle
  imports Gate Refresh_Cache Platform_Demo Exchange_Bounds Proof_Model
begin

text \<open>
  \<^bold>\<open>Verification of fiducia-auth.\<close>

  \<^bold>\<open>The program.\<close>  fiducia-auth is the authentication service of the Fiducia cluster.  On the dashboard
  plane a human presents a Supabase session token; the service verifies it against the cached
  key set of the project that issued it and lets the user manage the API keys of the organisations
  the token names.  On the data plane an edge presents an API key for introspection, or a client
  exchanges one for a short-lived access token.  Keys and the ledgers of revoked tokens live in Fiducia
  KV, a store with conditional writes; several replicas run at once.  A verifier in front of other
  services asks the revocation ledgers through a cache, and an administrative service writes them.  A separate governance
  service keeps approval ceremonies in the same store: a participant begins one, a worker claims it under a
  fencing token, and the result of a WebAuthn assertion completes it once.

  \<^bold>\<open>Theories and source files.\<close>

  \<^item> \<open>Prelude\<close>: machine integers, UTF-8 strings, results, hexadecimal and framing encodings, the comparison
    loops.  \<open>Json\<close>: JSON documents, derived deserialisation, the record of third-party functions.
  \<^item> \<open>Effects\<close>: asynchronous handlers as interaction trees; \<open>Send\<close> is an await on a service, \<open>Locked\<close> a critical
    section.  \<open>run\<close> executes one handler alone, \<open>sys_step\<close> interleaves any number of handlers of any number of
    replicas with failures, cancellation and restarts.
  \<^item> \<open>Protocol\<close>: the contract of the store (\<open>kv_contract\<close>), the calculus \<open>gwp\<close> of guarded writes, and the locales
    \<open>cas_protocol\<close> and \<open>cas_evolution\<close>, which lift a check of each handler to every interleaving; \<open>rwp\<close> gives the results
    of a handler under interference.  \<open>Upstream\<close>: the same for services outside the cluster, with a log of
    exchanges (locale \<open>logged_service\<close>).  \<open>Composition\<close>: parts of the process state (locale \<open>state_part\<close>), requests
    and results under arbitrary answers (\<open>swp\<close>), traces (\<open>follows\<close>).  \<open>Reference\<close>: a concrete store and JSON codec, used
    to show that the hypotheses can hold.
  \<^item> \<open>Model\<close> is \<open>model.rs\<close>; \<open>Store\<close> is \<open>store.rs\<close>; \<open>Keys\<close> is \<open>keys.rs\<close>, with what callers observe in \<open>Key_Lifecycle\<close>.
  \<^item> \<open>Token\<close> is \<open>token.rs\<close>; \<open>Revocation\<close> is \<open>revocation.rs\<close>, with its guarantees in \<open>Revocation_Service\<close>.
  \<^item> \<open>Cache\<close> is \<open>cache.rs\<close>, \<open>Gate\<close> is \<open>gate.rs\<close>, \<open>Refresh_Cache\<close> is \<open>revocation_cache.rs\<close>.
  \<^item> \<open>Supabase_Policy\<close> is \<open>supabase_policy.rs\<close> and \<open>bin/fiducia-auth-production-entrypoint.rs\<close>; \<open>Supabase\<close> is
    \<open>supabase.rs\<close>, with its guarantees in \<open>Supabase_Session\<close>; \<open>Sync\<close> is \<open>sync.rs\<close>.
  \<^item> \<open>Server\<close> is \<open>main.rs\<close>: start-up, the checks of headers, tenants and input, one definition per handler, and the
    dispatch \<open>handle\<close>.  \<open>Server_Tenancy\<close> and \<open>Server_Access\<close> hold its guarantees, \<open>Server_Demo\<close> a small deployment.

  \<^item> \<open>Revocation_Admin\<close> is \<open>bin/fiducia-revocation-admin.rs\<close>: start-up, the two secrets, one definition per handler.
  \<^item> The governance service: \<open>Governance_Base\<close> is \<open>governance_ceremony.rs\<close> with the validators, digests and identifiers of
    \<open>routes.inc.rs\<close> and \<open>integrity.inc.rs\<close>; \<open>Protected_State\<close> is \<open>webauthn.rs\<close>; \<open>Governance_Config\<close> is \<open>config.inc.rs\<close>;
    \<open>Ceremony\<close> is \<open>model.inc.rs\<close> and \<open>integrity.inc.rs\<close>; \<open>Ceremony_Store\<close> is \<open>persistence.inc.rs\<close>; \<open>Governance_Server\<close> is
    \<open>routes.inc.rs\<close> and the port of \<open>bin/fiducia-governance-ceremony.rs\<close>.  Their guarantees are in \<open>Ceremony_Safety\<close> (the life cycle
    \<open>ceremony_step\<close> of one record and its refinement by the store operations), \<open>Backed_Results\<close> and \<open>Ceremony_Race\<close>
    (many replicas), \<open>Ceremony_Flow\<close> (one caller) and \<open>Governance_Access\<close> (requests); \<open>Governance_Demo\<close> is a small deployment.
  \<^item> The services together: \<open>Platform\<close> puts every handler of the three services on one store (\<open>platform_ops\<close>) and their rules for
    entries to one discipline; \<open>Registry\<close> is the abstract system that they implement; \<open>Platform_Revocation\<close> and \<open>Platform_Keys\<close>
    follow an acknowledged revocation of a token and of a key through all services; \<open>Platform_Demo\<close> is a concrete
    schedule.  These theories model no further code; they compose \<open>handle\<close>, \<open>gov_handle\<close> and \<open>admin_handle\<close>.
  \<^item> \<open>Exchange_Bounds\<close> counts the exchanges of every request of the three services.  \<open>Proof_Model\<close> is
    \<open>conformance/independent_proof_model.rs\<close>.

  A struct is a record, an enum a datatype, an integer a word of its width, \<open>Result\<close> a sum with \<open>Inl\<close> for the
  error, an environment a partial function.  State behind a lock is the state of the \<open>Locked\<close> nodes.  Clock readings and
  entropy are arguments.

  \<^bold>\<open>What is shown.\<close>

  \<^item> The services together, in every interleaving of all their handlers: each step is one rule of an abstract registry of
    keys, indexes, ledgers and ceremonies; every stored entry keeps the type of its path, and on a well-typed
    store no stored value can make an operation fail; a token revocation that was acknowledged is taken into account by
    every later check; a key revocation that was acknowledged is final.
  \<^item> The store: in every interleaving each entry only takes the steps its component allows.  For keys: identity, owner
    and policy never change, the version grows, a revoked record is final.  For ledgers: they stay valid and only
    grow by appending.
  \<^item> Keys: the exact meaning of a positive introspection, and the results of create, rotate and revoke with their
    replays and refusals.
  \<^item> Tokens and revocation: bounds of a minted token, the scope of a revocation record and of its storage key, a
    check that starts after a revocation cannot miss it and fails closed.
  \<^item> The verifier: an allowed request rests on a fresh enough check that read both ledgers, each harmless at a moment while the
    check ran; refreshes are single-flight;
    the gate cannot deadlock and every step lowers a bounded amount of work; the caches keep their bounds
    and refuse a clock that moves back.
  \<^item> Sessions: an accepted identity is traced to a key that the project's own URL served, or, where the policy
    allows it, to an answer of the user endpoint; it never leaves the surfaces of its project; its
    organisations and roles come from \<open>app_metadata\<close> alone; an unknown key id cannot cause traffic.  Organisation reads agree with one complete pull of the table.
  \<^item> The server: only members write, replies stay in the tenant, a key made over HTTP works over HTTP, a revoked
    key gets neither a positive introspection nor a token, introspection is internal, and start-up
    needs every check.
  \<^item> The revocation service: mutations need the writer's secret, an actor and an idempotency key and concern one ledger,
    checks need the reader's secret and only read; a revocation over HTTP is seen by every check over HTTP
    until its ledger is written again.
  \<^item> Ceremonies: in every interleaving of replicas a stored ceremony keeps its binding and challenge, its token
    only grows, a completed one is final; two completions agree; a worker with an old token can only be
    told a stored result; a claimed ceremony is completed exactly by a matching request; an undisturbed ceremony
    runs from begin to completion and replays.  A begin that writes or succeeds follows a session with a second factor
    of the participant; the internal routes need the verifier's secret; a disabled service is inert; an
    accepted configuration is sound; a sealed WebAuthn state opens to itself under rotated keys and in no
    other context.
  \<^item> Exchanges: every request ends after a fixed number of exchanges, the list of keys after four and one for every id it
    is given, whatever the services answer.
  \<^item> The conformance model: its breadth-first search ends, sees exactly the reachable states, expands each once, and finds no
    privilege without both proofs and a tenant.

  \<^bold>\<open>Interfaces.\<close>  \<open>cas_protocol\<close> and \<open>cas_evolution\<close> are interpreted for keys (\<open>key_protocol\<close>, \<open>key_evolution\<close>), for ledgers,
  for ceremonies (\<open>ceremony_protocol\<close>, \<open>ceremony_evolution\<close>), for the whole server (\<open>http_evolution\<close>) and for all services together (\<open>platform_protocol\<close>,
  \<open>platform_evolution\<close>); \<open>stable_results\<close>, results that stay true of the store, for ceremonies (\<open>ceremony_results\<close>), for acknowledged
  revocations of tokens (\<open>platform_results\<close>) and of keys (\<open>key_results\<close>); \<open>logged_service\<close> for sessions (\<open>sessions\<close>) and the organisation copy
  (\<open>org_sync\<close>); \<open>clock_guard\<close> for both caches; \<open>revocation_authority\<close>, what the gate asks of the ledgers, by the
  ledger service itself (\<open>ledgers\<close>); \<open>state_part\<close> for the three parts of the server's state and for the parts of a replica
  (\<open>api_part\<close>, \<open>gov_part\<close>, \<open>admin_part\<close>).

  \<^bold>\<open>Bounds.\<close>  Retry loops run at most eight times, as in the source, and are structural recursion on that count; every
  definition is total, so no theorem is conditional on termination; the search of the conformance model ends because the unseen and queued
  states together become fewer.  The clock of the session cache is an
  unbounded natural number of nanoseconds.

  \<^bold>\<open>Parameters.\<close>  SHA-256, HMAC and the JSON text codec (\<open>externals\<close>), the signing library (\<open>jwt_lib\<close>), the verifying
  library (\<open>jwt_verifier\<close>), the URL parser (\<open>url_lib\<close>), base64 and the authenticated cipher (\<open>gov_lib\<close>), the WebAuthn library
  (\<open>webauthn_lib\<close>), and the services behind the URLs.  Where a theorem needs a property
  of them it is a named hypothesis (\<open>externals_ok\<close>, \<open>kv_contract\<close>, \<open>kv_reliable\<close>, \<open>gov_lib_ok\<close>, \<open>json_text_exact\<close>) or the conclusion allows for a
  digest collision.

  \<^bold>\<open>Not modelled.\<close>  The extraction of bodies and queries, cross-origin enforcement, time-outs and body limits are
  middleware of the web framework; log lines are left out; the metrics of the session code are kept as events.
  Request bodies of the governance and revocation services are given decoded, and their listeners are left out.  Files of tests and the build are not modelled.
\<close>

end
